(* ===== verification/Apperr.thy ===== *)
theory Apperr
  imports Prelude
begin

text \<open>
  Error values. Go's \<^verbatim>\<open>error\<close> interface is the datatype \<open>go_error\<close>: one constructor per concrete
  error type that the program creates or inspects. \<open>AppError\<close> is \<^verbatim>\<open>*apperr.Error\<close>
  (\<^verbatim>\<open>src/pkg/apperr/error.go\<close>); \<open>ErrWrap\<close> is the result of \<^verbatim>\<open>fmt.Errorf\<close> with a \<^verbatim>\<open>%w\<close> verb;
  \<open>Sentinel\<close> is a package-level \<^verbatim>\<open>errors.New\<close> value, told apart by its text; \<open>ErrText\<close> is an error
  created where it is returned. A nil error is \<^term>\<open>None\<close>. The second half of the theory models the
  PostgreSQL error predicates of \<^verbatim>\<open>src/pkg/pgutil/pgutil.go\<close>.
\<close>

section \<open>Error values and the package errors\<close>

datatype go_error =
    AppError (Code: string) (Message: string) (HTTPStatus: int) (Err: "go_error option")
  | FiberError int string
  | ValidationError "(string \<times> string) list"
  | PgError string string string
  | CacheMissError
  | CacheUnavailableError
  | Sentinel string
  | ErrText string
  | ErrWrap string go_error

text \<open>The method \<^verbatim>\<open>Error()\<close> of each type.\<close>

fun error_text :: "go_error \<Rightarrow> string" where
  "error_text (AppError c m h None) = c @ '': '' @ m"
| "error_text (AppError c m h (Some e)) = c @ '': '' @ m @ '': '' @ error_text e"
| "error_text (FiberError s m) = m"
| "error_text (ValidationError es) = ''validation failed''"
| "error_text (PgError sev code m) = sev @ '': '' @ m @ '' (SQLSTATE '' @ code @ '')''"
| "error_text CacheMissError = ''cache: key not found''"
| "error_text CacheUnavailableError = ''cache: backend unavailable''"
| "error_text (Sentinel t) = t"
| "error_text (ErrText t) = t"
| "error_text (ErrWrap t e) = t"

text \<open>\<^verbatim>\<open>fmt.Errorf("prefix: %w", err)\<close>.\<close>

definition errorf_w :: "string \<Rightarrow> go_error \<Rightarrow> go_error" where
  "errorf_w pre e = ErrWrap (pre @ '': '' @ error_text e) e"

fun unwrap :: "go_error \<Rightarrow> go_error option" where
  "unwrap (AppError c m h w) = w"
| "unwrap (ErrWrap t e) = Some e"
| "unwrap _ = None"

section \<open>Package apperr\<close>

definition New :: "string \<Rightarrow> string \<Rightarrow> int \<Rightarrow> go_error" where
  "New c m h = AppError c m h None"

definition Wrap :: "go_error \<Rightarrow> string \<Rightarrow> string \<Rightarrow> int \<Rightarrow> go_error" where
  "Wrap e c m h = AppError c m h (Some e)"

fun WithMessage :: "go_error \<Rightarrow> string \<Rightarrow> go_error" where
  "WithMessage (AppError c _ h w) m = AppError c m h w"
| "WithMessage e _ = e"

fun WithError :: "go_error \<Rightarrow> go_error \<Rightarrow> go_error" where
  "WithError (AppError c m h _) e = AppError c m h (Some e)"
| "WithError e' _ = e'"

text \<open>\<^verbatim>\<open>AsAppError\<close>: \<^verbatim>\<open>errors.As\<close> with target \<^verbatim>\<open>*Error\<close> returns the first application error of the chain.\<close>

fun AsAppError :: "go_error \<Rightarrow> go_error option" where
  "AsAppError (AppError c m h w) = Some (AppError c m h w)"
| "AsAppError (ErrWrap t e) = AsAppError e"
| "AsAppError _ = None"

text \<open>The method \<^verbatim>\<open>Is\<close> of an application error: equality of the codes.\<close>

definition app_is :: "go_error \<Rightarrow> go_error \<Rightarrow> bool" where
  "app_is e target = (case AsAppError target of Some a \<Rightarrow> Code e = Code a | None \<Rightarrow> False)"

text \<open>\<^verbatim>\<open>errors.Is\<close>, which consults that method along the chain.\<close>

fun errors_is :: "go_error \<Rightarrow> go_error \<Rightarrow> bool" where
  "errors_is (AppError c m h w) t =
     (AppError c m h w = t \<or> app_is (AppError c m h w) t \<or>
      (case w of None \<Rightarrow> False | Some e \<Rightarrow> errors_is e t))"
| "errors_is (ErrWrap x e) t = (ErrWrap x e = t \<or> errors_is e t)"
| "errors_is e t = (e = t)"

definition CodeBadRequest :: string where "CodeBadRequest = ''BAD_REQUEST''"
definition CodeUnauthorized :: string where "CodeUnauthorized = ''UNAUTHORIZED''"
definition CodeForbidden :: string where "CodeForbidden = ''FORBIDDEN''"
definition CodeNotFound :: string where "CodeNotFound = ''NOT_FOUND''"
definition CodeConflict :: string where "CodeConflict = ''CONFLICT''"
definition CodeUnprocessableEntity :: string where
  "CodeUnprocessableEntity = ''UNPROCESSABLE_ENTITY''"
definition CodeUnsupportedMedia :: string where "CodeUnsupportedMedia = ''UNSUPPORTED_MEDIA_TYPE''"
definition CodeInternalError :: string where "CodeInternalError = ''INTERNAL_ERROR''"
definition CodeServiceUnavailable :: string where
  "CodeServiceUnavailable = ''SERVICE_UNAVAILABLE''"
definition CodeValidation :: string where "CodeValidation = ''VALIDATION_ERROR''"

lemmas code_defs = CodeBadRequest_def CodeUnauthorized_def CodeForbidden_def CodeNotFound_def
  CodeConflict_def CodeUnprocessableEntity_def CodeUnsupportedMedia_def CodeInternalError_def
  CodeServiceUnavailable_def CodeValidation_def

definition ErrBadRequest :: go_error where
  "ErrBadRequest = New CodeBadRequest ''The request was invalid or malformed'' 400"
definition ErrUnauthorized :: go_error where
  "ErrUnauthorized = New CodeUnauthorized ''Authentication is required'' 401"
definition ErrForbidden :: go_error where
  "ErrForbidden = New CodeForbidden
     (''You don'' @ [CHR 0x27] @ ''t have permission to access this resource'') 403"
definition ErrNotFound :: go_error where
  "ErrNotFound = New CodeNotFound ''The requested resource was not found'' 404"
definition ErrConflict :: go_error where
  "ErrConflict = New CodeConflict ''The request conflicts with the current state'' 409"
definition ErrUnprocessableEntity :: go_error where
  "ErrUnprocessableEntity = New CodeUnprocessableEntity
     ''The request was well-formed but contains invalid data'' 422"
definition ErrUnsupportedMediaType :: go_error where
  "ErrUnsupportedMediaType = New CodeUnsupportedMedia
     ''The uploaded media type is not supported'' 415"
definition ErrInternal :: go_error where
  "ErrInternal = New CodeInternalError ''An internal error occurred'' 500"
definition ErrServiceUnavailable :: go_error where
  "ErrServiceUnavailable = New CodeServiceUnavailable
     ''The service is temporarily unavailable'' 503"

text \<open>The constructors with a format: the formatted message is the argument.\<close>

definition Validation :: "string \<Rightarrow> go_error" where
  "Validation m = New CodeValidation m 400"
definition NotFoundf :: "string \<Rightarrow> go_error" where
  "NotFoundf m = New CodeNotFound m 404"
definition BadRequestf :: "string \<Rightarrow> go_error" where
  "BadRequestf m = New CodeBadRequest m 400"
definition Conflictf :: "string \<Rightarrow> go_error" where
  "Conflictf m = New CodeConflict m 409"
definition Internalf :: "string \<Rightarrow> go_error" where
  "Internalf m = New CodeInternalError m 500"
definition UnsupportedMediaTypef :: "string \<Rightarrow> go_error" where
  "UnsupportedMediaTypef m = New CodeUnsupportedMedia m 415"

lemmas app_constructors [go_errors] = New_def Wrap_def Validation_def NotFoundf_def BadRequestf_def
  Conflictf_def Internalf_def UnsupportedMediaTypef_def
lemmas app_sentinels = ErrBadRequest_def ErrUnauthorized_def ErrForbidden_def ErrNotFound_def
  ErrConflict_def ErrUnprocessableEntity_def ErrUnsupportedMediaType_def ErrInternal_def
  ErrServiceUnavailable_def

section \<open>Package pgutil: error predicates\<close>

fun IsDuplicateKeyError :: "go_error option \<Rightarrow> bool" where
  "IsDuplicateKeyError None = False"
| "IsDuplicateKeyError (Some (PgError sev code m)) = (code = ''23505'')"
| "IsDuplicateKeyError (Some e) =
     (contains_str (error_text e) ''23505'' \<or> contains_str (error_text e) ''duplicate key'')"

fun IsForeignKeyViolation :: "go_error option \<Rightarrow> bool" where
  "IsForeignKeyViolation None = False"
| "IsForeignKeyViolation (Some (PgError sev code m)) = (code = ''23503'')"
| "IsForeignKeyViolation (Some e) = contains_str (error_text e) ''23503''"

fun IsNotNullViolation :: "go_error option \<Rightarrow> bool" where
  "IsNotNullViolation None = False"
| "IsNotNullViolation (Some (PgError sev code m)) = (code = ''23502'')"
| "IsNotNullViolation (Some e) = contains_str (error_text e) ''23502''"

definition ErrNoRows :: go_error where
  "ErrNoRows = Sentinel ''no rows in result set''"

section \<open>Lemmas\<close>

lemma AsAppError_errorf_w [simp]: "AsAppError (errorf_w p e) = AsAppError e"
  by (simp add: errorf_w_def)

lemma AsAppError_AppError: "AsAppError e = Some a \<Longrightarrow> \<exists>c m h w. a = AppError c m h w"
  by (induction e rule: AsAppError.induct) auto

lemma AsAppError_idem: "AsAppError e = Some a \<Longrightarrow> AsAppError a = Some a"
  by (induction e rule: AsAppError.induct) auto

lemma contains_str_append: "contains_str s p \<Longrightarrow> contains_str (r @ s) p"
  by (induction r) auto

lemma has_prefix_mono: "has_prefix s p \<Longrightarrow> has_prefix (s @ r) p"
  by (auto simp: has_prefix_iff)

lemma contains_str_append_right: "contains_str s p \<Longrightarrow> contains_str (s @ r) p"
proof (induction s)
  case Nil
  then show ?case by (cases r) (auto simp: has_prefix_def)
next
  case (Cons x xs)
  then show ?case using has_prefix_mono [of "x # xs" p r] by auto
qed

text \<open>Wrapping keeps an error recognisable: what \<^verbatim>\<open>errors.Is\<close> saw in the cause it sees in the wrapper.\<close>

lemma errors_is_errorf_w: "errors_is e t \<Longrightarrow> errors_is (errorf_w p e) t"
  by (simp add: errorf_w_def)

lemma errors_is_refl: "errors_is e e"
  by (cases e) auto

end
