(* ===== verification/Json.thy ===== *)
theory Json
  imports Prelude
begin

text \<open>
  The parts of \<^verbatim>\<open>encoding/json\<close> and \<^verbatim>\<open>unicode/utf8\<close> that the service uses: values, \<^verbatim>\<open>Marshal\<close> (with the
  HTML escaping that is its default), \<^verbatim>\<open>Unmarshal\<close>, and the look-up of an object's field. A number is kept
  as its literal, as the decoder does before it converts it. Decoding what was encoded gives the value back,
  with bytes that are not UTF-8 replaced by U+FFFD.
\<close>

section \<open>UTF-8\<close>

definition byte_in :: "nat \<Rightarrow> nat \<Rightarrow> char \<Rightarrow> bool" where
  "byte_in lo hi c \<longleftrightarrow> lo \<le> (of_char c :: nat) \<and> (of_char c :: nat) \<le> hi"

text \<open>The range of the second byte of a sequence of three or four bytes depends on the first.\<close>

definition second_ok :: "char \<Rightarrow> char \<Rightarrow> bool" where
  "second_ok a b \<longleftrightarrow>
     byte_in (if a = CHR 0xE0 then 160 else if a = CHR 0xF0 then 144 else 128)
             (if a = CHR 0xED then 159 else if a = CHR 0xF4 then 143 else 191) b"

text \<open>The length of the UTF-8 sequence that a string starts with, 0 if there is none.\<close>

fun rune_len :: "string \<Rightarrow> nat" where
  "rune_len [] = 0"
| "rune_len (a # r) =
     (if byte_in 0 127 a then 1
      else if byte_in 194 223 a then
        (case r of b # _ \<Rightarrow> if byte_in 128 191 b then 2 else 0 | _ \<Rightarrow> 0)
      else if byte_in 224 239 a then
        (case r of b # c # _ \<Rightarrow>
           if second_ok a b \<and> byte_in 128 191 c then 3 else 0
         | _ \<Rightarrow> 0)
      else if byte_in 240 244 a then
        (case r of b # c # d # _ \<Rightarrow>
           if second_ok a b \<and> byte_in 128 191 c \<and> byte_in 128 191 d then 4 else 0
         | _ \<Rightarrow> 0)
      else 0)"

abbreviation replacement :: string where
  "replacement \<equiv> [CHR 0xEF, CHR 0xBF, CHR 0xBD]"

function to_valid_utf8 :: "string \<Rightarrow> string" where
  "to_valid_utf8 [] = []"
| "to_valid_utf8 (c # s) =
     (if rune_len (c # s) = 0 then replacement @ to_valid_utf8 s
      else take (rune_len (c # s)) (c # s) @ to_valid_utf8 (drop (rune_len (c # s)) (c # s)))"
  by pat_completeness auto
termination by (relation "measure length") (auto simp del: rune_len.simps)

function valid_utf8 :: "string \<Rightarrow> bool" where
  "valid_utf8 [] = True"
| "valid_utf8 (c # s) =
     (if rune_len (c # s) = 0 then False else valid_utf8 (drop (rune_len (c # s)) (c # s)))"
  by pat_completeness auto
termination by (relation "measure length") (auto simp del: rune_len.simps)

text \<open>\<^verbatim>\<open>utf8.AppendRune\<close>, for code points that are not surrogates.\<close>

definition encode_rune :: "nat \<Rightarrow> string" where
  "encode_rune n =
     (if n < 128 then [char_of n]
      else if n < 2048 then [char_of (192 + n div 64), char_of (128 + n mod 64)]
      else if n < 65536 then [char_of (224 + n div 4096), char_of (128 + n div 64 mod 64), char_of (128 + n mod 64)]
      else [char_of (240 + n div 262144), char_of (128 + n div 4096 mod 64), char_of (128 + n div 64 mod 64),
            char_of (128 + n mod 64)])"

section \<open>Values\<close>

datatype json = JNull | JBool bool | JNum string | JStr string | JArr "json list" | JObj "(string \<times> json) list"

section \<open>Encoding\<close>

abbreviation QUOTE :: char where "QUOTE \<equiv> CHR 0x22"
abbreviation BACKSLASH :: char where "BACKSLASH \<equiv> CHR 0x5C"

definition u_escape :: "nat \<Rightarrow> string" where
  "u_escape n = [BACKSLASH, CHR ''u'', hex_digit (n div 4096 mod 16), hex_digit (n div 256 mod 16),
     hex_digit (n div 16 mod 16), hex_digit (n mod 16)]"

definition esc_ascii :: "char \<Rightarrow> string" where
  "esc_ascii c =
     (if c = QUOTE \<or> c = BACKSLASH then [BACKSLASH, c]
      else if c = CHR 0x08 then [BACKSLASH, CHR ''b'']
      else if c = CHR 0x0C then [BACKSLASH, CHR ''f'']
      else if c = CHR 0x0A then [BACKSLASH, CHR ''n'']
      else if c = CHR 0x0D then [BACKSLASH, CHR ''r'']
      else if c = CHR 0x09 then [BACKSLASH, CHR ''t'']
      else if byte_in 0 31 c \<or> c \<in> set ''<>&'' then u_escape (of_char c)
      else [c])"

definition esc_rune :: "string \<Rightarrow> string" where
  "esc_rune r = (if r = [CHR 0xE2, CHR 0x80, CHR 0xA8] then u_escape 8232
                 else if r = [CHR 0xE2, CHR 0x80, CHR 0xA9] then u_escape 8233 else r)"

function esc :: "string \<Rightarrow> string" where
  "esc [] = []"
| "esc (c # s) =
     (if byte_in 0 127 c then esc_ascii c @ esc s
      else if rune_len (c # s) = 0 then u_escape 65533 @ esc s
      else esc_rune (take (rune_len (c # s)) (c # s)) @ esc (drop (rune_len (c # s)) (c # s)))"
  by pat_completeness auto
termination by (relation "measure length") (auto simp del: rune_len.simps)

definition print_str :: "string \<Rightarrow> string" where
  "print_str s = QUOTE # esc s @ [QUOTE]"

fun print_json :: "json \<Rightarrow> string" where
  "print_json JNull = ''null''"
| "print_json (JBool b) = (if b then ''true'' else ''false'')"
| "print_json (JNum l) = l"
| "print_json (JStr s) = print_str s"
| "print_json (JArr vs) = ''['' @ join '','' (map print_json vs) @ '']''"
| "print_json (JObj kvs) = ''{'' @ join '','' (map (\<lambda>kv. print_str (fst kv) @ '':'' @ print_json (snd kv)) kvs) @ ''}''"

section \<open>Decoding\<close>

definition hex_val :: "char \<Rightarrow> nat option" where
  "hex_val c =
     (if byte_in 48 57 c then Some (of_char c - 48)
      else if byte_in 97 102 c then Some (of_char c - 87)
      else if byte_in 65 70 c then Some (of_char c - 55) else None)"

text \<open>\<^verbatim>\<open>getu4\<close>: the four hexadecimal digits after a backslash and a u.\<close>

fun getu4 :: "string \<Rightarrow> nat option" where
  "getu4 (a # b # c # d # _) =
     (case (hex_val a, hex_val b, hex_val c, hex_val d) of
        (Some w, Some x, Some y, Some z) \<Rightarrow> Some (4096 * w + 256 * x + 16 * y + z)
      | _ \<Rightarrow> None)"
| "getu4 _ = None"

definition is_surrogate :: "nat \<Rightarrow> bool" where
  "is_surrogate n \<longleftrightarrow> 55296 \<le> n \<and> n < 57344"

text \<open>The second half of a surrogate pair, written as an escape; the code point and what follows.\<close>

definition low_surrogate :: "nat \<Rightarrow> string \<Rightarrow> nat option" where
  "low_surrogate hi s =
     (case s of
        b # u # r \<Rightarrow>
          if b = BACKSLASH \<and> u = CHR ''u'' then
            (case getu4 r of
               Some lo \<Rightarrow> if hi < 56320 \<and> 56320 \<le> lo \<and> lo < 57344
                           then Some (65536 + (hi - 55296) * 1024 + (lo - 56320)) else None
             | None \<Rightarrow> None)
          else None
      | _ \<Rightarrow> None)"

definition unesc_char :: "char \<Rightarrow> char option" where
  "unesc_char e =
     (if e = QUOTE \<or> e = BACKSLASH \<or> e = CHR ''/'' then Some e
      else if e = CHR ''b'' then Some (CHR 0x08)
      else if e = CHR ''f'' then Some (CHR 0x0C)
      else if e = CHR ''n'' then Some (CHR 0x0A)
      else if e = CHR ''r'' then Some (CHR 0x0D)
      else if e = CHR ''t'' then Some (CHR 0x09) else None)"

definition prepend :: "string \<Rightarrow> (string \<times> string) option \<Rightarrow> (string \<times> string) option" where
  "prepend p r = map_option (\<lambda>(s, rest). (p @ s, rest)) r"

text \<open>The contents of a string literal after its opening quote, and the input after its closing quote.\<close>

function unesc :: "string \<Rightarrow> (string \<times> string) option" where
  "unesc [] = None"
| "unesc (c # s) =
     (if c = QUOTE then Some ([], s)
      else if c = BACKSLASH then
        (case s of
           [] \<Rightarrow> None
         | e # s' \<Rightarrow>
             if e = CHR ''u'' then
               (case getu4 s' of
                  None \<Rightarrow> None
                | Some n \<Rightarrow>
                    if is_surrogate n then
                      (case low_surrogate n (drop 4 s') of
                         Some m \<Rightarrow> prepend (encode_rune m) (unesc (drop 10 s'))
                       | None \<Rightarrow> prepend replacement (unesc (drop 4 s')))
                    else prepend (encode_rune n) (unesc (drop 4 s')))
             else (case unesc_char e of None \<Rightarrow> None | Some d \<Rightarrow> prepend [d] (unesc s')))
      else if byte_in 0 31 c then None
      else if byte_in 0 127 c then prepend [c] (unesc s)
      else if rune_len (c # s) = 0 then prepend replacement (unesc s)
      else prepend (take (rune_len (c # s)) (c # s)) (unesc (drop (rune_len (c # s)) (c # s))))"
  by pat_completeness auto
termination by (relation "measure length") (auto simp del: rune_len.simps)

definition is_json_ws :: "char \<Rightarrow> bool" where
  "is_json_ws c \<longleftrightarrow> c \<in> set [CHR '' '', CHR 0x09, CHR 0x0A, CHR 0x0D]"

definition skip_ws :: "string \<Rightarrow> string" where
  "skip_ws s = dropWhile is_json_ws s"

definition is_digit :: "char \<Rightarrow> bool" where
  "is_digit c \<longleftrightarrow> byte_in 48 57 c"

definition digits1 :: "string \<Rightarrow> (string \<times> string) option" where
  "digits1 s = (if takeWhile is_digit s = [] then None else Some (takeWhile is_digit s, dropWhile is_digit s))"

definition scan_int :: "string \<Rightarrow> (string \<times> string) option" where
  "scan_int s = (case s of [] \<Rightarrow> None | c # r \<Rightarrow> if c = CHR ''0'' then Some ([c], r) else digits1 s)"

definition scan_frac :: "string \<Rightarrow> (string \<times> string) option" where
  "scan_frac s = (case s of c # r \<Rightarrow> if c = CHR ''.'' then prepend [c] (digits1 r) else Some ([], s) | [] \<Rightarrow> Some ([], s))"

definition scan_exp :: "string \<Rightarrow> (string \<times> string) option" where
  "scan_exp s =
     (case s of
        c # r \<Rightarrow>
          if c = CHR ''e'' \<or> c = CHR ''E'' then
            (case r of
               d # r' \<Rightarrow> if d = CHR ''+'' \<or> d = CHR ''-'' then prepend [c, d] (digits1 r') else prepend [c] (digits1 r)
             | [] \<Rightarrow> None)
          else Some ([], s)
      | [] \<Rightarrow> Some ([], s))"

definition scan_num :: "string \<Rightarrow> (string \<times> string) option" where
  "scan_num s =
     (let (sign, s1) = (case s of c # r \<Rightarrow> if c = CHR ''-'' then ([c], r) else ([], s) | [] \<Rightarrow> ([], s)) in
      case scan_int s1 of None \<Rightarrow> None | Some (i, s2) \<Rightarrow>
      case scan_frac s2 of None \<Rightarrow> None | Some (f, s3) \<Rightarrow>
      case scan_exp s3 of None \<Rightarrow> None | Some (e, s4) \<Rightarrow> Some (sign @ i @ f @ e, s4))"

definition scan_lit :: "string \<Rightarrow> json \<Rightarrow> string \<Rightarrow> (json \<times> string) option" where
  "scan_lit l v s = (if has_prefix s l then Some (v, drop (length l) s) else None)"

text \<open>
  The parser takes fuel. Every nested call is made after at least one byte of input has been read, at most two
  calls deep per byte, so twice the length of the input is enough.
\<close>

fun parse_value :: "nat \<Rightarrow> string \<Rightarrow> (json \<times> string) option"
and parse_elems :: "nat \<Rightarrow> string \<Rightarrow> (json list \<times> string) option"
and parse_members :: "nat \<Rightarrow> string \<Rightarrow> ((string \<times> json) list \<times> string) option" where
  "parse_value 0 s = None"
| "parse_value (Suc f) s =
     (case skip_ws s of
        [] \<Rightarrow> None
      | c # r \<Rightarrow>
          if c = CHR ''{'' then
            (if take 1 (skip_ws r) = ''}'' then Some (JObj [], drop 1 (skip_ws r))
             else map_option (\<lambda>(kvs, r). (JObj kvs, r)) (parse_members f r))
          else if c = CHR ''['' then
            (if take 1 (skip_ws r) = '']'' then Some (JArr [], drop 1 (skip_ws r))
             else map_option (\<lambda>(vs, r). (JArr vs, r)) (parse_elems f r))
          else if c = QUOTE then map_option (\<lambda>(x, r). (JStr x, r)) (unesc r)
          else if c = CHR ''t'' then scan_lit ''true'' (JBool True) (c # r)
          else if c = CHR ''f'' then scan_lit ''false'' (JBool False) (c # r)
          else if c = CHR ''n'' then scan_lit ''null'' JNull (c # r)
          else map_option (\<lambda>(x, r). (JNum x, r)) (scan_num (c # r)))"
| "parse_elems 0 s = None"
| "parse_elems (Suc f) s =
     (case parse_value f s of
        None \<Rightarrow> None
      | Some (v, r) \<Rightarrow>
          (case skip_ws r of
             [] \<Rightarrow> None
           | c # r' \<Rightarrow>
               if c = CHR '','' then map_option (\<lambda>(vs, r). (v # vs, r)) (parse_elems f r')
               else if c = CHR '']'' then Some ([v], r') else None))"
| "parse_members 0 s = None"
| "parse_members (Suc f) s =
     (case skip_ws s of
        [] \<Rightarrow> None
      | q # r \<Rightarrow>
          if q \<noteq> QUOTE then None
          else (case unesc r of
             None \<Rightarrow> None
           | Some (k, r1) \<Rightarrow>
               (case skip_ws r1 of
                  [] \<Rightarrow> None
                | c # r2 \<Rightarrow>
                    if c \<noteq> CHR '':'' then None
                    else (case parse_value f r2 of
                       None \<Rightarrow> None
                     | Some (v, r3) \<Rightarrow>
                         (case skip_ws r3 of
                            [] \<Rightarrow> None
                          | d # r4 \<Rightarrow>
                              if d = CHR '','' then map_option (\<lambda>(kvs, r). ((k, v) # kvs, r)) (parse_members f r4)
                              else if d = CHR ''}'' then Some ([(k, v)], r4) else None)))))"

definition parse_json :: "string \<Rightarrow> json option" where
  "parse_json s =
     (case parse_value (2 * length s) s of
        Some (v, r) \<Rightarrow> if skip_ws r = [] then Some v else None
      | None \<Rightarrow> None)"

text \<open>
  The field of a struct: the decoder assigns it from every member whose key is the field's name, up to the case
  of letters, in order. A null leaves the field as it is, and a member of the wrong type is an error.
\<close>

definition field_values :: "(string \<times> json) list \<Rightarrow> string \<Rightarrow> json list" where
  "field_values kvs name = map snd (filter (\<lambda>kv. to_lower (fst kv) = to_lower name) kvs)"

definition assign_string :: "json \<Rightarrow> string option \<Rightarrow> string option" where
  "assign_string v acc =
     (case v of JStr s \<Rightarrow> map_option (\<lambda>_. s) acc | JNull \<Rightarrow> acc | _ \<Rightarrow> None)"

definition dec_string :: "(string \<times> json) list \<Rightarrow> string \<Rightarrow> string option" where
  "dec_string kvs name = fold assign_string (field_values kvs name) (Some [])"

definition elem_strings :: "json list \<Rightarrow> string list option" where
  "elem_strings vs = those (map (\<lambda>v. assign_string v (Some [])) vs)"

definition assign_strings :: "json \<Rightarrow> string list option option \<Rightarrow> string list option option" where
  "assign_strings v acc =
     (case v of
        JArr vs \<Rightarrow> (case (acc, elem_strings vs) of (Some _, Some ss) \<Rightarrow> Some (Some ss) | _ \<Rightarrow> None)
      | JNull \<Rightarrow> map_option (\<lambda>_. None) acc
      | _ \<Rightarrow> None)"

text \<open>A field of type \<^verbatim>\<open>[]string\<close>; the inner \<^term>\<open>None\<close> is the nil slice.\<close>

definition dec_strings :: "(string \<times> json) list \<Rightarrow> string \<Rightarrow> string list option option" where
  "dec_strings kvs name = fold assign_strings (field_values kvs name) (Some None)"

section \<open>Round trip of strings\<close>

declare rune_len.simps [simp del] unesc.simps(2) [simp del] esc.simps(2) [simp del]
  to_valid_utf8.simps(2) [simp del] valid_utf8.simps(2) [simp del]

lemma hex_val_digit: "d < 16 \<Longrightarrow> hex_val (hex_digit d) = Some d"
  by (auto simp: hex_digit_def hex_val_def byte_in_def)

lemma four_hex_digits:
  fixes n :: nat
  assumes "n < 65536"
  shows "4096 * (n div 4096 mod 16) + 256 * (n div 256 mod 16) + 16 * (n div 16 mod 16) + n mod 16 = n"
proof -
  have "n div 4096 mod 16 = n div 4096" using assms by simp
  moreover have "n div 256 = 16 * (n div 4096) + n div 256 mod 16"
    using mult_div_mod_eq [of 16 "n div 256"] by (simp add: div_mult2_eq [symmetric])
  moreover have "n div 16 = 16 * (n div 256) + n div 16 mod 16"
    using mult_div_mod_eq [of 16 "n div 16"] by (simp add: div_mult2_eq [symmetric])
  moreover have "n = 16 * (n div 16) + n mod 16" by simp
  ultimately show ?thesis by linarith
qed

lemma getu4_digits:
  "n < 65536 \<Longrightarrow>
   getu4 (hex_digit (n div 4096 mod 16) # hex_digit (n div 256 mod 16) # hex_digit (n div 16 mod 16) #
          hex_digit (n mod 16) # r) = Some n"
  using four_hex_digits [of n] by (simp add: hex_val_digit)

lemma unesc_u_escape:
  assumes "n < 65536" and "\<not> is_surrogate n"
  shows "unesc (u_escape n @ r) = prepend (encode_rune n) (unesc r)"
  unfolding u_escape_def
  by (simp add: unesc.simps(2) getu4_digits [OF assms(1)] assms(2) del: getu4.simps)

lemma byte_in_of_char: "byte_in 0 127 c \<longleftrightarrow> of_char c < (128::nat)"
  by (auto simp: byte_in_def)

lemma unesc_esc_ascii:
  assumes "byte_in 0 127 c"
  shows "unesc (esc_ascii c @ r) = prepend [c] (unesc r)"
proof -
  have n: "of_char c < (128::nat)" using assms by (simp add: byte_in_of_char)
  have e: "unesc (u_escape (of_char c) @ r) = prepend [c] (unesc r)"
    using n by (subst unesc_u_escape) (auto simp: is_surrogate_def encode_rune_def)
  have p: "c \<noteq> QUOTE \<Longrightarrow> c \<noteq> BACKSLASH \<Longrightarrow> \<not> byte_in 0 31 c \<Longrightarrow> unesc (c # r) = prepend [c] (unesc r)"
    using assms by (simp add: unesc.simps(2))
  consider "c = QUOTE" | "c = BACKSLASH" | "c = CHR 0x08" | "c = CHR 0x0C" | "c = CHR 0x0A" | "c = CHR 0x0D"
    | "c = CHR 0x09" | (other) "c \<notin> {QUOTE, BACKSLASH, CHR 0x08, CHR 0x0C, CHR 0x0A, CHR 0x0D, CHR 0x09}" by blast
  then show ?thesis
  proof cases
    case other
    then have "esc_ascii c = (if byte_in 0 31 c \<or> c \<in> set ''<>&'' then u_escape (of_char c) else [c])"
      by (simp only: esc_ascii_def insert_iff empty_iff if_False de_Morgan_disj simp_thms)
    with other e p show ?thesis by (simp split: if_split)
  qed (simp_all add: esc_ascii_def unesc.simps(2) unesc_char_def)
qed

lemma encode_special:
  "encode_rune 8232 = [CHR 0xE2, CHR 0x80, CHR 0xA8]" "encode_rune 8233 = [CHR 0xE2, CHR 0x80, CHR 0xA9]"
  "encode_rune 65533 = replacement"
  by (simp_all add: encode_rune_def char_of_eq_iff)

lemma rune_len_cases:
  assumes "\<not> byte_in 0 127 c" and "rune_len (c # s) = k" and "k \<noteq> 0"
  shows "k \<le> length (c # s) \<and> rune_len (take k (c # s) @ r) = k"
proof -
  consider (two) b s' where "s = b # s'" "k = 2" "byte_in 194 223 c" "byte_in 128 191 b"
    | (three) b d s' where "s = b # d # s'" "k = 3" "\<not> byte_in 194 223 c" "byte_in 224 239 c"
        "second_ok c b" "byte_in 128 191 d"
    | (four) b d e s' where "s = b # d # e # s'" "k = 4" "\<not> byte_in 194 223 c" "\<not> byte_in 224 239 c"
        "byte_in 240 244 c" "second_ok c b" "byte_in 128 191 d" "byte_in 128 191 e"
    using assms unfolding rune_len.simps by (simp split: list.splits if_splits)
  then show ?thesis
    using assms(1) by cases (simp_all add: rune_len.simps)
qed

lemma unesc_rune:
  assumes "\<not> byte_in 0 127 c" and "rune_len (c # s) = k" and "k \<noteq> 0"
  shows "unesc (take k (c # s) @ r) = prepend (take k (c # s)) (unesc r)"
proof -
  obtain k' where k: "k = Suc k'" using assms(3) by (cases k) auto
  have "\<not> byte_in 0 31 c" "c \<noteq> QUOTE" "c \<noteq> BACKSLASH"
    using assms(1) by (auto simp: byte_in_def)
  moreover have "rune_len (take k (c # s) @ r) = k" and "k \<le> length (c # s)"
    using rune_len_cases [OF assms] by auto
  ultimately show ?thesis
    using assms(1) k by (auto simp: unesc.simps(2) min_def)
qed

lemma unesc_esc_rune:
  assumes "\<not> byte_in 0 127 c" and "rune_len (c # s) = k" and "k \<noteq> 0"
  shows "unesc (esc_rune (take k (c # s)) @ r) = prepend (take k (c # s)) (unesc r)"
proof -
  have "unesc (u_escape 8232 @ r) = prepend [CHR 0xE2, CHR 0x80, CHR 0xA8] (unesc r)"
    by (subst unesc_u_escape) (simp_all add: is_surrogate_def encode_special)
  moreover have "unesc (u_escape 8233 @ r) = prepend [CHR 0xE2, CHR 0x80, CHR 0xA9] (unesc r)"
    by (subst unesc_u_escape) (simp_all add: is_surrogate_def encode_special)
  ultimately show ?thesis
    using unesc_rune [OF assms] by (simp add: esc_rune_def)
qed

lemma prepend_Some [simp]: "prepend p (Some (s, r)) = Some (p @ s, r)"
  by (simp add: prepend_def)

lemma unesc_replacement: "unesc (u_escape 65533 @ r) = prepend replacement (unesc r)"
  by (subst unesc_u_escape) (simp_all add: is_surrogate_def encode_special)

lemma unesc_esc: "unesc (esc s @ QUOTE # r) = Some (to_valid_utf8 s, r)"
proof (induction s rule: esc.induct)
  case 1
  then show ?case by (simp add: unesc.simps(2))
next
  case (2 c s)
  consider (ascii) "byte_in 0 127 c" | (bad) "\<not> byte_in 0 127 c" "rune_len (c # s) = 0"
    | (rune) "\<not> byte_in 0 127 c" "rune_len (c # s) \<noteq> 0" by blast
  then show ?case
  proof cases
    case ascii
    then have "rune_len (c # s) = 1" by (simp add: rune_len.simps)
    with ascii 2(1) show ?thesis
      by (simp add: esc.simps(2) to_valid_utf8.simps(2) unesc_esc_ascii)
  next
    case bad
    with 2(2) show ?thesis
      by (simp add: esc.simps(2) to_valid_utf8.simps(2) unesc_replacement)
  next
    case rune
    with 2(3) unesc_esc_rune [OF rune(1) refl rune(2)] show ?thesis
      by (simp add: esc.simps(2) to_valid_utf8.simps(2))
  qed
qed

lemma to_valid_utf8_id: "valid_utf8 s \<Longrightarrow> to_valid_utf8 s = s"
  by (induction s rule: valid_utf8.induct) (auto simp: to_valid_utf8.simps(2) valid_utf8.simps(2) split: if_splits)

lemma valid_utf8_ascii: "\<forall>c \<in> set s. byte_in 0 127 c \<Longrightarrow> valid_utf8 s"
  by (induction s) (auto simp: valid_utf8.simps(2) rune_len.simps)


section \<open>Round trip of values\<close>

definition delim :: "string \<Rightarrow> bool" where
  "delim r \<longleftrightarrow> r = [] \<or> hd r \<in> set '',]}''"

lemma delim_simps [simp]: "delim []" "delim (CHR '','' # r)" "delim (CHR '']'' # r)" "delim (CHR ''}'' # r)"
  by (simp_all add: delim_def)

lemma delim_cases:
  assumes "delim r"
  obtains "r = []" | r' where "r = CHR '','' # r'" | r' where "r = CHR '']'' # r'" | r' where "r = CHR ''}'' # r'"
  using assms by (cases r) (auto simp: delim_def)

lemma delim_not_digit: "delim r \<Longrightarrow> takeWhile is_digit r = [] \<and> dropWhile is_digit r = r"
  by (erule delim_cases) (simp_all add: is_digit_def byte_in_def)

lemma digits1_app:
  assumes "digits1 s = Some (a, b)" and "delim r"
  shows "digits1 (s @ r) = Some (a, b @ r)"
proof (cases "\<forall>c \<in> set s. is_digit c")
  case True
  then have "takeWhile is_digit s = s" "dropWhile is_digit s = []" by (auto simp: takeWhile_eq_all_conv)
  with assms(1) True delim_not_digit [OF assms(2)] show ?thesis
    unfolding digits1_def by (simp only: takeWhile_append dropWhile_append) (auto split: if_splits)
next
  case False
  then obtain c where "c \<in> set s" "\<not> is_digit c" by blast
  then show ?thesis
    using assms(1) by (auto simp: digits1_def split: if_splits)
qed

lemma scan_int_app: "scan_int s = Some (a, b) \<Longrightarrow> delim r \<Longrightarrow> scan_int (s @ r) = Some (a, b @ r)"
  using digits1_app [of s a b r] by (auto simp: scan_int_def split: list.splits if_splits)

lemma scan_frac_app:
  assumes "scan_frac s = Some (a, b)" and "delim r"
  shows "scan_frac (s @ r) = Some (a, b @ r)"
proof (cases s)
  case Nil
  with assms show ?thesis by (auto simp: scan_frac_def elim: delim_cases)
next
  case (Cons c s')
  with assms digits1_app [OF _ assms(2), of s'] show ?thesis
    by (auto simp: scan_frac_def prepend_def split: if_splits)
qed

lemma scan_exp_app:
  assumes "scan_exp s = Some (a, b)" and "delim r"
  shows "scan_exp (s @ r) = Some (a, b @ r)"
proof (cases s)
  case Nil
  with assms show ?thesis by (auto simp: scan_exp_def elim: delim_cases)
next
  case (Cons c s')
  with assms digits1_app [OF _ assms(2), of s'] digits1_app [OF _ assms(2), of "tl s'"] show ?thesis
    by (auto simp: scan_exp_def prepend_def split: if_splits list.splits)
qed

lemma scan_num_app:
  assumes "scan_num s = Some (l, [])" and "delim r"
  shows "scan_num (s @ r) = Some (l, r)"
proof -
  have "s \<noteq> []" using assms(1) by (auto simp: scan_num_def scan_int_def)
  then show ?thesis
    using assms(1) scan_int_app [OF _ assms(2)] scan_frac_app [OF _ assms(2)] scan_exp_app [OF _ assms(2)]
    by (cases s) (fastforce simp: scan_num_def Let_def split: if_splits option.splits prod.splits)+
qed

lemma scan_num_head: "scan_num (c # s) = Some r \<Longrightarrow> c = CHR ''-'' \<or> is_digit c"
  by (auto simp: scan_num_def scan_int_def digits1_def is_digit_def byte_in_def Let_def
      split: if_splits option.splits prod.splits)

lemma digit_byte: "of_char (digit d) = (48 + d mod 10 :: nat)"
  by (simp add: digit_def of_char_of)

lemma digits_are_digits: "c \<in> set (nat_digits n) \<Longrightarrow> is_digit c"
  using nat_digits_chars [of c n] by (auto simp: is_digit_def byte_in_def digit_byte)

lemma leading_zero: "hd (nat_digits n) = CHR ''0'' \<Longrightarrow> n = 0"
proof (induction n rule: nat_digits.induct)
  case (1 n)
  have z: "digit n = CHR ''0'' \<Longrightarrow> n mod 10 = 0" using digit_val_digit [of n] by (auto simp: digit_val_def)
  from 1 z show ?case by (cases "n < 10") (auto simp: nat_digits.simps [of n])
qed

lemma scan_int_digits: "scan_int (nat_digits n) = Some (nat_digits n, [])"
proof (cases "n = 0")
  case True
  moreover have "digit 0 = CHR ''0''" by code_simp
  ultimately show ?thesis by (simp add: nat_digits.simps [of 0] scan_int_def)
next
  case False
  then obtain c r where d: "nat_digits n = c # r" "c \<noteq> CHR ''0''" using leading_zero [of n] by (cases "nat_digits n") auto
  have "\<forall>x \<in> set (nat_digits n). is_digit x" using digits_are_digits by blast
  then have "takeWhile is_digit (nat_digits n) = nat_digits n" "dropWhile is_digit (nat_digits n) = []"
    by (simp_all add: takeWhile_eq_all_conv dropWhile_eq_Nil_conv)
  with d show ?thesis by (simp add: scan_int_def digits1_def)
qed

lemma scan_num_itoa: "scan_num (itoa n) = Some (itoa n, [])"
proof -
  have fe: "scan_frac [] = Some ([], [])" "scan_exp [] = Some ([], [])" by (simp_all add: scan_frac_def scan_exp_def)
  obtain a r where "nat_digits (nat n) = a # r" "a \<noteq> CHR ''-''"
    using nat_digits_no_sign [of "nat n"] by (cases "nat_digits (nat n)") auto
  then show ?thesis using fe scan_int_digits [of "nat n"] scan_int_digits [of "nat (- n)"]
    by (simp add: itoa_def scan_num_def Let_def)
qed

fun wf_json :: "json \<Rightarrow> bool" where
  "wf_json (JNum l) \<longleftrightarrow> scan_num l = Some (l, [])"
| "wf_json (JStr s) \<longleftrightarrow> valid_utf8 s"
| "wf_json (JArr vs) \<longleftrightarrow> (\<forall>v \<in> set vs. wf_json v)"
| "wf_json (JObj kvs) \<longleftrightarrow> (\<forall>kv \<in> set kvs. valid_utf8 (fst kv) \<and> wf_json (snd kv))"
| "wf_json _ \<longleftrightarrow> True"

lemma skip_ws_simps [simp]:
  "skip_ws [] = []" "\<not> is_json_ws c \<Longrightarrow> skip_ws (c # s) = c # s"
  by (simp_all add: skip_ws_def)

lemma not_ws [simp]:
  "\<not> is_json_ws QUOTE" "\<not> is_json_ws (CHR ''{'')" "\<not> is_json_ws (CHR ''['')" "\<not> is_json_ws (CHR ''}'')"
  "\<not> is_json_ws (CHR '']'')" "\<not> is_json_ws (CHR '','')" "\<not> is_json_ws (CHR '':'')" "\<not> is_json_ws (CHR ''t'')"
  "\<not> is_json_ws (CHR ''f'')" "\<not> is_json_ws (CHR ''n'')"
  by (simp_all add: is_json_ws_def)

lemma parse_print_str: "valid_utf8 s \<Longrightarrow> unesc (esc s @ QUOTE # r) = Some (s, r)"
  by (simp add: unesc_esc to_valid_utf8_id)

lemma parse_print_num:
  assumes "scan_num l = Some (l, [])" and "delim r"
  shows "parse_value (Suc f) (l @ r) = Some (JNum l, r)"
proof -
  obtain c l' where l: "l = c # l'" using assms(1) by (cases l) (auto simp: scan_num_def scan_int_def)
  then have "c = CHR ''-'' \<or> is_digit c" using assms(1) scan_num_head by blast
  then have "\<not> is_json_ws c \<and> c \<notin> set ''{[tfn'' \<and> c \<noteq> QUOTE"
    by (auto simp: is_digit_def byte_in_def is_json_ws_def)
  with scan_num_app [OF assms] l show ?thesis by simp
qed

lemma join_Cons: "join sep (p # ps) = (if ps = [] then p else p @ sep @ join sep ps)"
  by (cases ps) auto


lemma print_json_head:
  assumes "wf_json v"
  shows "\<exists>c t. print_json v = c # t \<and> \<not> is_json_ws c \<and> c \<noteq> CHR '']''"
proof (cases v)
  case (JNum l)
  then obtain c l' where "l = c # l'" using assms by (cases l) (auto simp: scan_num_def scan_int_def)
  moreover from this have "c = CHR ''-'' \<or> is_digit c" using assms JNum scan_num_head by auto
  ultimately show ?thesis using JNum by (auto simp: is_digit_def byte_in_def is_json_ws_def)
qed (auto simp: print_str_def)

lemma parse_elems_print:
  assumes "\<forall>v \<in> set vs. \<forall>f r. delim r \<longrightarrow> 2 * length (print_json v) \<le> f \<longrightarrow> parse_value f (print_json v @ r) = Some (v, r)"
    and "vs \<noteq> []" and "2 * length (join '','' (map print_json vs)) < f"
  shows "parse_elems f (join '','' (map print_json vs) @ CHR '']'' # r) = Some (vs, r)"
  using assms
proof (induction vs arbitrary: f)
  case (Cons v vs)
  then obtain f' where f: "f = Suc f'" by (cases f) auto
  show ?case
  proof (cases "vs = []")
    case True
    with Cons.prems f show ?thesis by (auto simp: join_Cons)
  next
    case False
    let ?j = "join '','' (map print_json vs)"
    have "parse_value f' (print_json v @ CHR '','' # ?j @ CHR '']'' # r) = Some (v, CHR '','' # ?j @ CHR '']'' # r)"
      using Cons.prems f False by (auto simp: join_Cons)
    moreover have "parse_elems f' (?j @ CHR '']'' # r) = Some (vs, r)"
      using Cons.prems f False by (intro Cons.IH) (auto simp: join_Cons)
    ultimately show ?thesis
      using f False by (simp add: join_Cons)
  qed
qed simp

abbreviation print_member :: "string \<times> json \<Rightarrow> string" where
  "print_member kv \<equiv> print_str (fst kv) @ '':'' @ print_json (snd kv)"

lemma parse_members_print:
  assumes "\<forall>kv \<in> set kvs. \<forall>f r. delim r \<longrightarrow> 2 * length (print_json (snd kv)) \<le> f \<longrightarrow>
      parse_value f (print_json (snd kv) @ r) = Some (snd kv, r)"
    and "\<forall>kv \<in> set kvs. valid_utf8 (fst kv)"
    and "kvs \<noteq> []" and "2 * length (join '','' (map print_member kvs)) < f"
  shows "parse_members f (join '','' (map print_member kvs) @ CHR ''}'' # r) = Some (kvs, r)"
  using assms
proof (induction kvs arbitrary: f)
  case (Cons kv kvs)
  then obtain f' where f: "f = Suc f'" by (cases f) auto
  let ?j = "join '','' (map print_member kvs)"
  have k: "unesc (esc (fst kv) @ QUOTE # x) = Some (fst kv, x)" for x
    using Cons.prems(2) by (simp add: parse_print_str)
  show ?case
  proof (cases "kvs = []")
    case True
    moreover have "parse_value f' (print_json (snd kv) @ CHR ''}'' # r) = Some (snd kv, CHR ''}'' # r)"
      using Cons.prems f True by (auto simp: join_Cons print_str_def)
    ultimately show ?thesis using f k by (simp add: join_Cons print_str_def)
  next
    case False
    have "parse_value f' (print_json (snd kv) @ CHR '','' # ?j @ CHR ''}'' # r)
        = Some (snd kv, CHR '','' # ?j @ CHR ''}'' # r)"
      using Cons.prems f False by (auto simp: join_Cons print_str_def)
    moreover have "parse_members f' (?j @ CHR ''}'' # r) = Some (kvs, r)"
      using Cons.prems f False by (intro Cons.IH) (auto simp: join_Cons print_str_def)
    ultimately show ?thesis
      using f False k by (simp add: join_Cons print_str_def)
  qed
qed simp

lemma parse_print:
  "wf_json v \<Longrightarrow> delim r \<Longrightarrow> 2 * length (print_json v) \<le> f \<Longrightarrow> parse_value f (print_json v @ r) = Some (v, r)"
proof (induction v arbitrary: f r)
  case (JNum l)
  moreover from this have "l \<noteq> []" by (auto simp: scan_num_def scan_int_def)
  ultimately obtain f' where "f = Suc f'" by (cases f) auto
  with JNum show ?case using parse_print_num by simp
next
  case (JStr s)
  then obtain f' where "f = Suc f'" by (cases f) (auto simp: print_str_def)
  with JStr show ?case by (simp add: print_str_def parse_print_str)
next
  case (JArr vs)
  then obtain f' where f: "f = Suc f'" by (cases f) auto
  show ?case
  proof (cases vs)
    case Nil
    with f show ?thesis by simp
  next
    case (Cons w ws)
    obtain c t where h: "print_json w = c # t" "\<not> is_json_ws c" "c \<noteq> CHR '']''"
      using print_json_head [of w] JArr.prems(1) Cons by auto
    have "parse_elems f' (join '','' (map print_json vs) @ CHR '']'' # r) = Some (vs, r)"
      using JArr f Cons by (intro parse_elems_print) auto
    with f h Cons show ?thesis by (simp add: join_Cons)
  qed
next
  case (JObj kvs)
  then obtain f' where f: "f = Suc f'" by (cases f) auto
  show ?case
  proof (cases kvs)
    case Nil
    with f show ?thesis by simp
  next
    case (Cons kv kvs')
    have "parse_members f' (join '','' (map print_member kvs) @ CHR ''}'' # r) = Some (kvs, r)"
    proof (rule parse_members_print)
      show "\<forall>kv \<in> set kvs. \<forall>f r. delim r \<longrightarrow> 2 * length (print_json (snd kv)) \<le> f \<longrightarrow>
          parse_value f (print_json (snd kv) @ r) = Some (snd kv, r)"
        using JObj.IH JObj.prems(1) by (metis prod_set_simps(2) singletonI surjective_pairing wf_json.simps(4))
    qed (use JObj.prems f Cons in auto)
    with f Cons show ?thesis by (simp add: join_Cons print_str_def)
  qed
next
  case JNull
  then show ?case by (cases f) (auto simp: scan_lit_def has_prefix_def)
next
  case (JBool b)
  then show ?case by (cases f; cases b) (auto simp: scan_lit_def has_prefix_def)
qed

theorem parse_json_print_json: "wf_json v \<Longrightarrow> parse_json (print_json v) = Some v"
  using parse_print [of v "[]" "2 * length (print_json v)"] by (simp add: parse_json_def)

end
