(* ===== verification/Crypto.thy ===== *)
theory Crypto
  imports Prelude "HOL-Library.Word"
begin

text \<open>
  The parts of \<^verbatim>\<open>encoding/base64\<close>, \<^verbatim>\<open>encoding/hex\<close> and \<^verbatim>\<open>crypto/sha256\<close> that the service uses: the URL alphabet with
  padding, lower-case hexadecimal, and SHA-256 on bytes with its arithmetic on 32-bit words.
\<close>

unbundle bit_operations_syntax

section \<open>Base64, URL alphabet\<close>

definition b64_alphabet :: string where
  "b64_alphabet = ''ABCDEFGHIJKLMNOPQRSTUVWXYZabcdefghijklmnopqrstuvwxyz0123456789-_''"

definition b64_char :: "int \<Rightarrow> char" where
  "b64_char n = b64_alphabet ! nat (n mod 64)"

definition b64_val :: "char \<Rightarrow> int option" where
  "b64_val c = map_of (zip b64_alphabet [0..63]) c"

abbreviation byte :: "char \<Rightarrow> int" where "byte c \<equiv> of_char c"

fun b64_encode :: "string \<Rightarrow> string" where
  "b64_encode [] = []"
| "b64_encode [a] = [b64_char (byte a div 4), b64_char (byte a mod 4 * 16), CHR ''='', CHR ''='']"
| "b64_encode [a, b] =
     [b64_char (byte a div 4), b64_char (byte a mod 4 * 16 + byte b div 16), b64_char (byte b mod 16 * 4), CHR ''='']"
| "b64_encode (a # b # c # r) =
     [b64_char (byte a div 4), b64_char (byte a mod 4 * 16 + byte b div 16),
      b64_char (byte b mod 16 * 4 + byte c div 64), b64_char (byte c mod 64)] @ b64_encode r"

text \<open>The decoder drops line breaks; the bits that padding leaves over are not checked.\<close>

fun b64_groups :: "string \<Rightarrow> string option" where
  "b64_groups [] = Some []"
| "b64_groups (p # q # x # y # r) =
     (case (b64_val p, b64_val q) of
        (Some m, Some n) \<Rightarrow>
          if x = CHR ''='' then
            (if y = CHR ''='' \<and> r = [] then Some [char_of (m * 4 + n div 16)] else None)
          else (case b64_val x of
             None \<Rightarrow> None
           | Some k \<Rightarrow>
               if y = CHR ''='' then
                 (if r = [] then Some [char_of (m * 4 + n div 16), char_of (n mod 16 * 16 + k div 4)] else None)
               else (case b64_val y of
                  None \<Rightarrow> None
                | Some l \<Rightarrow> map_option (\<lambda>s. [char_of (m * 4 + n div 16), char_of (n mod 16 * 16 + k div 4),
                                             char_of (k mod 4 * 64 + l)] @ s) (b64_groups r)))
      | _ \<Rightarrow> None)"
| "b64_groups _ = None"

definition b64_decode :: "string \<Rightarrow> string option" where
  "b64_decode s = b64_groups (filter (\<lambda>c. c \<noteq> CHR 0x0A \<and> c \<noteq> CHR 0x0D) s)"

section \<open>Hexadecimal\<close>

definition hex_encode :: "string \<Rightarrow> string" where
  "hex_encode s = concat (map (\<lambda>c. [hex_digit (nat (byte c div 16)), hex_digit (nat (byte c mod 16))]) s)"

section \<open>SHA-256\<close>

type_synonym w32 = "32 word"

definition sha_k :: "w32 list" where
  "sha_k = [0x428A2F98, 0x71374491, 0xB5C0FBCF, 0xE9B5DBA5, 0x3956C25B, 0x59F111F1, 0x923F82A4, 0xAB1C5ED5,
     0xD807AA98, 0x12835B01, 0x243185BE, 0x550C7DC3, 0x72BE5D74, 0x80DEB1FE, 0x9BDC06A7, 0xC19BF174,
     0xE49B69C1, 0xEFBE4786, 0x0FC19DC6, 0x240CA1CC, 0x2DE92C6F, 0x4A7484AA, 0x5CB0A9DC, 0x76F988DA,
     0x983E5152, 0xA831C66D, 0xB00327C8, 0xBF597FC7, 0xC6E00BF3, 0xD5A79147, 0x06CA6351, 0x14292967,
     0x27B70A85, 0x2E1B2138, 0x4D2C6DFC, 0x53380D13, 0x650A7354, 0x766A0ABB, 0x81C2C92E, 0x92722C85,
     0xA2BFE8A1, 0xA81A664B, 0xC24B8B70, 0xC76C51A3, 0xD192E819, 0xD6990624, 0xF40E3585, 0x106AA070,
     0x19A4C116, 0x1E376C08, 0x2748774C, 0x34B0BCB5, 0x391C0CB3, 0x4ED8AA4A, 0x5B9CCA4F, 0x682E6FF3,
     0x748F82EE, 0x78A5636F, 0x84C87814, 0x8CC70208, 0x90BEFFFA, 0xA4506CEB, 0xBEF9A3F7, 0xC67178F2]"

definition sha_h0 :: "w32 list" where
  "sha_h0 = [0x6A09E667, 0xBB67AE85, 0x3C6EF372, 0xA54FF53A, 0x510E527F, 0x9B05688C, 0x1F83D9AB, 0x5BE0CD19]"

definition ssig0 :: "w32 \<Rightarrow> w32" where
  "ssig0 x = word_rotr 7 x XOR word_rotr 18 x XOR drop_bit 3 x"

definition ssig1 :: "w32 \<Rightarrow> w32" where
  "ssig1 x = word_rotr 17 x XOR word_rotr 19 x XOR drop_bit 10 x"

definition bsig0 :: "w32 \<Rightarrow> w32" where
  "bsig0 x = word_rotr 2 x XOR word_rotr 13 x XOR word_rotr 22 x"

definition bsig1 :: "w32 \<Rightarrow> w32" where
  "bsig1 x = word_rotr 6 x XOR word_rotr 11 x XOR word_rotr 25 x"

text \<open>The \<open>k\<close> low bytes of a number, most significant first.\<close>

primrec be_bytes :: "nat \<Rightarrow> int \<Rightarrow> int list" where
  "be_bytes 0 n = []"
| "be_bytes (Suc k) n = be_bytes k (n div 256) @ [n mod 256]"

definition sha_pad :: "string \<Rightarrow> int list" where
  "sha_pad m = map byte m @ [128] @ replicate (nat ((55 - int (length m)) mod 64)) 0 @ be_bytes 8 (8 * int (length m))"

fun be_words :: "int list \<Rightarrow> w32 list" where
  "be_words (a # b # c # d # r) = of_int (((a * 256 + b) * 256 + c) * 256 + d) # be_words r"
| "be_words _ = []"

text \<open>The message schedule, most recent word first.\<close>

primrec sha_extend :: "nat \<Rightarrow> w32 list \<Rightarrow> w32 list" where
  "sha_extend 0 ws = ws"
| "sha_extend (Suc n) ws = sha_extend n ((ssig1 (ws ! 1) + ws ! 6 + ssig0 (ws ! 14) + ws ! 15) # ws)"

fun sha_round :: "w32 list \<Rightarrow> w32 \<times> w32 \<Rightarrow> w32 list" where
  "sha_round [a, b, c, d, e, f, g, h] (k, w) =
     (let t1 = h + bsig1 e + ((e AND f) XOR (NOT e AND g)) + k + w;
          t2 = bsig0 a + ((a AND b) XOR (a AND c) XOR (b AND c))
      in [t1 + t2, a, b, c, d + t1, e, f, g])"
| "sha_round s _ = s"

definition sha_block :: "w32 list \<Rightarrow> w32 list \<Rightarrow> w32 list" where
  "sha_block h ws = map2 (+) h (foldl sha_round h (zip sha_k (rev (sha_extend 48 (rev ws)))))"

function sha_blocks :: "w32 list \<Rightarrow> w32 list \<Rightarrow> w32 list" where
  "sha_blocks h ws = (if ws = [] then h else sha_blocks (sha_block h (take 16 ws)) (drop 16 ws))"
  by pat_completeness auto
termination by (relation "measure (\<lambda>(h, ws). length ws)") auto

definition sha256 :: "string \<Rightarrow> string" where
  "sha256 m = concat (map (\<lambda>w. map char_of (be_bytes 4 (uint w))) (sha_blocks sha_h0 (be_words (sha_pad m))))"

section \<open>Lengths\<close>

lemma sha_round_length: "length s = 8 \<Longrightarrow> length (sha_round s kw) = 8"
  by (cases "(s, kw)" rule: sha_round.cases) (auto simp: Let_def)

lemma foldl_sha_round_length: "length s = 8 \<Longrightarrow> length (foldl sha_round s kws) = 8"
  by (induction kws arbitrary: s) (auto simp: sha_round_length)

lemma sha_blocks_length: "length h = 8 \<Longrightarrow> length (sha_blocks h ws) = 8"
proof (induction h ws rule: sha_blocks.induct)
  case (1 h ws)
  have "length (sha_block h (take 16 ws)) = 8" using 1(2) by (simp add: sha_block_def foldl_sha_round_length)
  with 1 show ?case by (subst sha_blocks.simps) simp
qed

lemma concat_map_length: "(\<And>x. x \<in> set xs \<Longrightarrow> length (f x) = n) \<Longrightarrow> length (concat (map f xs)) = n * length xs"
  by (induction xs) auto

lemma be_bytes_length [simp]: "length (be_bytes n i) = n"
  by (induction n arbitrary: i) auto

lemma sha256_length: "length (sha256 m) = 32"
  unfolding sha256_def
  by (subst concat_map_length [where n = 4]) (auto simp: sha_blocks_length sha_h0_def simp del: sha_blocks.simps)

lemma hex_encode_length: "length (hex_encode s) = 2 * length s"
  unfolding hex_encode_def by (subst concat_map_length [where n = 2]) auto

section \<open>Base64 round trip\<close>

lemma b64_alphabet_props: "length b64_alphabet = 64" "distinct b64_alphabet" "CHR ''='' \<notin> set b64_alphabet"
    "CHR 0x0A \<notin> set b64_alphabet" "CHR 0x0D \<notin> set b64_alphabet"
  by (simp_all add: b64_alphabet_def)

lemma b64_val_char:
  assumes "0 \<le> n" and "n < 64"
  shows "b64_val (b64_char n) = Some n"
proof -
  have "length [0..63::int] = 64" by simp
  then have "map_of (zip b64_alphabet [0..63]) (b64_alphabet ! nat n) = Some ([0..63] ! nat n)"
    using assms b64_alphabet_props by (intro map_of_zip_nth) auto
  then show ?thesis using assms by (simp add: b64_val_def b64_char_def nth_upto)
qed

lemma b64_char_in: "b64_char n \<in> set b64_alphabet"
  using b64_alphabet_props(1) by (simp add: b64_char_def nat_less_iff)

lemma b64_char_not_special [simp]:
  "b64_char n \<noteq> CHR ''=''" "b64_char n \<noteq> CHR 0x0A" "b64_char n \<noteq> CHR 0x0D"
  using b64_char_in b64_alphabet_props(3-5) by metis+

lemma byte_bound: "0 \<le> byte c" "byte c < 256"
proof -
  have "byte c = int (of_char c)" by (rule of_nat_of_char [symmetric])
  then show "0 \<le> byte c" "byte c < 256" using nat_of_char_less_256 [of c] by linarith+
qed

lemma mix_digits:
  fixes x y k :: int
  assumes "0 \<le> y" and "y < k"
  shows "(x * k + y) div k = x" and "(x * k + y) mod k = y"
  using assms by simp_all

lemma byte_parts:
  "0 \<le> byte c div 16 \<and> byte c div 16 < 16" "0 \<le> byte c div 64 \<and> byte c div 64 < 4" "0 \<le> byte c div 4 \<and> byte c div 4 < 64"
  using byte_bound [of c] by auto

lemma b64_regroup:
  "byte a div 4 * 4 + (byte a mod 4 * 16 + byte b div 16) div 16 = byte a"
  "(byte a mod 4 * 16 + byte b div 16) mod 16 * 16 + (byte b mod 16 * 4 + byte c div 64) div 4 = byte b"
  "(byte b mod 16 * 4 + byte c div 64) mod 4 * 64 + byte c mod 64 = byte c"
  "byte a div 4 * 4 + byte a mod 4 * 16 div 16 = byte a"
  "(byte a mod 4 * 16 + byte b div 16) mod 16 * 16 + byte b mod 16 * 4 div 4 = byte b"
  using byte_parts [of b] byte_parts [of c] by (simp_all add: mix_digits)

lemma mix_range:
  fixes x y :: int
  shows "0 \<le> x \<Longrightarrow> x < 4 \<Longrightarrow> 0 \<le> y \<Longrightarrow> y < 16 \<Longrightarrow> 0 \<le> x * 16 + y \<and> x * 16 + y < 64"
    and "0 \<le> x \<Longrightarrow> x < 16 \<Longrightarrow> 0 \<le> y \<Longrightarrow> y < 4 \<Longrightarrow> 0 \<le> x * 4 + y \<and> x * 4 + y < 64"
  by linarith+

lemma b64_range:
  "0 \<le> byte a mod 4 * 16 + byte b div 16 \<and> byte a mod 4 * 16 + byte b div 16 < 64"
  "0 \<le> byte b mod 16 * 4 + byte c div 64 \<and> byte b mod 16 * 4 + byte c div 64 < 64"
  "0 \<le> byte a mod 4 * 16 + 0 \<and> byte a mod 4 * 16 + 0 < 64" "0 \<le> byte b mod 16 * 4 + 0 \<and> byte b mod 16 * 4 + 0 < 64"
  using byte_parts(1) [of b] byte_parts(2) [of c] by (intro mix_range; simp)+

lemma b64_vals:
  "b64_val (b64_char (byte a div 4)) = Some (byte a div 4)"
  "b64_val (b64_char (byte a mod 4 * 16 + byte b div 16)) = Some (byte a mod 4 * 16 + byte b div 16)"
  "b64_val (b64_char (byte b mod 16 * 4 + byte c div 64)) = Some (byte b mod 16 * 4 + byte c div 64)"
  "b64_val (b64_char (byte a mod 4 * 16)) = Some (byte a mod 4 * 16)"
  "b64_val (b64_char (byte b mod 16 * 4)) = Some (byte b mod 16 * 4)"
  "b64_val (b64_char (byte c mod 64)) = Some (byte c mod 64)"
proof -
  note val = b64_val_char [OF conjunct1 conjunct2]
  show "b64_val (b64_char (byte a div 4)) = Some (byte a div 4)" by (rule val [OF byte_parts(3) byte_parts(3)])
  show "b64_val (b64_char (byte a mod 4 * 16 + byte b div 16)) = Some (byte a mod 4 * 16 + byte b div 16)"
    by (rule val [OF b64_range(1) b64_range(1)])
  show "b64_val (b64_char (byte b mod 16 * 4 + byte c div 64)) = Some (byte b mod 16 * 4 + byte c div 64)"
    by (rule val [OF b64_range(2) b64_range(2)])
  show "b64_val (b64_char (byte a mod 4 * 16)) = Some (byte a mod 4 * 16)"
    by (rule val [OF b64_range(3) b64_range(3), unfolded add_0_right])
  show "b64_val (b64_char (byte b mod 16 * 4)) = Some (byte b mod 16 * 4)"
    by (rule val [OF b64_range(4) b64_range(4), unfolded add_0_right])
  show "b64_val (b64_char (byte c mod 64)) = Some (byte c mod 64)" by (rule b64_val_char) simp_all
qed

lemma char_of_byte: "char_of (byte c) = c"
  by simp

lemma b64_groups_encode: "b64_groups (b64_encode s) = Some s"
  by (induction s rule: b64_encode.induct)
     (simp_all only: b64_encode.simps b64_groups.simps append_Cons append_Nil b64_vals b64_char_not_special b64_regroup
        prod.case option.case if_True if_False simp_thms option.map char_of_byte)

lemma b64_encode_plain: "filter (\<lambda>c. c \<noteq> CHR 0x0A \<and> c \<noteq> CHR 0x0D) (b64_encode s) = b64_encode s"
  by (induction s rule: b64_encode.induct) auto

lemma b64_decode_encode: "b64_decode (b64_encode s) = Some s"
  by (simp add: b64_decode_def b64_encode_plain b64_groups_encode)

lemma b64_encode_Nil: "b64_encode s = [] \<longleftrightarrow> s = []"
  by (cases s rule: b64_encode.cases) auto

text \<open>The test vector of the standard.\<close>

lemma sha256_abc:
  "hex_encode (sha256 ''abc'') = ''ba7816bf8f01cfea414140de5dae2223b00361a396177a9cb410ff61f20015ad''"
  by code_simp

text \<open>Two short tokens with different digests, for the examples.\<close>

lemma digests_differ: "hex_encode (sha256 (b64_encode ''r'')) \<noteq> hex_encode (sha256 (b64_encode ''s''))"
  by code_simp

end
