(* ===== verification/Decision_Cache.thy ===== *)
theory Decision_Cache
  imports Prelude
begin

text \<open>
  The LRU cache of authorization decisions, \<^verbatim>\<open>src/internal/adapter/casbin/cache.go\<close>. The struct
  \<^verbatim>\<open>decisionCache\<close> holds a map from keys to list elements and the list itself. A list element is a
  pointer: here it is a number, and \<open>order\<close> pairs each element with the entry it points to, most
  recently used first. The mutex makes each method atomic, so each is one function on the state. The
  receiver may be nil (\<^term>\<open>None\<close>). The invariant \<open>cache_inv\<close> says how the map and the list agree;
  \<open>lru_get\<close>, \<open>lru_put\<close>, \<open>lru_drop\<close> are the abstract LRU cache that the methods implement.
\<close>

section \<open>The cache\<close>

record cacheEntry =
  ce_key :: string
  ce_value :: bool

type_synonym element = nat

record decisionCache =
  maxSize :: int
  items :: "(string \<times> element) list"
  order :: "(element \<times> cacheEntry) list"
  fresh :: element

definition newDecisionCache :: "int \<Rightarrow> decisionCache" where
  "newDecisionCache n = \<lparr>maxSize = n, items = [], order = [], fresh = 0\<rparr>"

definition cacheKey :: "string \<Rightarrow> string \<Rightarrow> string \<Rightarrow> string" where
  "cacheKey sub obj act = sub @ [NUL] @ obj @ [NUL] @ act"

text \<open>The methods of \<^verbatim>\<open>container/list\<close> that the cache calls.\<close>

definition list_remove :: "element \<Rightarrow> (element \<times> 'a) list \<Rightarrow> (element \<times> 'a) list" where
  "list_remove el l = filter (\<lambda>p. fst p \<noteq> el) l"

definition list_moveToFront :: "element \<Rightarrow> (element \<times> 'a) list \<Rightarrow> (element \<times> 'a) list" where
  "list_moveToFront el l =
     (case map_of l el of None \<Rightarrow> l | Some e \<Rightarrow> (el, e) # list_remove el l)"

definition list_back :: "'a list \<Rightarrow> 'a option" where
  "list_back l = (if l = [] then None else Some (last l))"

definition list_setValue :: "element \<Rightarrow> bool \<Rightarrow> (element \<times> cacheEntry) list \<Rightarrow> (element \<times> cacheEntry) list" where
  "list_setValue el v l = map (\<lambda>p. if fst p = el then (el, (snd p)\<lparr>ce_value := v\<rparr>) else p) l"

text \<open>\<^verbatim>\<open>get\<close> returns \<open>(value, ok)\<close> and the cache with the entry promoted.\<close>

definition cache_get ::
  "decisionCache option \<Rightarrow> string \<Rightarrow> string \<Rightarrow> string \<Rightarrow> (bool \<times> bool) \<times> decisionCache option" where
  "cache_get c sub obj act =
     (case c of
        None \<Rightarrow> ((False, False), c)
      | Some d \<Rightarrow>
          if maxSize d = 0 then ((False, False), c)
          else if NUL \<in> set sub \<or> NUL \<in> set obj \<or> NUL \<in> set act then ((False, False), c)
          else let key = cacheKey sub obj act in
            (case map_of (items d) key of
               None \<Rightarrow> ((False, False), c)
             | Some el \<Rightarrow>
                 let d' = d\<lparr>order := list_moveToFront el (order d)\<rparr> in
                 (case map_of (order d') el of
                    None \<Rightarrow> ((False, True), Some d')
                  | Some e \<Rightarrow> ((ce_value e, True), Some d'))))"

definition evictLRU :: "decisionCache \<Rightarrow> decisionCache" where
  "evictLRU d =
     (case list_back (order d) of
        None \<Rightarrow> d
      | Some tail \<Rightarrow> d\<lparr>order := list_remove (fst tail) (order d),
                       items := AList.delete (ce_key (snd tail)) (items d)\<rparr>)"

definition cache_insert :: "decisionCache \<Rightarrow> string \<Rightarrow> bool \<Rightarrow> decisionCache" where
  "cache_insert d key v =
     (let el = fresh d in
      d\<lparr>order := (el, \<lparr>ce_key = key, ce_value = v\<rparr>) # order d,
        items := AList.update key el (items d),
        fresh := Suc el\<rparr>)"

definition cache_put ::
  "decisionCache option \<Rightarrow> string \<Rightarrow> string \<Rightarrow> string \<Rightarrow> bool \<Rightarrow> decisionCache option" where
  "cache_put c sub obj act v =
     (case c of
        None \<Rightarrow> None
      | Some d \<Rightarrow>
          if maxSize d = 0 then c
          else if NUL \<in> set sub \<or> NUL \<in> set obj \<or> NUL \<in> set act then c
          else let key = cacheKey sub obj act in
            (case map_of (items d) key of
               Some el \<Rightarrow> Some (d\<lparr>order := list_moveToFront el (list_setValue el v (order d))\<rparr>)
             | None \<Rightarrow>
                 let d' = (if maxSize d \<le> int (length (order d)) then evictLRU d else d) in
                 Some (cache_insert d' key v)))"

text \<open>\<^verbatim>\<open>invalidateSub\<close> ranges over the map; each iteration deletes at most the current key.\<close>

definition drop_prefixed :: "string \<Rightarrow> string \<times> element \<Rightarrow> decisionCache \<Rightarrow> decisionCache" where
  "drop_prefixed pre kv d =
     (if length pre \<le> length (fst kv) \<and> take (length pre) (fst kv) = pre
      then d\<lparr>order := list_remove (snd kv) (order d), items := AList.delete (fst kv) (items d)\<rparr>
      else d)"

definition invalidateSub :: "decisionCache option \<Rightarrow> string \<Rightarrow> decisionCache option" where
  "invalidateSub c sub =
     (case c of
        None \<Rightarrow> None
      | Some d \<Rightarrow> if maxSize d = 0 then c else Some (fold (drop_prefixed (sub @ [NUL])) (items d) d))"

definition flush :: "decisionCache option \<Rightarrow> decisionCache option" where
  "flush c =
     (case c of
        None \<Rightarrow> None
      | Some d \<Rightarrow> if maxSize d = 0 then c else Some (d\<lparr>items := [], order := []\<rparr>))"

definition cache_len :: "decisionCache option \<Rightarrow> int" where
  "cache_len c = (case c of None \<Rightarrow> 0 | Some d \<Rightarrow> int (length (order d)))"

section \<open>The abstract LRU cache\<close>

text \<open>Key-value pairs, most recently used first.\<close>

type_synonym lru = "(string \<times> bool) list"

definition lru_get :: "string \<Rightarrow> lru \<Rightarrow> bool option \<times> lru" where
  "lru_get k l = (case map_of l k of None \<Rightarrow> (None, l) | Some v \<Rightarrow> (Some v, (k, v) # AList.delete k l))"

definition lru_put :: "nat \<Rightarrow> string \<Rightarrow> bool \<Rightarrow> lru \<Rightarrow> lru" where
  "lru_put cap k v l =
     (if map_of l k \<noteq> None then (k, v) # AList.delete k l else (k, v) # take (cap - 1) l)"

definition lru_drop :: "(string \<Rightarrow> bool) \<Rightarrow> lru \<Rightarrow> lru" where
  "lru_drop P l = filter (\<lambda>p. \<not> P (fst p)) l"

definition cache_abs :: "decisionCache \<Rightarrow> lru" where
  "cache_abs d = map (\<lambda>p. (ce_key (snd p), ce_value (snd p))) (order d)"

section \<open>The invariant\<close>

definition cache_inv :: "decisionCache \<Rightarrow> bool" where
  "cache_inv d \<longleftrightarrow>
     0 \<le> maxSize d \<and> int (length (order d)) \<le> maxSize d \<and>
     distinct (map fst (order d)) \<and> distinct (map fst (items d)) \<and>
     distinct (map (\<lambda>p. ce_key (snd p)) (order d)) \<and>
     (\<forall>p \<in> set (order d). fst p < fresh d) \<and>
     set (items d) = (\<lambda>p. (ce_key (snd p), fst p)) ` set (order d)"

lemma cache_inv_new: "0 \<le> n \<Longrightarrow> cache_inv (newDecisionCache n)"
  by (simp add: cache_inv_def newDecisionCache_def)

lemma items_iff:
  assumes "cache_inv d"
  shows "map_of (items d) k = Some el \<longleftrightarrow> (\<exists>e. (el, e) \<in> set (order d) \<and> ce_key e = k)"
proof -
  have "map_of (items d) k = Some el \<longleftrightarrow> (k, el) \<in> set (items d)"
    using assms by (intro map_of_Some_mem_distinct) (simp add: cache_inv_def)
  moreover have "set (items d) = (\<lambda>p. (ce_key (snd p), fst p)) ` set (order d)"
    using assms by (simp add: cache_inv_def)
  ultimately show ?thesis by (simp add: image_iff Bex_def) (metis fst_conv snd_conv surj_pair)
qed

lemma order_lookup:
  "cache_inv d \<Longrightarrow> map_of (order d) el = Some e \<longleftrightarrow> (el, e) \<in> set (order d)"
  by (rule map_of_Some_mem_distinct) (simp add: cache_inv_def)

lemma distinct_keys_abs: "cache_inv d \<Longrightarrow> distinct (map fst (cache_abs d))"
  by (simp add: cache_inv_def cache_abs_def comp_def)

lemma same_element:
  "cache_inv d \<Longrightarrow> p \<in> set (order d) \<Longrightarrow> q \<in> set (order d) \<Longrightarrow> ce_key (snd p) = ce_key (snd q) \<Longrightarrow> p = q"
  unfolding cache_inv_def distinct_map inj_on_def by blast

lemma same_key:
  "cache_inv d \<Longrightarrow> p \<in> set (order d) \<Longrightarrow> q \<in> set (order d) \<Longrightarrow> fst p = fst q \<Longrightarrow> p = q"
  unfolding cache_inv_def distinct_map inj_on_def by blast


text \<open>Any sublist of the order, with the matching map, is a cache again.\<close>

lemma cache_inv_filter:
  assumes "cache_inv d" and "distinct (map fst its)"
    and "set its = (\<lambda>p. (ce_key (snd p), fst p)) ` {p \<in> set (order d). P p}"
  shows "cache_inv (d\<lparr>order := filter P (order d), items := its\<rparr>)"
proof -
  have "int (length (filter P (order d))) \<le> int (length (order d))"
    by simp
  moreover have "int (length (order d)) \<le> maxSize d"
    using assms(1) by (simp add: cache_inv_def)
  ultimately have "int (length (filter P (order d))) \<le> maxSize d"
    by (rule order_trans)
  then show ?thesis
    using assms by (simp add: cache_inv_def distinct_map_filter)
qed

lemma key_filter_eq:
  assumes "cache_inv d" and "(el, e) \<in> set (order d)"
  shows "filter (\<lambda>p. fst p \<noteq> el) (order d) = filter (\<lambda>p. ce_key (snd p) \<noteq> ce_key e) (order d)"
proof (rule filter_cong [OF refl])
  fix p assume p: "p \<in> set (order d)"
  show "(fst p \<noteq> el) = (ce_key (snd p) \<noteq> ce_key e)"
    using same_key [OF assms(1) p assms(2)] same_element [OF assms(1) p assms(2)]
    by (metis fst_conv snd_conv)
qed

lemma abs_remove:
  assumes "cache_inv d" and "(el, e) \<in> set (order d)"
  shows "cache_abs (d\<lparr>order := list_remove el (order d), items := its\<rparr>)
         = AList.delete (ce_key e) (cache_abs d)"
  using key_filter_eq [OF assms]
  by (simp add: cache_abs_def list_remove_def AList.delete_eq filter_map comp_def case_prod_beta
      eq_commute [of "ce_key e"])

lemma items_delete_set:
  assumes "cache_inv d" and "(el, e) \<in> set (order d)"
  shows "set (AList.delete (ce_key e) (items d))
         = (\<lambda>p. (ce_key (snd p), fst p)) ` {p \<in> set (order d). fst p \<noteq> el}"
proof -
  have "{p \<in> set (order d). fst p \<noteq> el} = {p \<in> set (order d). ce_key (snd p) \<noteq> ce_key e}"
    using key_filter_eq [OF assms] by (metis set_filter)
  moreover have "set (items d) = (\<lambda>p. (ce_key (snd p), fst p)) ` set (order d)"
    using assms(1) by (simp add: cache_inv_def)
  ultimately show ?thesis by (auto simp: AList.delete_eq)
qed

lemma distinct_delete: "distinct (map fst m) \<Longrightarrow> distinct (map fst (AList.delete k m))"
  by (simp add: AList.delete_eq distinct_fst_filter)

lemma cache_inv_remove:
  assumes "cache_inv d" and "(el, e) \<in> set (order d)"
  shows "cache_inv (d\<lparr>order := list_remove el (order d), items := AList.delete (ce_key e) (items d)\<rparr>)"
  unfolding list_remove_def
  by (rule cache_inv_filter [OF assms(1)])
    (use assms in \<open>simp_all add: items_delete_set distinct_delete cache_inv_def\<close>)

lemma moveToFront_eq:
  assumes "cache_inv d" and "(el, e) \<in> set (order d)"
  shows "list_moveToFront el (order d) = (el, e) # list_remove el (order d)"
  using order_lookup [OF assms(1), THEN iffD2, OF assms(2)] by (simp add: list_moveToFront_def)

lemma mset_remove:
  assumes "cache_inv d" and "(el, e) \<in> set (order d)"
  shows "length (list_remove el (order d)) = length (order d) - 1"
proof -
  have dist: "distinct (order d)"
    using assms(1) by (auto simp: cache_inv_def distinct_map)
  have "list_remove el (order d) = removeAll (el, e) (order d)"
    unfolding list_remove_def removeAll_filter_not_eq
    by (rule filter_cong [OF refl]) (metis assms fst_conv same_key)
  then show ?thesis
    using dist assms(2) by (simp add: distinct_remove1_removeAll [symmetric] length_remove1)
qed

text \<open>Putting an entry back in front of the list it was removed from.\<close>

lemma order_insert_remove:
  assumes "cache_inv d" and "(el, e) \<in> set (order d)"
  shows "set (order d) = insert (el, e) (set (list_remove el (order d)))"
  using assms(2) by (auto simp: list_remove_def dest: same_key [OF assms])

lemma cache_inv_front:
  assumes "cache_inv d" and "(el, e) \<in> set (order d)" and "ce_key e' = ce_key e"
  shows "cache_inv (d\<lparr>order := (el, e') # list_remove el (order d)\<rparr>)"
proof -
  have len: "length (order d) > 0" using assms(2) by (cases "order d") auto
  have "int (length ((el, e') # list_remove el (order d))) \<le> maxSize d"
    using mset_remove [OF assms(1,2)] assms(1) len by (simp add: cache_inv_def)
  moreover have "(\<lambda>p. (ce_key (snd p), fst p)) ` set (order d) =
      (\<lambda>p. (ce_key (snd p), fst p)) ` set ((el, e') # list_remove el (order d))"
    unfolding order_insert_remove [OF assms(1,2)] using assms(3) by simp
  moreover have "ce_key e \<notin> (\<lambda>p. ce_key (snd p)) ` set (list_remove el (order d))"
  proof
    assume "ce_key e \<in> (\<lambda>p. ce_key (snd p)) ` set (list_remove el (order d))"
    then obtain p where "p \<in> set (order d)" "fst p \<noteq> el" "ce_key e = ce_key (snd p)"
      by (auto simp: list_remove_def)
    then show False using same_element [OF assms(1) _ assms(2), of p] by simp
  qed
  moreover have "el \<notin> fst ` set (list_remove el (order d))"
    by (auto simp: list_remove_def)
  moreover have "distinct (map fst (list_remove el (order d)))"
    and "distinct (map (\<lambda>p. ce_key (snd p)) (list_remove el (order d)))"
    and "\<forall>p \<in> set (list_remove el (order d)). fst p < fresh d" and "el < fresh d"
    using assms(1,2) by (auto simp: cache_inv_def list_remove_def distinct_map_filter)
  ultimately show ?thesis
    using assms(1,3) by (simp add: cache_inv_def)
qed

lemma length_le_cap: "cache_inv d \<Longrightarrow> int (length (order d)) \<le> maxSize d"
  by (simp add: cache_inv_def)

section \<open>The methods keep the invariant and refine the abstract cache\<close>

lemma abs_lookup:
  assumes "cache_inv d"
  shows "map_of (cache_abs d) k = Some v \<longleftrightarrow>
    (\<exists>el e. map_of (items d) k = Some el \<and> (el, e) \<in> set (order d) \<and> ce_key e = k \<and> ce_value e = v)"
proof -
  have "map_of (cache_abs d) k = Some v \<longleftrightarrow> (k, v) \<in> set (cache_abs d)"
    by (rule map_of_Some_mem_distinct [OF distinct_keys_abs [OF assms]])
  also have "\<dots> \<longleftrightarrow> (\<exists>el e. (el, e) \<in> set (order d) \<and> ce_key e = k \<and> ce_value e = v)"
    by (force simp: cache_abs_def)
  finally show ?thesis using items_iff [OF assms] by blast
qed

lemma abs_lookup_None:
  assumes "cache_inv d"
  shows "map_of (cache_abs d) k = None \<longleftrightarrow> map_of (items d) k = None"
proof (cases "map_of (items d) k")
  case None
  then have "map_of (cache_abs d) k \<noteq> Some v" for v
    using abs_lookup [OF assms] by simp
  with None show ?thesis by (metis not_Some_eq)
next
  case (Some el)
  then obtain e where "(el, e) \<in> set (order d)" "ce_key e = k"
    using items_iff [OF assms] by blast
  then have "map_of (cache_abs d) k = Some (ce_value e)"
    using abs_lookup [OF assms] Some by blast
  with Some show ?thesis by simp
qed

lemma evict_eq:
  assumes "cache_inv d" and "order d \<noteq> []"
  shows "evictLRU d = d\<lparr>order := butlast (order d),
           items := AList.delete (ce_key (snd (last (order d)))) (items d)\<rparr>"
proof -
  have ol: "order d = butlast (order d) @ [last (order d)]"
    using assms(2) by simp
  have "distinct (map fst (order d))"
    using assms(1) by (simp add: cache_inv_def)
  then have "fst (last (order d)) \<notin> fst ` set (butlast (order d))"
    by (subst (asm) ol) (simp add: map_append)
  then have "filter (\<lambda>p. fst p \<noteq> fst (last (order d))) (butlast (order d)) = butlast (order d)"
    by (subst filter_id_conv) (metis imageI)
  then have "list_remove (fst (last (order d))) (order d) = butlast (order d)"
    unfolding list_remove_def by (subst (2) ol) simp
  then show ?thesis
    using assms(2) by (simp add: evictLRU_def list_back_def)
qed

lemma cache_inv_evict: "cache_inv d \<Longrightarrow> cache_inv (evictLRU d)"
proof (cases "order d = []")
  case False
  assume inv: "cache_inv d"
  have "(fst (last (order d)), snd (last (order d))) \<in> set (order d)"
    using False by simp
  from cache_inv_remove [OF inv this] show ?thesis
    using False by (simp add: evictLRU_def list_back_def)
qed (simp add: evictLRU_def list_back_def)

lemma abs_evict: "cache_inv d \<Longrightarrow> cache_abs (evictLRU d) = butlast (cache_abs d)"
  by (cases "order d = []")
    (simp add: evictLRU_def list_back_def cache_abs_def, simp add: evict_eq cache_abs_def map_butlast)


text \<open>\<^verbatim>\<open>get\<close>.\<close>

lemma cache_get_inv:
  assumes "cache_inv d" and "cache_get (Some d) sub obj act = (r, Some d')"
  shows "cache_inv d' \<and> maxSize d' = maxSize d"
proof (cases "map_of (items d) (cacheKey sub obj act)")
  case None
  with assms show ?thesis by (auto simp: cache_get_def split: if_splits)
next
  case (Some el)
  then obtain e where "(el, e) \<in> set (order d)"
    using items_iff [OF assms(1)] by blast
  with assms Some show ?thesis
    using moveToFront_eq [OF assms(1), of el e] cache_inv_front [OF assms(1), of el e e]
    by (auto simp: cache_get_def split: if_splits)
qed

lemma cache_get_refines:
  assumes "cache_inv d" and "maxSize d \<noteq> 0" and "NUL \<notin> set sub \<union> set obj \<union> set act"
  shows "\<exists>d'. snd (cache_get (Some d) sub obj act) = Some d' \<and>
     cache_abs d' = snd (lru_get (cacheKey sub obj act) (cache_abs d)) \<and>
     fst (cache_get (Some d) sub obj act) =
       (case fst (lru_get (cacheKey sub obj act) (cache_abs d)) of
          None \<Rightarrow> (False, False) | Some v \<Rightarrow> (v, True))"
proof (cases "map_of (items d) (cacheKey sub obj act)")
  case None
  with assms show ?thesis
    using abs_lookup_None [OF assms(1), THEN iffD2, OF None] by (simp add: cache_get_def lru_get_def)
next
  case (Some el)
  then obtain e where e: "(el, e) \<in> set (order d)" "ce_key e = cacheKey sub obj act"
    using items_iff [OF assms(1)] by blast
  have l: "map_of (cache_abs d) (cacheKey sub obj act) = Some (ce_value e)"
    using abs_lookup [OF assms(1)] Some e by blast
  have a: "map (\<lambda>p. (ce_key (snd p), ce_value (snd p))) (list_remove el (order d)) =
      AList.delete (cacheKey sub obj act) (cache_abs d)"
    using abs_remove [OF assms(1) e(1), of "items d"] e(2) by (simp add: cache_abs_def)
  show ?thesis
    using assms Some e l a moveToFront_eq [OF assms(1) e(1)]
    by (simp add: cache_get_def lru_get_def cache_abs_def Let_def)
qed

text \<open>\<^verbatim>\<open>put\<close>.\<close>

lemma cache_inv_insert:
  assumes "cache_inv d" and "int (length (order d)) < maxSize d" and "map_of (items d) k = None"
  shows "cache_inv (cache_insert d k v)"
proof -
  have new_key: "k \<notin> (\<lambda>p. ce_key (snd p)) ` set (order d)"
  proof
    assume "k \<in> (\<lambda>p. ce_key (snd p)) ` set (order d)"
    then obtain el e where "(el, e) \<in> set (order d)" "ce_key e = k" by auto
    then have "map_of (items d) k = Some el" using items_iff [OF assms(1)] by blast
    with assms(3) show False by simp
  qed
  have "fresh d \<notin> fst ` set (order d)"
    using assms(1) by (auto simp: cache_inv_def)
  moreover have "k \<notin> fst ` set (items d)"
    using assms(3) by (simp add: map_of_eq_None_iff)
  ultimately show ?thesis
    using assms new_key
    by (auto simp: cache_inv_def cache_insert_def alist_update_new less_Suc_eq Let_def)
qed


lemma setValue_eq:
  assumes "cache_inv d" and "(el, e) \<in> set (order d)"
  shows "list_moveToFront el (list_setValue el v (order d))
         = (el, e\<lparr>ce_value := v\<rparr>) # list_remove el (order d)"
proof -
  have "map_of (list_setValue el v l) el = map_option (\<lambda>e. e\<lparr>ce_value := v\<rparr>) (map_of l el)" for l
    by (induction l) (auto simp: list_setValue_def)
  moreover have "list_remove el (list_setValue el v l) = list_remove el l" for l
    by (induction l) (auto simp: list_setValue_def list_remove_def)
  ultimately show ?thesis
    using order_lookup [OF assms(1), THEN iffD2, OF assms(2)]
    by (simp add: list_moveToFront_def)
qed

lemma evict_length:
  assumes "cache_inv d" and "0 < maxSize d"
  shows "int (length (order (if maxSize d \<le> int (length (order d)) then evictLRU d else d))) < maxSize d"
proof (cases "maxSize d \<le> int (length (order d))")
  case True
  then have "order d \<noteq> []" using assms(2) by auto
  with True assms length_le_cap [OF assms(1)] show ?thesis
    by (simp add: evict_eq)
qed simp

lemma evict_items_None:
  "cache_inv d \<Longrightarrow> map_of (items d) k = None \<Longrightarrow> map_of (items (evictLRU d)) k = None"
  by (simp add: evictLRU_def split: option.split)

lemma evict_maxSize [simp]: "maxSize (evictLRU d) = maxSize d"
  by (simp add: evictLRU_def split: option.split)

lemma cache_put_inv:
  assumes "cache_inv d" and "cache_put (Some d) sub obj act v = Some d'"
  shows "cache_inv d' \<and> maxSize d' = maxSize d"
proof (cases "maxSize d = 0 \<or> NUL \<in> set sub \<union> set obj \<union> set act")
  case True
  with assms show ?thesis by (auto simp: cache_put_def split: if_splits)
next
  case on: False
  let ?k = "cacheKey sub obj act"
  show ?thesis
  proof (cases "map_of (items d) ?k")
    case (Some el)
    then obtain e where "(el, e) \<in> set (order d)"
      using items_iff [OF assms(1)] by blast
    with assms Some on show ?thesis
      using setValue_eq [OF assms(1), of el e v] cache_inv_front [OF assms(1), of el e "e\<lparr>ce_value := v\<rparr>"]
      by (auto simp: cache_put_def)
  next
    case None
    let ?d = "if maxSize d \<le> int (length (order d)) then evictLRU d else d"
    have "0 < maxSize d" using assms(1) on by (simp add: cache_inv_def)
    moreover have "cache_inv ?d" using assms(1) cache_inv_evict by simp
    moreover have "map_of (items ?d) ?k = None"
      using evict_items_None [OF assms(1) None] None by simp
    moreover have "maxSize ?d = maxSize d" by simp
    ultimately have "cache_inv (cache_insert ?d ?k v)"
      using evict_length [OF assms(1)] by (intro cache_inv_insert) simp_all
    with assms(2) on None show ?thesis
      by (auto simp: cache_put_def Let_def cache_insert_def)
  qed
qed

lemma cache_put_refines:
  assumes "cache_inv d" and "maxSize d \<noteq> 0" and "NUL \<notin> set sub \<union> set obj \<union> set act"
  shows "\<exists>d'. cache_put (Some d) sub obj act v = Some d' \<and>
     cache_abs d' = lru_put (nat (maxSize d)) (cacheKey sub obj act) v (cache_abs d)"
proof (cases "map_of (items d) (cacheKey sub obj act)")
  case (Some el)
  then obtain e where e: "(el, e) \<in> set (order d)" "ce_key e = cacheKey sub obj act"
    using items_iff [OF assms(1)] by blast
  have l: "map_of (cache_abs d) (cacheKey sub obj act) \<noteq> None"
    using abs_lookup_None [OF assms(1)] Some by simp
  have a: "map (\<lambda>p. (ce_key (snd p), ce_value (snd p))) (list_remove el (order d)) =
      AList.delete (cacheKey sub obj act) (cache_abs d)"
    using abs_remove [OF assms(1) e(1), of "items d"] e(2) by (simp add: cache_abs_def)
  show ?thesis
    using assms(2,3) Some e l a setValue_eq [OF assms(1) e(1), of v]
    by (auto simp: cache_put_def lru_put_def cache_abs_def Let_def)
next
  case None
  let ?k = "cacheKey sub obj act"
  have "cache_abs (if maxSize d \<le> int (length (order d)) then evictLRU d else d)
        = take (nat (maxSize d) - 1) (cache_abs d)"
  proof (cases "maxSize d \<le> int (length (order d))")
    case True
    then have "nat (maxSize d) = length (cache_abs d)"
      using length_le_cap [OF assms(1)] by (simp add: cache_abs_def)
    with True show ?thesis
      using abs_evict [OF assms(1)] by (simp add: butlast_conv_take)
  next
    case False
    then show ?thesis by (simp add: cache_abs_def)
  qed
  moreover have "map_of (cache_abs d) ?k = None"
    using abs_lookup_None [OF assms(1)] None by simp
  ultimately show ?thesis
    using assms(2,3) None
    by (auto simp: cache_put_def lru_put_def cache_insert_def cache_abs_def Let_def)
qed


lemma drop_prefixed_key:
  assumes "cache_inv d" and "map_of (items d) k = Some el"
  shows "d\<lparr>order := list_remove el (order d), items := AList.delete k (items d)\<rparr>
         = d\<lparr>order := filter (\<lambda>p. ce_key (snd p) \<noteq> k) (order d), items := filter (\<lambda>kv. fst kv \<noteq> k) (items d)\<rparr>"
proof -
  obtain e where "(el, e) \<in> set (order d)" "ce_key e = k"
    using assms items_iff by blast
  then show ?thesis
    using key_filter_eq [OF assms(1)] by (simp add: list_remove_def AList.delete_eq case_prod_unfold eq_commute [of k])
qed

definition restrict_keys :: "(string \<Rightarrow> bool) \<Rightarrow> decisionCache \<Rightarrow> decisionCache" where
  "restrict_keys P d = d\<lparr>order := filter (\<lambda>p. P (ce_key (snd p))) (order d), items := filter (\<lambda>kv. P (fst kv)) (items d)\<rparr>"

lemma restrict_keys_inv:
  assumes "cache_inv d"
  shows "cache_inv (restrict_keys P d)"
  unfolding restrict_keys_def
proof (rule cache_inv_filter [OF assms])
  show "distinct (map fst (filter (\<lambda>kv. P (fst kv)) (items d)))"
    using assms by (simp add: cache_inv_def distinct_map_filter)
  have "set (items d) = (\<lambda>p. (ce_key (snd p), fst p)) ` set (order d)"
    using assms by (simp add: cache_inv_def)
  then show "set (filter (\<lambda>kv. P (fst kv)) (items d)) =
      (\<lambda>p. (ce_key (snd p), fst p)) ` {p \<in> set (order d). P (ce_key (snd p))}"
    by auto
qed

lemma restrict_keys_abs: "cache_abs (restrict_keys P d) = filter (\<lambda>p. P (fst p)) (cache_abs d)"
  by (simp add: restrict_keys_def cache_abs_def filter_map comp_def)

lemma restrict_keys_lookup:
  "map_of (cache_abs (restrict_keys P d)) k = (if P k then map_of (cache_abs d) k else None)"
  unfolding restrict_keys_abs by (rule map_of_filter_key)

lemma restrict_keys_twice: "restrict_keys P (restrict_keys Q d) = restrict_keys (\<lambda>k. P k \<and> Q k) d"
  by (simp add: restrict_keys_def conj_commute)

lemma has_prefix_take: "length pre \<le> length k \<and> take (length pre) k = pre \<longleftrightarrow> has_prefix k pre"
  by (auto simp: has_prefix_iff) (metis append_take_drop_id)

lemma drop_prefixed_eq:
  assumes "cache_inv d" and "map_of (items d) k = Some el"
  shows "drop_prefixed pre (k, el) d = restrict_keys (\<lambda>k'. \<not> (k' = k \<and> has_prefix k pre)) d"
proof (cases "has_prefix k pre")
  case True
  then show ?thesis
    using drop_prefixed_key [OF assms] by (simp add: drop_prefixed_def has_prefix_take restrict_keys_def)
next
  case False
  then show ?thesis
    by (simp add: drop_prefixed_def has_prefix_take restrict_keys_def)
qed

lemma fold_drop_prefixed:
  "cache_inv d \<Longrightarrow> distinct (map fst kvs) \<Longrightarrow> \<forall>kv \<in> set kvs. map_of (items d) (fst kv) = Some (snd kv) \<Longrightarrow>
   fold (drop_prefixed pre) kvs d = restrict_keys (\<lambda>k. \<not> (k \<in> fst ` set kvs \<and> has_prefix k pre)) d"
proof (induction kvs arbitrary: d)
  case Nil
  then show ?case by (simp add: restrict_keys_def)
next
  case (Cons kv kvs)
  let ?P = "\<lambda>k'. \<not> (k' = fst kv \<and> has_prefix (fst kv) pre)"
  have step: "drop_prefixed pre kv d = restrict_keys ?P d"
    using drop_prefixed_eq [OF Cons.prems(1), of "fst kv" "snd kv"] Cons.prems(3) by simp
  have "map_of (items (restrict_keys ?P d)) (fst q) = Some (snd q)" if "q \<in> set kvs" for q
  proof -
    have "fst q \<noteq> fst kv" using Cons.prems(2) that by (auto simp: image_iff)
    then show ?thesis
      using Cons.prems(3) that
      by (simp add: restrict_keys_def map_of_filter_key [where P = ?P] del: de_Morgan_conj)
  qed
  then have "fold (drop_prefixed pre) kvs (restrict_keys ?P d) =
     restrict_keys (\<lambda>k. \<not> (k \<in> fst ` set kvs \<and> has_prefix k pre)) (restrict_keys ?P d)"
    using Cons.prems(2) by (intro Cons.IH restrict_keys_inv Cons.prems(1)) auto
  also have "\<dots> = restrict_keys (\<lambda>k. \<not> (k \<in> fst ` set (kv # kvs) \<and> has_prefix k pre)) d"
    unfolding restrict_keys_twice by (rule arg_cong [where f = "\<lambda>P. restrict_keys P d"]) auto
  finally show ?case by (simp add: step)
qed

lemma invalidateSub_eq:
  assumes "cache_inv d" and "maxSize d \<noteq> 0"
  shows "invalidateSub (Some d) sub = Some (restrict_keys (\<lambda>k. \<not> has_prefix k (sub @ [NUL])) d)"
proof -
  have dist: "distinct (map fst (items d))" using assms(1) by (simp add: cache_inv_def)
  have "fold (drop_prefixed (sub @ [NUL])) (items d) d =
     restrict_keys (\<lambda>k. \<not> (k \<in> fst ` set (items d) \<and> has_prefix k (sub @ [NUL]))) d"
    using dist by (intro fold_drop_prefixed [OF assms(1)]) auto
  also have "\<dots> = restrict_keys (\<lambda>k. \<not> has_prefix k (sub @ [NUL])) d"
  proof -
    have "fst ` set (items d) = (\<lambda>p. ce_key (snd p)) ` set (order d)"
      using assms(1) by (simp add: cache_inv_def image_image)
    then have o: "ce_key (snd p) \<in> fst ` set (items d)" if "p \<in> set (order d)" for p
      using that by simp
    have "filter (\<lambda>p. \<not> (ce_key (snd p) \<in> fst ` set (items d) \<and> has_prefix (ce_key (snd p)) (sub @ [NUL]))) (order d)
        = filter (\<lambda>p. \<not> has_prefix (ce_key (snd p)) (sub @ [NUL])) (order d)"
      using o by (intro filter_cong) blast+
    moreover have "filter (\<lambda>kv. \<not> (fst kv \<in> fst ` set (items d) \<and> has_prefix (fst kv) (sub @ [NUL]))) (items d)
        = filter (\<lambda>kv. \<not> has_prefix (fst kv) (sub @ [NUL])) (items d)"
      by (intro filter_cong) auto
    ultimately show ?thesis unfolding restrict_keys_def by (rule arg_cong2)
  qed
  finally show ?thesis using assms(2) by (simp add: invalidateSub_def)
qed

lemma cacheKey_inj:
  assumes "NUL \<notin> set s \<union> set ob" and "NUL \<notin> set s' \<union> set ob'"
  shows "cacheKey s ob a = cacheKey s' ob' a' \<longleftrightarrow> s = s' \<and> ob = ob' \<and> a = a'"
  using assms by (auto simp: cacheKey_def append_eq_append_conv2 append_eq_Cons_conv Cons_eq_append_conv)

lemma cacheKey_prefix:
  assumes "NUL \<notin> set s" and "NUL \<notin> set sub"
  shows "has_prefix (cacheKey s ob a) (sub @ [NUL]) \<longleftrightarrow> s = sub"
  using assms by (auto simp: cacheKey_def has_prefix_iff append_eq_append_conv2 append_eq_Cons_conv Cons_eq_append_conv)


section \<open>The cache as a store of decisions\<close>

definition has_nul :: "string \<Rightarrow> string \<Rightarrow> string \<Rightarrow> bool" where
  "has_nul sub obj act \<longleftrightarrow> NUL \<in> set sub \<union> set obj \<union> set act"

definition cache_ok :: "decisionCache option \<Rightarrow> bool" where
  "cache_ok c \<longleftrightarrow> (case c of None \<Rightarrow> True | Some d \<Rightarrow> cache_inv d)"

definition cached :: "decisionCache option \<Rightarrow> string \<Rightarrow> string \<Rightarrow> string \<Rightarrow> bool option" where
  "cached c sub obj act =
     (case c of None \<Rightarrow> None
      | Some d \<Rightarrow> if has_nul sub obj act then None else map_of (cache_abs d) (cacheKey sub obj act))"

lemma cache_inv_empty: "cache_inv d \<Longrightarrow> maxSize d = 0 \<Longrightarrow> cache_abs d = []"
  by (simp add: cache_inv_def cache_abs_def)

lemma lru_get_lookup: "map_of (snd (lru_get k l)) = map_of l"
  by (auto simp: lru_get_def split: option.split)

definition cache_off :: "decisionCache option \<Rightarrow> bool" where
  "cache_off c \<longleftrightarrow> (case c of None \<Rightarrow> True | Some d \<Rightarrow> maxSize d = 0)"

lemma cache_off_cached: "cache_ok c \<Longrightarrow> cache_off c \<Longrightarrow> cached c sub obj act = None"
  by (auto simp: cache_ok_def cache_off_def cached_def cache_inv_empty split: option.splits)

lemma cache_skip:
  assumes "cache_off c \<or> has_nul sub obj act"
  shows "cache_get c sub obj act = ((False, False), c)" and "cache_put c sub obj act v = c"
  using assms by (auto simp: cache_off_def has_nul_def cache_get_def cache_put_def split: option.splits)

lemma cached_nul: "has_nul sub obj act \<Longrightarrow> cached c sub obj act = None"
  by (simp add: cached_def split: option.split)

lemma cached_get:
  assumes "cache_ok c"
  shows "fst (cache_get c sub obj act) = (case cached c sub obj act of None \<Rightarrow> (False, False) | Some v \<Rightarrow> (v, True)) \<and>
    cached (snd (cache_get c sub obj act)) = cached c \<and> cache_ok (snd (cache_get c sub obj act))"
proof (cases "cache_off c \<or> has_nul sub obj act")
  case True
  then have "cached c sub obj act = None"
    using cache_off_cached [OF assms] cached_nul by blast
  with assms cache_skip(1) [OF True] show ?thesis by simp
next
  case False
  then obtain d where d: "c = Some d" "maxSize d \<noteq> 0" "\<not> has_nul sub obj act" "cache_inv d"
    using assms by (auto simp: cache_off_def cache_ok_def split: option.splits)
  obtain d' where g: "snd (cache_get (Some d) sub obj act) = Some d'"
      "cache_abs d' = snd (lru_get (cacheKey sub obj act) (cache_abs d))"
      "fst (cache_get (Some d) sub obj act) =
       (case fst (lru_get (cacheKey sub obj act) (cache_abs d)) of None \<Rightarrow> (False, False) | Some v \<Rightarrow> (v, True))"
    using cache_get_refines [OF d(4,2)] d(3) unfolding has_nul_def by blast
  have inv: "cache_inv d'"
    using cache_get_inv [OF d(4)] g(1) by (metis prod.collapse)
  have "fst (lru_get k l) = map_of l k" for k l
    by (simp add: lru_get_def split: option.split)
  with d g inv show ?thesis
    by (auto simp: cached_def cache_ok_def lru_get_lookup fun_eq_iff)
qed

lemma lru_put_lookup:
  assumes "distinct (map fst l)" and "map_of (lru_put n k v l) k' = Some w"
  shows "if k' = k then w = v else map_of l k' = Some w"
proof (cases "map_of l k")
  case None
  have "map_of (take (n - 1) l) k' = Some w \<Longrightarrow> map_of l k' = Some w"
    using map_of_Some_mem_distinct [of l] map_of_Some_mem_distinct [of "take (n - 1) l"] assms(1)
      set_take_subset [of "n - 1" l] by (simp add: distinct_take subset_iff take_map [symmetric])
  with None assms(2) show ?thesis by (auto simp: lru_put_def split: if_splits)
next
  case (Some u)
  with assms(2) show ?thesis by (auto simp: lru_put_def split: if_splits)
qed

lemma cached_put:
  assumes "cache_ok c"
  shows "cache_ok (cache_put c sub obj act v) \<and>
    (cached (cache_put c sub obj act v) s ob a = Some w \<longrightarrow>
     (if (s, ob, a) = (sub, obj, act) then w = v else cached c s ob a = Some w))"
proof (cases "cache_off c \<or> has_nul sub obj act")
  case True
  then have "cached c sub obj act = None"
    using cache_off_cached [OF assms] cached_nul by blast
  with assms show ?thesis by (auto simp: cache_skip(2) [OF True])
next
  case False
  then obtain d where d: "c = Some d" "maxSize d \<noteq> 0" "\<not> has_nul sub obj act" "cache_inv d"
    using assms by (auto simp: cache_off_def cache_ok_def split: option.splits)
  obtain d' where p: "cache_put (Some d) sub obj act v = Some d'"
      "cache_abs d' = lru_put (nat (maxSize d)) (cacheKey sub obj act) v (cache_abs d)"
    using cache_put_refines [OF d(4,2)] d(3) unfolding has_nul_def by blast
  have "cached (Some d') s ob a = Some w \<Longrightarrow>
        (if (s, ob, a) = (sub, obj, act) then w = v else cached (Some d) s ob a = Some w)"
    using lru_put_lookup [OF distinct_keys_abs [OF d(4)], of "nat (maxSize d)" "cacheKey sub obj act" v "cacheKey s ob a" w]
      cacheKey_inj [of s ob sub obj a act] d(3) p(2)
    by (auto simp: cached_def has_nul_def split: if_splits)
  with d p cache_put_inv [OF d(4) p(1)] show ?thesis by (simp add: cache_ok_def)
qed

lemma cached_invalidateSub:
  assumes "cache_ok c"
  shows "cache_ok (invalidateSub c sub) \<and> cached (invalidateSub c sub) sub ob a = None \<and>
    (cached (invalidateSub c sub) s ob a = Some w \<longrightarrow> cached c s ob a = Some w)"
proof (cases "cache_off c")
  case True
  then have "invalidateSub c sub = c"
    by (auto simp: cache_off_def invalidateSub_def split: option.splits)
  with assms cache_off_cached [OF assms True] show ?thesis by simp
next
  case False
  then obtain d where d: "c = Some d" "maxSize d \<noteq> 0" "cache_inv d"
    using assms by (auto simp: cache_off_def cache_ok_def split: option.splits)
  have "\<not> has_nul sub ob a \<Longrightarrow> has_prefix (cacheKey sub ob a) (sub @ [NUL])"
    by (simp add: cacheKey_prefix has_nul_def)
  then show ?thesis
    using invalidateSub_eq [OF d(3,2), of sub] restrict_keys_inv [OF d(3)] d(1)
    by (auto simp: cached_def cache_ok_def restrict_keys_lookup split: if_splits)
qed

lemma invalidateSub_keeps:
  assumes "cache_ok c" and "NUL \<notin> set sub" and "s \<noteq> sub"
  shows "cached (invalidateSub c sub) s ob a = cached c s ob a"
proof (cases "cache_off c")
  case True
  then have "invalidateSub c sub = c"
    by (auto simp: cache_off_def invalidateSub_def split: option.splits)
  then show ?thesis by simp
next
  case False
  then obtain d where d: "c = Some d" "maxSize d \<noteq> 0" "cache_inv d"
    using assms by (auto simp: cache_off_def cache_ok_def split: option.splits)
  have "\<not> has_nul s ob a \<Longrightarrow> \<not> has_prefix (cacheKey s ob a) (sub @ [NUL])"
    using assms(2,3) by (simp add: cacheKey_prefix has_nul_def)
  then show ?thesis
    using invalidateSub_eq [OF d(3,2), of sub] d(1)
    by (auto simp: cached_def restrict_keys_lookup)
qed

lemma cached_flush:
  assumes "cache_ok c"
  shows "cache_ok (flush c) \<and> cached (flush c) s ob a = None"
  using assms cache_inv_empty
  by (auto simp: cache_ok_def cached_def flush_def cache_inv_def cache_abs_def split: option.split)

text \<open>
  What a client of the cache relies on. An entry is the last value put under its triple; nothing is
  promised about how long it stays.
\<close>

locale decision_store =
  fixes ok :: "'c \<Rightarrow> bool"
    and lookup :: "'c \<Rightarrow> string \<Rightarrow> string \<Rightarrow> string \<Rightarrow> bool option"
    and get :: "'c \<Rightarrow> string \<Rightarrow> string \<Rightarrow> string \<Rightarrow> (bool \<times> bool) \<times> 'c"
    and put :: "'c \<Rightarrow> string \<Rightarrow> string \<Rightarrow> string \<Rightarrow> bool \<Rightarrow> 'c"
    and drop_sub :: "'c \<Rightarrow> string \<Rightarrow> 'c"
    and clear :: "'c \<Rightarrow> 'c"
  assumes get_law: "ok c \<Longrightarrow>
      fst (get c s ob a) = (case lookup c s ob a of None \<Rightarrow> (False, False) | Some v \<Rightarrow> (v, True)) \<and>
      lookup (snd (get c s ob a)) = lookup c \<and> ok (snd (get c s ob a))"
    and put_law: "ok c \<Longrightarrow> ok (put c s ob a v) \<and>
      (lookup (put c s ob a v) s' ob' a' = Some w \<longrightarrow>
       (if (s', ob', a') = (s, ob, a) then w = v else lookup c s' ob' a' = Some w))"
    and drop_law: "ok c \<Longrightarrow> ok (drop_sub c s) \<and> lookup (drop_sub c s) s ob a = None \<and>
      (lookup (drop_sub c s) s' ob a = Some w \<longrightarrow> lookup c s' ob a = Some w)"
    and clear_law: "ok c \<Longrightarrow> ok (clear c) \<and> lookup (clear c) s ob a = None"
begin

definition coherent :: "(string \<Rightarrow> string \<Rightarrow> string \<Rightarrow> bool \<Rightarrow> bool) \<Rightarrow> 'c \<Rightarrow> bool" where
  "coherent R c \<longleftrightarrow> ok c \<and> (\<forall>s ob a v. lookup c s ob a = Some v \<longrightarrow> R s ob a v)"

lemma coherent_get: "coherent R c \<Longrightarrow> coherent R (snd (get c s ob a))"
  using get_law by (simp add: coherent_def)

lemma coherent_hit: "coherent R c \<Longrightarrow> fst (get c s ob a) = (v, True) \<Longrightarrow> R s ob a v"
  using get_law [of c s ob a] by (auto simp: coherent_def split: option.splits)

lemma coherent_put:
  assumes "coherent R c" and "R s ob a v"
  shows "coherent R (put c s ob a v)"
proof -
  have "R s' ob' a' w" if "lookup (put c s ob a v) s' ob' a' = Some w" for s' ob' a' w
    using put_law [of c s ob a v s' ob' a' w] assms that
    by (cases "(s', ob', a') = (s, ob, a)") (auto simp: coherent_def)
  moreover have "ok (put c s ob a v)" using put_law assms(1) by (blast dest: coherent_def [THEN iffD1])
  ultimately show ?thesis by (simp add: coherent_def)
qed

lemma coherent_drop:
  assumes "coherent R c" and "\<And>s' ob a v. s' \<noteq> s \<Longrightarrow> R s' ob a v \<Longrightarrow> R' s' ob a v"
  shows "coherent R' (drop_sub c s)"
proof -
  have "R' s' ob a v" if "lookup (drop_sub c s) s' ob a = Some v" for s' ob a v
    using drop_law [of c s ob a s' v] assms that by (cases "s' = s") (auto simp: coherent_def)
  moreover have "ok (drop_sub c s)" using drop_law assms(1) by (blast dest: coherent_def [THEN iffD1])
  ultimately show ?thesis by (simp add: coherent_def)
qed

lemma coherent_clear: "coherent R c \<Longrightarrow> coherent R' (clear c)"
  using clear_law by (simp add: coherent_def)

end

interpretation dc: decision_store cache_ok cached cache_get cache_put invalidateSub flush
  using cached_get cached_put cached_invalidateSub cached_flush by unfold_locales blast+


section \<open>Sequences of operations\<close>

datatype cache_op = CGet string string string | CPut string string string bool | CInvalidate string | CFlush

primrec cache_step :: "cache_op \<Rightarrow> decisionCache option \<Rightarrow> (bool \<times> bool) \<times> decisionCache option" where
  "cache_step (CGet s ob a) c = cache_get c s ob a"
| "cache_step (CPut s ob a v) c = ((False, False), cache_put c s ob a v)"
| "cache_step (CInvalidate s) c = ((False, False), invalidateSub c s)"
| "cache_step CFlush c = ((False, False), flush c)"

primrec lru_step :: "nat \<Rightarrow> cache_op \<Rightarrow> lru \<Rightarrow> (bool \<times> bool) \<times> lru" where
  "lru_step cap (CGet s ob a) l =
     (if has_nul s ob a then ((False, False), l)
      else (case fst (lru_get (cacheKey s ob a) l) of None \<Rightarrow> (False, False) | Some v \<Rightarrow> (v, True),
            snd (lru_get (cacheKey s ob a) l)))"
| "lru_step cap (CPut s ob a v) l =
     ((False, False), if has_nul s ob a then l else lru_put cap (cacheKey s ob a) v l)"
| "lru_step cap (CInvalidate s) l = ((False, False), lru_drop (\<lambda>k. has_prefix k (s @ [NUL])) l)"
| "lru_step cap CFlush l = ((False, False), [])"

primrec run_ops :: "('o \<Rightarrow> 's \<Rightarrow> 'r \<times> 's) \<Rightarrow> 'o list \<Rightarrow> 's \<Rightarrow> 'r list \<times> 's" where
  "run_ops step [] s = ([], s)"
| "run_ops step (op # ops) s =
     (let (r, s1) = step op s; (rs, s2) = run_ops step ops s1 in (r # rs, s2))"

definition lru_example :: "cache_op list" where
  "lru_example =
     [CPut ''u'' ''o'' ''r'' True, CPut ''v'' ''o'' ''r'' False, CGet ''u'' ''o'' ''r'', CPut ''w'' ''o'' ''r'' True,
      CGet ''v'' ''o'' ''r'', CGet ''u'' ''o'' ''r'', CInvalidate ''u'', CGet ''u'' ''o'' ''r'', CGet ''w'' ''o'' ''r'']"

lemma cache_step_refines:
  assumes "cache_inv d" and "maxSize d \<noteq> 0"
  shows "\<exists>d'. cache_step op (Some d) = (fst (lru_step (nat (maxSize d)) op (cache_abs d)), Some d') \<and>
     cache_abs d' = snd (lru_step (nat (maxSize d)) op (cache_abs d)) \<and>
     cache_inv d' \<and> maxSize d' = maxSize d"
proof (cases op)
  case (CGet s ob a)
  show ?thesis
  proof (cases "has_nul s ob a")
    case True
    then show ?thesis using assms CGet by (simp add: cache_skip)
  next
    case False
    then obtain d' where "snd (cache_get (Some d) s ob a) = Some d'"
      "cache_abs d' = snd (lru_get (cacheKey s ob a) (cache_abs d))"
      "fst (cache_get (Some d) s ob a) =
       (case fst (lru_get (cacheKey s ob a) (cache_abs d)) of None \<Rightarrow> (False, False) | Some v \<Rightarrow> (v, True))"
      using cache_get_refines [OF assms] unfolding has_nul_def by blast
    with False CGet cache_get_inv [OF assms(1), of s ob a] show ?thesis
      by (cases "cache_get (Some d) s ob a") auto
  qed
next
  case (CPut s ob a v)
  show ?thesis
  proof (cases "has_nul s ob a")
    case True
    then show ?thesis using assms CPut by (simp add: cache_skip)
  next
    case False
    then obtain d' where "cache_put (Some d) s ob a v = Some d'"
      "cache_abs d' = lru_put (nat (maxSize d)) (cacheKey s ob a) v (cache_abs d)"
      using cache_put_refines [OF assms] unfolding has_nul_def by blast
    with False CPut cache_put_inv [OF assms(1)] show ?thesis by auto
  qed
next
  case (CInvalidate s)
  have "maxSize (restrict_keys P d) = maxSize d" for P by (simp add: restrict_keys_def)
  with CInvalidate show ?thesis
    using restrict_keys_inv [OF assms(1)] by (simp add: invalidateSub_eq [OF assms] restrict_keys_abs lru_drop_def)
next
  case CFlush
  with assms show ?thesis by (simp add: flush_def cache_inv_def cache_abs_def)
qed

lemma run_ops_refines:
  "cache_inv d \<Longrightarrow> maxSize d \<noteq> 0 \<Longrightarrow>
   \<exists>d'. run_ops cache_step ops (Some d) = (fst (run_ops (lru_step (nat (maxSize d))) ops (cache_abs d)), Some d') \<and>
     cache_abs d' = snd (run_ops (lru_step (nat (maxSize d))) ops (cache_abs d)) \<and>
     cache_inv d' \<and> maxSize d' = maxSize d"
proof (induction ops arbitrary: d)
  case (Cons op ops)
  obtain d1 where d1: "cache_step op (Some d) = (fst (lru_step (nat (maxSize d)) op (cache_abs d)), Some d1)"
     "cache_abs d1 = snd (lru_step (nat (maxSize d)) op (cache_abs d))" "cache_inv d1" "maxSize d1 = maxSize d"
    using cache_step_refines [OF Cons.prems] by blast
  with Cons.IH [of d1] Cons.prems(2) show ?case
    by (auto simp: case_prod_unfold Let_def)
qed simp

text \<open>
  C5. The decision cache is an LRU cache. For every positive size and every sequence of \<^verbatim>\<open>get\<close>,
  \<^verbatim>\<open>put\<close>, \<^verbatim>\<open>invalidateSub\<close> and \<^verbatim>\<open>flush\<close> calls on a fresh cache, each call returns what the abstract
  LRU cache returns, the entries in recency order are those of the abstract cache, and their number
  never exceeds the size.
\<close>

theorem decision_cache_is_lru:
  assumes "0 < n"
  shows "fst (run_ops cache_step ops (Some (newDecisionCache n))) = fst (run_ops (lru_step (nat n)) ops []) \<and>
    map_option cache_abs (snd (run_ops cache_step ops (Some (newDecisionCache n))))
      = Some (snd (run_ops (lru_step (nat n)) ops [])) \<and>
    cache_len (snd (run_ops cache_step ops (Some (newDecisionCache n)))) \<le> n"
proof -
  let ?d = "newDecisionCache n"
  have "cache_inv ?d" "maxSize ?d = n" "cache_abs ?d = []"
    using assms cache_inv_new by (simp_all add: newDecisionCache_def cache_abs_def)
  then obtain d' where "run_ops cache_step ops (Some ?d) = (fst (run_ops (lru_step (nat n)) ops []), Some d')"
     "cache_abs d' = snd (run_ops (lru_step (nat n)) ops [])" "cache_inv d'" "maxSize d' = n"
    using run_ops_refines [of ?d ops] assms by auto
  then show ?thesis
    using length_le_cap [of d'] by (simp add: cache_len_def)
qed

lemma decision_cache_is_lru_witness:
  "0 < (2::int) \<and>
   fst (run_ops cache_step lru_example (Some (newDecisionCache 2)))
   = [(False, False), (False, False), (True, True), (False, False), (False, False), (True, True),
      (False, False), (False, False), (True, True)]"
proof -
  have "fst (run_ops (lru_step (nat 2)) lru_example []) =
     [(False, False), (False, False), (True, True), (False, False), (False, False), (True, True),
      (False, False), (False, False), (True, True)]"
    by code_simp
  then show ?thesis using decision_cache_is_lru [of 2 lru_example] by simp
qed

end
