(* ===== verification/Authorizer.thy ===== *)
theory Authorizer
  imports Apperr Json Decision_Cache
begin

text \<open>
  The authorization adapter, \<^verbatim>\<open>src/internal/adapter/casbin/casbin.go\<close> and \<^verbatim>\<open>noop.go\<close>. The Casbin enforcer is a
  third-party library: it is a parameter, the record \<open>enforcer_api\<close> of the calls that the adapter makes on an
  enforcer state \<^typ>\<open>'e\<close>. What the adapter relies on is the locale \<open>casbin_enforcer\<close>; the enforcer for the
  model text \<^verbatim>\<open>defaultModel\<close> (roles by links, wildcards, allow-override) is the record \<open>rbac\<close>, and
  it satisfies the locale.

  The main fact is that the decision cache is transparent. A sequence of calls on an adapter with a cache returns
  what it returns without one, as long as identifiers of users are not used as role names. The section after it
  shows what happens otherwise.
\<close>

section \<open>The enforcer\<close>

record 'e enforcer_api =
  e_Enforce :: "'e \<Rightarrow> string \<Rightarrow> string \<Rightarrow> string \<Rightarrow> bool \<times> go_error option"
  e_AddPolicy :: "'e \<Rightarrow> string list \<Rightarrow> (bool \<times> go_error option) \<times> 'e"
  e_RemovePolicy :: "'e \<Rightarrow> string list \<Rightarrow> (bool \<times> go_error option) \<times> 'e"
  e_AddGroupingPolicy :: "'e \<Rightarrow> string list \<Rightarrow> (bool \<times> go_error option) \<times> 'e"
  e_RemoveGroupingPolicy :: "'e \<Rightarrow> string list \<Rightarrow> (bool \<times> go_error option) \<times> 'e"
  e_GetRolesForUser :: "'e \<Rightarrow> string \<Rightarrow> go_error + string list"
  e_GetUsersForRole :: "'e \<Rightarrow> string \<Rightarrow> go_error + string list"
  e_HasRoleForUser :: "'e \<Rightarrow> string \<Rightarrow> string \<Rightarrow> go_error + bool"
  e_GetPermissionsForUser :: "'e \<Rightarrow> string \<Rightarrow> go_error + string list list"
  e_GetImplicitPermissionsForUser :: "'e \<Rightarrow> string \<Rightarrow> go_error + string list list"
  e_LoadPolicy :: "'e \<Rightarrow> go_error option \<times> 'e"
  e_SavePolicy :: "'e \<Rightarrow> go_error option \<times> 'e"

section \<open>The adapter\<close>

record 'e adapter =
  enforcer :: 'e
  cache :: "decisionCache option"
  reloadInterval :: int

record casbin_config =
  cc_DatabaseURL :: string
  cc_ModelText :: string
  cc_ReloadInterval :: int
  cc_DecisionCacheSize :: int

text \<open>The outcomes of the library calls that \<^verbatim>\<open>NewAdapter\<close> makes, in their order.\<close>

record 'e casbin_env =
  env_open :: "string \<Rightarrow> go_error option"
  env_ping :: "go_error option"
  env_sqladapter :: "go_error option"
  env_model :: "string \<Rightarrow> go_error option"
  env_enforcer :: "string \<Rightarrow> go_error + 'e"

definition defaultModel :: string where
  "defaultModel = join [CHR 0x0A]
    ['''', ''[request_definition]'', ''r = sub, obj, act'', '''', ''[policy_definition]'', ''p = sub, obj, act'', '''',
     ''[role_definition]'', ''g = _, _'', '''', ''[policy_effect]'', ''e = some(where (p.eft == allow))'', '''',
     ''[matchers]'',
     ''m = g(r.sub, p.sub) && (p.obj == '' @ [CHR 0x22] @ ''*'' @ [CHR 0x22] @ '' || r.obj == p.obj) && (p.act == ''
       @ [CHR 0x22] @ ''*'' @ [CHR 0x22] @ '' || r.act == p.act)'', '''']"

definition cache_size :: "int \<Rightarrow> int" where
  "cache_size n = (if n = 0 then 10000 else if n < 0 then 0 else n)"

definition NewAdapter :: "'e enforcer_api \<Rightarrow> 'e casbin_env \<Rightarrow> casbin_config \<Rightarrow> go_error + 'e adapter" where
  "NewAdapter api env cfg =
     (case env_open env (cc_DatabaseURL cfg) of
        Some e \<Rightarrow> Inl (errorf_w ''failed to open database'' e)
      | None \<Rightarrow>
     (case env_ping env of
        Some e \<Rightarrow> Inl (errorf_w ''failed to ping database'' e)
      | None \<Rightarrow>
     (case env_sqladapter env of
        Some e \<Rightarrow> Inl (errorf_w ''failed to create casbin adapter'' e)
      | None \<Rightarrow>
     let modelText = (if cc_ModelText cfg = '''' then defaultModel else cc_ModelText cfg) in
     (case env_model env modelText of
        Some e \<Rightarrow> Inl (errorf_w ''failed to create casbin model'' e)
      | None \<Rightarrow>
     (case env_enforcer env modelText of
        Inl e \<Rightarrow> Inl (errorf_w ''failed to create casbin enforcer'' e)
      | Inr en \<Rightarrow>
     (case e_LoadPolicy api en of
        (Some e, _) \<Rightarrow> Inl (errorf_w ''failed to load policies'' e)
      | (None, en') \<Rightarrow>
          Inr \<lparr>enforcer = en', cache = Some (newDecisionCache (cache_size (cc_DecisionCacheSize cfg))),
               reloadInterval = cc_ReloadInterval cfg\<rparr>))))))"

definition ErrInvalidPolicyArg :: go_error where
  "ErrInvalidPolicyArg = Sentinel ''invalid policy argument''"

fun validatePolicyArgs :: "string list \<Rightarrow> go_error option" where
  "validatePolicyArgs [] = None"
| "validatePolicyArgs (arg # args) =
     (if NUL \<in> set arg
      then Some (errorf_w (''invalid policy arg '' @ quote arg) ErrInvalidPolicyArg)
      else validatePolicyArgs args)"

definition Enforce :: "'e enforcer_api \<Rightarrow> string \<Rightarrow> string \<Rightarrow> string \<Rightarrow> 'e adapter \<Rightarrow> (bool \<times> go_error option) \<times> 'e adapter" where
  "Enforce api sub obj act a =
     (case cache_get (cache a) sub obj act of ((hit, ok), c) \<Rightarrow>
        if ok then ((hit, None), a\<lparr>cache := c\<rparr>)
        else (case e_Enforce api (enforcer a) sub obj act of (allowed, err) \<Rightarrow>
           ((allowed, err), if err = None then a\<lparr>cache := cache_put c sub obj act allowed\<rparr> else a\<lparr>cache := c\<rparr>)))"

text \<open>The context is represented by its \<^verbatim>\<open>Err()\<close> at the time of the call, \<^term>\<open>None\<close> while it is not done.\<close>

definition EnforceWithContext ::
  "'e enforcer_api \<Rightarrow> go_error option \<Rightarrow> string \<Rightarrow> string \<Rightarrow> string \<Rightarrow> 'e adapter \<Rightarrow> (bool \<times> go_error option) \<times> 'e adapter" where
  "EnforceWithContext api ctx_err sub obj act a =
     (case ctx_err of
        Some e \<Rightarrow> ((False, Some e), a)
      | None \<Rightarrow>
          (case cache_get (cache a) sub obj act of ((hit, ok), c) \<Rightarrow>
             if ok then ((hit, None), a\<lparr>cache := c\<rparr>)
             else (case e_Enforce api (enforcer a) sub obj act of (allowed, err) \<Rightarrow>
                ((allowed, err), if err = None then a\<lparr>cache := cache_put c sub obj act allowed\<rparr> else a\<lparr>cache := c\<rparr>))))"

definition AddRoleForUser :: "'e enforcer_api \<Rightarrow> string \<Rightarrow> string \<Rightarrow> 'e adapter \<Rightarrow> go_error option \<times> 'e adapter" where
  "AddRoleForUser api userID role a =
     (case validatePolicyArgs [userID, role] of
        Some e \<Rightarrow> (Some e, a)
      | None \<Rightarrow> (case e_AddGroupingPolicy api (enforcer a) [userID, role] of ((_, err), en) \<Rightarrow>
          (err, a\<lparr>enforcer := en, cache := (if err = None then invalidateSub (cache a) userID else cache a)\<rparr>)))"

definition RemoveRoleForUser :: "'e enforcer_api \<Rightarrow> string \<Rightarrow> string \<Rightarrow> 'e adapter \<Rightarrow> go_error option \<times> 'e adapter" where
  "RemoveRoleForUser api userID role a =
     (case validatePolicyArgs [userID, role] of
        Some e \<Rightarrow> (Some e, a)
      | None \<Rightarrow> (case e_RemoveGroupingPolicy api (enforcer a) [userID, role] of ((_, err), en) \<Rightarrow>
          (err, a\<lparr>enforcer := en, cache := (if err = None then invalidateSub (cache a) userID else cache a)\<rparr>)))"

definition GetRolesForUser :: "'e enforcer_api \<Rightarrow> string \<Rightarrow> 'e adapter \<Rightarrow> go_error + string list" where
  "GetRolesForUser api userID a = e_GetRolesForUser api (enforcer a) userID"

definition GetUsersForRole :: "'e enforcer_api \<Rightarrow> string \<Rightarrow> 'e adapter \<Rightarrow> go_error + string list" where
  "GetUsersForRole api role a = e_GetUsersForRole api (enforcer a) role"

definition HasRoleForUser :: "'e enforcer_api \<Rightarrow> string \<Rightarrow> string \<Rightarrow> 'e adapter \<Rightarrow> go_error + bool" where
  "HasRoleForUser api userID role a = e_HasRoleForUser api (enforcer a) userID role"

definition AddPermissionForRole ::
  "'e enforcer_api \<Rightarrow> string \<Rightarrow> string \<Rightarrow> string \<Rightarrow> 'e adapter \<Rightarrow> go_error option \<times> 'e adapter" where
  "AddPermissionForRole api role obj act a =
     (case validatePolicyArgs [role, obj, act] of
        Some e \<Rightarrow> (Some e, a)
      | None \<Rightarrow> (case e_AddPolicy api (enforcer a) [role, obj, act] of ((_, err), en) \<Rightarrow>
          (err, a\<lparr>enforcer := en, cache := (if err = None then flush (cache a) else cache a)\<rparr>)))"

definition RemovePermissionForRole ::
  "'e enforcer_api \<Rightarrow> string \<Rightarrow> string \<Rightarrow> string \<Rightarrow> 'e adapter \<Rightarrow> go_error option \<times> 'e adapter" where
  "RemovePermissionForRole api role obj act a =
     (case validatePolicyArgs [role, obj, act] of
        Some e \<Rightarrow> (Some e, a)
      | None \<Rightarrow> (case e_RemovePolicy api (enforcer a) [role, obj, act] of ((_, err), en) \<Rightarrow>
          (err, a\<lparr>enforcer := en, cache := (if err = None then flush (cache a) else cache a)\<rparr>)))"

definition GetPermissionsForRole :: "'e enforcer_api \<Rightarrow> string \<Rightarrow> 'e adapter \<Rightarrow> go_error + string list list" where
  "GetPermissionsForRole api role a = e_GetPermissionsForUser api (enforcer a) role"

definition AddPermissionForUser ::
  "'e enforcer_api \<Rightarrow> string \<Rightarrow> string \<Rightarrow> string \<Rightarrow> 'e adapter \<Rightarrow> go_error option \<times> 'e adapter" where
  "AddPermissionForUser api userID obj act a =
     (case validatePolicyArgs [userID, obj, act] of
        Some e \<Rightarrow> (Some e, a)
      | None \<Rightarrow> (case e_AddPolicy api (enforcer a) [userID, obj, act] of ((_, err), en) \<Rightarrow>
          (err, a\<lparr>enforcer := en, cache := (if err = None then invalidateSub (cache a) userID else cache a)\<rparr>)))"

definition RemovePermissionForUser ::
  "'e enforcer_api \<Rightarrow> string \<Rightarrow> string \<Rightarrow> string \<Rightarrow> 'e adapter \<Rightarrow> go_error option \<times> 'e adapter" where
  "RemovePermissionForUser api userID obj act a =
     (case validatePolicyArgs [userID, obj, act] of
        Some e \<Rightarrow> (Some e, a)
      | None \<Rightarrow> (case e_RemovePolicy api (enforcer a) [userID, obj, act] of ((_, err), en) \<Rightarrow>
          (err, a\<lparr>enforcer := en, cache := (if err = None then invalidateSub (cache a) userID else cache a)\<rparr>)))"

definition GetPermissionsForUser :: "'e enforcer_api \<Rightarrow> string \<Rightarrow> 'e adapter \<Rightarrow> go_error + string list list" where
  "GetPermissionsForUser api userID a = e_GetPermissionsForUser api (enforcer a) userID"

definition GetImplicitPermissionsForUser :: "'e enforcer_api \<Rightarrow> string \<Rightarrow> 'e adapter \<Rightarrow> go_error + string list list" where
  "GetImplicitPermissionsForUser api userID a = e_GetImplicitPermissionsForUser api (enforcer a) userID"

definition LoadPolicy :: "'e enforcer_api \<Rightarrow> 'e adapter \<Rightarrow> go_error option \<times> 'e adapter" where
  "LoadPolicy api a =
     (case e_LoadPolicy api (enforcer a) of (err, en) \<Rightarrow>
        (err, a\<lparr>enforcer := en, cache := (if err = None then flush (cache a) else cache a)\<rparr>))"

definition SavePolicy :: "'e enforcer_api \<Rightarrow> 'e adapter \<Rightarrow> go_error option \<times> 'e adapter" where
  "SavePolicy api a = (case e_SavePolicy api (enforcer a) of (err, en) \<Rightarrow> (err, a\<lparr>enforcer := en\<rparr>))"

definition BuildDatabaseURL :: "string \<Rightarrow> int \<Rightarrow> string \<Rightarrow> string \<Rightarrow> string \<Rightarrow> string \<Rightarrow> string" where
  "BuildDatabaseURL host port user password dbname sslMode =
     ''postgres://'' @ user @ '':'' @ password @ ''@'' @ host @ '':'' @ itoa port @ ''/'' @ dbname @ ''?sslmode='' @
     (if sslMode = '''' then ''require'' else sslMode)"

definition FormatPermission :: "string \<Rightarrow> string \<Rightarrow> string" where
  "FormatPermission obj act = obj @ '':'' @ act"

text \<open>\<^verbatim>\<open>strings.SplitN(perm, ":", 2)\<close> cuts at the first colon.\<close>

definition ParsePermission :: "string \<Rightarrow> string \<times> string" where
  "ParsePermission perm =
     (if CHR '':'' \<in> set perm
      then (takeWhile (\<lambda>c. c \<noteq> CHR '':'') perm, tl (dropWhile (\<lambda>c. c \<noteq> CHR '':'') perm))
      else (perm, ''*''))"

section \<open>Watcher messages\<close>

record watcherOp =
  wo_Op :: string
  wo_Sec :: string
  wo_Ptype :: string
  wo_Params :: "string list option"

definition encodeOp :: "string \<Rightarrow> string \<Rightarrow> string \<Rightarrow> string list option \<Rightarrow> string" where
  "encodeOp op sec ptype params =
     print_json (JObj [(''op'', JStr op), (''sec'', JStr sec), (''ptype'', JStr ptype),
       (''params'', case params of None \<Rightarrow> JNull | Some ps \<Rightarrow> JArr (map JStr ps))])"

text \<open>\<^verbatim>\<open>json.Unmarshal\<close> into a \<^verbatim>\<open>watcherOp\<close>; \<^term>\<open>None\<close> is an error.\<close>

definition decodeOp :: "string \<Rightarrow> watcherOp option" where
  "decodeOp msg =
     (case parse_json msg of
        Some (JObj kvs) \<Rightarrow>
          (case (dec_string kvs ''op'', dec_string kvs ''sec'', dec_string kvs ''ptype'', dec_strings kvs ''params'') of
             (Some op, Some sec, Some ptype, Some params) \<Rightarrow>
               Some \<lparr>wo_Op = op, wo_Sec = sec, wo_Ptype = ptype, wo_Params = params\<rparr>
           | _ \<Rightarrow> None)
      | Some JNull \<Rightarrow> Some \<lparr>wo_Op = '''', wo_Sec = '''', wo_Ptype = '''', wo_Params = None\<rparr>
      | _ \<Rightarrow> None)"

definition makeUpdateCallback :: "'e enforcer_api \<Rightarrow> string \<Rightarrow> 'e adapter \<Rightarrow> 'e adapter" where
  "makeUpdateCallback api msg a =
     (case decodeOp msg of
        None \<Rightarrow> snd (LoadPolicy api a)
      | Some op \<Rightarrow>
          let ifaces = (case wo_Params op of None \<Rightarrow> [] | Some ps \<Rightarrow> ps) in
          if wo_Op op = ''add_policy'' then
            a\<lparr>enforcer := snd (e_AddPolicy api (enforcer a) ifaces), cache := flush (cache a)\<rparr>
          else if wo_Op op = ''remove_policy'' then
            a\<lparr>enforcer := snd (e_RemovePolicy api (enforcer a) ifaces), cache := flush (cache a)\<rparr>
          else if wo_Op op = ''add_grouping'' then
            a\<lparr>enforcer := snd (e_AddGroupingPolicy api (enforcer a) ifaces), cache := flush (cache a)\<rparr>
          else if wo_Op op = ''remove_grouping'' then
            a\<lparr>enforcer := snd (e_RemoveGroupingPolicy api (enforcer a) ifaces), cache := flush (cache a)\<rparr>
          else snd (LoadPolicy api a))"


section \<open>Sequences of calls\<close>

datatype auth_op =
    OEnforce string string string
  | OEnforceWithContext "go_error option" string string string
  | OAddRoleForUser string string
  | ORemoveRoleForUser string string
  | OAddPermissionForRole string string string
  | ORemovePermissionForRole string string string
  | OAddPermissionForUser string string string
  | ORemovePermissionForUser string string string
  | OLoadPolicy
  | OSavePolicy
  | OMessage string

abbreviation mutation :: "go_error option \<times> 'e adapter \<Rightarrow> (bool \<times> go_error option) \<times> 'e adapter" where
  "mutation r \<equiv> ((False, fst r), snd r)"

primrec adapter_step :: "'e enforcer_api \<Rightarrow> auth_op \<Rightarrow> 'e adapter \<Rightarrow> (bool \<times> go_error option) \<times> 'e adapter" where
  "adapter_step api (OEnforce s ob ac) a = Enforce api s ob ac a"
| "adapter_step api (OEnforceWithContext ce s ob ac) a = EnforceWithContext api ce s ob ac a"
| "adapter_step api (OAddRoleForUser u r) a = mutation (AddRoleForUser api u r a)"
| "adapter_step api (ORemoveRoleForUser u r) a = mutation (RemoveRoleForUser api u r a)"
| "adapter_step api (OAddPermissionForRole r ob ac) a = mutation (AddPermissionForRole api r ob ac a)"
| "adapter_step api (ORemovePermissionForRole r ob ac) a = mutation (RemovePermissionForRole api r ob ac a)"
| "adapter_step api (OAddPermissionForUser u ob ac) a = mutation (AddPermissionForUser api u ob ac a)"
| "adapter_step api (ORemovePermissionForUser u ob ac) a = mutation (RemovePermissionForUser api u ob ac a)"
| "adapter_step api OLoadPolicy a = mutation (LoadPolicy api a)"
| "adapter_step api OSavePolicy a = mutation (SavePolicy api a)"
| "adapter_step api (OMessage m) a = ((False, None), makeUpdateCallback api m a)"

text \<open>
  The naming discipline. Roles are granted to and permissions are given to users by their own identifier, and a
  user identifier is never granted as a role.
\<close>

definition grouping_ok :: "(string \<Rightarrow> bool) \<Rightarrow> string list \<Rightarrow> bool" where
  "grouping_ok is_user g \<longleftrightarrow> (case g of [u, r] \<Rightarrow> \<not> is_user r | _ \<Rightarrow> True)"

definition message_ok :: "(string \<Rightarrow> bool) \<Rightarrow> string \<Rightarrow> bool" where
  "message_ok is_user m \<longleftrightarrow>
     (case decodeOp m of
        Some op \<Rightarrow> wo_Op op = ''add_grouping'' \<longrightarrow> grouping_ok is_user (case wo_Params op of None \<Rightarrow> [] | Some ps \<Rightarrow> ps)
      | None \<Rightarrow> True)"

primrec op_ok :: "(string \<Rightarrow> bool) \<Rightarrow> auth_op \<Rightarrow> bool" where
  "op_ok is_user (OEnforce s ob ac) = True"
| "op_ok is_user (OEnforceWithContext ce s ob ac) = True"
| "op_ok is_user (OAddRoleForUser u r) = (is_user u \<and> \<not> is_user r)"
| "op_ok is_user (ORemoveRoleForUser u r) = is_user u"
| "op_ok is_user (OAddPermissionForRole r ob ac) = True"
| "op_ok is_user (ORemovePermissionForRole r ob ac) = True"
| "op_ok is_user (OAddPermissionForUser u ob ac) = is_user u"
| "op_ok is_user (ORemovePermissionForUser u ob ac) = is_user u"
| "op_ok is_user OLoadPolicy = True"
| "op_ok is_user OSavePolicy = True"
| "op_ok is_user (OMessage m) = message_ok is_user m"

text \<open>
  What the adapter relies on. A call that reports an error leaves the decisions as they were. A rule or a link of
  a user changes the decisions about that user only, since nobody has a user as a role.
\<close>

locale casbin_enforcer =
  fixes api :: "'e enforcer_api" and is_user :: "string \<Rightarrow> bool" and einv :: "'e \<Rightarrow> bool"
  assumes add_policy_error:
      "einv e \<Longrightarrow> e_AddPolicy api e rule = ((b, Some err), e') \<Longrightarrow> e_Enforce api e' = e_Enforce api e"
    and remove_policy_error:
      "einv e \<Longrightarrow> e_RemovePolicy api e rule = ((b, Some err), e') \<Longrightarrow> e_Enforce api e' = e_Enforce api e"
    and add_grouping_error:
      "einv e \<Longrightarrow> e_AddGroupingPolicy api e rule = ((b, Some err), e') \<Longrightarrow> e_Enforce api e' = e_Enforce api e"
    and remove_grouping_error:
      "einv e \<Longrightarrow> e_RemoveGroupingPolicy api e rule = ((b, Some err), e') \<Longrightarrow> e_Enforce api e' = e_Enforce api e"
    and load_error: "einv e \<Longrightarrow> e_LoadPolicy api e = (Some err, e') \<Longrightarrow> e_Enforce api e' = e_Enforce api e"
    and save_keeps: "einv e \<Longrightarrow> e_Enforce api (snd (e_SavePolicy api e)) = e_Enforce api e"
    and add_user_policy: "einv e \<Longrightarrow> is_user u \<Longrightarrow> s \<noteq> u \<Longrightarrow>
      e_Enforce api (snd (e_AddPolicy api e [u, ob, ac])) s = e_Enforce api e s"
    and remove_user_policy: "einv e \<Longrightarrow> is_user u \<Longrightarrow> s \<noteq> u \<Longrightarrow>
      e_Enforce api (snd (e_RemovePolicy api e [u, ob, ac])) s = e_Enforce api e s"
    and add_user_role: "einv e \<Longrightarrow> is_user u \<Longrightarrow> \<not> is_user r \<Longrightarrow> s \<noteq> u \<Longrightarrow>
      e_Enforce api (snd (e_AddGroupingPolicy api e [u, r])) s = e_Enforce api e s"
    and remove_user_role: "einv e \<Longrightarrow> is_user u \<Longrightarrow> s \<noteq> u \<Longrightarrow>
      e_Enforce api (snd (e_RemoveGroupingPolicy api e [u, r])) s = e_Enforce api e s"
    and add_policy_inv: "einv e \<Longrightarrow> einv (snd (e_AddPolicy api e rule))"
    and remove_policy_inv: "einv e \<Longrightarrow> einv (snd (e_RemovePolicy api e rule))"
    and add_grouping_inv: "einv e \<Longrightarrow> grouping_ok is_user rule \<Longrightarrow> einv (snd (e_AddGroupingPolicy api e rule))"
    and remove_grouping_inv: "einv e \<Longrightarrow> einv (snd (e_RemoveGroupingPolicy api e rule))"
    and load_inv: "einv e \<Longrightarrow> einv (snd (e_LoadPolicy api e))"
    and save_inv: "einv e \<Longrightarrow> einv (snd (e_SavePolicy api e))"
begin

definition adapter_inv :: "'e adapter \<Rightarrow> bool" where
  "adapter_inv a \<longleftrightarrow> einv (enforcer a) \<and>
     dc.coherent (\<lambda>s ob ac v. e_Enforce api (enforcer a) s ob ac = (v, None)) (cache a)"

abbreviation uncached :: "'e adapter \<Rightarrow> 'e adapter" where
  "uncached a \<equiv> a\<lparr>cache := None\<rparr>"

abbreviation agrees :: "auth_op \<Rightarrow> 'e adapter \<Rightarrow> bool" where
  "agrees op a \<equiv> fst (adapter_step api op a) = fst (adapter_step api op (uncached a)) \<and>
     uncached (snd (adapter_step api op a)) = snd (adapter_step api op (uncached a)) \<and>
     adapter_inv (snd (adapter_step api op a))"

lemma Enforce_agrees:
  assumes "adapter_inv a"
  shows "fst (Enforce api s ob ac a) = fst (Enforce api s ob ac (uncached a)) \<and>
    uncached (snd (Enforce api s ob ac a)) = snd (Enforce api s ob ac (uncached a)) \<and>
    adapter_inv (snd (Enforce api s ob ac a))"
proof -
  let ?R = "\<lambda>s ob ac v. e_Enforce api (enforcer a) s ob ac = (v, None)"
  obtain hit ok c where g: "cache_get (cache a) s ob ac = ((hit, ok), c)" by (metis surj_pair)
  have c: "dc.coherent ?R c"
    using dc.coherent_get [of ?R "cache a" s ob ac] assms g by (simp add: adapter_inv_def)
  have hit: "ok \<Longrightarrow> e_Enforce api (enforcer a) s ob ac = (hit, None)"
    using dc.coherent_hit [of ?R "cache a" s ob ac hit] assms g by (simp add: adapter_inv_def)
  obtain v err where e: "e_Enforce api (enforcer a) s ob ac = (v, err)" by (metis surj_pair)
  have nil: "cache_get None s ob ac = ((False, False), None)" "cache_put None s ob ac v = None"
    by (simp_all add: cache_get_def cache_put_def)
  have put: "err = None \<Longrightarrow> dc.coherent ?R (cache_put c s ob ac v)"
    using dc.coherent_put [OF c, of s ob ac v] e by simp
  show ?thesis
    using assms g c hit e nil put by (auto simp: Enforce_def adapter_inv_def)
qed

lemma adapter_inv_drop:
  assumes "adapter_inv a" and "einv en" and "\<And>s. s \<noteq> u \<Longrightarrow> e_Enforce api en s = e_Enforce api (enforcer a) s"
  shows "adapter_inv (a\<lparr>enforcer := en, cache := invalidateSub (cache a) u\<rparr>)"
proof -
  have "dc.coherent (\<lambda>s ob ac v. e_Enforce api en s ob ac = (v, None)) (invalidateSub (cache a) u)"
    using assms(1,3) by (auto simp: adapter_inv_def intro: dc.coherent_drop)
  with assms(2) show ?thesis by (simp add: adapter_inv_def)
qed

lemma adapter_inv_clear:
  "adapter_inv a \<Longrightarrow> einv en \<Longrightarrow> adapter_inv (a\<lparr>enforcer := en, cache := flush (cache a)\<rparr>)"
  by (auto simp: adapter_inv_def intro: dc.coherent_clear)

lemma adapter_inv_same:
  "adapter_inv a \<Longrightarrow> einv en \<Longrightarrow> e_Enforce api en = e_Enforce api (enforcer a) \<Longrightarrow> adapter_inv (a\<lparr>enforcer := en\<rparr>)"
  by (simp add: adapter_inv_def)

lemma adapter_inv_einv: "adapter_inv a \<Longrightarrow> einv (enforcer a)"
  by (simp add: adapter_inv_def)

lemma nil_cache: "invalidateSub None u = None" "flush None = None"
  by (simp_all add: invalidateSub_def flush_def)

lemma adapter_inv_load: "adapter_inv a \<Longrightarrow> adapter_inv (snd (LoadPolicy api a))"
  using load_error [of "enforcer a"] load_inv [of "enforcer a"] adapter_inv_einv [of a]
  by (cases "e_LoadPolicy api (enforcer a)")
     (auto simp: LoadPolicy_def intro: adapter_inv_clear adapter_inv_same)

lemma adapter_inv_mutations:
  assumes "adapter_inv a"
  shows "is_user u \<Longrightarrow> \<not> is_user r \<Longrightarrow> adapter_inv (snd (AddRoleForUser api u r a))"
    and "is_user u \<Longrightarrow> adapter_inv (snd (RemoveRoleForUser api u r a))"
    and "adapter_inv (snd (AddPermissionForRole api r ob ac a))"
    and "adapter_inv (snd (RemovePermissionForRole api r ob ac a))"
    and "is_user u \<Longrightarrow> adapter_inv (snd (AddPermissionForUser api u ob ac a))"
    and "is_user u \<Longrightarrow> adapter_inv (snd (RemovePermissionForUser api u ob ac a))"
    and "adapter_inv (snd (SavePolicy api a))"
proof -
  let ?e = "enforcer a"
  have e: "einv ?e" using assms by (simp add: adapter_inv_def)
  show "is_user u \<Longrightarrow> \<not> is_user r \<Longrightarrow> adapter_inv (snd (AddRoleForUser api u r a))"
    using assms add_grouping_error [OF e, of "[u, r]"] add_user_role [OF e, of u r] add_grouping_inv [OF e, of "[u, r]"]
    by (cases "e_AddGroupingPolicy api ?e [u, r]")
       (auto simp: AddRoleForUser_def grouping_ok_def adapter_inv_drop adapter_inv_same simp del: validatePolicyArgs.simps split: option.split)
  show "is_user u \<Longrightarrow> adapter_inv (snd (RemoveRoleForUser api u r a))"
    using assms remove_grouping_error [OF e, of "[u, r]"] remove_user_role [OF e, of u _ r] remove_grouping_inv [OF e, of "[u, r]"]
    by (cases "e_RemoveGroupingPolicy api ?e [u, r]")
       (auto simp: RemoveRoleForUser_def adapter_inv_drop adapter_inv_same simp del: validatePolicyArgs.simps split: option.split)
  show "adapter_inv (snd (AddPermissionForRole api r ob ac a))"
    using assms add_policy_error [OF e, of "[r, ob, ac]"] add_policy_inv [OF e, of "[r, ob, ac]"]
    by (cases "e_AddPolicy api ?e [r, ob, ac]")
       (auto simp: AddPermissionForRole_def adapter_inv_clear adapter_inv_same simp del: validatePolicyArgs.simps split: option.split)
  show "adapter_inv (snd (RemovePermissionForRole api r ob ac a))"
    using assms remove_policy_error [OF e, of "[r, ob, ac]"] remove_policy_inv [OF e, of "[r, ob, ac]"]
    by (cases "e_RemovePolicy api ?e [r, ob, ac]")
       (auto simp: RemovePermissionForRole_def adapter_inv_clear adapter_inv_same simp del: validatePolicyArgs.simps split: option.split)
  show "is_user u \<Longrightarrow> adapter_inv (snd (AddPermissionForUser api u ob ac a))"
    using assms add_policy_error [OF e, of "[u, ob, ac]"] add_user_policy [OF e, of u _ ob ac] add_policy_inv [OF e, of "[u, ob, ac]"]
    by (cases "e_AddPolicy api ?e [u, ob, ac]")
       (auto simp: AddPermissionForUser_def adapter_inv_drop adapter_inv_same simp del: validatePolicyArgs.simps split: option.split)
  show "is_user u \<Longrightarrow> adapter_inv (snd (RemovePermissionForUser api u ob ac a))"
    using assms remove_policy_error [OF e, of "[u, ob, ac]"] remove_user_policy [OF e, of u _ ob ac] remove_policy_inv [OF e, of "[u, ob, ac]"]
    by (cases "e_RemovePolicy api ?e [u, ob, ac]")
       (auto simp: RemovePermissionForUser_def adapter_inv_drop adapter_inv_same simp del: validatePolicyArgs.simps split: option.split)
  show "adapter_inv (snd (SavePolicy api a))"
    using assms save_keeps [OF e] save_inv [OF e] by (auto simp: SavePolicy_def adapter_inv_def split: prod.split)
qed

lemma adapter_inv_message:
  assumes "adapter_inv a" and "message_ok is_user m"
  shows "adapter_inv (makeUpdateCallback api m a)"
proof -
  have e: "einv (enforcer a)" using assms(1) by (simp add: adapter_inv_def)
  have f: "einv en \<Longrightarrow> adapter_inv (a\<lparr>enforcer := en, cache := flush (cache a)\<rparr>)" for en
    using adapter_inv_clear [OF assms(1)] by simp
  show ?thesis
    using assms(2) f add_policy_inv [OF e] remove_policy_inv [OF e] add_grouping_inv [OF e] remove_grouping_inv [OF e]
      adapter_inv_load [OF assms(1)]
    by (auto simp: makeUpdateCallback_def message_ok_def Let_def split: option.split)
qed

lemma Enforce_ctx: "EnforceWithContext api None s ob ac a = Enforce api s ob ac a"
  by (simp add: EnforceWithContext_def Enforce_def)

lemma step_agrees:
  assumes "adapter_inv a" and "op_ok is_user op"
  shows "agrees op a"
proof (cases op)
  case (OEnforce s ob ac)
  with Enforce_agrees [OF assms(1)] show ?thesis by simp
next
  case (OEnforceWithContext ce s ob ac)
  with Enforce_agrees [OF assms(1), of s ob ac] assms(1) show ?thesis
    by (cases ce) (simp_all add: Enforce_ctx, simp add: EnforceWithContext_def)
next
  case (OMessage m)
  with assms adapter_inv_message [OF assms(1), of m] show ?thesis
    by (simp add: makeUpdateCallback_def LoadPolicy_def Let_def nil_cache split: option.split prod.split)
qed (use assms adapter_inv_mutations [OF assms(1)] adapter_inv_load [OF assms(1)] in
     \<open>simp_all add: AddRoleForUser_def RemoveRoleForUser_def AddPermissionForRole_def RemovePermissionForRole_def
        AddPermissionForUser_def RemovePermissionForUser_def LoadPolicy_def SavePolicy_def nil_cache
        del: validatePolicyArgs.simps split: option.split prod.split\<close>)

lemma run_agrees:
  "adapter_inv a \<Longrightarrow> list_all (op_ok is_user) ops \<Longrightarrow>
   fst (run_ops (adapter_step api) ops a) = fst (run_ops (adapter_step api) ops (uncached a))"
proof (induction ops arbitrary: a)
  case (Cons op ops)
  then have "agrees op a" using step_agrees by simp
  moreover obtain r a' where "adapter_step api op a = (r, a')" by (metis surj_pair)
  moreover obtain r' b where "adapter_step api op (uncached a) = (r', b)" by (metis surj_pair)
  ultimately show ?case using Cons.IH [of a'] Cons.prems(2) by (simp add: Let_def case_prod_unfold)
qed simp

lemma fresh_cache_inv: "einv (enforcer a) \<Longrightarrow> 0 \<le> n \<Longrightarrow> adapter_inv (a\<lparr>cache := Some (newDecisionCache n)\<rparr>)"
  using cache_inv_new [of n]
  by (simp add: adapter_inv_def dc.coherent_def cache_ok_def cached_def newDecisionCache_def cache_abs_def)

end


section \<open>The enforcer of the default model\<close>

text \<open>
  Rules in memory and rows in the database; \<open>db_up\<close> and \<open>notify_up\<close> say whether the database and the watcher's
  publish call answer. A mutation is written through to the database first, then applied in memory, then announced
  to the watcher, whose error is returned.
\<close>

record rbac =
  p_rules :: "string list list"
  g_rules :: "string list list"
  db_p :: "string list list"
  db_g :: "string list list"
  db_up :: bool
  notify_up :: bool

definition link_role :: "string \<Rightarrow> string list \<Rightarrow> string list" where
  "link_role s l = (case l of [u, r] \<Rightarrow> if u = s then [r] else [] | _ \<Rightarrow> [])"

definition roles_of :: "string list list \<Rightarrow> string \<Rightarrow> string list" where
  "roles_of g s = concat (map (link_role s) g)"

text \<open>The role manager follows at most ten links.\<close>

primrec role_closure :: "nat \<Rightarrow> string list list \<Rightarrow> string \<Rightarrow> string list" where
  "role_closure 0 g s = [s]"
| "role_closure (Suc n) g s = s # concat (map (role_closure n g) (roles_of g s))"

definition matcher :: "string list list \<Rightarrow> string \<Rightarrow> string \<Rightarrow> string \<Rightarrow> string \<Rightarrow> string \<Rightarrow> string \<Rightarrow> bool" where
  "matcher g rsub robj ract psub pobj pact \<longleftrightarrow>
     psub \<in> set (role_closure 10 g rsub) \<and> (pobj = ''*'' \<or> robj = pobj) \<and> (pact = ''*'' \<or> ract = pact)"

fun rbac_scan :: "string list list \<Rightarrow> string \<Rightarrow> string \<Rightarrow> string \<Rightarrow> string list list \<Rightarrow> bool \<times> go_error option" where
  "rbac_scan g s ob ac [] = (False, None)"
| "rbac_scan g s ob ac (rule # rules) =
     (case rule of
        [ps, po, pa] \<Rightarrow> if matcher g s ob ac ps po pa then (True, None) else rbac_scan g s ob ac rules
      | _ \<Rightarrow> (False, Some (ErrText ''invalid policy size'')))"

definition rbac_enforce :: "rbac \<Rightarrow> string \<Rightarrow> string \<Rightarrow> string \<Rightarrow> bool \<times> go_error option" where
  "rbac_enforce e s ob ac = rbac_scan (g_rules e) s ob ac (p_rules e)"

definition db_error :: go_error where "db_error = ErrText ''connection refused''"

definition notify_error :: "rbac \<Rightarrow> go_error option" where
  "notify_error e = (if notify_up e then None else Some (ErrText ''publish failed''))"

definition rbac_add_p :: "rbac \<Rightarrow> string list \<Rightarrow> (bool \<times> go_error option) \<times> rbac" where
  "rbac_add_p e rule =
     (if rule \<in> set (p_rules e) then ((False, None), e)
      else if \<not> db_up e then ((False, Some db_error), e)
      else ((True, notify_error e), e\<lparr>p_rules := p_rules e @ [rule], db_p := db_p e @ [rule]\<rparr>))"

definition rbac_remove_p :: "rbac \<Rightarrow> string list \<Rightarrow> (bool \<times> go_error option) \<times> rbac" where
  "rbac_remove_p e rule =
     (if \<not> db_up e then ((False, Some db_error), e)
      else if rule \<notin> set (p_rules e) then ((False, None), e\<lparr>db_p := filter (\<lambda>l. l \<noteq> rule) (db_p e)\<rparr>)
      else ((True, notify_error e),
            e\<lparr>p_rules := filter (\<lambda>l. l \<noteq> rule) (p_rules e), db_p := filter (\<lambda>l. l \<noteq> rule) (db_p e)\<rparr>))"

definition rbac_add_g :: "rbac \<Rightarrow> string list \<Rightarrow> (bool \<times> go_error option) \<times> rbac" where
  "rbac_add_g e rule =
     (if rule \<in> set (g_rules e) then ((False, None), e)
      else if \<not> db_up e then ((False, Some db_error), e)
      else ((True, notify_error e), e\<lparr>g_rules := g_rules e @ [rule], db_g := db_g e @ [rule]\<rparr>))"

definition rbac_remove_g :: "rbac \<Rightarrow> string list \<Rightarrow> (bool \<times> go_error option) \<times> rbac" where
  "rbac_remove_g e rule =
     (if \<not> db_up e then ((False, Some db_error), e)
      else if rule \<notin> set (g_rules e) then ((False, None), e\<lparr>db_g := filter (\<lambda>l. l \<noteq> rule) (db_g e)\<rparr>)
      else ((True, notify_error e),
            e\<lparr>g_rules := filter (\<lambda>l. l \<noteq> rule) (g_rules e), db_g := filter (\<lambda>l. l \<noteq> rule) (db_g e)\<rparr>))"

definition rbac_load :: "rbac \<Rightarrow> go_error option \<times> rbac" where
  "rbac_load e =
     (if db_up e then (None, e\<lparr>p_rules := db_p e, g_rules := db_g e\<rparr>) else (Some db_error, e))"

definition rbac_save :: "rbac \<Rightarrow> go_error option \<times> rbac" where
  "rbac_save e =
     (if db_up e then (notify_error e, e\<lparr>db_p := p_rules e, db_g := g_rules e\<rparr>) else (Some db_error, e))"

definition perms_of :: "string list list \<Rightarrow> string \<Rightarrow> string list list" where
  "perms_of ps s = filter (\<lambda>l. l \<noteq> [] \<and> hd l = s) ps"

definition rbac_api :: "rbac enforcer_api" where
  "rbac_api = \<lparr>
     e_Enforce = rbac_enforce,
     e_AddPolicy = rbac_add_p,
     e_RemovePolicy = rbac_remove_p,
     e_AddGroupingPolicy = rbac_add_g,
     e_RemoveGroupingPolicy = rbac_remove_g,
     e_GetRolesForUser = (\<lambda>e u. Inr (roles_of (g_rules e) u)),
     e_GetUsersForRole = (\<lambda>e r. Inr (concat (map (\<lambda>l. case l of [u, r'] \<Rightarrow> if r' = r then [u] else [] | _ \<Rightarrow> []) (g_rules e)))),
     e_HasRoleForUser = (\<lambda>e u r. Inr (r \<in> set (roles_of (g_rules e) u))),
     e_GetPermissionsForUser = (\<lambda>e u. Inr (perms_of (p_rules e) u)),
     e_GetImplicitPermissionsForUser =
       (\<lambda>e u. Inr (concat (map (perms_of (p_rules e)) (remdups (role_closure 10 (g_rules e) u))))),
     e_LoadPolicy = rbac_load,
     e_SavePolicy = rbac_save\<rparr>"

definition rbac_inv :: "(string \<Rightarrow> bool) \<Rightarrow> rbac \<Rightarrow> bool" where
  "rbac_inv is_user e \<longleftrightarrow> notify_up e \<and> list_all (grouping_ok is_user) (g_rules e @ db_g e)"

lemma roles_of_ok: "list_all (grouping_ok is_user) g \<Longrightarrow> r \<in> set (roles_of g s) \<Longrightarrow> \<not> is_user r"
  by (force simp: roles_of_def link_role_def grouping_ok_def list_all_iff split: list.splits if_splits)

lemma role_closure_members:
  "list_all (grouping_ok is_user) g \<Longrightarrow> r \<in> set (role_closure n g s) \<Longrightarrow> r = s \<or> \<not> is_user r"
  by (induction n arbitrary: s) (auto dest: roles_of_ok)

lemma concat_map_filter: "(\<And>l. \<not> P l \<Longrightarrow> f l = []) \<Longrightarrow> concat (map f (filter P g)) = concat (map f g)"
  by (induction g) auto

lemma roles_of_other:
  "s \<noteq> u \<Longrightarrow> roles_of (g @ [[u, r]]) s = roles_of g s"
  "s \<noteq> u \<Longrightarrow> roles_of (filter (\<lambda>l. l \<noteq> [u, r]) g) s = roles_of g s"
proof -
  show "s \<noteq> u \<Longrightarrow> roles_of (g @ [[u, r]]) s = roles_of g s" by (simp add: roles_of_def link_role_def)
  assume "s \<noteq> u"
  then have "\<not> l \<noteq> [u, r] \<Longrightarrow> link_role s l = []" for l by (auto simp: link_role_def)
  then show "roles_of (filter (\<lambda>l. l \<noteq> [u, r]) g) s = roles_of g s"
    unfolding roles_of_def by (rule concat_map_filter [of "\<lambda>l. l \<noteq> [u, r]" "link_role s" g])
qed

lemma role_closure_cong:
  assumes "\<And>x. x \<noteq> u \<Longrightarrow> roles_of g' x = roles_of g x" and "list_all (grouping_ok is_user) g" and "is_user u"
  shows "s \<noteq> u \<Longrightarrow> role_closure n g' s = role_closure n g s"
proof (induction n arbitrary: s)
  case (Suc n)
  have "role_closure n g' r = role_closure n g r" if "r \<in> set (roles_of g s)" for r
    using roles_of_ok [OF assms(2) that] assms(3) by (intro Suc.IH) auto
  then show ?case using assms(1) Suc.prems by (simp cong: map_cong)
qed simp

lemma rbac_scan_cong:
  assumes "\<And>n. role_closure n g' s = role_closure n g s"
  shows "rbac_scan g' s ob ac ps = rbac_scan g s ob ac ps"
  by (induction ps) (auto simp: matcher_def assms split: list.split)

lemma rbac_scan_append:
  assumes "u \<notin> set (role_closure 10 g s)"
  shows "rbac_scan g s ob ac (ps @ [[u, po, pa]]) = rbac_scan g s ob ac ps"
  using assms by (induction ps) (auto simp: matcher_def split: list.split)

lemma rbac_scan_filter:
  assumes "u \<notin> set (role_closure 10 g s)"
  shows "rbac_scan g s ob ac (filter (\<lambda>l. l \<noteq> [u, po, pa]) ps) = rbac_scan g s ob ac ps"
  using assms by (induction ps) (auto simp: matcher_def split: list.split)

lemma user_not_reached:
  assumes "rbac_inv is_user e" and "is_user u" and "s \<noteq> u"
  shows "u \<notin> set (role_closure n (g_rules e) s)"
  using role_closure_members [of is_user "g_rules e" u n s] assms by (auto simp: rbac_inv_def)

lemmas rbac_defs = rbac_api_def rbac_inv_def rbac_add_p_def rbac_remove_p_def rbac_add_g_def rbac_remove_g_def
  rbac_load_def rbac_save_def notify_error_def

interpretation rb: casbin_enforcer rbac_api is_user "rbac_inv is_user" for is_user
proof
  fix e assume e: "rbac_inv is_user e"
  show "e_Enforce rbac_api (snd (e_AddPolicy rbac_api e [u, ob, ac])) s = e_Enforce rbac_api e s"
    if "is_user u" "s \<noteq> u" for u s ob ac
    using rbac_scan_append [OF user_not_reached [OF e that]]
    by (auto simp: rbac_defs rbac_enforce_def fun_eq_iff)
  show "e_Enforce rbac_api (snd (e_RemovePolicy rbac_api e [u, ob, ac])) s = e_Enforce rbac_api e s"
    if "is_user u" "s \<noteq> u" for u s ob ac
    using rbac_scan_filter [OF user_not_reached [OF e that]]
    by (auto simp: rbac_defs rbac_enforce_def fun_eq_iff)
  have g: "list_all (grouping_ok is_user) (g_rules e)" using e by (simp add: rbac_inv_def)
  show "e_Enforce rbac_api (snd (e_AddGroupingPolicy rbac_api e [u, r])) s = e_Enforce rbac_api e s"
    if "is_user u" "\<not> is_user r" "s \<noteq> u" for u r s
    using rbac_scan_cong [OF role_closure_cong [OF roles_of_other(1) g that(1,3)]]
    by (auto simp: rbac_defs rbac_enforce_def fun_eq_iff)
  show "e_Enforce rbac_api (snd (e_RemoveGroupingPolicy rbac_api e [u, r])) s = e_Enforce rbac_api e s"
    if "is_user u" "s \<noteq> u" for u r s
    using rbac_scan_cong [OF role_closure_cong [OF roles_of_other(2) g that(1,2)]]
    by (auto simp: rbac_defs rbac_enforce_def fun_eq_iff)
qed (auto simp: rbac_defs rbac_enforce_def list_all_iff fun_eq_iff split: if_splits)


section \<open>The port and its two implementations\<close>

record 's authorizer =
  az_Enforce :: "string \<Rightarrow> string \<Rightarrow> string \<Rightarrow> 's \<Rightarrow> (bool \<times> go_error option) \<times> 's"
  az_EnforceWithContext :: "go_error option \<Rightarrow> string \<Rightarrow> string \<Rightarrow> string \<Rightarrow> 's \<Rightarrow> (bool \<times> go_error option) \<times> 's"
  az_AddRoleForUser :: "string \<Rightarrow> string \<Rightarrow> 's \<Rightarrow> go_error option \<times> 's"
  az_RemoveRoleForUser :: "string \<Rightarrow> string \<Rightarrow> 's \<Rightarrow> go_error option \<times> 's"
  az_GetRolesForUser :: "string \<Rightarrow> 's \<Rightarrow> go_error + string list"
  az_GetUsersForRole :: "string \<Rightarrow> 's \<Rightarrow> go_error + string list"
  az_HasRoleForUser :: "string \<Rightarrow> string \<Rightarrow> 's \<Rightarrow> go_error + bool"
  az_AddPermissionForRole :: "string \<Rightarrow> string \<Rightarrow> string \<Rightarrow> 's \<Rightarrow> go_error option \<times> 's"
  az_RemovePermissionForRole :: "string \<Rightarrow> string \<Rightarrow> string \<Rightarrow> 's \<Rightarrow> go_error option \<times> 's"
  az_GetPermissionsForRole :: "string \<Rightarrow> 's \<Rightarrow> go_error + string list list"
  az_AddPermissionForUser :: "string \<Rightarrow> string \<Rightarrow> string \<Rightarrow> 's \<Rightarrow> go_error option \<times> 's"
  az_RemovePermissionForUser :: "string \<Rightarrow> string \<Rightarrow> string \<Rightarrow> 's \<Rightarrow> go_error option \<times> 's"
  az_GetPermissionsForUser :: "string \<Rightarrow> 's \<Rightarrow> go_error + string list list"
  az_GetImplicitPermissionsForUser :: "string \<Rightarrow> 's \<Rightarrow> go_error + string list list"
  az_LoadPolicy :: "'s \<Rightarrow> go_error option \<times> 's"
  az_SavePolicy :: "'s \<Rightarrow> go_error option \<times> 's"

definition casbin_authorizer :: "'e enforcer_api \<Rightarrow> 'e adapter authorizer" where
  "casbin_authorizer api = \<lparr>
     az_Enforce = Enforce api,
     az_EnforceWithContext = EnforceWithContext api,
     az_AddRoleForUser = AddRoleForUser api,
     az_RemoveRoleForUser = RemoveRoleForUser api,
     az_GetRolesForUser = GetRolesForUser api,
     az_GetUsersForRole = GetUsersForRole api,
     az_HasRoleForUser = HasRoleForUser api,
     az_AddPermissionForRole = AddPermissionForRole api,
     az_RemovePermissionForRole = RemovePermissionForRole api,
     az_GetPermissionsForRole = GetPermissionsForRole api,
     az_AddPermissionForUser = AddPermissionForUser api,
     az_RemovePermissionForUser = RemovePermissionForUser api,
     az_GetPermissionsForUser = GetPermissionsForUser api,
     az_GetImplicitPermissionsForUser = GetImplicitPermissionsForUser api,
     az_LoadPolicy = LoadPolicy api,
     az_SavePolicy = SavePolicy api\<rparr>"

definition NoOpAdapter :: "'s authorizer" where
  "NoOpAdapter = \<lparr>
     az_Enforce = (\<lambda>sub obj act a. ((True, None), a)),
     az_EnforceWithContext = (\<lambda>ctx_err sub obj act a. ((True, None), a)),
     az_AddRoleForUser = (\<lambda>userID role a. (None, a)),
     az_RemoveRoleForUser = (\<lambda>userID role a. (None, a)),
     az_GetRolesForUser = (\<lambda>userID a. Inr []),
     az_GetUsersForRole = (\<lambda>role a. Inr []),
     az_HasRoleForUser = (\<lambda>userID role a. Inr True),
     az_AddPermissionForRole = (\<lambda>role obj act a. (None, a)),
     az_RemovePermissionForRole = (\<lambda>role obj act a. (None, a)),
     az_GetPermissionsForRole = (\<lambda>role a. Inr []),
     az_AddPermissionForUser = (\<lambda>userID obj act a. (None, a)),
     az_RemovePermissionForUser = (\<lambda>userID obj act a. (None, a)),
     az_GetPermissionsForUser = (\<lambda>userID a. Inr []),
     az_GetImplicitPermissionsForUser = (\<lambda>userID a. Inr []),
     az_LoadPolicy = (\<lambda>a. (None, a)),
     az_SavePolicy = (\<lambda>a. (None, a))\<rparr>"

section \<open>Properties\<close>

definition is_uuid_like :: "string \<Rightarrow> bool" where
  "is_uuid_like s \<longleftrightarrow> has_prefix s ''u-''"

definition example_rbac :: rbac where
  "example_rbac = \<lparr>p_rules = [[''admin'', ''*'', ''*''], [''viewer'', ''users'', ''read'']], g_rules = [[''u-1'', ''viewer'']],
     db_p = [[''admin'', ''*'', ''*''], [''viewer'', ''users'', ''read'']], db_g = [[''u-1'', ''viewer'']],
     db_up = True, notify_up = True\<rparr>"

definition example_calls :: "auth_op list" where
  "example_calls =
     [OEnforce ''u-1'' ''users'' ''update'', OAddRoleForUser ''u-1'' ''admin'', OEnforce ''u-1'' ''users'' ''update'',
      OEnforce ''u-1'' ''users'' ''update'', ORemoveRoleForUser ''u-1'' ''admin'', OEnforce ''u-1'' ''users'' ''update'',
      OEnforce ''u-1'' ''users'' ''read'', ORemovePermissionForRole ''viewer'' ''users'' ''read'',
      OEnforce ''u-1'' ''users'' ''read'']"



text \<open>
  The watcher envelope round trip. For every operation name, section, policy type and parameter list of
  valid UTF-8 (and for a nil parameter list), decoding the message that \<^verbatim>\<open>encodeOp\<close> produced gives exactly the
  envelope that was encoded.
\<close>

theorem watcher_op_roundtrip:
  assumes "valid_utf8 op" "valid_utf8 sec" "valid_utf8 ptype" and "\<forall>ps. params = Some ps \<longrightarrow> list_all valid_utf8 ps"
  shows "decodeOp (encodeOp op sec ptype params)
    = Some \<lparr>wo_Op = op, wo_Sec = sec, wo_Ptype = ptype, wo_Params = params\<rparr>"
proof -
  let ?v = "JObj [(''op'', JStr op), (''sec'', JStr sec), (''ptype'', JStr ptype),
       (''params'', case params of None \<Rightarrow> JNull | Some ps \<Rightarrow> JArr (map JStr ps))]"
  have ascii: "valid_utf8 ''op''" "valid_utf8 ''sec''" "valid_utf8 ''ptype''" "valid_utf8 ''params''"
    by (simp_all add: valid_utf8_ascii byte_in_def)
  have "wf_json ?v" using assms ascii by (auto simp: list_all_iff split: option.split)
  then have p: "parse_json (encodeOp op sec ptype params) = Some ?v"
    unfolding encodeOp_def by (rule parse_json_print_json)
  have e: "elem_strings (map JStr ps) = Some ps" for ps
    by (induction ps) (auto simp: elem_strings_def assign_string_def)
  have f: "field_values [(''op'', a), (''sec'', b), (''ptype'', c), (''params'', d)] ''op'' = [a]"
    "field_values [(''op'', a), (''sec'', b), (''ptype'', c), (''params'', d)] ''sec'' = [b]"
    "field_values [(''op'', a), (''sec'', b), (''ptype'', c), (''params'', d)] ''ptype'' = [c]"
    "field_values [(''op'', a), (''sec'', b), (''ptype'', c), (''params'', d)] ''params'' = [d]" for a b c d
    by (simp_all add: field_values_def to_lower_def byte_lower_def)
  show ?thesis
    unfolding decodeOp_def p using e
    by (auto simp: dec_string_def dec_strings_def f assign_string_def assign_strings_def split: option.split)
qed

lemma watcher_op_roundtrip_witness:
  "decodeOp (encodeOp ''add_policy'' ''p'' ''p'' (Some [''admin'', ''a<b'', ''*'']))
   = Some \<lparr>wo_Op = ''add_policy'', wo_Sec = ''p'', wo_Ptype = ''p'', wo_Params = Some [''admin'', ''a<b'', ''*'']\<rparr>"
  by (rule watcher_op_roundtrip) (simp_all add: valid_utf8_ascii byte_in_def)

text \<open>
  A permission name is a reversible encoding: for every object name without a colon, splitting the
  formatted permission gives the object and the action back, whatever the action is.
\<close>

theorem permission_roundtrip:
  assumes "CHR '':'' \<notin> set obj"
  shows "ParsePermission (FormatPermission obj act) = (obj, act)"
proof -
  have "takeWhile (\<lambda>c. c \<noteq> CHR '':'') (obj @ CHR '':'' # act) = obj"
    "dropWhile (\<lambda>c. c \<noteq> CHR '':'') (obj @ CHR '':'' # act) = CHR '':'' # act"
    using assms by (induction obj) auto
  then show ?thesis by (simp add: ParsePermission_def FormatPermission_def)
qed

lemma permission_roundtrip_witness: "ParsePermission (FormatPermission ''users'' ''read:own'') = (''users'', ''read:own'')"
  by (rule permission_roundtrip) simp


section \<open>What the discipline excludes\<close>

abbreviation with_cache :: "rbac \<Rightarrow> rbac adapter" where
  "with_cache e \<equiv> \<lparr>enforcer = e, cache = Some (newDecisionCache 10000), reloadInterval = 0\<rparr>"

abbreviation without_cache :: "rbac \<Rightarrow> rbac adapter" where
  "without_cache e \<equiv> \<lparr>enforcer = e, cache = None, reloadInterval = 0\<rparr>"

definition user_call_on_role :: "auth_op list" where
  "user_call_on_role =
     [OEnforce ''u-1'' ''users'' ''read'', ORemovePermissionForUser ''viewer'' ''users'' ''read'',
      OEnforce ''u-1'' ''users'' ''read'']"

text \<open>
  \<^verbatim>\<open>RemovePermissionForUser\<close> accepts a role name and then drops only the decisions about that name: a member of
  the role keeps a cached permission that the enforcer no longer grants.
\<close>

lemma stale_allow_through_role:
  "map fst (fst (run_ops (adapter_step rbac_api) user_call_on_role (with_cache example_rbac))) = [True, False, True]"
  "map fst (fst (run_ops (adapter_step rbac_api) user_call_on_role (without_cache example_rbac))) = [True, False, False]"
  by code_simp+

definition revoke_without_watcher :: "auth_op list" where
  "revoke_without_watcher =
     [OEnforce ''u-1'' ''users'' ''read'', ORemovePermissionForRole ''viewer'' ''users'' ''read'',
      OEnforce ''u-1'' ''users'' ''read'']"

text \<open>
  When the enforcer applies a revocation and then reports that the watcher could not be notified, the adapter
  returns the error without flushing: the revoked permission stays cached.
\<close>

lemma stale_allow_after_notify_error:
  "map fst (fst (run_ops (adapter_step rbac_api) revoke_without_watcher (with_cache (example_rbac\<lparr>notify_up := False\<rparr>))))
     = [True, False, True]"
  "map fst (fst (run_ops (adapter_step rbac_api) revoke_without_watcher (without_cache (example_rbac\<lparr>notify_up := False\<rparr>))))
     = [True, False, False]"
  by code_simp+

text \<open>
  The callback ignores the section of a message. The announcement of a role assignment carries the operation
  \<^verbatim>\<open>add_policy\<close> and the section \<^verbatim>\<open>g\<close>, and is applied as a permission rule of two fields: the other instance does
  not learn the role, and its checks fail.
\<close>

lemma grouping_message_applied_as_policy:
  "fst (Enforce rbac_api ''u-2'' ''users'' ''read''
     (makeUpdateCallback rbac_api (encodeOp ''add_policy'' ''g'' ''g'' (Some [''u-2'', ''viewer''])) (with_cache example_rbac)))
   = (False, Some (ErrText ''invalid policy size''))"
  by code_simp

end
