(* ===== verification/Http.thy ===== *)
theory Http
  imports Apperr Json "HOL-Library.Char_ord" "HOL-Library.List_Lexorder"
begin

text \<open>
  Requests, responses and the middleware every request passes. The web framework is a library; a handler sees a
  request through \<^verbatim>\<open>*fiber.Ctx\<close>, and \<open>fiber_ctx\<close> is the part of it that the service reads and writes. A handler is a
  function on the service state \<^typ>\<open>'w\<close> and the context, and returns an error, the new state and the new context;
  a middleware takes the rest of the chain as \<open>next\<close>.

  \<^item> \<^verbatim>\<open>src/pkg/response/response.go\<close>: the envelope of every response and the functions that send it.
  \<^item> \<^verbatim>\<open>src/internal/platform/http/middleware/error_handler.go\<close>, \<^verbatim>\<open>request_id.go\<close>, \<^verbatim>\<open>security_headers.go\<close>, \<^verbatim>\<open>context.go\<close>,
    \<^verbatim>\<open>logger.go\<close>.
  \<^item> \<^verbatim>\<open>src/internal/module/auth/domain/claims.go\<close>, which the context carries.

  Log output is not modelled.
\<close>

section \<open>Context\<close>

text \<open>A time that may be the zero \<^verbatim>\<open>time.Time\<close> is an option.\<close>

record claims =
  cl_Subject :: string
  cl_UserID :: string
  cl_Email :: string
  cl_Name :: string
  cl_Issuer :: string
  cl_Audience :: "string list"
  cl_ExpiresAt :: "go_time option"
  cl_IssuedAt :: "go_time option"
  cl_NotBefore :: "go_time option"

datatype local_val = LString string | LClaims claims

record fiber_ctx =
  req_headers :: "(string \<times> string) list"
  req_cookies :: "(string \<times> string) list"
  req_params :: "(string \<times> string) list"
  req_query :: "(string \<times> string) list"
  req_body :: string
  req_ip :: string
  locals :: "string \<Rightarrow> local_val option"
  user_ctx :: "string \<Rightarrow> string option"
  res_status :: int
  res_headers :: "string \<Rightarrow> string option"
  res_body :: "json option"
  res_stream :: "string option"

type_synonym 'w handler = "'w \<Rightarrow> fiber_ctx \<Rightarrow> go_error option \<times> 'w \<times> fiber_ctx"
type_synonym sent = "go_error option \<times> fiber_ctx"

text \<open>A look-up that yields the empty string when the name is absent; header names ignore case.\<close>

definition assoc_str :: "(string \<times> string) list \<Rightarrow> string \<Rightarrow> string" where
  "assoc_str kvs k = (case map_of kvs k of None \<Rightarrow> '''' | Some v \<Rightarrow> v)"

definition ctx_Get :: "fiber_ctx \<Rightarrow> string \<Rightarrow> string" where
  "ctx_Get c k = assoc_str (map (\<lambda>(h, v). (to_lower h, v)) (req_headers c)) (to_lower k)"

definition ctx_Cookies :: "fiber_ctx \<Rightarrow> string \<Rightarrow> string" where
  "ctx_Cookies c k = assoc_str (req_cookies c) k"

definition ctx_Params :: "fiber_ctx \<Rightarrow> string \<Rightarrow> string" where
  "ctx_Params c k = assoc_str (req_params c) k"

definition ctx_Query :: "fiber_ctx \<Rightarrow> string \<Rightarrow> string" where
  "ctx_Query c k = assoc_str (req_query c) k"

definition ctx_Set :: "string \<Rightarrow> string \<Rightarrow> fiber_ctx \<Rightarrow> fiber_ctx" where
  "ctx_Set k v c = c\<lparr>res_headers := (res_headers c)(to_lower k \<mapsto> v)\<rparr>"

definition ctx_Locals :: "string \<Rightarrow> local_val \<Rightarrow> fiber_ctx \<Rightarrow> fiber_ctx" where
  "ctx_Locals k v c = c\<lparr>locals := (locals c)(k \<mapsto> v)\<rparr>"

definition setContextValue :: "string \<Rightarrow> string \<Rightarrow> fiber_ctx \<Rightarrow> fiber_ctx" where
  "setContextValue k v c = c\<lparr>user_ctx := (user_ctx c)(k \<mapsto> v)\<rparr>"

definition send_json :: "int \<Rightarrow> json \<Rightarrow> fiber_ctx \<Rightarrow> sent" where
  "send_json status v c = (None, c\<lparr>res_status := status, res_body := Some v\<rparr>)"

definition with_state :: "'w \<Rightarrow> sent \<Rightarrow> go_error option \<times> 'w \<times> fiber_ctx" where
  "with_state w s = (fst s, w, snd s)"

text \<open>The keys of \<^verbatim>\<open>pkg/logger\<close> under which request data travels in the Go context.\<close>

definition key_request_id :: string where "key_request_id = ''request_id''"
definition key_user_id :: string where "key_user_id = ''user_id''"
definition key_ip_address :: string where "key_ip_address = ''ip_address''"
definition key_user_agent :: string where "key_user_agent = ''user_agent''"

section \<open>Package response\<close>

text \<open>A Go map is encoded with its keys in order.\<close>

definition json_map :: "(string \<times> json) list \<Rightarrow> json" where
  "json_map kvs = JObj (sort_key fst kvs)"

record resp_error =
  re_Code :: string
  re_Message :: string
  re_Details :: "(string \<times> json) list"

record Response =
  rs_Success :: bool
  rs_Message :: string
  rs_Data :: "json option"
  rs_Error :: "resp_error option"

definition error_json :: "resp_error \<Rightarrow> json" where
  "error_json e =
     JObj ([(''code'', JStr (re_Code e)), (''message'', JStr (re_Message e))] @
           (if re_Details e = [] then [] else [(''details'', json_map (re_Details e))]))"

definition response_json :: "Response \<Rightarrow> json" where
  "response_json r =
     JObj ([(''success'', JBool (rs_Success r))] @
           (if rs_Message r = '''' then [] else [(''message'', JStr (rs_Message r))]) @
           (case rs_Data r of None \<Rightarrow> [] | Some d \<Rightarrow> [(''data'', d)]) @
           (case rs_Error r of None \<Rightarrow> [] | Some e \<Rightarrow> [(''error'', error_json e)]))"

definition Success :: "fiber_ctx \<Rightarrow> json \<Rightarrow> sent" where
  "Success c data = send_json 200 (response_json \<lparr>rs_Success = True, rs_Message = '''', rs_Data = Some data, rs_Error = None\<rparr>) c"

definition Paginated :: "fiber_ctx \<Rightarrow> json \<Rightarrow> json \<Rightarrow> sent" where
  "Paginated c data pagination =
     send_json 200 (JObj [(''success'', JBool True), (''data'', data), (''pagination'', pagination)]) c"

definition Created :: "fiber_ctx \<Rightarrow> json \<Rightarrow> sent" where
  "Created c data = send_json 201 (response_json \<lparr>rs_Success = True, rs_Message = '''', rs_Data = Some data, rs_Error = None\<rparr>) c"

text \<open>\<^verbatim>\<open>SendStatus\<close> sets the status and, for 204, leaves the body empty.\<close>

definition NoContent :: "fiber_ctx \<Rightarrow> sent" where
  "NoContent c = (None, c\<lparr>res_status := 204, res_body := None\<rparr>)"

definition resp_Message :: "fiber_ctx \<Rightarrow> string \<Rightarrow> sent" where
  "resp_Message c m = send_json 200 (response_json \<lparr>rs_Success = True, rs_Message = m, rs_Data = None, rs_Error = None\<rparr>) c"

definition failure :: "string \<Rightarrow> string \<Rightarrow> (string \<times> json) list \<Rightarrow> json" where
  "failure code msg details =
     response_json \<lparr>rs_Success = False, rs_Message = '''', rs_Data = None,
       rs_Error = Some \<lparr>re_Code = code, re_Message = msg, re_Details = details\<rparr>\<rparr>"

definition Fail :: "fiber_ctx \<Rightarrow> go_error \<Rightarrow> sent" where
  "Fail c err =
     (case AsAppError err of
        Some a \<Rightarrow> send_json (HTTPStatus a) (failure (Code a) (Message a) []) c
      | None \<Rightarrow> send_json 500 (failure CodeInternalError ''An unexpected error occurred'' []) c)"

definition FailWithDetails :: "fiber_ctx \<Rightarrow> go_error \<Rightarrow> (string \<times> json) list \<Rightarrow> sent" where
  "FailWithDetails c err details =
     (case AsAppError err of
        Some a \<Rightarrow> send_json (HTTPStatus a) (failure (Code a) (Message a) details) c
      | None \<Rightarrow> send_json 500 (failure CodeInternalError ''An unexpected error occurred'' details) c)"

definition ValidationFailed :: "fiber_ctx \<Rightarrow> (string \<times> string) list \<Rightarrow> sent" where
  "ValidationFailed c errors =
     send_json 400 (failure CodeValidation ''Validation failed'' (map (\<lambda>(k, v). (k, JStr v)) errors)) c"

definition Unauthorized :: "fiber_ctx \<Rightarrow> string \<Rightarrow> sent" where
  "Unauthorized c m =
     send_json 401 (failure CodeUnauthorized (if m = '''' then ''Authentication required'' else m) []) c"

definition Forbidden :: "fiber_ctx \<Rightarrow> string \<Rightarrow> sent" where
  "Forbidden c m = send_json 403 (failure CodeForbidden (if m = '''' then ''Access denied'' else m) []) c"

definition NotFound :: "fiber_ctx \<Rightarrow> string \<Rightarrow> sent" where
  "NotFound c m = send_json 404 (failure CodeNotFound (if m = '''' then ''Resource not found'' else m) []) c"

section \<open>Middleware\<close>

definition fiberStatusToCode :: "int \<Rightarrow> string" where
  "fiberStatusToCode status =
     (if status = 400 then CodeBadRequest else if status = 401 then CodeUnauthorized
      else if status = 403 then CodeForbidden else if status = 404 then CodeNotFound
      else if status = 409 then CodeConflict else if status = 422 then CodeUnprocessableEntity
      else CodeInternalError)"

definition ErrorHandler :: "fiber_ctx \<Rightarrow> go_error \<Rightarrow> sent" where
  "ErrorHandler c err =
     (case AsAppError err of
        Some a \<Rightarrow> Fail c a
      | None \<Rightarrow>
          (case err of
             FiberError code m \<Rightarrow>
               send_json code (json_map [(''success'', JBool False),
                 (''error'', json_map [(''code'', JStr (fiberStatusToCode code)), (''message'', JStr m)])]) c
           | _ \<Rightarrow> Fail c ErrInternal))"

text \<open>The framework runs the error handler on the error that the handler chain returned.\<close>

definition serve :: "'w handler \<Rightarrow> 'w \<Rightarrow> fiber_ctx \<Rightarrow> 'w \<times> fiber_ctx" where
  "serve h w c =
     (case h w c of
        (None, w', c') \<Rightarrow> (w', c')
      | (Some err, w', c') \<Rightarrow> (w', snd (ErrorHandler c' err)))"

text \<open>The new identifier that \<^verbatim>\<open>uuid.New\<close> would give is an argument.\<close>

definition RequestID :: "string \<Rightarrow> 'w handler \<Rightarrow> 'w handler" where
  "RequestID new_uuid next w c =
     (let h = ctx_Get c ''X-Request-ID'';
          requestID = (if h = '''' then new_uuid else h)
      in next w (setContextValue key_request_id requestID
                   (ctx_Locals ''request_id'' (LString requestID) (ctx_Set ''X-Request-ID'' requestID c))))"

definition GetRequestID :: "fiber_ctx \<Rightarrow> string" where
  "GetRequestID c = (case locals c ''request_id'' of Some (LString s) \<Rightarrow> s | _ \<Rightarrow> '''')"

definition security_headers :: "bool \<Rightarrow> (string \<times> string) list" where
  "security_headers isProduction =
     [(''X-Content-Type-Options'', ''nosniff''),
      (''X-Frame-Options'', ''DENY''),
      (''X-XSS-Protection'', ''1; mode=block''),
      (''Content-Security-Policy'', ''default-src '' @ [CHR 0x27] @ ''self'' @ [CHR 0x27]),
      (''Referrer-Policy'', ''strict-origin-when-cross-origin''),
      (''Permissions-Policy'', ''camera=(), microphone=(), geolocation=()'')] @
     (if isProduction then [(''Strict-Transport-Security'', ''max-age=31536000; includeSubDomains'')] else [])"

definition SecurityHeaders :: "bool \<Rightarrow> 'w handler \<Rightarrow> 'w handler" where
  "SecurityHeaders isProduction next w c = next w (fold (\<lambda>(k, v). ctx_Set k v) (security_headers isProduction) c)"

section \<open>Lemmas\<close>

lemmas sent_defs [http_simps] = send_json_def with_state_def Success_def Paginated_def Created_def NoContent_def
  resp_Message_def Fail_def FailWithDetails_def ValidationFailed_def Unauthorized_def Forbidden_def NotFound_def

text \<open>What a client sees of an error value: the code, message and status of its first application error.\<close>

definition client_view :: "go_error \<Rightarrow> (string \<times> string \<times> int) option" where
  "client_view err = map_option (\<lambda>a. (Code a, Message a, HTTPStatus a)) (AsAppError err)"

lemma Fail_view:
  "Fail c err =
     (case client_view err of
        Some (code, m, h) \<Rightarrow> send_json h (failure code m []) c
      | None \<Rightarrow> send_json 500 (failure CodeInternalError ''An unexpected error occurred'' []) c)"
  by (simp add: Fail_def client_view_def split: option.split)

lemma ErrorHandler_app: "AsAppError err = Some a \<Longrightarrow> ErrorHandler c err = Fail c err"
  using AsAppError_idem [of err a] by (simp add: ErrorHandler_def Fail_def)

lemma fold_ctx_Set_res_headers:
  "res_headers (fold (\<lambda>(k, v). ctx_Set k v) kvs c) = res_headers c ++ map_of (rev (map (\<lambda>(k, v). (to_lower k, v)) kvs))"
proof (induction kvs arbitrary: c)
  case (Cons kv kvs)
  then show ?case
    by (cases kv) (auto simp: ctx_Set_def map_add_def fun_eq_iff split: option.split)
qed simp

lemma security_headers_distinct: "distinct (map fst (map (\<lambda>(k, v). (to_lower k, v)) (security_headers b)))"
  by (induction b) code_simp+

lemma security_headers_sts:
  "''strict-transport-security'' \<in> set (map fst (map (\<lambda>(k, v). (to_lower k, v)) (security_headers b))) \<longleftrightarrow> b"
  by (induction b) code_simp+

section \<open>Properties\<close>

text \<open>
  An error response never reveals the wrapped cause. Two error values whose first application error has the
  same code, message and status (or that have none) produce the same response through \<^verbatim>\<open>Fail\<close>, whatever
  database, cache or library errors they wrap; and through the central error handler as well, unless
  the error is one that the framework itself raised.
\<close>

theorem error_response_hides_cause:
  assumes "client_view e1 = client_view e2"
  shows "Fail c e1 = Fail c e2 \<and>
    ((\<forall>s m. e1 \<noteq> FiberError s m) \<and> (\<forall>s m. e2 \<noteq> FiberError s m) \<longrightarrow> ErrorHandler c e1 = ErrorHandler c e2)"
proof
  show F: "Fail c e1 = Fail c e2" using assms by (simp add: Fail_view)
  show "(\<forall>s m. e1 \<noteq> FiberError s m) \<and> (\<forall>s m. e2 \<noteq> FiberError s m) \<longrightarrow> ErrorHandler c e1 = ErrorHandler c e2"
  proof
    assume n: "(\<forall>s m. e1 \<noteq> FiberError s m) \<and> (\<forall>s m. e2 \<noteq> FiberError s m)"
    show "ErrorHandler c e1 = ErrorHandler c e2"
    proof (cases "AsAppError e1")
      case None
      then have "AsAppError e2 = None" using assms by (simp add: client_view_def)
      with None n show ?thesis by (auto simp: ErrorHandler_def split: go_error.split)
    next
      case (Some a)
      then obtain b where "AsAppError e2 = Some b" using assms by (cases "AsAppError e2") (auto simp: client_view_def)
      with Some F show ?thesis by (simp add: ErrorHandler_app)
    qed
  qed
qed

definition example_ctx :: fiber_ctx where
  "example_ctx = \<lparr>req_headers = [(''Authorization'', ''Bearer tok''), (''User-Agent'', ''curl'')], req_cookies = [], req_params = [],
     req_query = [], req_body = '''', req_ip = ''10.0.0.1'', locals = (\<lambda>_. None), user_ctx = (\<lambda>_. None),
     res_status = 200, res_headers = (\<lambda>_. None), res_body = None, res_stream = None\<rparr>"

lemma error_response_hides_cause_witness:
  "client_view (errorf_w ''repo'' (ErrText ''password for host db-1'')) = client_view (ErrText ''timeout'') \<and>
   Fail example_ctx (errorf_w ''repo'' (ErrText ''password for host db-1'')) = Fail example_ctx (ErrText ''timeout'')"
  using error_response_hides_cause [of "errorf_w ''repo'' (ErrText ''password for host db-1'')" "ErrText ''timeout''" example_ctx]
  by (simp add: client_view_def)

text \<open>
  Every request that the server finishes has an answer in the envelope. Whatever error the handler chain
  returns, the client gets a JSON body, and for an application error the status is that error's status; the
  service state is the one the chain left.
\<close>

theorem serve_answers_errors:
  assumes "h w c = (Some err, w', c')"
  shows "fst (serve h w c) = w' \<and> (\<exists>j. res_body (snd (serve h w c)) = Some j) \<and>
    (\<forall>a. AsAppError err = Some a \<longrightarrow> res_status (snd (serve h w c)) = HTTPStatus a)"
proof (cases "AsAppError err")
  case None
  with assms show ?thesis
    by (cases err) (auto simp: serve_def ErrorHandler_def Fail_def send_json_def split: option.split)
next
  case (Some a)
  with assms AsAppError_idem [OF Some] show ?thesis
    by (simp add: serve_def ErrorHandler_def Fail_def send_json_def)
qed

lemma serve_answers_errors_witness:
  "res_status (snd (serve (\<lambda>w c. (Some ErrNotFound, w, c)) () example_ctx)) = 404"
  using serve_answers_errors [of "\<lambda>w c. (Some ErrNotFound, w, c)" "()" example_ctx ErrNotFound "()" example_ctx]
  by (simp add: ErrNotFound_def New_def)

text \<open>
  Every handler runs behind the security headers: the context that the rest of the chain receives carries
  each header of the fixed list with its fixed value, and the transport-security header exactly in production
  when the response had none before.
\<close>

theorem security_headers_set:
  assumes "(k, v) \<in> set (security_headers is_prod)"
  shows "\<exists>c'. SecurityHeaders is_prod next w c = next w c' \<and> res_headers c' (to_lower k) = Some v \<and>
    (res_headers c ''strict-transport-security'' = None \<longrightarrow>
       (res_headers c' ''strict-transport-security'' = None \<longleftrightarrow> \<not> is_prod))"
proof -
  let ?c = "fold (\<lambda>(k, v). ctx_Set k v) (security_headers is_prod) c"
  let ?l = "map (\<lambda>(k, v). (to_lower k, v)) (security_headers is_prod)"
  have "SecurityHeaders is_prod next w c = next w ?c" by (simp add: SecurityHeaders_def)
  moreover have "res_headers ?c (to_lower k) = Some v"
  proof -
    have "map_of (rev ?l) (to_lower k) = Some v"
    proof (subst map_of_Some_mem_distinct)
      show "distinct (map fst (rev ?l))"
        unfolding rev_map [symmetric] distinct_rev by (rule security_headers_distinct)
      show "(to_lower k, v) \<in> set (rev ?l)"
        using assms by (simp only: set_rev set_map) (rule image_eqI, auto)
    qed
    then show ?thesis by (simp add: fold_ctx_Set_res_headers map_add_def)
  qed
  moreover have "map_of (rev ?l) ''strict-transport-security'' = None \<longleftrightarrow> \<not> is_prod"
    using security_headers_sts [of is_prod] by (simp only: map_of_eq_None_iff set_rev set_map)
  then have "res_headers c ''strict-transport-security'' = None \<longrightarrow>
       (res_headers ?c ''strict-transport-security'' = None \<longleftrightarrow> \<not> is_prod)"
    by (auto simp: fold_ctx_Set_res_headers map_add_def split: option.split)
  ultimately show ?thesis by (intro exI [of _ ?c] conjI) assumption+
qed

lemma security_headers_set_witness:
  "\<exists>c'. SecurityHeaders True (\<lambda>w c. (None, w, c)) () example_ctx = (None, (), c') \<and>
    res_headers c' ''x-frame-options'' = Some ''DENY''"
proof -
  have "(''X-Frame-Options'', ''DENY'') \<in> set (security_headers True)" by (simp add: security_headers_def)
  moreover have "to_lower ''X-Frame-Options'' = ''x-frame-options''" by code_simp
  ultimately show ?thesis
    using security_headers_set [of "''X-Frame-Options''" "''DENY''" True "\<lambda>w c. (None, w, c)" "()" example_ctx] by auto
qed

end
