(* ===== verification/Cache_Port.thy ===== *)
theory Cache_Port
  imports Apperr Json
begin

text \<open>
  The cache port and its two implementations: \<^verbatim>\<open>src/internal/port/cache.go\<close>, \<^verbatim>\<open>src/internal/adapter/cache/redis.go\<close>,
  \<^verbatim>\<open>src/internal/adapter/cache/noop.go\<close>. The Redis server is a parameter, the record \<open>redis_api\<close> of the commands that
  the adapter and its Lua script issue. What the adapter relies on is the locale \<open>redis_server\<close>, satisfied by the
  key space \<open>redis\<close> with expiry times. The locale \<open>kv_store\<close> is what the users of the port rely on (the refresh
  tokens above all); the Redis adapter satisfies it, the no-op cache does not.

  \<^verbatim>\<open>DeleteByPrefix\<close> loops until the SCAN cursor comes back to 0. The loop takes fuel, and the locale's bound on the
  number of cursor positions is shown to be enough fuel.
\<close>

section \<open>The port\<close>

record 's cache_port =
  ca_Get :: "go_time \<Rightarrow> string \<Rightarrow> 's \<Rightarrow> go_error + string"
  ca_Set :: "go_time \<Rightarrow> string \<Rightarrow> string \<Rightarrow> int \<Rightarrow> 's \<Rightarrow> go_error option \<times> 's"
  ca_Delete :: "go_time \<Rightarrow> string \<Rightarrow> 's \<Rightarrow> go_error option \<times> 's"
  ca_DeleteByPrefix :: "go_time \<Rightarrow> string \<Rightarrow> 's \<Rightarrow> go_error option \<times> 's"
  ca_Exists :: "go_time \<Rightarrow> string \<Rightarrow> 's \<Rightarrow> go_error + bool"
  ca_SetJSON :: "go_time \<Rightarrow> string \<Rightarrow> json \<Rightarrow> int \<Rightarrow> 's \<Rightarrow> go_error option \<times> 's"
  ca_GetJSON :: "go_time \<Rightarrow> string \<Rightarrow> 's \<Rightarrow> go_error + json"
  ca_Increment :: "go_time \<Rightarrow> string \<Rightarrow> 's \<Rightarrow> (go_error + int) \<times> 's"
  ca_Decrement :: "go_time \<Rightarrow> string \<Rightarrow> 's \<Rightarrow> (go_error + int) \<times> 's"
  ca_Expire :: "go_time \<Rightarrow> string \<Rightarrow> int \<Rightarrow> 's \<Rightarrow> go_error option \<times> 's"
  ca_SlidingWindowAllow :: "go_time \<Rightarrow> string \<Rightarrow> int \<Rightarrow> int \<Rightarrow> 's \<Rightarrow> (go_error + bool \<times> int \<times> int) \<times> 's"

abbreviation ErrCacheMiss :: go_error where "ErrCacheMiss \<equiv> CacheMissError"
abbreviation ErrCacheUnavailable :: go_error where "ErrCacheUnavailable \<equiv> CacheUnavailableError"

section \<open>The no-op cache\<close>

definition NoOpCache :: "'s cache_port" where
  "NoOpCache = \<lparr>
     ca_Get = (\<lambda>now key s. Inl ErrCacheMiss),
     ca_Set = (\<lambda>now key value ttl s. (None, s)),
     ca_Delete = (\<lambda>now key s. (None, s)),
     ca_DeleteByPrefix = (\<lambda>now prefix s. (Some ErrCacheUnavailable, s)),
     ca_Exists = (\<lambda>now key s. Inr False),
     ca_SetJSON = (\<lambda>now key value ttl s. (None, s)),
     ca_GetJSON = (\<lambda>now key s. Inl ErrCacheMiss),
     ca_Increment = (\<lambda>now key s. (Inr 0, s)),
     ca_Decrement = (\<lambda>now key s. (Inr 0, s)),
     ca_Expire = (\<lambda>now key ttl s. (None, s)),
     ca_SlidingWindowAllow = (\<lambda>now key maxReqs window s. (Inr (True, maxReqs, 0), s))\<rparr>"

section \<open>Redis commands\<close>

record 'r redis_api =
  r_get :: "go_time \<Rightarrow> string \<Rightarrow> 'r \<Rightarrow> go_error + string option"
  r_set :: "go_time \<Rightarrow> string \<Rightarrow> string \<Rightarrow> int \<Rightarrow> 'r \<Rightarrow> go_error option \<times> 'r"
  r_del :: "go_time \<Rightarrow> string list \<Rightarrow> 'r \<Rightarrow> go_error option \<times> 'r"
  r_scan :: "go_time \<Rightarrow> nat \<Rightarrow> string \<Rightarrow> nat \<Rightarrow> 'r \<Rightarrow> go_error + string list \<times> nat"
  r_exists :: "go_time \<Rightarrow> string \<Rightarrow> 'r \<Rightarrow> go_error + int"
  r_incrby :: "go_time \<Rightarrow> string \<Rightarrow> int \<Rightarrow> 'r \<Rightarrow> (go_error + int) \<times> 'r"
  r_expire :: "go_time \<Rightarrow> string \<Rightarrow> int \<Rightarrow> 'r \<Rightarrow> go_error option \<times> 'r"
  r_script :: "'r \<Rightarrow> go_error option"
  r_zremrangebyscore :: "go_time \<Rightarrow> string \<Rightarrow> int \<Rightarrow> 'r \<Rightarrow> 'r"
  r_zcard :: "go_time \<Rightarrow> string \<Rightarrow> 'r \<Rightarrow> int"
  r_zfirst :: "go_time \<Rightarrow> string \<Rightarrow> 'r \<Rightarrow> int option"
  r_zadd :: "go_time \<Rightarrow> string \<Rightarrow> int \<Rightarrow> int \<Rightarrow> 'r \<Rightarrow> 'r"
  r_pexpire :: "go_time \<Rightarrow> string \<Rightarrow> int \<Rightarrow> 'r \<Rightarrow> 'r"

text \<open>
  \<open>r_script\<close> is the error of running a script at all (the server is down, or the key holds another type);
  \<open>r_zremrangebyscore\<close> removes the members with a score from minus infinity to its argument; \<open>r_zfirst\<close> is the
  lowest score; the member that \<open>r_zadd\<close> adds is a number.
\<close>

section \<open>The Redis adapter\<close>

definition redis_Get :: "'r redis_api \<Rightarrow> go_time \<Rightarrow> string \<Rightarrow> 'r \<Rightarrow> go_error + string" where
  "redis_Get api now key s =
     (case r_get api now key s of
        Inl e \<Rightarrow> Inl (errorf_w ''redis get error'' e)
      | Inr None \<Rightarrow> Inl ErrCacheMiss
      | Inr (Some v) \<Rightarrow> Inr v)"

definition redis_Set :: "'r redis_api \<Rightarrow> go_time \<Rightarrow> string \<Rightarrow> string \<Rightarrow> int \<Rightarrow> 'r \<Rightarrow> go_error option \<times> 'r" where
  "redis_Set api now key v ttl s =
     (case r_set api now key v ttl s of (err, s') \<Rightarrow> (map_option (errorf_w ''redis set error'') err, s'))"

definition redis_Delete :: "'r redis_api \<Rightarrow> go_time \<Rightarrow> string \<Rightarrow> 'r \<Rightarrow> go_error option \<times> 'r" where
  "redis_Delete api now key s =
     (case r_del api now [key] s of (err, s') \<Rightarrow> (map_option (errorf_w ''redis delete error'') err, s'))"

primrec delete_loop ::
  "nat \<Rightarrow> 'r redis_api \<Rightarrow> go_time \<Rightarrow> string \<Rightarrow> nat \<Rightarrow> 'r \<Rightarrow> (go_error option \<times> 'r) option" where
  "delete_loop 0 api now pre cursor s = None"
| "delete_loop (Suc fuel) api now pre cursor s =
     (case r_scan api now cursor (pre @ ''*'') 100 s of
        Inl e \<Rightarrow> Some (Some (errorf_w ''redis scan error'' e), s)
      | Inr (keys, nextCursor) \<Rightarrow>
          (case (if keys = [] then (None, s) else r_del api now keys s) of
             (Some e, s') \<Rightarrow> Some (Some (errorf_w ''redis del error'' e), s')
           | (None, s') \<Rightarrow>
               if nextCursor = 0 then Some (None, s') else delete_loop fuel api now pre nextCursor s'))"

definition redis_DeleteByPrefix ::
  "nat \<Rightarrow> 'r redis_api \<Rightarrow> go_time \<Rightarrow> string \<Rightarrow> 'r \<Rightarrow> (go_error option \<times> 'r) option" where
  "redis_DeleteByPrefix fuel api now pre s = delete_loop fuel api now pre 0 s"

definition redis_Exists :: "'r redis_api \<Rightarrow> go_time \<Rightarrow> string \<Rightarrow> 'r \<Rightarrow> go_error + bool" where
  "redis_Exists api now key s =
     (case r_exists api now key s of Inl e \<Rightarrow> Inl (errorf_w ''redis exists error'' e) | Inr n \<Rightarrow> Inr (0 < n))"

text \<open>The value is already a JSON value, so encoding it does not fail.\<close>

definition redis_SetJSON :: "'r redis_api \<Rightarrow> go_time \<Rightarrow> string \<Rightarrow> json \<Rightarrow> int \<Rightarrow> 'r \<Rightarrow> go_error option \<times> 'r" where
  "redis_SetJSON api now key v ttl s = redis_Set api now key (print_json v) ttl s"

definition redis_GetJSON :: "'r redis_api \<Rightarrow> go_time \<Rightarrow> string \<Rightarrow> 'r \<Rightarrow> go_error + json" where
  "redis_GetJSON api now key s =
     (case redis_Get api now key s of
        Inl e \<Rightarrow> Inl e
      | Inr d \<Rightarrow>
          (case parse_json d of
             None \<Rightarrow> Inl (errorf_w ''failed to unmarshal json'' (ErrText ''invalid character''))
           | Some v \<Rightarrow> Inr v))"

definition redis_Increment :: "'r redis_api \<Rightarrow> go_time \<Rightarrow> string \<Rightarrow> 'r \<Rightarrow> (go_error + int) \<times> 'r" where
  "redis_Increment api now key s =
     (case r_incrby api now key 1 s of
        (Inl e, s') \<Rightarrow> (Inl (errorf_w ''redis incr error'' e), s')
      | (Inr n, s') \<Rightarrow> (Inr n, s'))"

definition redis_Decrement :: "'r redis_api \<Rightarrow> go_time \<Rightarrow> string \<Rightarrow> 'r \<Rightarrow> (go_error + int) \<times> 'r" where
  "redis_Decrement api now key s =
     (case r_incrby api now key (- 1) s of
        (Inl e, s') \<Rightarrow> (Inl (errorf_w ''redis decr error'' e), s')
      | (Inr n, s') \<Rightarrow> (Inr n, s'))"

definition redis_Expire :: "'r redis_api \<Rightarrow> go_time \<Rightarrow> string \<Rightarrow> int \<Rightarrow> 'r \<Rightarrow> go_error option \<times> 'r" where
  "redis_Expire api now key ttl s =
     (case r_expire api now key ttl s of (err, s') \<Rightarrow> (map_option (errorf_w ''redis expire error'') err, s'))"

subsection \<open>The sliding-window script\<close>

text \<open>Numbers of a Lua script are doubles: an integer is rounded to 53 significant bits, ties to even.\<close>

fun bit_len :: "nat \<Rightarrow> nat" where
  "bit_len n = (if n = 0 then 0 else Suc (bit_len (n div 2)))"

declare bit_len.simps [simp del]

definition lua_num :: "int \<Rightarrow> int" where
  "lua_num n =
     (let m = nat \<bar>n\<bar>; u = 2 ^ (bit_len m - 53); q = m div u; r = m mod u;
          q' = (if u < 2 * r \<or> (2 * r = u \<and> odd q) then q + 1 else q)
      in sgn n * int (q' * u))"

definition ceil_div :: "int \<Rightarrow> int \<Rightarrow> int" where
  "ceil_div a b = - ((- a) div b)"

definition slidingWindowScript ::
  "'r redis_api \<Rightarrow> go_time \<Rightarrow> string \<Rightarrow> int \<Rightarrow> int \<Rightarrow> int \<Rightarrow> 'r \<Rightarrow> int list \<times> 'r" where
  "slidingWindowScript api t key arg1 arg2 arg3 s =
     (let now = lua_num arg1; window = lua_num arg2; mx = lua_num arg3;
          cutoff = lua_num (now - window);
          s1 = r_zremrangebyscore api t key cutoff s;
          count = r_zcard api t key s1
      in if mx \<le> count then
           (let retry_ns = (case r_zfirst api t key s1 of
                              None \<Rightarrow> 0
                            | Some oldest \<Rightarrow> lua_num (lua_num (oldest + window) - now));
                retry_sec = ceil_div retry_ns 1000000000
            in ([0, 0, if retry_sec < 1 then 1 else retry_sec], s1))
         else
           (let s2 = r_zadd api t key now now s1;
                s3 = r_pexpire api t key (ceil_div window 1000000) s2
            in ([1, lua_num (mx - count - 1), 0], s3)))"

definition redis_SlidingWindowAllow ::
  "'r redis_api \<Rightarrow> go_time \<Rightarrow> string \<Rightarrow> int \<Rightarrow> int \<Rightarrow> 'r \<Rightarrow> (go_error + bool \<times> int \<times> int) \<times> 'r" where
  "redis_SlidingWindowAllow api now key maxReqs window s =
     (case r_script api s of
        Some e \<Rightarrow> (Inl (errorf_w ''redis sliding window error'' e), s)
      | None \<Rightarrow>
          (case slidingWindowScript api now key now window maxReqs s of
             (a # b # c # _, s') \<Rightarrow> (Inr (a = 1, b, c), s')
           | (res, s') \<Rightarrow> (Inl (ErrText (''redis sliding window: unexpected result length '' @ itoa (int (length res)))), s')))"

text \<open>The fuel of the delete loop is fixed when the adapter is built.\<close>

definition RedisCache :: "nat \<Rightarrow> 'r redis_api \<Rightarrow> 'r cache_port" where
  "RedisCache fuel api = \<lparr>
     ca_Get = redis_Get api,
     ca_Set = redis_Set api,
     ca_Delete = redis_Delete api,
     ca_DeleteByPrefix = (\<lambda>now pre s.
        case redis_DeleteByPrefix fuel api now pre s of Some r \<Rightarrow> r | None \<Rightarrow> (Some (ErrText ''scan not finished''), s)),
     ca_Exists = redis_Exists api,
     ca_SetJSON = redis_SetJSON api,
     ca_GetJSON = redis_GetJSON api,
     ca_Increment = redis_Increment api,
     ca_Decrement = redis_Decrement api,
     ca_Expire = redis_Expire api,
     ca_SlidingWindowAllow = redis_SlidingWindowAllow api\<rparr>"

section \<open>What the adapter relies on\<close>

text \<open>
  \<open>live r now k\<close> is the string that \<open>k\<close> holds at time \<open>now\<close>. The iteration of SCAN visits the key slots in some
  order: \<open>rank\<close> is the position of a cursor in it, and a call returns at least the live keys with the prefix
  whose slot lies between its cursor and the next one. The prefix is free of pattern characters. The keys with
  \<open>skey\<close> are those that never hold a sorted set.
\<close>

definition plain :: "string \<Rightarrow> bool" where
  "plain s \<longleftrightarrow> (\<forall>c \<in> set s. c \<notin> set ''*?[]'' \<and> c \<noteq> CHR 0x5C)"

locale redis_server =
  fixes api :: "'r redis_api" and live :: "'r \<Rightarrow> go_time \<Rightarrow> string \<Rightarrow> string option" and ok :: "'r \<Rightarrow> bool"
    and skey :: "string \<Rightarrow> bool" and slot :: "string \<Rightarrow> nat" and rank :: "nat \<Rightarrow> nat" and slots :: nat
  assumes get: "ok s \<Longrightarrow> skey k \<Longrightarrow> r_get api now k s = Inr (live s now k)"
    and set_law: "ok s \<Longrightarrow> skey k \<Longrightarrow> 0 < ttl \<Longrightarrow> fst (r_set api now k v ttl s) = None \<and> ok (snd (r_set api now k v ttl s)) \<and>
      (now \<le> t \<longrightarrow> live (snd (r_set api now k v ttl s)) t k' =
         (if k' = k then (if t < now + ttl then Some v else None) else live s t k'))"
    and del_law: "ok s \<Longrightarrow> fst (r_del api now ks s) = None \<and> ok (snd (r_del api now ks s)) \<and>
      live (snd (r_del api now ks s)) t k = (if k \<in> set ks then None else live s t k)"
    and scan_law: "ok s \<Longrightarrow> plain pre \<Longrightarrow> \<exists>keys nxt. r_scan api now c (pre @ ''*'') n s = Inr (keys, nxt) \<and>
      (\<forall>k \<in> set keys. has_prefix k pre) \<and> (nxt = 0 \<or> rank c < rank nxt) \<and>
      (\<forall>k. live s now k \<noteq> None \<longrightarrow> has_prefix k pre \<longrightarrow> rank c \<le> slot k \<longrightarrow> (nxt = 0 \<or> slot k < rank nxt) \<longrightarrow> k \<in> set keys)"
    and rank_start: "rank 0 = 0"
    and rank_bound: "rank c < slots"
    and expiry: "ok s \<Longrightarrow> now \<le> t \<Longrightarrow> live s t k \<noteq> None \<Longrightarrow> live s now k \<noteq> None"
begin

lemma delete_loop_result:
  assumes "ok s" and "plain pre" and "slots - rank c \<le> fuel"
  shows "\<exists>s'. delete_loop fuel api now pre c s = Some (None, s') \<and> ok s' \<and>
    (\<forall>t k. \<not> has_prefix k pre \<longrightarrow> live s' t k = live s t k) \<and>
    (\<forall>t k. live s' t k \<noteq> None \<longrightarrow> live s t k \<noteq> None) \<and>
    (\<forall>k. has_prefix k pre \<longrightarrow> rank c \<le> slot k \<longrightarrow> live s' now k = None)"
  using assms
proof (induction fuel arbitrary: c s)
  case 0
  then show ?case using rank_bound [of c] by simp
next
  case (Suc fuel)
  obtain keys nxt where scan: "r_scan api now c (pre @ ''*'') 100 s = Inr (keys, nxt)"
      "\<forall>k \<in> set keys. has_prefix k pre" "nxt = 0 \<or> rank c < rank nxt"
      "\<And>k. live s now k \<noteq> None \<Longrightarrow> has_prefix k pre \<Longrightarrow> rank c \<le> slot k \<Longrightarrow> nxt = 0 \<or> slot k < rank nxt \<Longrightarrow> k \<in> set keys"
    using scan_law [OF Suc.prems(1,2), of now c 100] by blast
  define s1 where "s1 = (if keys = [] then s else snd (r_del api now keys s))"
  have step: "(if keys = [] then (None, s) else r_del api now keys s) = (None, s1)"
    and ok1: "ok s1" and live1: "\<And>t k. live s1 t k = (if k \<in> set keys then None else live s t k)"
    using del_law [OF Suc.prems(1)] Suc.prems(1) by (auto simp: s1_def prod_eq_iff)
  have gone: "has_prefix k pre \<Longrightarrow> rank c \<le> slot k \<Longrightarrow> nxt = 0 \<or> slot k < rank nxt \<Longrightarrow> live s1 now k = None" for k
    using scan(4) [of k] live1 by (metis not_None_eq)
  show ?case
  proof (cases "nxt = 0")
    case True
    then show ?thesis using scan(1,2) step ok1 live1 gone by auto
  next
    case False
    then have fuel: "slots - rank nxt \<le> fuel" using scan(3) Suc.prems(3) rank_bound [of c] by linarith
    obtain s' where s': "delete_loop fuel api now pre nxt s1 = Some (None, s')" "ok s'"
        "\<And>t k. \<not> has_prefix k pre \<Longrightarrow> live s' t k = live s1 t k"
        "\<And>t k. live s' t k \<noteq> None \<Longrightarrow> live s1 t k \<noteq> None"
        "\<And>k. has_prefix k pre \<Longrightarrow> rank nxt \<le> slot k \<Longrightarrow> live s' now k = None"
      using Suc.IH [OF ok1 Suc.prems(2) fuel] by blast
    have "live s' now k = None" if "has_prefix k pre" "rank c \<le> slot k" for k
      using s'(5) [of k] s'(4) [of now k] gone [of k] that by (metis not_le)
    moreover have "live s t k \<noteq> None" if "live s' t k \<noteq> None" for t k
      using s'(4) [OF that] live1 [of t k] by (auto split: if_splits)
    ultimately show ?thesis
      using s' scan(1,2) step live1 False by (auto simp: exI [of _ s'])
  qed
qed

lemma delete_by_prefix:
  assumes "ok s" and "plain pre"
  shows "\<exists>s'. redis_DeleteByPrefix slots api now pre s = Some (None, s') \<and> ok s' \<and>
    (\<forall>t k. now \<le> t \<longrightarrow> live s' t k = (if has_prefix k pre then None else live s t k))"
proof -
  have "slots - rank 0 \<le> slots" by simp
  from delete_loop_result [OF assms this, of now] obtain s' where s': "delete_loop slots api now pre 0 s = Some (None, s')" "ok s'"
      "\<And>t k. \<not> has_prefix k pre \<Longrightarrow> live s' t k = live s t k" "\<And>k. has_prefix k pre \<Longrightarrow> live s' now k = None"
    using rank_start by auto
  have "live s' t k = None" if "has_prefix k pre" "now \<le> t" for t k
    using expiry [OF s'(2) that(2)] s'(4) [OF that(1)] by blast
  with s' show ?thesis by (auto simp: redis_DeleteByPrefix_def)
qed

end

section \<open>What users of the port rely on\<close>

locale kv_store =
  fixes cache :: "'s cache_port" and live :: "'s \<Rightarrow> go_time \<Rightarrow> string \<Rightarrow> string option" and ok :: "'s \<Rightarrow> bool"
    and skey :: "string \<Rightarrow> bool"
  assumes kv_get: "ok s \<Longrightarrow> skey k \<Longrightarrow>
      ca_Get cache now k s = (case live s now k of None \<Rightarrow> Inl ErrCacheMiss | Some v \<Rightarrow> Inr v)"
    and kv_set: "ok s \<Longrightarrow> skey k \<Longrightarrow> 0 < ttl \<Longrightarrow> fst (ca_Set cache now k v ttl s) = None \<and> ok (snd (ca_Set cache now k v ttl s)) \<and>
      (now \<le> t \<longrightarrow> live (snd (ca_Set cache now k v ttl s)) t k' =
         (if k' = k then (if t < now + ttl then Some v else None) else live s t k'))"
    and kv_delete: "ok s \<Longrightarrow> fst (ca_Delete cache now k s) = None \<and> ok (snd (ca_Delete cache now k s)) \<and>
      live (snd (ca_Delete cache now k s)) t k' = (if k' = k then None else live s t k')"
    and kv_delete_prefix: "ok s \<Longrightarrow> plain pre \<Longrightarrow> fst (ca_DeleteByPrefix cache now pre s) = None \<and>
      ok (snd (ca_DeleteByPrefix cache now pre s)) \<and>
      (now \<le> t \<longrightarrow> live (snd (ca_DeleteByPrefix cache now pre s)) t k = (if has_prefix k pre then None else live s t k))"

sublocale redis_server \<subseteq> kv: kv_store "RedisCache slots api" live ok skey
proof
  fix s assume s: "ok s"
  show "ca_Get (RedisCache slots api) now k s = (case live s now k of None \<Rightarrow> Inl ErrCacheMiss | Some v \<Rightarrow> Inr v)"
    if "skey k" for k now
    using get [OF s that] by (simp add: RedisCache_def redis_Get_def split: option.split)
  show "fst (ca_Set (RedisCache slots api) now k v ttl s) = None \<and> ok (snd (ca_Set (RedisCache slots api) now k v ttl s)) \<and>
      (now \<le> t \<longrightarrow> live (snd (ca_Set (RedisCache slots api) now k v ttl s)) t k' =
         (if k' = k then (if t < now + ttl then Some v else None) else live s t k'))"
    if "skey k" "0 < ttl" for k now v ttl t k'
    using set_law [OF s that, of now v t k'] by (simp add: RedisCache_def redis_Set_def case_prod_unfold)
  show "fst (ca_Delete (RedisCache slots api) now k s) = None \<and> ok (snd (ca_Delete (RedisCache slots api) now k s)) \<and>
      live (snd (ca_Delete (RedisCache slots api) now k s)) t k' = (if k' = k then None else live s t k')" for now k t k'
    using del_law [OF s, of now "[k]" t k'] by (simp add: RedisCache_def redis_Delete_def case_prod_unfold)
  show "fst (ca_DeleteByPrefix (RedisCache slots api) now pre s) = None \<and>
      ok (snd (ca_DeleteByPrefix (RedisCache slots api) now pre s)) \<and>
      (now \<le> t \<longrightarrow> live (snd (ca_DeleteByPrefix (RedisCache slots api) now pre s)) t k = (if has_prefix k pre then None else live s t k))"
    if "plain pre" for now pre t k
    using delete_by_prefix [OF s that, of now] by (auto simp: RedisCache_def)
qed

section \<open>A key space with expiry times\<close>

datatype redis_val = RStr string | RZSet "(int \<times> int) list"

record redis =
  r_keys :: "(string \<times> redis_val \<times> go_time option) list"
  r_up :: bool

definition unexpired :: "go_time \<Rightarrow> go_time option \<Rightarrow> bool" where
  "unexpired now ex \<longleftrightarrow> (case ex of None \<Rightarrow> True | Some e \<Rightarrow> now < e)"

definition redis_lookup :: "redis \<Rightarrow> go_time \<Rightarrow> string \<Rightarrow> redis_val option" where
  "redis_lookup r now k =
     (case map_of (r_keys r) k of Some (v, ex) \<Rightarrow> if unexpired now ex then Some v else None | None \<Rightarrow> None)"

definition redis_live :: "redis \<Rightarrow> go_time \<Rightarrow> string \<Rightarrow> string option" where
  "redis_live r now k = (case redis_lookup r now k of Some (RStr s) \<Rightarrow> Some s | _ \<Rightarrow> None)"

definition redis_zset :: "redis \<Rightarrow> go_time \<Rightarrow> string \<Rightarrow> (int \<times> int) list" where
  "redis_zset r now k = (case redis_lookup r now k of Some (RZSet z) \<Rightarrow> z | _ \<Rightarrow> [])"

definition redis_put :: "string \<Rightarrow> redis_val \<Rightarrow> go_time option \<Rightarrow> redis \<Rightarrow> redis" where
  "redis_put k v ex r = r\<lparr>r_keys := AList.update k (v, ex) (r_keys r)\<rparr>"

definition redis_down :: go_error where "redis_down = ErrText ''dial tcp: connection refused''"
definition redis_wrongtype :: go_error where
  "redis_wrongtype = ErrText ''WRONGTYPE Operation against a key holding the wrong kind of value''"

definition glob_prefix :: "string \<Rightarrow> string \<Rightarrow> bool" where
  "glob_prefix pat k \<longleftrightarrow> (if pat \<noteq> [] \<and> last pat = CHR ''*'' then has_prefix k (butlast pat) else k = pat)"

definition redis_slot :: "string \<Rightarrow> nat" where "redis_slot k = length k mod 4"

definition redis_expiry :: "redis \<Rightarrow> string \<Rightarrow> go_time option" where
  "redis_expiry r k = (case map_of (r_keys r) k of Some (v, ex) \<Rightarrow> ex | None \<Rightarrow> None)"

definition redis_cmds :: "redis redis_api" where
  "redis_cmds = \<lparr>
     r_get = (\<lambda>now k r. if \<not> r_up r then Inl redis_down else
        (case redis_lookup r now k of None \<Rightarrow> Inr None | Some (RStr v) \<Rightarrow> Inr (Some v) | Some (RZSet _) \<Rightarrow> Inl redis_wrongtype)),
     r_set = (\<lambda>now k v ttl r. if \<not> r_up r then (Some redis_down, r) else
        (None, redis_put k (RStr v) (if ttl \<le> 0 then None else Some (now + ttl)) r)),
     r_del = (\<lambda>now ks r. if \<not> r_up r then (Some redis_down, r) else
        (None, r\<lparr>r_keys := filter (\<lambda>p. fst p \<notin> set ks) (r_keys r)\<rparr>)),
     r_scan = (\<lambda>now c pat n r. if \<not> r_up r then Inl redis_down else
        Inr (filter (\<lambda>k. glob_prefix pat k \<and> redis_slot k = c \<and> redis_lookup r now k \<noteq> None) (map fst (r_keys r)),
             if c < 3 then Suc c else 0)),
     r_exists = (\<lambda>now k r. if \<not> r_up r then Inl redis_down else Inr (if redis_lookup r now k = None then 0 else 1)),
     r_incrby = (\<lambda>now k d r. if \<not> r_up r then (Inl redis_down, r) else
        (case redis_lookup r now k of
           None \<Rightarrow> (Inr d, redis_put k (RStr (itoa d)) None r)
         | Some (RStr v) \<Rightarrow>
             (case atoi v of
                None \<Rightarrow> (Inl (ErrText ''ERR value is not an integer or out of range''), r)
              | Some n \<Rightarrow> (Inr (n + d), redis_put k (RStr (itoa (n + d))) (redis_expiry r k) r))
         | Some (RZSet _) \<Rightarrow> (Inl redis_wrongtype, r))),
     r_expire = (\<lambda>now k ttl r. if \<not> r_up r then (Some redis_down, r) else
        (None, case redis_lookup r now k of None \<Rightarrow> r | Some v \<Rightarrow> redis_put k v (Some (now + ttl)) r)),
     r_script = (\<lambda>r. if r_up r then None else Some redis_down),
     r_zremrangebyscore = (\<lambda>now k mx r.
        case filter (\<lambda>p. mx < fst p) (redis_zset r now k) of
          [] \<Rightarrow> r\<lparr>r_keys := filter (\<lambda>p. fst p \<notin> set [k]) (r_keys r)\<rparr>
        | z \<Rightarrow> redis_put k (RZSet z) (redis_expiry r k) r),
     r_zcard = (\<lambda>now k r. int (length (redis_zset r now k))),
     r_zfirst = (\<lambda>now k r. case sort (map fst (redis_zset r now k)) of [] \<Rightarrow> None | x # _ \<Rightarrow> Some x),
     r_zadd = (\<lambda>now k score m r.
        redis_put k (RZSet (filter (\<lambda>p. snd p \<noteq> m) (redis_zset r now k) @ [(score, m)]))
          (if redis_lookup r now k = None then None else redis_expiry r k) r),
     r_pexpire = (\<lambda>now k ms r.
        case redis_lookup r now k of None \<Rightarrow> r | Some v \<Rightarrow> redis_put k v (Some (now + ms * 1000000)) r)\<rparr>"

definition string_key :: "string \<Rightarrow> bool" where
  "string_key k \<longleftrightarrow> \<not> has_prefix k ''ip:'' \<and> \<not> has_prefix k ''user:''"

definition redis_ok :: "redis \<Rightarrow> bool" where
  "redis_ok r \<longleftrightarrow> r_up r \<and> (\<forall>k z ex. map_of (r_keys r) k = Some (RZSet z, ex) \<longrightarrow> \<not> string_key k)"

lemma redis_lookup_put:
  "redis_lookup (redis_put k v ex r) now k' = (if k' = k then (if unexpired now ex then Some v else None) else redis_lookup r now k')"
  by (simp add: redis_lookup_def redis_put_def)

lemma redis_lookup_del:
  "redis_lookup (r\<lparr>r_keys := filter (\<lambda>p. fst p \<notin> set ks) (r_keys r)\<rparr>) now k = (if k \<in> set ks then None else redis_lookup r now k)"
  using map_of_filter_key [of "\<lambda>k. k \<notin> set ks" "r_keys r" k] by (simp add: redis_lookup_def)

lemma redis_lookup_key: "redis_lookup r now k \<noteq> None \<Longrightarrow> k \<in> fst ` set (r_keys r)"
  by (force simp: redis_lookup_def dest: map_of_SomeD split: option.splits)

lemma redis_ok_put: "redis_ok r \<Longrightarrow> redis_ok (redis_put k (RStr v) ex r)"
  by (auto simp: redis_ok_def redis_put_def split: if_splits)

lemma redis_ok_del: "redis_ok r \<Longrightarrow> redis_ok (r\<lparr>r_keys := filter (\<lambda>p. fst p \<notin> set ks) (r_keys r)\<rparr>)"
  using map_of_filter_key [of "\<lambda>k. k \<notin> set ks" "r_keys r"] by (simp add: redis_ok_def)

lemma redis_ok_up: "redis_ok r \<Longrightarrow> r_up r"
  by (simp add: redis_ok_def)

lemma redis_ok_string:
  assumes "redis_ok r" and "string_key k"
  shows "redis_lookup r now k = map_option RStr (redis_live r now k)"
  using assms by (auto simp: redis_ok_def redis_live_def redis_lookup_def split: option.splits redis_val.splits)

lemma redis_live_mono: "now \<le> t \<Longrightarrow> redis_live r t k \<noteq> None \<Longrightarrow> redis_live r now k \<noteq> None"
  by (auto simp: redis_live_def redis_lookup_def unexpired_def split: option.splits redis_val.splits if_splits)

interpretation redis: redis_server redis_cmds redis_live redis_ok string_key redis_slot "\<lambda>c. min c 4" 5
proof
  show "r_get redis_cmds now k s = Inr (redis_live s now k)" if "redis_ok s" "string_key k" for s now k
    using redis_ok_string [OF that, of now] redis_ok_up [OF that(1)]
    by (cases "redis_live s now k") (simp_all add: redis_cmds_def)
  show "fst (r_set redis_cmds now k v ttl s) = None \<and> redis_ok (snd (r_set redis_cmds now k v ttl s)) \<and>
      (now \<le> t \<longrightarrow> redis_live (snd (r_set redis_cmds now k v ttl s)) t k' =
         (if k' = k then (if t < now + ttl then Some v else None) else redis_live s t k'))"
    if "redis_ok s" "string_key k" "0 < ttl" for s now k v ttl t k'
    using that redis_ok_up [OF that(1)]
    by (auto simp: redis_cmds_def redis_ok_put redis_live_def redis_lookup_put unexpired_def)
  show "fst (r_del redis_cmds now ks s) = None \<and> redis_ok (snd (r_del redis_cmds now ks s)) \<and>
      redis_live (snd (r_del redis_cmds now ks s)) t k = (if k \<in> set ks then None else redis_live s t k)"
    if "redis_ok s" for s now ks t k
    using redis_ok_up [OF that] redis_ok_del [OF that]
    by (simp add: redis_cmds_def redis_live_def redis_lookup_del)
  show "\<exists>keys nxt. r_scan redis_cmds now c (pre @ ''*'') n s = Inr (keys, nxt) \<and>
      (\<forall>k \<in> set keys. has_prefix k pre) \<and> (nxt = 0 \<or> min c 4 < min nxt 4) \<and>
      (\<forall>k. redis_live s now k \<noteq> None \<longrightarrow> has_prefix k pre \<longrightarrow> min c 4 \<le> redis_slot k \<longrightarrow>
        (nxt = 0 \<or> redis_slot k < min nxt 4) \<longrightarrow> k \<in> set keys)"
    if "redis_ok s" "plain pre" for s pre now c n
  proof -
    let ?keys = "filter (\<lambda>k. glob_prefix (pre @ ''*'') k \<and> redis_slot k = c \<and> redis_lookup s now k \<noteq> None) (map fst (r_keys s))"
    let ?nxt = "if c < 3 then Suc c else 0"
    have "k \<in> set ?keys" if "redis_live s now k \<noteq> None" "has_prefix k pre" "min c 4 \<le> redis_slot k"
        "?nxt = 0 \<or> redis_slot k < min ?nxt 4" for k
    proof -
      have "redis_lookup s now k \<noteq> None" using that(1) by (auto simp: redis_live_def split: option.splits)
      moreover have "redis_slot k < 4" by (simp add: redis_slot_def)
      then have "redis_slot k = c" using that(3,4) by (auto split: if_splits)
      ultimately show ?thesis
        using that(2) redis_lookup_key [of s now k] by (auto simp: glob_prefix_def)
    qed
    then show ?thesis
      using redis_ok_up [OF \<open>redis_ok s\<close>]
      by (intro exI [of _ ?keys] exI [of _ ?nxt]) (auto simp: redis_cmds_def glob_prefix_def)
  qed
  show "redis_live s now k \<noteq> None" if "redis_ok s" "now \<le> t" "redis_live s t k \<noteq> None" for s now t k
    using redis_live_mono that(2,3) by blast
qed simp_all

section \<open>Properties\<close>

definition example_redis :: redis where
  "example_redis = \<lparr>r_keys = [(''refresh_user:u1:a'', RStr ''1'', None), (''refresh_user:u1:bb'', RStr ''1'', Some 50),
     (''refresh_user:u2:a'', RStr ''1'', None), (''ip:10.0.0.1'', RZSet [(5, 5)], None)], r_up = True\<rparr>"

text \<open>
  \<^verbatim>\<open>DeleteByPrefix\<close> is complete and exact. On a reachable Redis the SCAN loop ends, for any prefix without
  pattern characters, and reports no error; afterwards no key with the prefix has a value, at the time of the
  call or later, and every other key has the value it had.
\<close>

theorem delete_by_prefix_complete:
  assumes "redis_ok r" and "plain pre"
  shows "\<exists>r'. redis_DeleteByPrefix 5 redis_cmds now pre r = Some (None, r') \<and> redis_ok r' \<and>
    (\<forall>t k. now \<le> t \<longrightarrow> redis_live r' t k = (if has_prefix k pre then None else redis_live r t k))"
  using redis.delete_by_prefix [OF assms] .

lemma delete_by_prefix_complete_witness:
  "redis_ok example_redis \<and> plain ''refresh_user:u1:'' \<and>
   (\<exists>r'. redis_DeleteByPrefix 5 redis_cmds 10 ''refresh_user:u1:'' example_redis = Some (None, r') \<and>
      redis_live r' 10 ''refresh_user:u1:bb'' = None \<and> redis_live r' 10 ''refresh_user:u2:a'' = Some ''1'')"
proof -
  have ok: "redis_ok example_redis"
    by (auto simp: redis_ok_def example_redis_def string_key_def has_prefix_def split: if_splits)
  have pl: "plain ''refresh_user:u1:''" by code_simp
  have "has_prefix ''refresh_user:u1:bb'' ''refresh_user:u1:''" "\<not> has_prefix ''refresh_user:u2:a'' ''refresh_user:u1:''"
    "redis_live example_redis 10 ''refresh_user:u2:a'' = Some ''1''"
    by code_simp+
  with delete_by_prefix_complete [OF ok pl, of 10] ok pl show ?thesis by auto
qed

text \<open>
  A value stored as JSON is read back: on a reachable Redis, after \<^verbatim>\<open>SetJSON\<close> with a positive lifetime,
  \<^verbatim>\<open>GetJSON\<close> returns the stored value at every time before it expires, and a cache miss from then on.
\<close>

theorem cache_json_roundtrip:
  assumes "redis_ok r" and "string_key k" and "0 < ttl" and "wf_json v" and "now \<le> t"
  shows "fst (redis_SetJSON redis_cmds now k v ttl r) = None \<and>
    redis_GetJSON redis_cmds t k (snd (redis_SetJSON redis_cmds now k v ttl r)) =
      (if t < now + ttl then Inr v else Inl ErrCacheMiss)"
proof -
  let ?s = "snd (r_set redis_cmds now k (print_json v) ttl r)"
  have s: "fst (r_set redis_cmds now k (print_json v) ttl r) = None" "redis_ok ?s"
      "redis_live ?s t k = (if t < now + ttl then Some (print_json v) else None)"
    using redis.set_law [OF assms(1-3), of now "print_json v" t k] assms(5) by auto
  have "r_get redis_cmds t k ?s = Inr (redis_live ?s t k)" by (rule redis.get [OF s(2) assms(2)])
  then show ?thesis
    using s parse_json_print_json [OF assms(4)]
    by (simp add: redis_SetJSON_def redis_Set_def redis_GetJSON_def redis_Get_def case_prod_unfold)
qed

lemma cache_json_roundtrip_witness:
  "redis_GetJSON redis_cmds 9 ''k'' (snd (redis_SetJSON redis_cmds 5 ''k'' (JArr [JNull, JBool True]) 10 \<lparr>r_keys = [], r_up = True\<rparr>))
     = Inr (JArr [JNull, JBool True])"
proof -
  have "redis_ok \<lparr>r_keys = [], r_up = True\<rparr>" by (simp add: redis_ok_def)
  moreover have "string_key ''k''" by (simp add: string_key_def has_prefix_def)
  ultimately show ?thesis
    using cache_json_roundtrip [of "\<lparr>r_keys = [], r_up = True\<rparr>" "''k''" 10 "JArr [JNull, JBool True]" 5 9] by simp
qed

end
