(* ===== verification/Rate_Limit.thy ===== *)
theory Rate_Limit
  imports Http Cache_Port
begin

text \<open>
  Rate limiting, \<^verbatim>\<open>src/internal/platform/http/middleware/rate_limit.go\<close>: the middleware, the in-memory backend with its
  periodic cleanup, and the Redis backend over the cache port. The mutex makes \<^verbatim>\<open>Allow\<close> and a cleanup tick
  atomic.

  The specification is a log of the admitted requests: a request is admitted when fewer than the maximum were
  admitted within the window before it. The in-memory backend, with cleanup ticks at any time, answers every
  request as the log does; so does the Redis backend when its clock readings are distinct and survive the
  conversion to Lua numbers. The number of requests admitted within any window is bounded in the log.
\<close>

section \<open>The in-memory backend\<close>

record slidingWindow =
  timestamps :: "go_time list"
  expiresAt :: go_time

record memoryBackend =
  windows :: "(string \<times> slidingWindow) list"
  mb_stopped :: bool

definition newMemoryBackend :: memoryBackend where
  "newMemoryBackend = \<lparr>windows = [], mb_stopped = False\<rparr>"

type_synonym allow_result = "bool \<times> int \<times> go_time \<times> go_error option"

definition memory_Allow :: "go_time \<Rightarrow> string \<Rightarrow> int \<Rightarrow> int \<Rightarrow> memoryBackend \<Rightarrow> allow_result \<times> memoryBackend" where
  "memory_Allow now key maxReqs window mb =
     (let windowStart = now - window;
          resetAt = now + window;
          sw = (case map_of (windows mb) key of None \<Rightarrow> \<lparr>timestamps = [], expiresAt = 0\<rparr> | Some sw \<Rightarrow> sw);
          valid = filter (\<lambda>ts. windowStart < ts) (timestamps sw);
          count = int (length valid)
      in if maxReqs \<le> count
         then ((False, 0, resetAt, None),
               mb\<lparr>windows := AList.update key \<lparr>timestamps = valid, expiresAt = resetAt\<rparr> (windows mb)\<rparr>)
         else ((True, maxReqs - count - 1, resetAt, None),
               mb\<lparr>windows := AList.update key \<lparr>timestamps = valid @ [now], expiresAt = resetAt\<rparr> (windows mb)\<rparr>))"

text \<open>One tick of the janitor.\<close>

definition cleanup :: "go_time \<Rightarrow> memoryBackend \<Rightarrow> memoryBackend" where
  "cleanup now mb =
     (if mb_stopped mb then mb
      else mb\<lparr>windows := filter (\<lambda>(key, sw). \<not> expiresAt sw < now) (windows mb)\<rparr>)"

definition memory_Close :: "memoryBackend \<Rightarrow> memoryBackend" where
  "memory_Close mb = mb\<lparr>mb_stopped := True\<rparr>"

section \<open>The Redis backend\<close>

definition redis_Allow :: "'s cache_port \<Rightarrow> go_time \<Rightarrow> string \<Rightarrow> int \<Rightarrow> int \<Rightarrow> 's \<Rightarrow> allow_result \<times> 's" where
  "redis_Allow cache now key maxReqs window s =
     (case ca_SlidingWindowAllow cache now key maxReqs window s of
        (Inl e, s') \<Rightarrow> ((True, maxReqs, now + window, Some e), s')
      | (Inr (ok, rem, _), s') \<Rightarrow> ((ok, rem, now + window, None), s'))"

section \<open>The middleware\<close>

record RateLimitConfig =
  rl_Max :: int
  rl_Window :: int
  rl_FailClosed :: bool

definition defaultKeyFunc :: "fiber_ctx \<Rightarrow> string" where
  "defaultKeyFunc c =
     (case locals c ''user_id'' of
        Some (LString userID) \<Rightarrow> if userID \<noteq> '''' then ''user:'' @ userID else ''ip:'' @ req_ip c
      | _ \<Rightarrow> ''ip:'' @ req_ip c)"

definition rl_normalize :: "RateLimitConfig \<Rightarrow> RateLimitConfig" where
  "rl_normalize cfg =
     cfg\<lparr>rl_Max := (if rl_Max cfg \<le> 0 then 100 else rl_Max cfg),
         rl_Window := (if rl_Window cfg \<le> 0 then minute else rl_Window cfg)\<rparr>"

text \<open>
  The handler that \<^verbatim>\<open>RateLimit\<close> builds, over the \<^verbatim>\<open>Allow\<close> of the backend it chose; the backend is a component of
  the state.
\<close>

definition RateLimit ::
  "go_time \<Rightarrow> RateLimitConfig \<Rightarrow> (fiber_ctx \<Rightarrow> string) option \<Rightarrow>
   (go_time \<Rightarrow> string \<Rightarrow> int \<Rightarrow> int \<Rightarrow> 'b \<Rightarrow> allow_result \<times> 'b) \<Rightarrow> ('b \<times> 'w) handler \<Rightarrow> ('b \<times> 'w) handler" where
  "RateLimit now cfg0 keyFunc allow next w c =
     (let cfg = rl_normalize cfg0;
          key = (case keyFunc of None \<Rightarrow> defaultKeyFunc c | Some f \<Rightarrow> f c)
      in case allow now key (rl_Max cfg) (rl_Window cfg) (fst w) of
           ((allowed, remaining, resetAt, err), b) \<Rightarrow>
             (let w' = (b, snd w) in
              if err \<noteq> None then
                (if rl_FailClosed cfg
                 then with_state w' (Fail c (New ''RATE_LIMIT_ERROR'' ''Service temporarily unavailable, please try again later'' 503))
                 else next w' c)
              else
                (let c' = ctx_Set ''X-RateLimit-Reset'' (itoa (resetAt div second))
                            (ctx_Set ''X-RateLimit-Remaining'' (itoa remaining)
                              (ctx_Set ''X-RateLimit-Limit'' (itoa (rl_Max cfg)) c))
                 in if allowed then next w' c'
                    else with_state w' (Fail c' (New ''RATE_LIMIT_EXCEEDED'' ''Too many requests, please try again later'' 429)))))"

section \<open>The specification: a log of admitted requests\<close>

type_synonym admissions = "string \<Rightarrow> go_time list"

definition recent :: "int \<Rightarrow> go_time \<Rightarrow> go_time list \<Rightarrow> go_time list" where
  "recent window now ts = filter (\<lambda>t. now - window < t) ts"

definition log_Allow :: "int \<Rightarrow> int \<Rightarrow> go_time \<Rightarrow> string \<Rightarrow> admissions \<Rightarrow> (bool \<times> int) \<times> admissions" where
  "log_Allow mx window now key lg =
     (let n = int (length (recent window now (lg key))) in
      if mx \<le> n then ((False, 0), lg) else ((True, mx - n - 1), lg(key := lg key @ [now])))"

datatype rl_event = Request go_time string | Tick go_time

primrec rl_time :: "rl_event \<Rightarrow> go_time" where
  "rl_time (Request t k) = t"
| "rl_time (Tick t) = t"

text \<open>A backend on a sequence of events, and the log on the same sequence; the answers are those to the requests.\<close>

fun backend_run ::
  "(go_time \<Rightarrow> string \<Rightarrow> 'b \<Rightarrow> allow_result \<times> 'b) \<Rightarrow> (go_time \<Rightarrow> 'b \<Rightarrow> 'b) \<Rightarrow> rl_event list \<Rightarrow> 'b \<Rightarrow> (bool \<times> int) list" where
  "backend_run allow tick [] b = []"
| "backend_run allow tick (Request t k # es) b =
     (case allow t k b of ((ok, rem, _, _), b') \<Rightarrow> (ok, rem) # backend_run allow tick es b')"
| "backend_run allow tick (Tick t # es) b = backend_run allow tick es (tick t b)"

fun log_run :: "int \<Rightarrow> int \<Rightarrow> rl_event list \<Rightarrow> admissions \<Rightarrow> (bool \<times> int) list \<times> admissions" where
  "log_run mx window [] lg = ([], lg)"
| "log_run mx window (Request t k # es) lg =
     (let (r, lg') = log_Allow mx window t k lg; (rs, lg'') = log_run mx window es lg' in (r # rs, lg''))"
| "log_run mx window (Tick t # es) lg = log_run mx window es lg"

definition empty_log :: admissions where "empty_log = (\<lambda>_. [])"

section \<open>The log bounds every window\<close>

lemma recent_recent: "now \<le> t \<Longrightarrow> recent w t (recent w now ts) = recent w t ts"
  by (auto simp: recent_def intro: filter_cong)

lemma recent_append [simp]: "recent w t (xs @ ys) = recent w t xs @ recent w t ys"
  by (simp add: recent_def)

definition in_window :: "int \<Rightarrow> go_time \<Rightarrow> go_time list \<Rightarrow> nat" where
  "in_window w t ts = length (filter (\<lambda>x. t - w < x \<and> x \<le> t) ts)"

lemma in_window_le_recent: "in_window w t ts \<le> length (recent w t ts)"
  unfolding in_window_def recent_def by (induction ts) auto

lemma log_Allow_bound:
  assumes "\<forall>k t. int (in_window w t (lg k)) \<le> mx" and "\<forall>k. \<forall>x \<in> set (lg k). x \<le> now" and "0 < mx" and "0 < w"
    and "log_Allow mx w now key lg = (r, lg')"
  shows "(\<forall>k t. int (in_window w t (lg' k)) \<le> mx) \<and> (\<forall>k. \<forall>x \<in> set (lg' k). x \<le> now)"
proof (cases "mx \<le> int (length (recent w now (lg key)))")
  case True
  with assms show ?thesis by (simp add: log_Allow_def)
next
  case False
  then have lg': "lg' = lg(key := lg key @ [now])" using assms(5) by (auto simp: log_Allow_def)
  have "int (in_window w t (lg key @ [now])) \<le> mx" for t
  proof (cases "now \<le> t")
    case True
    have "in_window w t (lg key) \<le> length (recent w t (lg key))" by (rule in_window_le_recent)
    also have "\<dots> \<le> length (recent w now (lg key))"
      using recent_recent [OF True, of w "lg key"] by (metis length_filter_le recent_def)
    finally show ?thesis using False by (simp add: in_window_def)
  next
    case before: False
    then show ?thesis using assms(1) by (simp add: in_window_def)
  qed
  with lg' assms(1,2) show ?thesis by auto
qed

lemma log_run_bound:
  "\<lbrakk>\<forall>k t. int (in_window w t (lg k)) \<le> mx; \<forall>k. \<forall>x \<in> set (lg k). x \<le> now; 0 < mx; 0 < w;
    sorted (map rl_time es); \<forall>e \<in> set es. now \<le> rl_time e\<rbrakk> \<Longrightarrow>
   int (in_window w t (snd (log_run mx w es lg) k)) \<le> mx"
proof (induction es arbitrary: lg now)
  case (Cons e es)
  show ?case
  proof (cases e)
    case (Request u key)
    obtain r lg' where a: "log_Allow mx w u key lg = (r, lg')" by (metis surj_pair)
    have "\<forall>k. \<forall>x \<in> set (lg k). x \<le> u" using Cons.prems(2,6) Request by fastforce
    from log_Allow_bound [OF Cons.prems(1) this Cons.prems(3,4) a]
    have "int (in_window w t (snd (log_run mx w es lg') k)) \<le> mx"
      using Cons.prems(3-5) Request by (intro Cons.IH [of lg' u]) auto
    with a Request show ?thesis by (simp add: case_prod_unfold Let_def)
  next
    case (Tick u)
    then show ?thesis using Cons.prems by (simp add: Cons.IH [of lg now])
  qed
qed simp


section \<open>Backends that implement the log\<close>

text \<open>
  \<open>R now lg b\<close> relates a log and a backend state at time \<open>now\<close>; \<open>next_ok now e\<close> is what is asked of the next
  event.
\<close>

primrec clock_ok :: "(go_time \<Rightarrow> rl_event \<Rightarrow> bool) \<Rightarrow> go_time \<Rightarrow> rl_event list \<Rightarrow> bool" where
  "clock_ok next_ok now [] \<longleftrightarrow> True"
| "clock_ok next_ok now (e # es) \<longleftrightarrow> next_ok now e \<and> clock_ok next_ok (rl_time e) es"

locale limiter =
  fixes allow :: "go_time \<Rightarrow> string \<Rightarrow> 'b \<Rightarrow> allow_result \<times> 'b" and tick :: "go_time \<Rightarrow> 'b \<Rightarrow> 'b"
    and mx :: int and window :: int and next_ok :: "go_time \<Rightarrow> rl_event \<Rightarrow> bool"
    and R :: "go_time \<Rightarrow> admissions \<Rightarrow> 'b \<Rightarrow> bool"
  assumes allow_sim: "R now lg b \<Longrightarrow> next_ok now (Request t k) \<Longrightarrow> \<exists>ok rem b'.
      allow t k b = ((ok, rem, t + window, None), b') \<and> fst (log_Allow mx window t k lg) = (ok, rem) \<and>
      R t (snd (log_Allow mx window t k lg)) b'"
    and tick_sim: "R now lg b \<Longrightarrow> next_ok now (Tick t) \<Longrightarrow> R t lg (tick t b)"
begin

lemma run_refines:
  "R now lg b \<Longrightarrow> clock_ok next_ok now es \<Longrightarrow> backend_run allow tick es b = fst (log_run mx window es lg)"
proof (induction es arbitrary: now lg b)
  case (Cons e es)
  show ?case
  proof (cases e)
    case (Request t k)
    then obtain ok rem b' where a: "allow t k b = ((ok, rem, t + window, None), b')"
        "fst (log_Allow mx window t k lg) = (ok, rem)" "R t (snd (log_Allow mx window t k lg)) b'"
      using allow_sim [OF Cons.prems(1), of t k] Cons.prems(2) by auto
    with Cons.IH [OF a(3)] Cons.prems(2) Request show ?thesis
      by (simp add: case_prod_unfold Let_def)
  next
    case (Tick t)
    then have "R t lg (tick t b)" using tick_sim [OF Cons.prems(1)] Cons.prems(2) by simp
    with Cons.IH [OF this] Cons.prems(2) Tick show ?thesis by simp
  qed
qed simp

end

subsection \<open>The in-memory backend\<close>

definition stamps :: "memoryBackend \<Rightarrow> string \<Rightarrow> go_time list" where
  "stamps mb k = (case map_of (windows mb) k of None \<Rightarrow> [] | Some sw \<Rightarrow> timestamps sw)"

definition memory_rel :: "int \<Rightarrow> go_time \<Rightarrow> admissions \<Rightarrow> memoryBackend \<Rightarrow> bool" where
  "memory_rel w now lg mb \<longleftrightarrow>
     distinct (map fst (windows mb)) \<and>
     (\<forall>k sw. map_of (windows mb) k = Some sw \<longrightarrow> (\<forall>x \<in> set (timestamps sw). x + w \<le> expiresAt sw)) \<and>
     (\<forall>k. \<forall>x \<in> set (lg k). x \<le> now) \<and>
     (\<forall>k t. now \<le> t \<longrightarrow> recent w t (stamps mb k) = recent w t (lg k))"

lemma distinct_update: "distinct (map fst m) \<Longrightarrow> distinct (map fst (AList.update k v m))"
  by (simp add: distinct_update)

lemma memory_Allow_sim:
  assumes "memory_rel w now lg mb" and "now \<le> t"
  shows "\<exists>ok rem mb'. memory_Allow t k mx w mb = ((ok, rem, t + w, None), mb') \<and>
     fst (log_Allow mx w t k lg) = (ok, rem) \<and> memory_rel w t (snd (log_Allow mx w t k lg)) mb'"
proof -
  let ?valid = "recent w t (lg k)"
  define put where "put ts = mb\<lparr>windows := AList.update k \<lparr>timestamps = ts, expiresAt = t + w\<rparr> (windows mb)\<rparr>" for ts
  have valid: "filter (\<lambda>x. t - w < x) (stamps mb k) = ?valid"
    using assms(1,2) unfolding memory_rel_def recent_def by blast
  have lg_le: "\<forall>k. \<forall>x \<in> set (lg k). x \<le> t" using assms(1,2) unfolding memory_rel_def by force
  have stamps_put: "stamps (put ts) k' = (if k' = k then ts else stamps mb k')" for ts k'
    by (simp add: stamps_def put_def)
  have rel: "memory_rel w t lg' (put ts)"
    if "\<forall>x \<in> set ts. x \<le> t" "\<forall>k. \<forall>x \<in> set (lg' k). x \<le> t" "\<And>u. t \<le> u \<Longrightarrow> recent w u ts = recent w u (lg' k)"
      "\<And>k'. k' \<noteq> k \<Longrightarrow> lg' k' = lg k'" for ts lg'
  proof -
    have "recent w u (stamps (put ts) k') = recent w u (lg' k')" if u: "t \<le> u" for u k'
      using \<open>\<And>u. t \<le> u \<Longrightarrow> recent w u ts = recent w u (lg' k)\<close> [OF u]
        \<open>\<And>k'. k' \<noteq> k \<Longrightarrow> lg' k' = lg k'\<close> [of k'] assms(1,2) u
      by (auto simp: stamps_put memory_rel_def)
    with that(1,2) assms(1) show ?thesis
      by (auto simp: memory_rel_def put_def distinct_update)
  qed
  have a: "memory_Allow t k mx w mb =
     (if mx \<le> int (length ?valid) then ((False, 0, t + w, None), put ?valid)
      else ((True, mx - int (length ?valid) - 1, t + w, None), put (?valid @ [t])))"
    using valid by (cases "map_of (windows mb) k") (simp_all add: memory_Allow_def Let_def put_def stamps_def)
  have sub: "set ?valid \<subseteq> set (lg k)" by (auto simp: recent_def)
  show ?thesis
  proof (cases "mx \<le> int (length ?valid)")
    case True
    moreover have "memory_rel w t lg (put ?valid)"
      using sub lg_le recent_recent by (intro rel) (auto simp: subset_iff)
    ultimately show ?thesis using a by (auto simp: log_Allow_def)
  next
    case False
    moreover have "memory_rel w t (lg(k := lg k @ [t])) (put (?valid @ [t]))"
      using sub lg_le recent_recent by (intro rel) (auto simp: subset_iff)
    ultimately show ?thesis using a by (auto simp: log_Allow_def)
  qed
qed

lemma cleanup_sim:
  assumes "memory_rel w now lg mb" and "now \<le> t"
  shows "memory_rel w t lg (cleanup t mb)"
proof (cases "mb_stopped mb")
  case True
  with assms show ?thesis by (force simp: cleanup_def memory_rel_def)
next
  case False
  have d: "distinct (map fst (windows mb))" using assms(1) by (simp add: memory_rel_def)
  have m: "map_of (windows (cleanup t mb)) k =
      (case map_of (windows mb) k of Some sw \<Rightarrow> if expiresAt sw < t then None else Some sw | None \<Rightarrow> None)" for k
    using False d by (auto simp: cleanup_def map_of_filter_pair split: option.split)
  have "recent w u (stamps (cleanup t mb) k) = recent w u (stamps mb k)" if "t \<le> u" for u k
  proof (cases "map_of (windows mb) k")
    case (Some sw)
    then have "expiresAt sw < t \<Longrightarrow> recent w u (timestamps sw) = []"
      using assms(1) that by (fastforce simp: memory_rel_def recent_def filter_empty_conv)
    with Some m [of k] show ?thesis by (auto simp: stamps_def recent_def)
  next
    case None
    with m [of k] show ?thesis by (simp add: stamps_def)
  qed
  moreover have "distinct (map fst (windows (cleanup t mb)))"
    using False d by (simp add: cleanup_def distinct_map_filter)
  ultimately show ?thesis
    using assms m by (force simp: memory_rel_def split: option.splits if_splits)
qed


definition not_before :: "go_time \<Rightarrow> rl_event \<Rightarrow> bool" where
  "not_before now e \<longleftrightarrow> now \<le> rl_time e"

interpretation mem: limiter "\<lambda>t k. memory_Allow t k mx window" cleanup mx window not_before "memory_rel window"
  for mx window :: int
proof
  show "\<exists>ok rem b'. memory_Allow t k mx window b = ((ok, rem, t + window, None), b') \<and>
      fst (log_Allow mx window t k lg) = (ok, rem) \<and> memory_rel window t (snd (log_Allow mx window t k lg)) b'"
    if "memory_rel window now lg b" "not_before now (Request t k)" for now lg b t k
    using memory_Allow_sim that by (simp add: not_before_def)
  show "memory_rel window t lg (cleanup t b)" if "memory_rel window now lg b" "not_before now (Tick t)" for now lg b t
    using cleanup_sim that by (simp add: not_before_def)
qed

subsection \<open>The Redis backend\<close>

lemma bit_len_le: "m < 2 ^ n \<Longrightarrow> bit_len m \<le> n"
proof (induction n arbitrary: m)
  case 0
  then show ?case by (simp add: bit_len.simps)
next
  case (Suc n)
  then have "m div 2 < 2 ^ n" by auto
  from Suc.IH [OF this] show ?case by (simp add: bit_len.simps [of m])
qed

lemma lua_num_small: "\<bar>x\<bar> < 2 ^ 53 \<Longrightarrow> lua_num x = x"
proof -
  assume "\<bar>x\<bar> < 2 ^ 53"
  then have "nat \<bar>x\<bar> < 2 ^ 53" by (simp add: nat_less_iff)
  then have "bit_len (nat \<bar>x\<bar>) - 53 = 0" using bit_len_le by simp
  then show "lua_num x = x" by (simp add: lua_num_def Let_def sgn_if)
qed

definition exact_after :: "int \<Rightarrow> go_time \<Rightarrow> rl_event \<Rightarrow> bool" where
  "exact_after w now e \<longleftrightarrow> now < rl_time e \<and> lua_num (rl_time e) = rl_time e \<and> lua_num (rl_time e - w) = rl_time e - w \<and>
     (case e of Request t k \<Rightarrow> \<not> string_key k | Tick t \<Rightarrow> True)"

definition redis_rel :: "int \<Rightarrow> go_time \<Rightarrow> admissions \<Rightarrow> redis \<Rightarrow> bool" where
  "redis_rel w now lg r \<longleftrightarrow> r_up r \<and>
     (\<forall>k. \<not> string_key k \<longrightarrow> (\<forall>x \<in> set (lg k). x \<le> now) \<and>
       (\<forall>p \<in> set (redis_zset r now k). snd p = fst p \<and> fst p \<le> now) \<and>
       (\<forall>t. now \<le> t \<longrightarrow> recent w t (map fst (redis_zset r t k)) = recent w t (lg k)))"

lemma redis_zset_put:
  "redis_zset (redis_put k (RZSet z) ex r) t k' = (if k' = k then (if unexpired t ex then z else []) else redis_zset r t k')"
  by (simp add: redis_zset_def redis_lookup_put)

lemma redis_zset_del:
  "redis_zset (r\<lparr>r_keys := filter (\<lambda>p. fst p \<notin> set [k]) (r_keys r)\<rparr>) t k' = (if k' = k then [] else redis_zset r t k')"
  using redis_lookup_del [where ks = "[k]" and r = r and now = t and k = k'] by (simp add: redis_zset_def)

lemma redis_up_put [simp]: "r_up (redis_put k v ex r) = r_up r"
  by (simp add: redis_put_def)

lemma recent_map_filter: "recent w t (map fst (filter (\<lambda>p. c < fst p) z)) = recent w t (filter (\<lambda>x. c < x) (map fst z))"
  by (simp add: recent_def filter_map comp_def)

lemma redis_zset_later: "t \<le> u \<Longrightarrow> redis_zset r u k = redis_zset r t k \<or> redis_zset r u k = []"
  by (auto simp: redis_zset_def redis_lookup_def unexpired_def split: option.splits redis_val.splits)


definition redis_trim :: "go_time \<Rightarrow> string \<Rightarrow> int \<Rightarrow> redis \<Rightarrow> redis" where
  "redis_trim t k c r = r_zremrangebyscore redis_cmds t k c r"

lemma redis_trim_zset:
  assumes "t \<le> u"
  shows "redis_zset (redis_trim t k c r) u k' =
    (if k' = k then filter (\<lambda>p. c < fst p) (redis_zset r u k) else redis_zset r u k')"
proof (cases "filter (\<lambda>p. c < fst p) (redis_zset r t k)")
  case Nil
  then have "redis_trim t k c r = r\<lparr>r_keys := filter (\<lambda>p. fst p \<notin> set [k]) (r_keys r)\<rparr>"
    by (simp add: redis_trim_def redis_cmds_def)
  moreover have "filter (\<lambda>p. c < fst p) (redis_zset r u k) = []"
    using redis_zset_later [OF assms, of r k] Nil by auto
  ultimately show ?thesis by (simp only: redis_zset_del)
next
  case (Cons p z)
  then have "redis_trim t k c r = redis_put k (RZSet (p # z)) (redis_expiry r k) r"
    by (simp add: redis_trim_def redis_cmds_def)
  moreover have "(if unexpired u (redis_expiry r k) then p # z else []) = filter (\<lambda>p. c < fst p) (redis_zset r u k)"
    using Cons assms
    by (auto simp: redis_zset_def redis_lookup_def redis_expiry_def unexpired_def split: option.splits redis_val.splits if_splits)
  ultimately show ?thesis by (simp add: redis_zset_put)
qed

lemma redis_trim_up [simp]: "r_up (redis_trim t k c r) = r_up r"
  by (simp add: redis_trim_def redis_cmds_def split: list.split)

lemma redis_relD:
  assumes "redis_rel w now lg r" and "\<not> string_key k"
  shows "\<And>x. x \<in> set (lg k) \<Longrightarrow> x \<le> now" and "\<And>p. p \<in> set (redis_zset r now k) \<Longrightarrow> snd p = fst p \<and> fst p \<le> now"
    and "\<And>t. now \<le> t \<Longrightarrow> recent w t (map fst (redis_zset r t k)) = recent w t (lg k)"
  using assms by (auto simp: redis_rel_def)

lemma redis_trim_rel:
  assumes "redis_rel w now lg r" and "now \<le> t"
  shows "redis_rel w t lg (redis_trim t k (t - w) r)"
  unfolding redis_rel_def
proof (intro conjI allI impI ballI)
  show "r_up (redis_trim t k (t - w) r)" using assms(1) by (simp add: redis_rel_def)
  fix k' assume k': "\<not> string_key k'"
  note rel = redis_relD [OF assms(1) k']
  show "x \<le> t" if "x \<in> set (lg k')" for x using rel(1) that assms(2) by force
  show "snd p = fst p" and "fst p \<le> t" if "p \<in> set (redis_zset (redis_trim t k (t - w) r) t k')" for p
  proof -
    have "p \<in> set (redis_zset r t k')" using that by (auto simp: redis_trim_zset split: if_splits)
    then have "p \<in> set (redis_zset r now k')" using redis_zset_later [OF assms(2), of r k'] by auto
    from rel(2) [OF this] assms(2) show "snd p = fst p" and "fst p \<le> t" by auto
  qed
  fix u assume u: "t \<le> u"
  have "recent w u (filter (\<lambda>x. t - w < x) xs) = recent w u xs" for xs
    using recent_recent [OF u, of w xs] by (simp add: recent_def)
  then show "recent w u (map fst (redis_zset (redis_trim t k (t - w) r) u k')) = recent w u (lg k')"
    using rel(3) [of u] u assms(2) by (cases "k' = k") (simp_all add: redis_trim_zset recent_map_filter)
qed

definition redis_admit :: "int \<Rightarrow> go_time \<Rightarrow> string \<Rightarrow> redis \<Rightarrow> redis" where
  "redis_admit w t k r = r_pexpire redis_cmds t k (ceil_div w 1000000) (r_zadd redis_cmds t k t t r)"

lemma ceil_div_ge:
  assumes "0 < b"
  shows "a \<le> ceil_div a b * b"
proof -
  have "b * ((- a) div b) + (- a) mod b = - a" by simp
  moreover have "0 \<le> (- a) mod b" using assms by simp
  moreover have "ceil_div a b * b = - (b * ((- a) div b))" by (simp add: ceil_div_def)
  ultimately show ?thesis by linarith
qed

lemma redis_admit_zset:
  assumes "\<forall>p \<in> set (redis_zset r t k). snd p \<noteq> t" and "t \<le> u" and "0 < w"
  shows "redis_zset (redis_admit w t k r) u k' =
    (if k' = k then (if u < t + ceil_div w 1000000 * 1000000 then redis_zset r t k @ [(t, t)] else []) else redis_zset r u k')"
proof -
  let ?z = "redis_zset r t k @ [(t, t)]"
  have f: "filter (\<lambda>p. snd p \<noteq> t) (redis_zset r t k) = redis_zset r t k"
    using assms(1) by (simp add: filter_id_conv)
  let ?ex = "if redis_lookup r t k = None then None else redis_expiry r k"
  have "unexpired t ?ex"
    by (auto simp: redis_lookup_def redis_expiry_def unexpired_def split: option.splits if_splits)
  then have "redis_admit w t k r = redis_put k (RZSet ?z) (Some (t + ceil_div w 1000000 * 1000000)) (redis_put k (RZSet ?z) ?ex r)"
    by (simp add: redis_admit_def redis_cmds_def f redis_lookup_put)
  then show ?thesis by (simp add: redis_zset_put unexpired_def)
qed


lemma redis_admit_rel:
  assumes "redis_rel w t lg r" and "\<not> string_key k" and "\<forall>x \<in> set (map fst (redis_zset r t k)). x < t" and "0 < w"
  shows "redis_rel w t (lg(k := lg k @ [t])) (redis_admit w t k r)"
  unfolding redis_rel_def
proof (intro conjI allI impI ballI)
  let ?W = "ceil_div w 1000000 * 1000000"
  have W: "w \<le> ?W" by (rule ceil_div_ge) simp
  have new: "\<forall>p \<in> set (redis_zset r t k). snd p \<noteq> t"
    using redis_relD(2) [OF assms(1,2)] assms(3) by fastforce
  note z = redis_admit_zset [OF new _ assms(4)]
  show "r_up (redis_admit w t k r)"
    using assms(1) by (simp add: redis_admit_def redis_cmds_def redis_rel_def split: option.split)
  fix k' assume k': "\<not> string_key k'"
  note rel = redis_relD [OF assms(1) k']
  show "x \<le> t" if "x \<in> set ((lg(k := lg k @ [t])) k')" for x
    using that rel(1) redis_relD(1) [OF assms(1,2)] by (auto split: if_splits)
  show "snd p = fst p" and "fst p \<le> t" if "p \<in> set (redis_zset (redis_admit w t k r) t k')" for p
    using that rel(2) [of p] redis_relD(2) [OF assms(1,2), of p] z [of t k'] by (auto split: if_splits)
  fix u assume u: "t \<le> u"
  have "recent w u (map fst (redis_zset r t k)) = recent w u (recent w t (lg k))"
    using redis_relD(3) [OF assms(1,2) order_refl] recent_recent [OF u] by metis
  then have "recent w u (map fst (redis_zset r t k)) = recent w u (lg k)"
    using recent_recent [OF u] by simp
  moreover have "recent w u (lg k @ [t]) = []" if "t + ?W \<le> u"
    using redis_relD(1) [OF assms(1,2)] that W by (force simp: recent_def filter_empty_conv)
  ultimately show "recent w u (map fst (redis_zset (redis_admit w t k r) u k')) = recent w u ((lg(k := lg k @ [t])) k')"
    using rel(3) [OF u] z [OF u, of k'] by (auto simp: recent_def)
qed

lemma redis_Allow_sim:
  assumes "redis_rel w now lg r" and "exact_after w now (Request t k)" and "0 < w" "w < 2 ^ 53" "0 \<le> mx" "mx < 2 ^ 53"
  shows "\<exists>ok rem r'. redis_Allow (RedisCache n redis_cmds) t k mx w r = ((ok, rem, t + w, None), r') \<and>
     fst (log_Allow mx w t k lg) = (ok, rem) \<and> redis_rel w t (snd (log_Allow mx w t k lg)) r'"
proof -
  have ex: "now < t" "lua_num t = t" "lua_num (t - w) = t - w" "\<not> string_key k" "lua_num w = w" "lua_num mx = mx"
    using assms(2-6) lua_num_small by (auto simp: exact_after_def)
  let ?r = "redis_trim t k (t - w) r"
  let ?n = "int (length (recent w t (lg k)))"
  have rel: "redis_rel w t lg ?r" using redis_trim_rel [OF assms(1), of t k] ex(1) by simp
  have zs: "map fst (redis_zset ?r t k) = recent w t (lg k)"
    using redis_relD(3) [OF assms(1) ex(4), of t] ex(1) by (simp add: redis_trim_zset recent_def filter_map comp_def)
  then have card: "r_zcard redis_cmds t k ?r = ?n"
    by (simp add: redis_cmds_def) (metis length_map)
  have up: "r_script redis_cmds r = None" using assms(1) by (simp add: redis_rel_def redis_cmds_def)
  have trim: "r_zremrangebyscore redis_cmds t k (t - w) r = ?r" by (simp add: redis_trim_def)
  have allow: "redis_Allow (RedisCache n redis_cmds) t k mx w r =
     (if mx \<le> ?n then ((False, 0, t + w, None), ?r)
      else ((True, lua_num (mx - ?n - 1), t + w, None), redis_admit w t k ?r))"
    using up by (simp add: redis_Allow_def RedisCache_def redis_SlidingWindowAllow_def slidingWindowScript_def
        ex trim card Let_def redis_admit_def)
  have "redis_rel w t (lg(k := lg k @ [t])) (redis_admit w t k ?r)"
  proof (rule redis_admit_rel [OF rel ex(4) _ assms(3)])
    show "\<forall>x \<in> set (map fst (redis_zset ?r t k)). x < t"
      unfolding zs using redis_relD(1) [OF assms(1) ex(4)] ex(1) by (fastforce simp: recent_def)
  qed
  moreover have "\<not> mx \<le> ?n \<Longrightarrow> lua_num (mx - ?n - 1) = mx - ?n - 1"
    using assms(6) by (intro lua_num_small) auto
  ultimately show ?thesis
    using allow rel by (auto simp: log_Allow_def)
qed


definition limits_ok :: "int \<Rightarrow> int \<Rightarrow> bool" where
  "limits_ok mx w \<longleftrightarrow> 0 < w \<and> w < 2 ^ 53 \<and> 0 \<le> mx \<and> mx < 2 ^ 53"

interpretation red: limiter "\<lambda>t k. redis_Allow (RedisCache n redis_cmds) t k mx w" "\<lambda>t r. r" mx w
    "exact_after w" "\<lambda>now lg r. limits_ok mx w \<and> redis_rel w now lg r"
  for n :: nat and mx w :: int
proof
  show "\<exists>ok rem b'. redis_Allow (RedisCache n redis_cmds) t k mx w b = ((ok, rem, t + w, None), b') \<and>
      fst (log_Allow mx w t k lg) = (ok, rem) \<and> limits_ok mx w \<and> redis_rel w t (snd (log_Allow mx w t k lg)) b'"
    if "limits_ok mx w \<and> redis_rel w now lg b" "exact_after w now (Request t k)" for now lg b t k
    using redis_Allow_sim [of w now lg b t k mx n] that by (auto simp: limits_ok_def)
  show "limits_ok mx w \<and> redis_rel w t lg b" if "limits_ok mx w \<and> redis_rel w now lg b" "exact_after w now (Tick t)" for now lg b t
  proof -
    have le: "now \<le> t" using that(2) by (simp add: exact_after_def)
    have "p \<in> set (redis_zset b now k)" if "p \<in> set (redis_zset b t k)" for p k
      using redis_zset_later [OF le, of b k] that by auto
    then show ?thesis using that(1) le unfolding redis_rel_def by force
  qed
qed

section \<open>Properties\<close>

text \<open>The times of the admitted requests for a key, from the answers.\<close>

fun admitted :: "string \<Rightarrow> rl_event list \<Rightarrow> (bool \<times> int) list \<Rightarrow> go_time list" where
  "admitted k (Tick t # es) rs = admitted k es rs"
| "admitted k (Request t k' # es) (r # rs) = (if k' = k \<and> fst r then [t] else []) @ admitted k es rs"
| "admitted k _ _ = []"

lemma log_run_admitted: "snd (log_run mx w es lg) k = lg k @ admitted k es (fst (log_run mx w es lg))"
proof (induction es arbitrary: lg)
  case (Cons e es)
  then show ?case
    by (cases e) (auto simp: log_Allow_def Let_def case_prod_unfold)
qed simp

lemma clock_ok_mono:
  assumes "clock_ok P now es" and "\<And>u e. P u e \<Longrightarrow> u \<le> rl_time e"
  shows "sorted (map rl_time es) \<and> (\<forall>e \<in> set es. now \<le> rl_time e)"
  using assms
proof (induction es arbitrary: now)
  case (Cons e es)
  then have "now \<le> rl_time e" "sorted (map rl_time es) \<and> (\<forall>x \<in> set es. rl_time e \<le> rl_time x)" by auto
  then show ?case by fastforce
qed simp

lemma log_bound_from_empty:
  assumes "clock_ok P t0 es" and "\<And>u e. P u e \<Longrightarrow> u \<le> rl_time e" and "0 < mx" "0 < w"
  shows "int (in_window w t (admitted k es (fst (log_run mx w es empty_log)))) \<le> mx"
  using log_run_bound [of w empty_log mx t0 es t k] clock_ok_mono [OF assms(1,2)] assms(3,4)
    log_run_admitted [of mx w es empty_log k]
  by (simp add: empty_log_def in_window_def)

definition example_events :: "rl_event list" where
  "example_events = [Request 10 ''ip:a'', Request 12 ''ip:a'', Tick 13, Request 14 ''ip:a'', Request 15 ''ip:b'', Request 21 ''ip:a'']"

text \<open>
  C3. The in-memory limiter admits exactly what the window allows. For every sequence of requests and cleanup
  ticks with a clock that does not run backwards, each request is answered (decision and remaining count) as the
  log of admitted requests answers it; so the janitor never changes a decision, and in every window of the
  configured length at most the configured number of requests of one key is admitted.
\<close>

theorem memory_limiter_exact:
  assumes "clock_ok not_before t0 es" and "0 < mx" and "0 < w"
  shows "backend_run (\<lambda>t k. memory_Allow t k mx w) cleanup es newMemoryBackend = fst (log_run mx w es empty_log) \<and>
    int (in_window w t (admitted k es (backend_run (\<lambda>t k. memory_Allow t k mx w) cleanup es newMemoryBackend))) \<le> mx"
proof -
  have "memory_rel w t0 empty_log newMemoryBackend"
    by (simp add: memory_rel_def newMemoryBackend_def empty_log_def stamps_def)
  from mem.run_refines [OF this assms(1)]
  have eq: "backend_run (\<lambda>t k. memory_Allow t k mx w) cleanup es newMemoryBackend = fst (log_run mx w es empty_log)" .
  then show ?thesis
    using log_bound_from_empty [OF assms(1) _ assms(2,3)] by (simp add: not_before_def)
qed

lemma memory_limiter_exact_witness:
  "clock_ok not_before 0 example_events \<and>
   backend_run (\<lambda>t k. memory_Allow t k 2 10) cleanup example_events newMemoryBackend
     = [(True, 1), (True, 0), (False, 0), (True, 1), (True, 0)]"
proof -
  have "clock_ok not_before 0 example_events" by code_simp
  moreover have "fst (log_run 2 10 example_events empty_log) = [(True, 1), (True, 0), (False, 0), (True, 1), (True, 0)]"
    by code_simp
  ultimately show ?thesis using memory_limiter_exact [of 0 example_events 2 10] by simp
qed

text \<open>
  C22. The Redis limiter agrees with the in-memory one. On a reachable Redis with no earlier rate-limit entries,
  for requests whose clock readings increase strictly and are exact as Lua numbers, the script answers every
  request as the log does, with the expiry of the Redis keys taken into account; hence the same bound holds.
\<close>

theorem redis_limiter_agrees:
  assumes "clock_ok (exact_after w) t0 es" and "limits_ok mx w" and "r_up r" and "\<forall>k. \<not> string_key k \<longrightarrow> map_of (r_keys r) k = None"
  shows "backend_run (\<lambda>t k. redis_Allow (RedisCache n redis_cmds) t k mx w) (\<lambda>t r. r) es r
    = backend_run (\<lambda>t k. memory_Allow t k mx w) cleanup es newMemoryBackend"
proof -
  have "redis_rel w t0 empty_log r"
    using assms(3,4) by (simp add: redis_rel_def empty_log_def redis_zset_def redis_lookup_def recent_def)
  then have "backend_run (\<lambda>t k. redis_Allow (RedisCache n redis_cmds) t k mx w) (\<lambda>t r. r) es r = fst (log_run mx w es empty_log)"
    using red.run_refines [of mx w t0 empty_log r es n] assms(1,2) by simp
  moreover have "clock_ok not_before t0 es"
    using assms(1) by (induction es arbitrary: t0) (auto simp: exact_after_def not_before_def)
  moreover have "memory_rel w t0 empty_log newMemoryBackend"
    by (simp add: memory_rel_def newMemoryBackend_def empty_log_def stamps_def)
  ultimately show ?thesis using mem.run_refines [of w t0 empty_log newMemoryBackend es mx] by simp
qed

lemma redis_limiter_agrees_witness:
  "clock_ok (exact_after 10) 0 example_events \<and> limits_ok 2 10 \<and>
   backend_run (\<lambda>t k. redis_Allow (RedisCache 5 redis_cmds) t k 2 10) (\<lambda>t r. r) example_events \<lparr>r_keys = [], r_up = True\<rparr>
     = [(True, 1), (True, 0), (False, 0), (True, 1), (True, 0)]"
proof -
  have c: "clock_ok (exact_after 10) 0 example_events" by code_simp
  have l: "limits_ok 2 10" by (simp add: limits_ok_def)
  have "backend_run (\<lambda>t k. memory_Allow t k 2 10) cleanup example_events newMemoryBackend
      = [(True, 1), (True, 0), (False, 0), (True, 1), (True, 0)]"
    by code_simp
  then show ?thesis
    using redis_limiter_agrees [OF c l, of "\<lparr>r_keys = [], r_up = True\<rparr>" 5] c l by simp
qed

text \<open>
  The two readings of the clock must differ as Lua numbers. The script adds the reading as the member of the
  sorted set, so requests whose readings round to the same number are counted once: at present-day times,
  readings within about a hundred nanoseconds of each other. Here three requests pass a limit of two.
\<close>

lemma redis_limiter_counts_equal_readings_once:
  "map fst (backend_run (\<lambda>t k. redis_Allow (RedisCache 5 redis_cmds) t k 2 10) (\<lambda>t r. r)
     [Request 5 ''ip:a'', Request 5 ''ip:a'', Request 5 ''ip:a''] \<lparr>r_keys = [], r_up = True\<rparr>) = [True, True, True]"
  by code_simp

lemma bit_len_eq: "2 ^ n \<le> m \<Longrightarrow> m < 2 ^ Suc n \<Longrightarrow> bit_len m = Suc n"
proof (induction n arbitrary: m)
  case 0
  then have "m = 1" by simp
  then show ?case by (simp add: bit_len.simps)
next
  case (Suc n)
  then have "bit_len (m div 2) = Suc n" by (intro Suc.IH) auto
  moreover have "m \<noteq> 0" using Suc.prems(1) by (intro notI) simp
  ultimately show ?case by (simp add: bit_len.simps [of m])
qed

lemma nearby_readings_are_equal: "lua_num 1700000000000000080 = lua_num 1700000000000000000"
proof -
  have "bit_len 1700000000000000080 = Suc 60" "bit_len 1700000000000000000 = Suc 60"
    by (rule bit_len_eq; simp)+
  then show ?thesis by (simp add: lua_num_def Let_def)
qed

text \<open>
  C24. The limiter guards what is behind it. When the backend refuses a request, or fails while the limiter is
  configured to fail closed, the rest of the chain is not run: the answer does not depend on it and is 429
  or 503. When the backend fails and the limiter fails open, the request passes unchanged.
\<close>

theorem rate_limit_guards:
  assumes "allow now (case keyFunc of None \<Rightarrow> defaultKeyFunc c | Some f \<Rightarrow> f c) (rl_Max (rl_normalize cfg))
      (rl_Window (rl_normalize cfg)) b = ((allowed, remaining, resetAt, err), b')"
  shows "(err = None \<and> \<not> allowed \<longrightarrow>
      (\<exists>c'. RateLimit now cfg keyFunc allow rest (b, w) c = (None, (b', w), c') \<and> res_status c' = 429)) \<and>
    (err \<noteq> None \<and> rl_FailClosed cfg \<longrightarrow>
      (\<exists>c'. RateLimit now cfg keyFunc allow rest (b, w) c = (None, (b', w), c') \<and> res_status c' = 503)) \<and>
    (err \<noteq> None \<and> \<not> rl_FailClosed cfg \<longrightarrow> RateLimit now cfg keyFunc allow rest (b, w) c = rest (b', w) c)"
proof -
  have fc: "rl_FailClosed (rl_normalize cfg) = rl_FailClosed cfg" by (simp add: rl_normalize_def)
  show ?thesis
    using assms by (auto simp: RateLimit_def Let_def fc with_state_def Fail_def New_def send_json_def)
qed

lemma rate_limit_guards_witness:
  "\<exists>c'. RateLimit 5 \<lparr>rl_Max = 1, rl_Window = 10, rl_FailClosed = True\<rparr> None memory_Allow (\<lambda>w c. (None, w, c))
     (snd (memory_Allow 4 ''ip:10.0.0.1'' 1 10 newMemoryBackend), ()) example_ctx
     = (None, (snd (memory_Allow 5 ''ip:10.0.0.1'' 1 10 (snd (memory_Allow 4 ''ip:10.0.0.1'' 1 10 newMemoryBackend))), ()), c') \<and>
     res_status c' = 429"
proof -
  let ?b = "snd (memory_Allow 4 ''ip:10.0.0.1'' 1 10 newMemoryBackend)"
  let ?cfg = "\<lparr>rl_Max = 1, rl_Window = 10, rl_FailClosed = True\<rparr>"
  have k: "defaultKeyFunc example_ctx = ''ip:10.0.0.1''" by (simp add: defaultKeyFunc_def example_ctx_def)
  have "memory_Allow 5 ''ip:10.0.0.1'' 1 10 ?b = ((False, 0, 15, None), snd (memory_Allow 5 ''ip:10.0.0.1'' 1 10 ?b))"
    by (simp add: memory_Allow_def newMemoryBackend_def Let_def)
  then show ?thesis
    using rate_limit_guards [where allow = memory_Allow and now = 5 and keyFunc = None and c = example_ctx and cfg = ?cfg
        and b = ?b and allowed = False and remaining = 0 and resetAt = 15 and err = None
        and b' = "snd (memory_Allow 5 ''ip:10.0.0.1'' 1 10 ?b)" and rest = "\<lambda>w c. (None, w, c)" and w = "()"] k
    by (simp add: rl_normalize_def)
qed

end
