(* ===== verification/Middleware_Auth.thy ===== *)
theory Middleware_Auth
  imports Http Authorizer
begin

text \<open>
  Authentication and authorization middleware: \<^verbatim>\<open>src/internal/platform/http/middleware/auth.go\<close> and \<^verbatim>\<open>authz.go\<close>. The JWT
  library is a parameter, the record \<open>jwt_api\<close> with the call that signs claims and the call that parses and
  validates a token. The locale \<open>jwt_lib\<close> says what the service relies on: a token that was signed with the secret
  parses to the signed claims while they are valid for the expected issuer and audience, an expired one is
  rejected with \<^verbatim>\<open>jwt.ErrTokenExpired\<close>, and whatever parses was signed with the secret and is valid. An instance is
  given at the end of the theory.
\<close>

section \<open>The JWT library\<close>

record jwt_claims =
  jc_Subject :: string
  jc_Issuer :: string
  jc_Audience :: "string list"
  jc_ExpiresAt :: "go_time option"
  jc_IssuedAt :: "go_time option"
  jc_NotBefore :: "go_time option"
  jc_UserID :: string
  jc_Email :: string
  jc_Name :: string

text \<open>
  \<open>jwt_parse now iss aud secret token\<close> is \<^verbatim>\<open>ParseWithClaims\<close> with the options \<^verbatim>\<open>WithValidMethods(HS256)\<close>, \<^verbatim>\<open>WithIssuer\<close> and
  \<^verbatim>\<open>WithAudience\<close> and a key function that returns the secret for HMAC methods. \<open>jwt_date\<close> is \<^verbatim>\<open>NewNumericDate\<close>, which cuts a
  time to the precision of the library.
\<close>

record jwt_api =
  jwt_sign :: "string \<Rightarrow> jwt_claims \<Rightarrow> go_error + string"
  jwt_parse :: "go_time \<Rightarrow> string \<Rightarrow> string \<Rightarrow> string \<Rightarrow> string \<Rightarrow> go_error + jwt_claims"
  jwt_date :: "go_time \<Rightarrow> go_time"

definition ErrTokenExpired :: go_error where "ErrTokenExpired = Sentinel ''token is expired''"

section \<open>auth.go\<close>

record AuthConfig =
  JWTSecret :: string
  JWTIssuer :: string
  JWTAudience :: string
  TokenLookup :: string
  ContextKey :: string

definition DefaultAuthConfig :: "string \<Rightarrow> AuthConfig" where
  "DefaultAuthConfig jwtSecret = \<lparr>JWTSecret = jwtSecret, JWTIssuer = ''goscratch'', JWTAudience = ''goscratch-api'',
     TokenLookup = ''header:Authorization'', ContextKey = ''user''\<rparr>"

definition toDomainClaims :: "jwt_claims \<Rightarrow> claims" where
  "toDomainClaims c = \<lparr>cl_Subject = jc_Subject c, cl_UserID = jc_UserID c, cl_Email = jc_Email c, cl_Name = jc_Name c,
     cl_Issuer = jc_Issuer c, cl_Audience = jc_Audience c, cl_ExpiresAt = jc_ExpiresAt c, cl_IssuedAt = jc_IssuedAt c,
     cl_NotBefore = jc_NotBefore c\<rparr>"

definition extractToken :: "fiber_ctx \<Rightarrow> string \<Rightarrow> go_error + string" where
  "extractToken c lookup =
     (case split_on (CHR '':'') lookup of
        [p0, p1] \<Rightarrow>
          if p0 = ''header'' then
            (let auth = ctx_Get c p1 in
             if auth = '''' then Inl ErrUnauthorized
             else if has_prefix auth ''Bearer '' then Inr (trim_prefix auth ''Bearer '')
             else Inr auth)
          else if p0 = ''cookie'' then Inr (ctx_Cookies c p1)
          else Inl ErrBadRequest
      | _ \<Rightarrow> Inl ErrBadRequest)"

definition parseToken :: "jwt_api \<Rightarrow> go_time \<Rightarrow> string \<Rightarrow> string \<Rightarrow> string \<Rightarrow> string \<Rightarrow> go_error + jwt_claims" where
  "parseToken jwt now token secret issuer audience =
     (if issuer = '''' \<or> audience = '''' then Inl ErrUnauthorized
      else jwt_parse jwt now issuer audience secret token)"

definition store_claims :: "AuthConfig \<Rightarrow> claims \<Rightarrow> fiber_ctx \<Rightarrow> fiber_ctx" where
  "store_claims cfg cl c =
     setContextValue key_user_agent (ctx_Get c ''User-Agent'')
       (setContextValue key_ip_address (req_ip c)
         (setContextValue key_user_id (cl_UserID cl)
           (ctx_Locals ''user_id'' (LString (cl_UserID cl)) (ctx_Locals (ContextKey cfg) (LClaims cl) c))))"

definition Auth :: "jwt_api \<Rightarrow> go_time \<Rightarrow> AuthConfig \<Rightarrow> 'w handler \<Rightarrow> 'w handler" where
  "Auth jwt now cfg next w c =
     (case extractToken c (TokenLookup cfg) of
        Inl _ \<Rightarrow> with_state w (Unauthorized c ''Missing or invalid token'')
      | Inr token \<Rightarrow>
          (case parseToken jwt now token (JWTSecret cfg) (JWTIssuer cfg) (JWTAudience cfg) of
             Inl err \<Rightarrow>
               if errors_is err ErrTokenExpired then with_state w (Unauthorized c ''Token has expired'')
               else with_state w (Unauthorized c ''Invalid token'')
           | Inr raw \<Rightarrow> next w (store_claims cfg (toDomainClaims raw) c)))"

definition OptionalAuth :: "jwt_api \<Rightarrow> go_time \<Rightarrow> AuthConfig \<Rightarrow> 'w handler \<Rightarrow> 'w handler" where
  "OptionalAuth jwt now cfg next w c =
     (case extractToken c (TokenLookup cfg) of
        Inl _ \<Rightarrow> next w c
      | Inr token \<Rightarrow>
          if token = '''' then next w c
          else (case parseToken jwt now token (JWTSecret cfg) (JWTIssuer cfg) (JWTAudience cfg) of
             Inl err \<Rightarrow> next w c
           | Inr raw \<Rightarrow> next w (store_claims cfg (toDomainClaims raw) c)))"

definition GetClaims :: "fiber_ctx \<Rightarrow> claims option" where
  "GetClaims c = (case locals c ''user'' of Some (LClaims cl) \<Rightarrow> Some cl | _ \<Rightarrow> None)"

definition GetUserID :: "fiber_ctx \<Rightarrow> string" where
  "GetUserID c = (case locals c ''user_id'' of Some (LString s) \<Rightarrow> s | _ \<Rightarrow> '''')"

section \<open>authz.go\<close>

text \<open>The authorizer is a component of the state: \<open>fst w\<close>.\<close>

definition RequirePermission ::
  "'s authorizer \<Rightarrow> string \<Rightarrow> string \<Rightarrow> ('s \<times> 'w) handler \<Rightarrow> ('s \<times> 'w) handler" where
  "RequirePermission az obj act next w c =
     (let userID = GetUserID c in
      if userID = '''' then with_state w (Unauthorized c ''authentication required'')
      else (case az_Enforce az userID obj act (fst w) of
        ((allowed, err), s) \<Rightarrow>
          if err \<noteq> None then with_state (s, snd w) (Fail c (Internalf ''authorization check failed''))
          else if \<not> allowed then with_state (s, snd w) (Forbidden c ''insufficient permissions'')
          else next (s, snd w) c))"

definition RequireRole :: "'s authorizer \<Rightarrow> string \<Rightarrow> ('s \<times> 'w) handler \<Rightarrow> ('s \<times> 'w) handler" where
  "RequireRole az role next w c =
     (let userID = GetUserID c in
      if userID = '''' then with_state w (Unauthorized c ''authentication required'')
      else (case az_HasRoleForUser az userID role (fst w) of
        Inl _ \<Rightarrow> with_state w (Fail c (Internalf ''authorization check failed''))
      | Inr hasRole \<Rightarrow>
          if \<not> hasRole then with_state w (Forbidden c ''insufficient role'') else next w c))"

text \<open>\<^verbatim>\<open>parsePermission\<close> scans for the first colon.\<close>

fun parsePermission_from :: "string \<Rightarrow> string \<Rightarrow> string \<times> string" where
  "parsePermission_from acc [] = (rev acc, ''*'')"
| "parsePermission_from acc (x # xs) = (if x = CHR '':'' then (rev acc, xs) else parsePermission_from (x # acc) xs)"

definition parsePermission :: "string \<Rightarrow> string \<times> string" where
  "parsePermission perm = parsePermission_from [] perm"

fun any_permission :: "'s authorizer \<Rightarrow> string \<Rightarrow> string list \<Rightarrow> 's \<Rightarrow> bool \<times> 's" where
  "any_permission az userID [] s = (False, s)"
| "any_permission az userID (perm # perms) s =
     (case parsePermission perm of (obj, act) \<Rightarrow>
        (case az_Enforce az userID obj act s of ((allowed, err), s') \<Rightarrow>
           if err \<noteq> None then any_permission az userID perms s'
           else if allowed then (True, s')
           else any_permission az userID perms s'))"

definition RequireAnyPermission :: "'s authorizer \<Rightarrow> string list \<Rightarrow> ('s \<times> 'w) handler \<Rightarrow> ('s \<times> 'w) handler" where
  "RequireAnyPermission az permissions next w c =
     (let userID = GetUserID c in
      if userID = '''' then with_state w (Unauthorized c ''authentication required'')
      else (case any_permission az userID permissions (fst w) of
        (True, s) \<Rightarrow> next (s, snd w) c
      | (False, s) \<Rightarrow> with_state (s, snd w) (Forbidden c ''insufficient permissions'')))"

fun all_permissions :: "'s authorizer \<Rightarrow> string \<Rightarrow> string list \<Rightarrow> 's \<Rightarrow> bool \<times> 's" where
  "all_permissions az userID [] s = (True, s)"
| "all_permissions az userID (perm # perms) s =
     (case parsePermission perm of (obj, act) \<Rightarrow>
        (case az_Enforce az userID obj act s of ((allowed, err), s') \<Rightarrow>
           if err \<noteq> None \<or> \<not> allowed then (False, s') else all_permissions az userID perms s'))"

definition RequireAllPermissions :: "'s authorizer \<Rightarrow> string list \<Rightarrow> ('s \<times> 'w) handler \<Rightarrow> ('s \<times> 'w) handler" where
  "RequireAllPermissions az permissions next w c =
     (let userID = GetUserID c in
      if userID = '''' then with_state w (Unauthorized c ''authentication required'')
      else (case all_permissions az userID permissions (fst w) of
        (True, s) \<Rightarrow> next (s, snd w) c
      | (False, s) \<Rightarrow> with_state (s, snd w) (Forbidden c ''insufficient permissions'')))"

fun any_role :: "'s authorizer \<Rightarrow> string \<Rightarrow> string list \<Rightarrow> 's \<Rightarrow> bool" where
  "any_role az userID [] s = False"
| "any_role az userID (role # roles) s =
     (case az_HasRoleForUser az userID role s of
        Inl _ \<Rightarrow> any_role az userID roles s
      | Inr hasRole \<Rightarrow> if hasRole then True else any_role az userID roles s)"

definition RequireAnyRole :: "'s authorizer \<Rightarrow> string list \<Rightarrow> ('s \<times> 'w) handler \<Rightarrow> ('s \<times> 'w) handler" where
  "RequireAnyRole az roles next w c =
     (let userID = GetUserID c in
      if userID = '''' then with_state w (Unauthorized c ''authentication required'')
      else if any_role az userID roles (fst w) then next w c
      else with_state w (Forbidden c ''insufficient role''))"

section \<open>Protected routes\<close>

text \<open>
  How the modules register a protected route: behind \<^verbatim>\<open>Auth\<close> with the default configuration and, when the route names one,
  behind a permission. \<open>behind\<close> is a handler that leaves the authorizer alone.
\<close>

definition protected ::
  "jwt_api \<Rightarrow> go_time \<Rightarrow> string \<Rightarrow> 'z authorizer \<Rightarrow> (string \<times> string) option \<Rightarrow> ('z \<times> 'w) handler \<Rightarrow> ('z \<times> 'w) handler" where
  "protected jwt now secret az perm h =
     Auth jwt now (DefaultAuthConfig secret)
       (case perm of None \<Rightarrow> h | Some (obj, act) \<Rightarrow> RequirePermission az obj act h)"

definition behind :: "'w handler \<Rightarrow> ('z \<times> 'w) handler" where
  "behind h zw c = (case zw of (z, w) \<Rightarrow> case h w c of (e, w', c') \<Rightarrow> (e, (z, w'), c'))"

section \<open>What the service relies on\<close>

definition claims_valid :: "go_time \<Rightarrow> string \<Rightarrow> string \<Rightarrow> jwt_claims \<Rightarrow> bool" where
  "claims_valid now iss aud cl \<longleftrightarrow>
     (case jc_ExpiresAt cl of None \<Rightarrow> True | Some e \<Rightarrow> now < e) \<and>
     (case jc_NotBefore cl of None \<Rightarrow> True | Some n \<Rightarrow> n \<le> now) \<and>
     jc_Issuer cl = iss \<and> aud \<in> set (jc_Audience cl)"

locale jwt_lib =
  fixes jwt :: jwt_api and signed_by :: "string \<Rightarrow> jwt_claims \<Rightarrow> string \<Rightarrow> bool"
  assumes sign_law: "\<exists>tok. jwt_sign jwt secret cl = Inr tok \<and> signed_by secret cl tok"
    and parse_valid: "signed_by secret cl tok \<Longrightarrow> claims_valid now iss aud cl \<Longrightarrow> jwt_parse jwt now iss aud secret tok = Inr cl"
    and parse_expired: "signed_by secret cl tok \<Longrightarrow> jc_ExpiresAt cl = Some e \<Longrightarrow> e \<le> now \<Longrightarrow>
      \<exists>err. jwt_parse jwt now iss aud secret tok = Inl err \<and> errors_is err ErrTokenExpired"
    and parse_sound: "jwt_parse jwt now iss aud secret tok = Inr cl \<Longrightarrow> signed_by secret cl tok \<and> claims_valid now iss aud cl"
    and signed_unique: "signed_by secret cl tok \<Longrightarrow> signed_by secret cl' tok \<Longrightarrow> cl' = cl"
    and date_law: "jwt_date jwt t \<le> t \<and> t < jwt_date jwt t + second"
begin

lemma parseToken_sound:
  "parseToken jwt now tok secret iss aud = Inr cl \<Longrightarrow> iss \<noteq> '''' \<and> aud \<noteq> '''' \<and> signed_by secret cl tok \<and> claims_valid now iss aud cl"
  using parse_sound by (auto simp: parseToken_def split: if_splits)

end

lemma parsePermission_from_eq:
  "parsePermission_from acc perm =
     (if CHR '':'' \<in> set perm
      then (rev acc @ takeWhile (\<lambda>c. c \<noteq> CHR '':'') perm, tl (dropWhile (\<lambda>c. c \<noteq> CHR '':'') perm))
      else (rev acc @ perm, ''*''))"
  by (induction perm arbitrary: acc) auto

lemma store_claims_locals:
  "ContextKey cfg \<noteq> ''user_id'' \<Longrightarrow> locals (store_claims cfg cl c) = (locals c)(ContextKey cfg \<mapsto> LClaims cl, ''user_id'' \<mapsto> LString (cl_UserID cl))"
  by (simp add: store_claims_def setContextValue_def ctx_Locals_def)

lemma GetUserID_store [simp]: "GetUserID (store_claims cfg cl c) = cl_UserID cl"
  by (simp add: store_claims_def setContextValue_def ctx_Locals_def GetUserID_def)

lemma GetClaims_store: "ContextKey cfg = ''user'' \<Longrightarrow> GetClaims (store_claims cfg cl c) = Some cl"
  by (simp add: GetClaims_def store_claims_locals)

section \<open>An instance of the library\<close>

text \<open>
  Tokens that consist of the claims in a self-delimiting encoding followed by the secret. It satisfies the
  laws, so they are consistent; it is not a secure signature.
\<close>

definition enc_str :: "string \<Rightarrow> string" where
  "enc_str s = concat (map (\<lambda>c. [CHR 0x01, c]) s) @ [CHR 0x00]"

fun dec_str :: "string \<Rightarrow> (string \<times> string) option" where
  "dec_str (t # r) =
     (if t = CHR 0x00 then Some ([], r)
      else (case r of [] \<Rightarrow> None | c # r' \<Rightarrow> map_option (\<lambda>(s, rest). (c # s, rest)) (dec_str r')))"
| "dec_str [] = None"

definition enc_strs :: "string list \<Rightarrow> string" where
  "enc_strs ss = concat (map (\<lambda>s. CHR 0x02 # enc_str s) ss) @ [CHR 0x00]"

fun dec_strs :: "nat \<Rightarrow> string \<Rightarrow> (string list \<times> string) option" where
  "dec_strs (Suc n) (t # r) =
     (if t = CHR 0x00 then Some ([], r)
      else (case dec_str r of None \<Rightarrow> None
            | Some (s, r') \<Rightarrow> map_option (\<lambda>(ss, rest). (s # ss, rest)) (dec_strs n r')))"
| "dec_strs _ _ = None"

definition enc_time :: "go_time option \<Rightarrow> string" where
  "enc_time t = (case t of None \<Rightarrow> enc_strs []
     | Some i \<Rightarrow> enc_strs [if i < 0 then ''-'' else [], nat_digits (nat \<bar>i\<bar>)])"

definition dec_time :: "string \<Rightarrow> (go_time option \<times> string) option" where
  "dec_time s =
     (case dec_strs (Suc (length s)) s of
        Some ([], r) \<Rightarrow> Some (None, r)
      | Some ([sign, ds], r) \<Rightarrow> map_option (\<lambda>n. (Some (if sign = ''-'' then - int n else int n), r)) (digits_val 0 ds)
      | _ \<Rightarrow> None)"

definition enc_claims :: "jwt_claims \<Rightarrow> string" where
  "enc_claims c = enc_strs [jc_Subject c, jc_Issuer c, jc_UserID c, jc_Email c, jc_Name c] @ enc_strs (jc_Audience c) @
     enc_time (jc_ExpiresAt c) @ enc_time (jc_IssuedAt c) @ enc_time (jc_NotBefore c)"

definition dec_claims :: "string \<Rightarrow> (jwt_claims \<times> string) option" where
  "dec_claims s =
     (case dec_strs (Suc (length s)) s of
        Some ([sub, iss, uid, em, nm], r1) \<Rightarrow>
          (case dec_strs (Suc (length r1)) r1 of None \<Rightarrow> None | Some (aud, r2) \<Rightarrow>
           case dec_time r2 of None \<Rightarrow> None | Some (ex, r3) \<Rightarrow>
           case dec_time r3 of None \<Rightarrow> None | Some (ia, r4) \<Rightarrow>
           case dec_time r4 of None \<Rightarrow> None | Some (nb, r5) \<Rightarrow>
             Some (\<lparr>jc_Subject = sub, jc_Issuer = iss, jc_Audience = aud, jc_ExpiresAt = ex, jc_IssuedAt = ia,
                    jc_NotBefore = nb, jc_UserID = uid, jc_Email = em, jc_Name = nm\<rparr>, r5))
      | _ \<Rightarrow> None)"

definition demo_jwt :: jwt_api where
  "demo_jwt = \<lparr>
     jwt_sign = (\<lambda>secret cl. Inr (enc_claims cl @ secret)),
     jwt_parse = (\<lambda>now iss aud secret tok.
       case dec_claims tok of
         Some (cl, r) \<Rightarrow>
           if enc_claims cl @ secret \<noteq> tok then Inl (ErrText ''token signature is invalid'')
           else if (case jc_ExpiresAt cl of None \<Rightarrow> False | Some e \<Rightarrow> e \<le> now)
             then Inl (errorf_w ''token has invalid claims'' ErrTokenExpired)
           else if claims_valid now iss aud cl then Inr cl
           else Inl (ErrText ''token has invalid claims'')
       | None \<Rightarrow> Inl (ErrText ''token is malformed'')),
     jwt_date = (\<lambda>t. t div second * second)\<rparr>"

lemma dec_enc_str: "dec_str (enc_str s @ r) = Some (s, r)"
  by (induction s) (simp_all add: enc_str_def)

lemma dec_enc_strs: "length ss < n \<Longrightarrow> dec_strs n (enc_strs ss @ r) = Some (ss, r)"
proof (induction ss arbitrary: n)
  case Nil
  then show ?case by (cases n) (simp_all add: enc_strs_def)
next
  case (Cons s ss)
  then obtain m where "n = Suc m" by (cases n) auto
  with Cons show ?case
    using dec_enc_str [of s "enc_strs ss @ r"] by (simp add: enc_strs_def)
qed

lemma length_enc_strs: "length ss \<le> length (enc_strs ss @ r)"
  by (induction ss) (simp_all add: enc_strs_def)

lemma dec_enc_strs_len: "dec_strs (Suc (length (enc_strs ss @ r))) (enc_strs ss @ r) = Some (ss, r)"
  using length_enc_strs [of ss r] by (intro dec_enc_strs) simp

lemma dec_enc_time: "dec_time (enc_time t @ r) = Some (t, r)"
  by (cases t) (simp_all add: enc_time_def dec_time_def dec_enc_strs_len digits_val_nat_digits del: length_append)

lemma dec_enc_claims: "dec_claims (enc_claims c @ r) = Some (c, r)"
  by (simp add: enc_claims_def dec_claims_def dec_enc_strs_len dec_enc_time del: length_append)

interpretation demo: jwt_lib demo_jwt "\<lambda>secret cl tok. tok = enc_claims cl @ secret"
proof
  show "\<exists>tok. jwt_sign demo_jwt secret cl = Inr tok \<and> tok = enc_claims cl @ secret" for secret cl
    by (simp add: demo_jwt_def)
  show "jwt_parse demo_jwt now iss aud secret tok = Inr cl"
    if "tok = enc_claims cl @ secret" "claims_valid now iss aud cl" for now iss aud secret tok cl
    using that by (auto simp: demo_jwt_def dec_enc_claims claims_valid_def split: option.split)
  show "\<exists>err. jwt_parse demo_jwt now iss aud secret tok = Inl err \<and> errors_is err ErrTokenExpired"
    if "tok = enc_claims cl @ secret" "jc_ExpiresAt cl = Some e" "e \<le> now" for now iss aud secret tok cl e
    using that by (simp add: demo_jwt_def dec_enc_claims errors_is_errorf_w errors_is_refl)
  show "tok = enc_claims cl @ secret \<and> claims_valid now iss aud cl"
    if "jwt_parse demo_jwt now iss aud secret tok = Inr cl" for now iss aud secret tok cl
    using that by (auto simp: demo_jwt_def split: option.splits prod.splits if_splits)
  show "cl' = cl" if "tok = enc_claims cl @ secret" "tok = enc_claims cl' @ secret" for secret tok cl cl'
    using that dec_enc_claims [of cl "[]"] dec_enc_claims [of cl' "[]"] by simp
  show "jwt_date demo_jwt t \<le> t \<and> t < jwt_date demo_jwt t + second" for t
    unfolding demo_jwt_def by simp linarith
qed

section \<open>Mediation\<close>

lemma auth_mediation:
  assumes "jwt_lib jwt signed_by"
  shows "(\<exists>tok cl. extractToken c (TokenLookup cfg) = Inr tok \<and> signed_by (JWTSecret cfg) cl tok \<and>
        claims_valid now (JWTIssuer cfg) (JWTAudience cfg) cl \<and>
        (\<exists>c'. (\<forall>rest. Auth jwt now cfg rest w c = rest w c') \<and> GetUserID c' = jc_UserID cl \<and>
              user_ctx c' key_user_id = Some (jc_UserID cl))) \<or>
    (\<exists>c'. (\<forall>rest. Auth jwt now cfg rest w c = (None, w, c')) \<and> res_status c' = 401)"
proof (cases "extractToken c (TokenLookup cfg)")
  case (Inl e)
  then show ?thesis by (simp add: Auth_def with_state_def Unauthorized_def send_json_def)
next
  case (Inr tok)
  show ?thesis
  proof (cases "parseToken jwt now tok (JWTSecret cfg) (JWTIssuer cfg) (JWTAudience cfg)")
    case (Inl e)
    with Inr show ?thesis by (simp add: Auth_def with_state_def Unauthorized_def send_json_def)
  next
    case p: (Inr cl)
    let ?c = "store_claims cfg (toDomainClaims cl) c"
    have "signed_by (JWTSecret cfg) cl tok \<and> claims_valid now (JWTIssuer cfg) (JWTAudience cfg) cl"
      using jwt_lib.parseToken_sound [OF assms p] by blast
    moreover have "\<forall>rest. Auth jwt now cfg rest w c = rest w ?c"
      using Inr p by (simp add: Auth_def)
    moreover have "GetUserID ?c = jc_UserID cl" by (simp add: toDomainClaims_def)
    moreover have "user_ctx ?c key_user_id = Some (jc_UserID cl)"
      by (simp add: store_claims_def setContextValue_def ctx_Locals_def toDomainClaims_def
          key_user_id_def key_ip_address_def key_user_agent_def)
    ultimately show ?thesis using Inr by blast
  qed
qed

lemma require_permission_cases:
  "(\<exists>z'. az_Enforce az (GetUserID c) obj act z = ((True, None), z') \<and> (\<forall>h. RequirePermission az obj act h (z, w) c = h (z', w) c)) \<or>
   (\<exists>z' c'. (\<forall>h. RequirePermission az obj act h (z, w) c = (None, (z', w), c')) \<and> res_status c' \<in> {401, 403, 500})"
proof -
  obtain a e z' where en: "az_Enforce az (GetUserID c) obj act z = ((a, e), z')" by (metis prod.exhaust)
  show ?thesis
    by (cases "GetUserID c = []"; cases e; cases a) (simp_all add: RequirePermission_def Let_def en http_simps go_errors)
qed

text \<open>A request to a protected route either reaches the handler as the signed and permitted user, or is answered for it.\<close>

definition let_through ::
  "(string \<Rightarrow> jwt_claims \<Rightarrow> string \<Rightarrow> bool) \<Rightarrow> go_time \<Rightarrow> string \<Rightarrow> 'z authorizer \<Rightarrow> (string \<times> string) option \<Rightarrow> fiber_ctx \<Rightarrow> 'z \<Rightarrow> string \<Rightarrow> 'z \<Rightarrow> bool" where
  "let_through signed_by now secret az perm c z uid z' \<longleftrightarrow>
     (\<exists>tok cl. extractToken c ''header:Authorization'' = Inr tok \<and> signed_by secret cl tok \<and>
        claims_valid now ''goscratch'' ''goscratch-api'' cl \<and> jc_UserID cl = uid) \<and>
     (case perm of None \<Rightarrow> z' = z | Some (obj, act) \<Rightarrow> az_Enforce az uid obj act z = ((True, None), z'))"

lemma protected_cases:
  assumes "jwt_lib jwt signed_by"
  shows "(\<exists>uid z' c'. let_through signed_by now secret az perm c z uid z' \<and> GetUserID c' = uid \<and>
        user_ctx c' key_user_id = Some uid \<and> (\<forall>h. protected jwt now secret az perm h (z, w) c = h (z', w) c')) \<or>
    (\<exists>z' c'. (\<forall>h. protected jwt now secret az perm h (z, w) c = (None, (z', w), c')) \<and> res_status c' \<in> {401, 403, 500})"
proof -
  let ?cfg = "DefaultAuthConfig secret"
  have cfg: "TokenLookup ?cfg = ''header:Authorization''" "JWTSecret ?cfg = secret" "JWTIssuer ?cfg = ''goscratch''"
    "JWTAudience ?cfg = ''goscratch-api''" by (simp_all add: DefaultAuthConfig_def)
  from auth_mediation [OF assms, of c ?cfg now "(z, w)", unfolded cfg]
  consider (rejected) c' where "\<forall>rest. Auth jwt now ?cfg rest (z, w) c = (None, (z, w), c')" "res_status c' = 401"
    | (reached) tok cl c' where "extractToken c ''header:Authorization'' = Inr tok" "signed_by secret cl tok"
      "claims_valid now ''goscratch'' ''goscratch-api'' cl" "\<forall>rest. Auth jwt now ?cfg rest (z, w) c = rest (z, w) c'"
      "GetUserID c' = jc_UserID cl" "user_ctx c' key_user_id = Some (jc_UserID cl)"
    by blast
  then show ?thesis
  proof cases
    case rejected
    then show ?thesis by (auto simp: protected_def)
  next
    case reached
    show ?thesis
    proof (cases perm)
      case None
      have "let_through signed_by now secret az perm c z (jc_UserID cl) z" using reached None by (auto simp: let_through_def)
      moreover have "\<forall>h. protected jwt now secret az perm h (z, w) c = h (z, w) c'" using reached(4) None by (simp add: protected_def)
      ultimately show ?thesis using reached(5,6) by blast
    next
      case (Some oa)
      obtain obj act where oa: "oa = (obj, act)" by fastforce
      have p: "\<forall>h. protected jwt now secret az perm h (z, w) c = RequirePermission az obj act h (z, w) c'"
        using reached(4) Some oa by (simp add: protected_def)
      from require_permission_cases [of az c' obj act z w] show ?thesis
      proof
        assume "\<exists>z'. az_Enforce az (GetUserID c') obj act z = ((True, None), z') \<and> (\<forall>h. RequirePermission az obj act h (z, w) c' = h (z', w) c')"
        then obtain z' where z': "az_Enforce az (GetUserID c') obj act z = ((True, None), z')" "\<forall>h. RequirePermission az obj act h (z, w) c' = h (z', w) c'" by blast
        have "let_through signed_by now secret az perm c z (jc_UserID cl) z'" using reached Some oa z'(1) by (auto simp: let_through_def)
        moreover have "\<forall>h. protected jwt now secret az perm h (z, w) c = h (z', w) c'" using p z'(2) by simp
        ultimately show ?thesis using reached(5,6) by blast
      qed (use p in simp)
    qed
  qed
qed

section \<open>Properties\<close>

text \<open>
  C18. Authentication is complete mediation. For every JWT library that keeps the laws, the handler behind \<^verbatim>\<open>Auth\<close>
  is reached only with a token that was signed with the configured secret and whose claims are valid now for the
  configured issuer and audience; it then sees exactly the signed user id. In every other case the answer is 401,
  whatever the handler is.
\<close>

theorem auth_complete_mediation:
  assumes "jwt_lib jwt signed_by"
  shows "(\<exists>tok cl. extractToken c (TokenLookup cfg) = Inr tok \<and> signed_by (JWTSecret cfg) cl tok \<and>
        claims_valid now (JWTIssuer cfg) (JWTAudience cfg) cl \<and>
        (\<exists>c'. (\<forall>rest. Auth jwt now cfg rest w c = rest w c') \<and> GetUserID c' = jc_UserID cl \<and>
              user_ctx c' key_user_id = Some (jc_UserID cl))) \<or>
    (\<exists>c'. (\<forall>rest. Auth jwt now cfg rest w c = (None, w, c')) \<and> res_status c' = 401)"
  by (rule auth_mediation [OF assms])

lemma auth_complete_mediation_witness:
  "\<exists>c'. Auth demo_jwt 5 (DefaultAuthConfig ''s'') (\<lambda>w c. (None, w, c)) () example_ctx = (None, (), c') \<and> res_status c' = 401"
proof -
  have "extractToken example_ctx (TokenLookup (DefaultAuthConfig ''s'')) = Inr ''tok''" by code_simp
  moreover have "''tok'' \<noteq> enc_claims cl @ ''s''" for cl
    by (simp add: enc_claims_def enc_strs_def)
  moreover have "jwt_lib demo_jwt (\<lambda>secret cl tok. tok = enc_claims cl @ secret)" by (rule demo.jwt_lib_axioms)
  ultimately show ?thesis
    using auth_complete_mediation [of demo_jwt "\<lambda>secret cl tok. tok = enc_claims cl @ secret" example_ctx "DefaultAuthConfig ''s''" 5 "()"]
    by (auto simp: DefaultAuthConfig_def)
qed

text \<open>
  The two permission parsers of the code base agree: the middleware's scan for the first colon and the
  authorizer's split give the same object and action on every string.
\<close>

theorem parse_permission_agrees: "parsePermission perm = ParsePermission perm"
  by (simp add: parsePermission_def ParsePermission_def parsePermission_from_eq)

text \<open>
  A route guarded by \<^verbatim>\<open>RequirePermission\<close> runs its handler exactly when the caller is authenticated, the
  authorizer answers without error and allows the request; otherwise the answer is 401, 500 or 403 and the handler
  is not run.
\<close>

theorem require_permission_guards:
  assumes "az_Enforce az (GetUserID c) obj act s = ((allowed, err), s')"
  shows "(GetUserID c \<noteq> [] \<and> err = None \<and> allowed \<longrightarrow> RequirePermission az obj act rest (s, w) c = rest (s', w) c) \<and>
    (\<not> (GetUserID c \<noteq> [] \<and> err = None \<and> allowed) \<longrightarrow>
      (\<exists>s'' c'. RequirePermission az obj act rest (s, w) c = (None, (s'', w), c') \<and>
        res_status c' = (if GetUserID c = [] then 401 else if err \<noteq> None then 500 else 403)))"
  using assms by (auto simp: RequirePermission_def Let_def http_simps go_errors)

lemma require_permission_guards_witness:
  "RequirePermission (casbin_authorizer rbac_api) ''users'' ''read'' (\<lambda>w c. (None, w, c)) (with_cache example_rbac, ())
      (ctx_Locals ''user_id'' (LString ''u-1'') example_ctx)
   = (None, (snd (Enforce rbac_api ''u-1'' ''users'' ''read'' (with_cache example_rbac)), ()),
      ctx_Locals ''user_id'' (LString ''u-1'') example_ctx)"
proof -
  let ?c = "ctx_Locals ''user_id'' (LString ''u-1'') example_ctx"
  have u: "GetUserID ?c = ''u-1''" by (simp add: GetUserID_def ctx_Locals_def)
  have "fst (Enforce rbac_api ''u-1'' ''users'' ''read'' (with_cache example_rbac)) = (True, None)" by code_simp
  then have "az_Enforce (casbin_authorizer rbac_api) (GetUserID ?c) ''users'' ''read'' (with_cache example_rbac) =
     ((True, None), snd (Enforce rbac_api ''u-1'' ''users'' ''read'' (with_cache example_rbac)))"
    by (simp add: casbin_authorizer_def u prod_eq_iff)
  from require_permission_guards [OF this] show ?thesis by (simp add: u)
qed

end
