(* ===== verification/Users.thy ===== *)
theory Users
  imports Apperr Json "HOL-Library.Word"
begin

text \<open>
  User data: \<^verbatim>\<open>src/internal/module/user/domain/user.go\<close>, the queries of \<^verbatim>\<open>src/internal/module/user/repository/sqlc/user.sql.go\<close>
  on the table that \<^verbatim>\<open>src/migrations/000001_init_users.up.sql\<close> creates, the repository
  \<^verbatim>\<open>src/internal/module/user/repository/user_repository.go\<close> and transactions (\<^verbatim>\<open>src/internal/platform/database/postgres.go\<close>).
  The optional values are \<^verbatim>\<open>src/pkg/types/optional.go\<close>, the conversions \<^verbatim>\<open>src/pkg/pgutil/pgutil.go\<close>.

  A query is a function on the state \<open>pg\<close> of the database. Statements can fail: \<open>pg_faults\<close> lists the outcome
  of the statements to come (a \<^const>\<open>None\<close> lets the statement run, \<^term>\<open>Some e\<close> makes it fail, and statements after
  the end of the list run). What PostgreSQL itself decides is a field of the state: which strings a VARCHAR column
  rejects, and the ILIKE match, which depends on the collation. The UUID library is the parameter \<open>uuid_api\<close>; a
  UUID is its sixteen bytes, a \<^typ>\<open>128 word\<close>, ordered as PostgreSQL orders them. Generated identifiers and the
  clock are arguments. Metrics and traces are not modelled.
\<close>

section \<open>Identifiers and optional values\<close>

type_synonym uuid = "128 word"

record uuid_api =
  uu_Parse :: "string \<Rightarrow> uuid option"
  uu_String :: "uuid \<Rightarrow> string"

text \<open>Nullable database values are options, and so is \<^verbatim>\<open>types.Opt\<close>: \<^verbatim>\<open>Set\<close> is \<^const>\<open>Some\<close>.\<close>

definition UUIDToPgtype :: "uuid \<Rightarrow> uuid option" where
  "UUIDToPgtype i = Some i"

definition PgtypeToUUID :: "uuid option \<Rightarrow> uuid" where
  "PgtypeToUUID i = (case i of None \<Rightarrow> 0 | Some b \<Rightarrow> b)"

definition NullableUUID :: "uuid_api \<Rightarrow> string \<Rightarrow> uuid option" where
  "NullableUUID U s =
     (if s = '''' then None
      else case uu_Parse U s of None \<Rightarrow> None | Some uid \<Rightarrow> UUIDToPgtype uid)"

text \<open>The conversion \<^verbatim>\<open>int32(x)\<close>.\<close>

definition int32 :: "int \<Rightarrow> int" where
  "int32 x = (x + 2 ^ 31) mod 2 ^ 32 - 2 ^ 31"

section \<open>The domain\<close>

record User =
  us_ID :: uuid
  us_Email :: string
  us_PasswordHash :: string
  us_Name :: string
  us_IsActive :: bool
  us_CreatedAt :: "go_time option"
  us_UpdatedAt :: "go_time option"

record UserFilter =
  uf_Cursor :: string
  uf_Limit :: int
  uf_Direction :: string
  uf_Search :: "string option"
  uf_Email :: "string option"
  uf_IsActive :: "bool option"
  uf_SortBy :: string
  uf_SortOrder :: string

definition DefaultLimit :: int where "DefaultLimit = 20"
definition MaxLimit :: int where "MaxLimit = 100"

definition NormalizeFilter :: "UserFilter \<Rightarrow> UserFilter" where
  "NormalizeFilter f =
     (let f1 = (if uf_Limit f \<le> 0 then f\<lparr>uf_Limit := DefaultLimit\<rparr> else f);
          f2 = (if MaxLimit < uf_Limit f1 then f1\<lparr>uf_Limit := MaxLimit\<rparr> else f1);
          f3 = (if uf_SortBy f2 = '''' then f2\<lparr>uf_SortBy := ''created_at''\<rparr> else f2)
      in if uf_SortOrder f3 = '''' then f3\<lparr>uf_SortOrder := ''desc''\<rparr> else f3)"

section \<open>The table\<close>

record user_row =
  ro_ID :: uuid
  ro_Email :: string
  ro_PasswordHash :: string
  ro_Name :: string
  ro_IsActive :: "bool option"
  ro_CreatedAt :: "go_time option"
  ro_UpdatedAt :: "go_time option"

record pg =
  pg_users :: "user_row list"
  pg_faults :: "go_error option list"
  pg_varchar :: "string \<Rightarrow> go_error option"
  pg_ilike :: "string \<Rightarrow> string \<Rightarrow> bool"

type_synonym 'a query = "pg \<Rightarrow> (go_error + 'a) \<times> pg"

text \<open>The outcome of sending the next statement, and a statement that runs unless it fails.\<close>

definition next_fault :: "pg \<Rightarrow> go_error option \<times> pg" where
  "next_fault d = (case pg_faults d of [] \<Rightarrow> (None, d) | f # fs \<Rightarrow> (f, d\<lparr>pg_faults := fs\<rparr>))"

definition statement :: "'a query \<Rightarrow> 'a query" where
  "statement q d = (case next_fault d of (Some e, d') \<Rightarrow> (Inl e, d') | (None, d') \<Rightarrow> q d')"

definition unique_violation :: go_error where
  "unique_violation = PgError ''ERROR'' ''23505'' ''duplicate key value violates unique constraint''"

definition negative_limit :: go_error where
  "negative_limit = PgError ''ERROR'' ''2201W'' ''LIMIT must not be negative''"

text \<open>The first VARCHAR column whose new value the server rejects.\<close>

fun varchar_check :: "pg \<Rightarrow> string list \<Rightarrow> go_error option" where
  "varchar_check d [] = None"
| "varchar_check d (v # vs) = (case pg_varchar d v of Some e \<Rightarrow> Some e | None \<Rightarrow> varchar_check d vs)"

section \<open>Queries\<close>

definition update_where :: "(user_row \<Rightarrow> bool) \<Rightarrow> (user_row \<Rightarrow> user_row) \<Rightarrow> pg \<Rightarrow> pg" where
  "update_where P f d = d\<lparr>pg_users := map (\<lambda>r. if P r then f r else r) (pg_users d)\<rparr>"

definition ActivateUser :: "go_time \<Rightarrow> uuid option \<Rightarrow> unit query" where
  "ActivateUser now i = statement (\<lambda>d.
     (Inr (), update_where (\<lambda>r. Some (ro_ID r) = i) (\<lambda>r. r\<lparr>ro_IsActive := Some True, ro_UpdatedAt := Some now\<rparr>) d))"

definition CountUsers :: "bool option \<Rightarrow> int query" where
  "CountUsers isActive = statement (\<lambda>d.
     (Inr (int (length (filter (\<lambda>r. isActive = None \<or> ro_IsActive r = isActive) (pg_users d)))), d))"

definition CreateUser :: "go_time \<Rightarrow> uuid \<Rightarrow> string \<Rightarrow> string \<Rightarrow> string \<Rightarrow> user_row query" where
  "CreateUser now new_id email hash name = statement (\<lambda>d.
     (case varchar_check d [email, hash, name] of
        Some e \<Rightarrow> (Inl e, d)
      | None \<Rightarrow>
          if \<exists>r \<in> set (pg_users d). ro_ID r = new_id \<or> ro_Email r = email then (Inl unique_violation, d)
          else (let r = \<lparr>ro_ID = new_id, ro_Email = email, ro_PasswordHash = hash, ro_Name = name,
                         ro_IsActive = Some True, ro_CreatedAt = Some now, ro_UpdatedAt = Some now\<rparr>
                in (Inr r, d\<lparr>pg_users := pg_users d @ [r]\<rparr>))))"

definition DeactivateUser :: "go_time \<Rightarrow> uuid option \<Rightarrow> unit query" where
  "DeactivateUser now i = statement (\<lambda>d.
     (Inr (), update_where (\<lambda>r. Some (ro_ID r) = i) (\<lambda>r. r\<lparr>ro_IsActive := Some False, ro_UpdatedAt := Some now\<rparr>) d))"

definition DeleteUser :: "go_time \<Rightarrow> uuid option \<Rightarrow> unit query" where
  "DeleteUser now i = statement (\<lambda>d.
     (Inr (), update_where (\<lambda>r. Some (ro_ID r) = i) (\<lambda>r. r\<lparr>ro_IsActive := Some False, ro_UpdatedAt := Some now\<rparr>) d))"

definition first_row :: "(user_row \<Rightarrow> bool) \<Rightarrow> user_row query" where
  "first_row P d = (case filter P (pg_users d) of [] \<Rightarrow> (Inl ErrNoRows, d) | r # _ \<Rightarrow> (Inr r, d))"

definition GetUserByEmail :: "string \<Rightarrow> user_row query" where
  "GetUserByEmail email = statement (first_row (\<lambda>r. ro_Email r = email \<and> ro_IsActive r = Some True))"

definition GetUserByID :: "uuid option \<Rightarrow> user_row query" where
  "GetUserByID i = statement (first_row (\<lambda>r. Some (ro_ID r) = i))"

record ListUsersParams =
  lp_Limit :: int
  lp_Cursor :: "uuid option"
  lp_Search :: "string option"
  lp_EmailFilter :: "string option"
  lp_IsActive :: "bool option"

text \<open>The conditions on the columns that both list queries share.\<close>

definition list_match :: "pg \<Rightarrow> ListUsersParams \<Rightarrow> user_row \<Rightarrow> bool" where
  "list_match d p r \<longleftrightarrow>
     (case lp_Search p of None \<Rightarrow> True
      | Some s \<Rightarrow> pg_ilike d (ro_Name r) (''%'' @ s @ ''%'') \<or> pg_ilike d (ro_Email r) (''%'' @ s @ ''%'')) \<and>
     (case lp_EmailFilter p of None \<Rightarrow> True | Some e \<Rightarrow> ro_Email r = e) \<and>
     (lp_IsActive p = None \<or> ro_IsActive r = lp_IsActive p)"

definition ListUsers :: "ListUsersParams \<Rightarrow> user_row list query" where
  "ListUsers p = statement (\<lambda>d.
     if lp_Limit p < 0 then (Inl negative_limit, d)
     else (Inr (take (nat (lp_Limit p))
             (sort_key ro_ID
               (filter (\<lambda>r. (case lp_Cursor p of None \<Rightarrow> True | Some c \<Rightarrow> c < ro_ID r) \<and> list_match d p r) (pg_users d)))), d))"

definition ListUsersPrev :: "ListUsersParams \<Rightarrow> user_row list query" where
  "ListUsersPrev p = statement (\<lambda>d.
     if lp_Limit p < 0 then (Inl negative_limit, d)
     else (Inr (take (nat (lp_Limit p)) (rev
             (sort_key ro_ID
               (filter (\<lambda>r. (case lp_Cursor p of None \<Rightarrow> True | Some c \<Rightarrow> ro_ID r < c) \<and> list_match d p r) (pg_users d))))), d))"

definition UpdatePassword :: "go_time \<Rightarrow> uuid option \<Rightarrow> string \<Rightarrow> unit query" where
  "UpdatePassword now i hash = statement (\<lambda>d.
     (let P = (\<lambda>r. Some (ro_ID r) = i \<and> ro_IsActive r = Some True) in
      case (if \<exists>r \<in> set (pg_users d). P r then pg_varchar d hash else None) of
        Some e \<Rightarrow> (Inl e, d)
      | None \<Rightarrow> (Inr (), update_where P (\<lambda>r. r\<lparr>ro_PasswordHash := hash, ro_UpdatedAt := Some now\<rparr>) d)))"

text \<open>\<^verbatim>\<open>COALESCE(NULLIF($n, ''), column)\<close> keeps the column when the argument is empty.\<close>

definition coalesce_nullif :: "string \<Rightarrow> string \<Rightarrow> string" where
  "coalesce_nullif v old = (if v = '''' then old else v)"

definition UpdateUser :: "go_time \<Rightarrow> uuid option \<Rightarrow> string \<Rightarrow> string \<Rightarrow> user_row query" where
  "UpdateUser now i name email = statement (\<lambda>d.
     (case filter (\<lambda>r. Some (ro_ID r) = i) (pg_users d) of
        [] \<Rightarrow> (Inl ErrNoRows, d)
      | r # _ \<Rightarrow>
          (let r' = r\<lparr>ro_Name := coalesce_nullif name (ro_Name r), ro_Email := coalesce_nullif email (ro_Email r),
                      ro_UpdatedAt := Some now\<rparr>
           in case varchar_check d [ro_Name r', ro_Email r'] of
                Some e \<Rightarrow> (Inl e, d)
              | None \<Rightarrow>
                  if \<exists>q \<in> set (pg_users d). ro_ID q \<noteq> ro_ID r \<and> ro_Email q = ro_Email r' then (Inl unique_violation, d)
                  else (Inr r', update_where (\<lambda>q. Some (ro_ID q) = i) (\<lambda>_. r') d))))"

definition UserExistsByEmail :: "string \<Rightarrow> bool query" where
  "UserExistsByEmail email = statement (\<lambda>d.
     (Inr (\<exists>r \<in> set (pg_users d). ro_Email r = email \<and> ro_IsActive r = Some True), d))"

section \<open>Transactions\<close>

text \<open>
  \<^verbatim>\<open>WithTx\<close>: beginning, committing and rolling back are statements too. The effect of the function on the table is
  kept only when the commit succeeds. The functions that the service passes do not panic.
\<close>

definition WithTx :: "'a query \<Rightarrow> 'a query" where
  "WithTx fn d =
     (case next_fault d of
        (Some e, d1) \<Rightarrow> (Inl (errorf_w ''failed to begin transaction'' e), d1)
      | (None, d1) \<Rightarrow>
          (case fn d1 of
             (Inl err, d2) \<Rightarrow>
               (case next_fault (d2\<lparr>pg_users := pg_users d1\<rparr>) of
                  (Some rbErr, d3) \<Rightarrow>
                    (Inl (ErrWrap (''tx error: '' @ error_text err @ '', rollback error: '' @ error_text rbErr) err), d3)
                | (None, d3) \<Rightarrow> (Inl err, d3))
           | (Inr a, d2) \<Rightarrow>
               (case next_fault d2 of
                  (Some e, d3) \<Rightarrow> (Inl (errorf_w ''failed to commit transaction'' e), d3\<lparr>pg_users := pg_users d1\<rparr>)
                | (None, d3) \<Rightarrow> (Inr a, d3))))"

section \<open>The repository\<close>

definition sqlcUserToDomain :: "user_row \<Rightarrow> User" where
  "sqlcUserToDomain u =
     \<lparr>us_ID = PgtypeToUUID (Some (ro_ID u)), us_Email = ro_Email u, us_PasswordHash = ro_PasswordHash u, us_Name = ro_Name u,
      us_IsActive = (case ro_IsActive u of None \<Rightarrow> False | Some b \<Rightarrow> b),
      us_CreatedAt = ro_CreatedAt u, us_UpdatedAt = ro_UpdatedAt u\<rparr>"

definition user_not_found :: "string \<Rightarrow> go_error" where
  "user_not_found i = NotFoundf (''user '' @ i @ '' not found'')"

definition email_taken :: "string \<Rightarrow> go_error" where
  "email_taken email = Conflictf (''user with email '' @ email @ '' already exists'')"

definition repo_GetByID :: "uuid_api \<Rightarrow> string \<Rightarrow> User query" where
  "repo_GetByID U i d =
     (case uu_Parse U i of
        None \<Rightarrow> (Inl (user_not_found i), d)
      | Some uid \<Rightarrow>
          (case GetUserByID (UUIDToPgtype uid) d of
             (Inl err, d') \<Rightarrow>
               (Inl (if errors_is err ErrNoRows then user_not_found i else errorf_w ''failed to get user'' err), d')
           | (Inr u, d') \<Rightarrow> (Inr (sqlcUserToDomain u), d')))"

definition repo_GetByEmail :: "string \<Rightarrow> User query" where
  "repo_GetByEmail email d =
     (case GetUserByEmail email d of
        (Inl err, d') \<Rightarrow>
          (Inl (if errors_is err ErrNoRows then NotFoundf (''user with email '' @ email @ '' not found'')
                else errorf_w ''failed to get user'' err), d')
      | (Inr u, d') \<Rightarrow> (Inr (sqlcUserToDomain u), d'))"

definition non_empty :: "string option \<Rightarrow> string option" where
  "non_empty v = (case v of Some s \<Rightarrow> if s \<noteq> '''' then Some s else None | None \<Rightarrow> None)"

definition repo_List :: "uuid_api \<Rightarrow> UserFilter \<Rightarrow> User list query" where
  "repo_List U filter0 d =
     (let f = NormalizeFilter filter0;
          limit = uf_Limit f + 1;
          isBackward = (uf_Direction f = ''prev'');
          params = \<lparr>lp_Limit = int32 limit, lp_Cursor = NullableUUID U (uf_Cursor f), lp_Search = non_empty (uf_Search f),
                    lp_EmailFilter = non_empty (uf_Email f), lp_IsActive = uf_IsActive f\<rparr>
      in case (if isBackward then ListUsersPrev params d else ListUsers params d) of
           (Inl err, d') \<Rightarrow> (Inl (errorf_w ''failed to list users'' err), d')
         | (Inr us, d') \<Rightarrow> (Inr (map sqlcUserToDomain (if isBackward then rev us else us)), d'))"

definition repo_Create :: "go_time \<Rightarrow> uuid \<Rightarrow> string \<Rightarrow> string \<Rightarrow> string \<Rightarrow> User query" where
  "repo_Create now new_id email hash name d =
     (case CreateUser now new_id email hash name d of
        (Inl err, d') \<Rightarrow>
          (Inl (if IsDuplicateKeyError (Some err) then email_taken email else errorf_w ''failed to create user'' err), d')
      | (Inr u, d') \<Rightarrow> (Inr (sqlcUserToDomain u), d'))"

definition repo_Update :: "uuid_api \<Rightarrow> go_time \<Rightarrow> string \<Rightarrow> string \<Rightarrow> string \<Rightarrow> User query" where
  "repo_Update U now i name email d =
     (case uu_Parse U i of
        None \<Rightarrow> (Inl (user_not_found i), d)
      | Some uid \<Rightarrow>
          (case UpdateUser now (UUIDToPgtype uid) name email d of
             (Inl err, d') \<Rightarrow>
               (Inl (if errors_is err ErrNoRows then user_not_found i
                     else if IsDuplicateKeyError (Some err) then email_taken email
                     else errorf_w ''failed to update user'' err), d')
           | (Inr u, d') \<Rightarrow> (Inr (sqlcUserToDomain u), d')))"

text \<open>The four methods that run one UPDATE by identifier.\<close>

definition by_id :: "uuid_api \<Rightarrow> string \<Rightarrow> string \<Rightarrow> (uuid option \<Rightarrow> unit query) \<Rightarrow> unit query" where
  "by_id U what i q d =
     (case uu_Parse U i of
        None \<Rightarrow> (Inl (user_not_found i), d)
      | Some uid \<Rightarrow>
          (case q (UUIDToPgtype uid) d of
             (Inl err, d') \<Rightarrow> (Inl (errorf_w what err), d')
           | (Inr _, d') \<Rightarrow> (Inr (), d')))"

definition repo_UpdatePassword :: "uuid_api \<Rightarrow> go_time \<Rightarrow> string \<Rightarrow> string \<Rightarrow> unit query" where
  "repo_UpdatePassword U now i hash = by_id U ''failed to update password'' i (\<lambda>u. UpdatePassword now u hash)"

definition repo_Delete :: "uuid_api \<Rightarrow> go_time \<Rightarrow> string \<Rightarrow> unit query" where
  "repo_Delete U now i = by_id U ''failed to delete user'' i (DeleteUser now)"

definition repo_Activate :: "uuid_api \<Rightarrow> go_time \<Rightarrow> string \<Rightarrow> unit query" where
  "repo_Activate U now i = by_id U ''failed to activate user'' i (ActivateUser now)"

definition repo_Deactivate :: "uuid_api \<Rightarrow> go_time \<Rightarrow> string \<Rightarrow> unit query" where
  "repo_Deactivate U now i = by_id U ''failed to deactivate user'' i (DeactivateUser now)"

definition repo_ExistsByEmail :: "string \<Rightarrow> bool query" where
  "repo_ExistsByEmail email d =
     (case UserExistsByEmail email d of
        (Inl err, d') \<Rightarrow> (Inl (errorf_w ''failed to check email existence'' err), d')
      | (Inr b, d') \<Rightarrow> (Inr b, d'))"

definition repo_Count :: "bool option \<Rightarrow> int query" where
  "repo_Count isActive d =
     (case CountUsers isActive d of
        (Inl err, d') \<Rightarrow> (Inl (errorf_w ''failed to count users'' err), d')
      | (Inr n, d') \<Rightarrow> (Inr n, d'))"

section \<open>Operations as values\<close>

datatype repo_op =
    OpGetByID string
  | OpGetByEmail string
  | OpList UserFilter
  | OpCreate uuid string string string
  | OpUpdate string string string
  | OpUpdatePassword string string
  | OpDelete string
  | OpActivate string
  | OpDeactivate string
  | OpExistsByEmail string
  | OpCount "bool option"

datatype repo_res = RUser User | RUsers "User list" | RUnit | RBool bool | RInt int

definition as_res :: "('a \<Rightarrow> repo_res) \<Rightarrow> 'a query \<Rightarrow> repo_res query" where
  "as_res f q d = (case q d of (r, d') \<Rightarrow> (map_sum id f r, d'))"

primrec repo_step :: "uuid_api \<Rightarrow> go_time \<Rightarrow> repo_op \<Rightarrow> repo_res query" where
  "repo_step U now (OpGetByID i) = as_res RUser (repo_GetByID U i)"
| "repo_step U now (OpGetByEmail e) = as_res RUser (repo_GetByEmail e)"
| "repo_step U now (OpList f) = as_res RUsers (repo_List U f)"
| "repo_step U now (OpCreate i e h n) = as_res RUser (repo_Create now i e h n)"
| "repo_step U now (OpUpdate i n e) = as_res RUser (repo_Update U now i n e)"
| "repo_step U now (OpUpdatePassword i h) = as_res (\<lambda>_. RUnit) (repo_UpdatePassword U now i h)"
| "repo_step U now (OpDelete i) = as_res (\<lambda>_. RUnit) (repo_Delete U now i)"
| "repo_step U now (OpActivate i) = as_res (\<lambda>_. RUnit) (repo_Activate U now i)"
| "repo_step U now (OpDeactivate i) = as_res (\<lambda>_. RUnit) (repo_Deactivate U now i)"
| "repo_step U now (OpExistsByEmail e) = as_res RBool (repo_ExistsByEmail e)"
| "repo_step U now (OpCount a) = as_res RInt (repo_Count a)"

fun repo_run :: "uuid_api \<Rightarrow> (go_time \<times> repo_op) list \<Rightarrow> pg \<Rightarrow> (go_error + repo_res) list \<times> pg" where
  "repo_run U [] d = ([], d)"
| "repo_run U ((now, op) # ops) d =
     (case repo_step U now op d of (r, d1) \<Rightarrow> case repo_run U ops d1 of (rs, d2) \<Rightarrow> (r # rs, d2))"

section \<open>The abstract directory\<close>

text \<open>What the constraints of the table and the queries guarantee.\<close>

definition table_ok :: "user_row list \<Rightarrow> bool" where
  "table_ok rs \<longleftrightarrow> distinct (map ro_ID rs) \<and> distinct (map ro_Email rs) \<and> list_all (\<lambda>r. ro_IsActive r \<noteq> None) rs"

text \<open>The directory of users that the repository promises: a partial map from identifiers.\<close>

type_synonym directory = "uuid \<Rightarrow> User option"

definition dir :: "user_row list \<Rightarrow> directory" where
  "dir rs i = map_option sqlcUserToDomain (map_of (map (\<lambda>r. (ro_ID r, r)) rs) i)"

definition change :: "uuid_api \<Rightarrow> string \<Rightarrow> (User \<Rightarrow> User) \<Rightarrow> directory \<Rightarrow> directory" where
  "change U s f D = (case uu_Parse U s of None \<Rightarrow> D | Some i \<Rightarrow> D(i := map_option f (D i)))"

definition new_user :: "go_time \<Rightarrow> uuid \<Rightarrow> string \<Rightarrow> string \<Rightarrow> string \<Rightarrow> User" where
  "new_user now i e h n = \<lparr>us_ID = i, us_Email = e, us_PasswordHash = h, us_Name = n, us_IsActive = True,
     us_CreatedAt = Some now, us_UpdatedAt = Some now\<rparr>"

definition renamed :: "go_time \<Rightarrow> string \<Rightarrow> string \<Rightarrow> User \<Rightarrow> User" where
  "renamed now n e u = u\<lparr>us_Name := coalesce_nullif n (us_Name u), us_Email := coalesce_nullif e (us_Email u),
     us_UpdatedAt := Some now\<rparr>"

primrec dir_effect :: "uuid_api \<Rightarrow> go_time \<Rightarrow> repo_op \<Rightarrow> directory \<Rightarrow> directory" where
  "dir_effect U now (OpGetByID i) D = D"
| "dir_effect U now (OpGetByEmail e) D = D"
| "dir_effect U now (OpList f) D = D"
| "dir_effect U now (OpCreate i e h n) D = D(i \<mapsto> new_user now i e h n)"
| "dir_effect U now (OpUpdate i n e) D = change U i (renamed now n e) D"
| "dir_effect U now (OpUpdatePassword i h) D =
     change U i (\<lambda>u. if us_IsActive u then u\<lparr>us_PasswordHash := h, us_UpdatedAt := Some now\<rparr> else u) D"
| "dir_effect U now (OpDelete i) D = change U i (\<lambda>u. u\<lparr>us_IsActive := False, us_UpdatedAt := Some now\<rparr>) D"
| "dir_effect U now (OpActivate i) D = change U i (\<lambda>u. u\<lparr>us_IsActive := True, us_UpdatedAt := Some now\<rparr>) D"
| "dir_effect U now (OpDeactivate i) D = change U i (\<lambda>u. u\<lparr>us_IsActive := False, us_UpdatedAt := Some now\<rparr>) D"
| "dir_effect U now (OpExistsByEmail e) D = D"
| "dir_effect U now (OpCount a) D = D"

definition holds_email :: "directory \<Rightarrow> string \<Rightarrow> uuid \<Rightarrow> User \<Rightarrow> bool" where
  "holds_email D e i u \<longleftrightarrow> D i = Some u \<and> us_Email u = e"

primrec dir_answer :: "uuid_api \<Rightarrow> go_time \<Rightarrow> repo_op \<Rightarrow> directory \<Rightarrow> go_error + repo_res \<Rightarrow> bool" where
  "dir_answer U now (OpGetByID s) D r \<longleftrightarrow>
     r = (case Option.bind (uu_Parse U s) D of None \<Rightarrow> Inl (user_not_found s) | Some u \<Rightarrow> Inr (RUser u))"
| "dir_answer U now (OpGetByEmail e) D r \<longleftrightarrow>
     (\<exists>i u. holds_email D e i u \<and> us_IsActive u \<and> r = Inr (RUser u)) \<or>
     (\<forall>i u. holds_email D e i u \<longrightarrow> \<not> us_IsActive u) \<and> r = Inl (NotFoundf (''user with email '' @ e @ '' not found''))"
| "dir_answer U now (OpList f) D r \<longleftrightarrow> (\<exists>us. r = Inr (RUsers us) \<and> (\<forall>u \<in> set us. D (us_ID u) = Some u))"
| "dir_answer U now (OpCreate i e h n) D r \<longleftrightarrow>
     r = (if D i \<noteq> None \<or> (\<exists>j u. holds_email D e j u) then Inl (email_taken e) else Inr (RUser (new_user now i e h n)))"
| "dir_answer U now (OpUpdate s n e) D r \<longleftrightarrow>
     (case Option.bind (uu_Parse U s) D of
        None \<Rightarrow> r = Inl (user_not_found s)
      | Some u \<Rightarrow> r = (if \<exists>j v. holds_email D (us_Email (renamed now n e u)) j v \<and> j \<noteq> us_ID u
                        then Inl (email_taken e) else Inr (RUser (renamed now n e u))))"
| "dir_answer U now (OpUpdatePassword s h) D r \<longleftrightarrow> r = (if uu_Parse U s = None then Inl (user_not_found s) else Inr RUnit)"
| "dir_answer U now (OpDelete s) D r \<longleftrightarrow> r = (if uu_Parse U s = None then Inl (user_not_found s) else Inr RUnit)"
| "dir_answer U now (OpActivate s) D r \<longleftrightarrow> r = (if uu_Parse U s = None then Inl (user_not_found s) else Inr RUnit)"
| "dir_answer U now (OpDeactivate s) D r \<longleftrightarrow> r = (if uu_Parse U s = None then Inl (user_not_found s) else Inr RUnit)"
| "dir_answer U now (OpExistsByEmail e) D r \<longleftrightarrow> r = Inr (RBool (\<exists>i u. holds_email D e i u \<and> us_IsActive u))"
| "dir_answer U now (OpCount a) D r \<longleftrightarrow>
     r = Inr (RInt (int (card {i. \<exists>u. D i = Some u \<and> (a = None \<or> a = Some (us_IsActive u))})))"

section \<open>Statements and faults\<close>

named_theorems repo_simps \<open>repository methods and queries\<close>

lemma next_fault_frame [simp]:
  "pg_users (snd (next_fault d)) = pg_users d" "pg_varchar (snd (next_fault d)) = pg_varchar d"
  "pg_ilike (snd (next_fault d)) = pg_ilike d"
  by (simp_all add: next_fault_def split: list.split)

lemma statement_no_faults [simp]: "pg_faults d = [] \<Longrightarrow> statement q d = q d"
  by (simp add: statement_def next_fault_def)

text \<open>A statement either fails and leaves the table alone or runs on the same table.\<close>

lemma statement_cases:
  obtains e d' where "statement q d = (Inl e, d')" "pg_users d' = pg_users d"
  | d' where "statement q d = q d'" "pg_users d' = pg_users d" "pg_varchar d' = pg_varchar d"
proof (cases "next_fault d")
  case (Pair f d')
  then have "pg_users d' = pg_users d" "pg_varchar d' = pg_varchar d"
    using next_fault_frame [of d] by simp_all
  with Pair that show thesis by (cases f) (auto simp: statement_def)
qed

lemma update_where_users [simp]: "pg_users (update_where P f d) = map (\<lambda>r. if P r then f r else r) (pg_users d)"
  by (simp add: update_where_def)

lemma update_where_faults [simp]: "pg_faults (update_where P f d) = pg_faults d"
  by (simp add: update_where_def)

section \<open>The directory of a table\<close>

lemma filter_hd: "filter P xs = y # ys \<Longrightarrow> y \<in> set xs \<and> P y"
  by (auto dest!: filter_eq_ConsD)

lemma row_None: "map_of (map (\<lambda>r. (ro_ID r, r)) rs) i = None \<longleftrightarrow> (\<forall>r \<in> set rs. ro_ID r \<noteq> i)"
  by (induction rs) auto

lemma row_Some: "map_of (map (\<lambda>r. (ro_ID r, r)) rs) i = Some r \<Longrightarrow> r \<in> set rs \<and> ro_ID r = i"
  by (induction rs) (auto split: if_splits)

lemma dir_Some:
  assumes "table_ok rs"
  shows "dir rs i = Some u \<longleftrightarrow> (\<exists>r \<in> set rs. ro_ID r = i \<and> u = sqlcUserToDomain r)"
proof -
  have "inj_on ro_ID (set rs)" using assms by (simp add: table_ok_def distinct_map)
  moreover have "distinct (map fst (map (\<lambda>r. (ro_ID r, r)) rs))" using assms by (simp add: table_ok_def comp_def)
  ultimately show ?thesis by (auto simp: dir_def)
qed

lemma dir_None: "dir rs i = None \<longleftrightarrow> (\<forall>r \<in> set rs. ro_ID r \<noteq> i)"
  by (simp add: dir_def row_None)

lemma dir_append: "\<forall>r \<in> set rs. ro_ID r \<noteq> ro_ID q \<Longrightarrow> dir (rs @ [q]) = (dir rs)(ro_ID q \<mapsto> sqlcUserToDomain q)"
  using row_None [of rs "ro_ID q"] by (simp add: dir_def fun_eq_iff map_add_def split: option.split)

lemma filter_id:
  "table_ok rs \<Longrightarrow> filter (\<lambda>r. ro_ID r = i) rs = (case map_of (map (\<lambda>r. (ro_ID r, r)) rs) i of None \<Rightarrow> [] | Some r \<Rightarrow> [r])"
  unfolding table_ok_def by (induction rs) (auto simp: filter_empty_conv image_iff dest!: row_Some split: option.split)

lemma dir_map:
  assumes "\<And>r. r \<in> set rs \<Longrightarrow> ro_ID r = i \<Longrightarrow> ro_ID (f r) = i \<and> sqlcUserToDomain (f r) = g (sqlcUserToDomain r)"
  shows "dir (map (\<lambda>r. if ro_ID r = i then f r else r) rs) = (dir rs)(i := map_option g (dir rs i))"
  using assms by (induction rs) (auto simp: dir_def fun_eq_iff)

lemma table_ok_map:
  assumes "table_ok rs"
    and "\<And>r. r \<in> set rs \<Longrightarrow> ro_ID r = i \<Longrightarrow> ro_ID (f r) = i \<and> ro_Email (f r) = ro_Email r \<and> ro_IsActive (f r) \<noteq> None"
  shows "table_ok (map (\<lambda>r. if ro_ID r = i then f r else r) rs)"
proof -
  have "map ro_ID (map (\<lambda>r. if ro_ID r = i then f r else r) rs) = map ro_ID rs"
    "map ro_Email (map (\<lambda>r. if ro_ID r = i then f r else r) rs) = map ro_Email rs"
    using assms(2) by auto
  then show ?thesis using assms unfolding table_ok_def by (simp only: list_all_iff) auto
qed

lemma table_ok_append:
  "table_ok (rs @ [q]) \<longleftrightarrow> table_ok rs \<and> (\<forall>r \<in> set rs. ro_ID r \<noteq> ro_ID q \<and> ro_Email r \<noteq> ro_Email q) \<and> ro_IsActive q \<noteq> None"
  by (auto simp: table_ok_def image_iff)

lemma holds_email_iff:
  "table_ok rs \<Longrightarrow> holds_email (dir rs) e i u \<longleftrightarrow> (\<exists>r \<in> set rs. ro_ID r = i \<and> ro_Email r = e \<and> u = sqlcUserToDomain r)"
  by (auto simp: holds_email_def dir_Some sqlcUserToDomain_def)

lemma sqlc_fields [simp]:
  "us_ID (sqlcUserToDomain r) = ro_ID r" "us_Email (sqlcUserToDomain r) = ro_Email r"
  "us_Name (sqlcUserToDomain r) = ro_Name r" "us_PasswordHash (sqlcUserToDomain r) = ro_PasswordHash r"
  by (simp_all add: sqlcUserToDomain_def PgtypeToUUID_def)

lemma sqlc_active: "table_ok rs \<Longrightarrow> r \<in> set rs \<Longrightarrow> ro_IsActive r = Some (us_IsActive (sqlcUserToDomain r))"
  by (auto simp: table_ok_def list_all_iff sqlcUserToDomain_def)

lemma table_ok_unique: "table_ok rs \<Longrightarrow> r \<in> set rs \<Longrightarrow> q \<in> set rs \<Longrightarrow> ro_ID r = ro_ID q \<Longrightarrow> r = q"
  by (auto simp: table_ok_def distinct_map dest: inj_onD)

section \<open>Every repository method keeps the table well formed\<close>

definition keeps :: "'a query \<Rightarrow> bool" where
  "keeps q \<longleftrightarrow> (\<forall>d. table_ok (pg_users d) \<longrightarrow> table_ok (pg_users (snd (q d))))"

lemma keeps_statement: "keeps q \<Longrightarrow> keeps (statement q)"
  unfolding keeps_def
proof (intro allI impI)
  fix d :: pg assume q: "\<forall>d. table_ok (pg_users d) \<longrightarrow> table_ok (pg_users (snd (q d)))" and d: "table_ok (pg_users d)"
  show "table_ok (pg_users (snd (statement q d)))"
    by (rule statement_cases [of q d]) (use q d in auto)
qed

lemma keeps_read: "(\<And>d. pg_users (snd (q d)) = pg_users d) \<Longrightarrow> keeps q"
  by (simp add: keeps_def)

lemma keeps_update_where:
  assumes "\<And>r. ro_ID (f r) = ro_ID r \<and> ro_Email (f r) = ro_Email r \<and> (ro_IsActive r \<noteq> None \<longrightarrow> ro_IsActive (f r) \<noteq> None)"
    and "table_ok (pg_users d)"
  shows "table_ok (pg_users (update_where P f d))"
proof -
  have "map ro_ID (pg_users (update_where P f d)) = map ro_ID (pg_users d)"
    "map ro_Email (pg_users (update_where P f d)) = map ro_Email (pg_users d)"
    using assms(1) by auto
  then show ?thesis using assms unfolding table_ok_def by (simp only: list_all_iff) auto
qed

lemma keeps_queries:
  "keeps (ActivateUser now i)" "keeps (DeactivateUser now i)" "keeps (DeleteUser now i)" "keeps (UpdatePassword now i h)"
  "keeps (CountUsers a)" "keeps (GetUserByEmail e)" "keeps (GetUserByID i)" "keeps (UserExistsByEmail e)"
  "keeps (ListUsers p)" "keeps (ListUsersPrev p)"
  unfolding ActivateUser_def DeactivateUser_def DeleteUser_def UpdatePassword_def CountUsers_def GetUserByEmail_def
    GetUserByID_def UserExistsByEmail_def ListUsers_def ListUsersPrev_def
  by (rule keeps_statement;
      auto simp: keeps_def Let_def first_row_def simp del: update_where_users intro!: keeps_update_where split: option.split list.split)+

lemma keeps_CreateUser: "keeps (CreateUser now i e h n)"
  unfolding CreateUser_def
  by (rule keeps_statement) (auto simp: keeps_def Let_def table_ok_append split: option.split)

lemma keeps_UpdateUser: "keeps (UpdateUser now i n e)"
  unfolding UpdateUser_def
proof (rule keeps_statement, unfold keeps_def, intro allI impI)
  fix d :: pg assume ok: "table_ok (pg_users d)"
  have "table_ok (map (\<lambda>q. if Some (ro_ID q) = i then r\<lparr>ro_Name := nm, ro_Email := em, ro_UpdatedAt := Some now\<rparr> else q) (pg_users d))"
    if r: "filter (\<lambda>r. Some (ro_ID r) = i) (pg_users d) = r # rs"
      and new: "\<not> (\<exists>q \<in> set (pg_users d). ro_ID q \<noteq> ro_ID r \<and> ro_Email q = em)" for r rs nm em
  proof -
    have mem: "r \<in> set (pg_users d)" "Some (ro_ID r) = i"
      using arg_cong [OF r, of set] by auto
    let ?f = "\<lambda>q. if Some (ro_ID q) = i then r\<lparr>ro_Name := nm, ro_Email := em, ro_UpdatedAt := Some now\<rparr> else q"
    have "map ro_ID (map ?f (pg_users d)) = map ro_ID (pg_users d)" using mem by auto
    moreover have "inj_on (ro_Email \<circ> ?f) (set (pg_users d))"
      using ok new mem by (auto simp: inj_on_def table_ok_def distinct_map)
    moreover have "list_all (\<lambda>r. ro_IsActive r \<noteq> None) (map ?f (pg_users d))"
      using ok mem by (auto simp: table_ok_def list_all_iff)
    ultimately show ?thesis
      using ok unfolding table_ok_def by (simp only: map_map distinct_map [of "ro_Email \<circ> ?f"]) (simp add: distinct_map)
  qed
  then show "table_ok (pg_users (snd (case filter (\<lambda>r. Some (ro_ID r) = i) (pg_users d) of
        [] \<Rightarrow> (Inl ErrNoRows, d)
      | r # _ \<Rightarrow>
          (let r' = r\<lparr>ro_Name := coalesce_nullif n (ro_Name r), ro_Email := coalesce_nullif e (ro_Email r),
                      ro_UpdatedAt := Some now\<rparr>
           in case varchar_check d [ro_Name r', ro_Email r'] of
                Some e \<Rightarrow> (Inl e, d)
              | None \<Rightarrow>
                  if \<exists>q \<in> set (pg_users d). ro_ID q \<noteq> ro_ID r \<and> ro_Email q = ro_Email r' then (Inl unique_violation, d)
                  else (Inr r', update_where (\<lambda>q. Some (ro_ID q) = i) (\<lambda>_. r') d)))))"
    using ok by (auto simp: Let_def split: list.split option.split)
qed

text \<open>A transaction keeps what its function keeps; when it reports an error the table is what it was.\<close>

lemma keeps_WithTx: "keeps fn \<Longrightarrow> keeps (WithTx fn)"
  unfolding keeps_def WithTx_def
  by (auto split: prod.split sum.split option.split dest!: arg_cong [where f = snd] simp: prod_eq_iff)

lemma WithTx_error:
  assumes "WithTx fn d = (Inl err, d')"
  shows "pg_users d' = pg_users d"
  using assms next_fault_frame(1) by (auto simp: WithTx_def split: prod.splits sum.splits option.splits dest!: arg_cong [where f = snd])

lemma keeps_repo:
  "keeps (repo_GetByID U s)" "keeps (repo_GetByEmail e)" "keeps (repo_List U f)" "keeps (repo_Create now i e h n)"
  "keeps (repo_Update U now s n e)" "keeps (repo_UpdatePassword U now s h)" "keeps (repo_Delete U now s)"
  "keeps (repo_Activate U now s)" "keeps (repo_Deactivate U now s)" "keeps (repo_ExistsByEmail e)" "keeps (repo_Count a)"
  using keeps_queries keeps_CreateUser keeps_UpdateUser
  by (simp_all add: keeps_def repo_GetByID_def repo_GetByEmail_def repo_List_def repo_Create_def repo_Update_def
      repo_UpdatePassword_def repo_Delete_def repo_Activate_def repo_Deactivate_def repo_ExistsByEmail_def repo_Count_def
      by_id_def Let_def case_prod_unfold split: option.split sum.split)

lemma keeps_step: "keeps (repo_step U now op)"
  using keeps_repo by (cases op) (simp_all add: keeps_def as_res_def case_prod_unfold)

section \<open>The repository implements the directory\<close>

text \<open>A database that executes the coming statements and rejects no column value.\<close>

definition quiet :: "pg \<Rightarrow> bool" where
  "quiet d \<longleftrightarrow> pg_faults d = [] \<and> (\<forall>s. pg_varchar d s = None)"

definition refines :: "uuid_api \<Rightarrow> go_time \<Rightarrow> repo_op \<Rightarrow> pg \<Rightarrow> bool" where
  "refines U now op d \<longleftrightarrow>
     (case repo_step U now op d of
        (r, d') \<Rightarrow>
          dir_answer U now op (dir (pg_users d)) r \<and> quiet d' \<and>
          dir (pg_users d') = (case r of Inl _ \<Rightarrow> dir (pg_users d) | Inr _ \<Rightarrow> dir_effect U now op (dir (pg_users d))))"

lemma quiet_statement [simp]: "quiet d \<Longrightarrow> statement q d = q d"
  by (simp add: quiet_def)

lemma quiet_varchar [simp]: "quiet d \<Longrightarrow> varchar_check d vs = None" "quiet d \<Longrightarrow> pg_varchar d s = None"
  by (induction vs) (simp_all add: quiet_def)

lemma quiet_update [simp]: "quiet d \<Longrightarrow> quiet (update_where P f d)" "quiet d \<Longrightarrow> quiet (d\<lparr>pg_users := rs\<rparr>)"
  by (simp_all add: quiet_def update_where_def)

lemma errors_is_NoRows [simp]: "errors_is ErrNoRows ErrNoRows" "\<not> errors_is unique_violation ErrNoRows"
  "IsDuplicateKeyError (Some unique_violation)"
  by (simp_all add: ErrNoRows_def unique_violation_def)

lemma refines_reads:
  assumes "quiet d" and "table_ok (pg_users d)"
  shows "refines U now (OpGetByID s) d" "refines U now (OpGetByEmail e) d" "refines U now (OpExistsByEmail e) d"
proof -
  show "refines U now (OpGetByID s) d"
    using assms row_Some
    by (auto simp: refines_def as_res_def repo_GetByID_def GetUserByID_def first_row_def UUIDToPgtype_def filter_id dir_def
        case_prod_unfold split: option.split)
  show "refines U now (OpExistsByEmail e) d"
    using assms by (auto simp: refines_def as_res_def repo_ExistsByEmail_def UserExistsByEmail_def holds_email_iff sqlc_active)
  show "refines U now (OpGetByEmail e) d"
  proof (cases "filter (\<lambda>r. ro_Email r = e \<and> ro_IsActive r = Some True) (pg_users d)")
    case Nil
    then show ?thesis
      using assms by (auto simp: refines_def as_res_def repo_GetByEmail_def GetUserByEmail_def first_row_def holds_email_iff
          filter_empty_conv sqlc_active)
  next
    case (Cons r rs)
    then have "r \<in> set (pg_users d)" "ro_Email r = e" "ro_IsActive r = Some True"
      using filter_hd [OF Cons] by auto
    with Cons show ?thesis
      using assms sqlc_active [OF assms(2), of r]
      by (auto simp: refines_def as_res_def repo_GetByEmail_def GetUserByEmail_def first_row_def holds_email_iff)
  qed
qed

lemma refines_Count:
  assumes "quiet d" and "table_ok (pg_users d)"
  shows "refines U now (OpCount a) d"
proof -
  let ?rs = "filter (\<lambda>r. a = None \<or> ro_IsActive r = a) (pg_users d)"
  have ids: "{i. \<exists>u. dir (pg_users d) i = Some u \<and> (a = None \<or> a = Some (us_IsActive u))} = set (map ro_ID ?rs)"
    using assms(2) by (auto simp: dir_Some sqlc_active)
  have "distinct (map ro_ID ?rs)"
    using assms(2) unfolding table_ok_def by (intro distinct_map_filter) simp
  then have "card {i. \<exists>u. dir (pg_users d) i = Some u \<and> (a = None \<or> a = Some (us_IsActive u))} = length ?rs"
    unfolding ids distinct_card by (simp only: distinct_card length_map)
  then show ?thesis
    using assms(1) by (simp add: refines_def as_res_def repo_Count_def CountUsers_def)
qed

lemma refines_List:
  assumes "quiet d" and "table_ok (pg_users d)"
  shows "refines U now (OpList f) d"
proof -
  have lim: "0 \<le> int32 (uf_Limit (NormalizeFilter f) + 1)"
    by (auto simp: NormalizeFilter_def Let_def int32_def DefaultLimit_def MaxLimit_def)
  have "\<exists>us. fst (repo_List U f d) = Inr us \<and> set us \<subseteq> sqlcUserToDomain ` set (pg_users d)" "snd (repo_List U f d) = d"
    using assms(1) lim
    by (auto simp: repo_List_def Let_def ListUsers_def ListUsersPrev_def dest!: in_set_takeD)
  then obtain us where us: "repo_List U f d = (Inr us, d)" "set us \<subseteq> sqlcUserToDomain ` set (pg_users d)"
    by (metis prod.collapse)
  then have "\<forall>u \<in> set us. dir (pg_users d) (us_ID u) = Some u"
    using assms(2) by (force simp: dir_Some)
  with us assms(1) show ?thesis by (simp add: refines_def as_res_def)
qed

lemma refines_Create:
  assumes "quiet d" and "table_ok (pg_users d)"
  shows "refines U now (OpCreate i e h n) d"
proof -
  have taken: "(\<exists>r \<in> set (pg_users d). ro_ID r = i \<or> ro_Email r = e) \<longleftrightarrow>
      dir (pg_users d) i \<noteq> None \<or> (\<exists>j u. holds_email (dir (pg_users d)) e j u)"
    using assms(2) by (auto simp: dir_None holds_email_iff simp del: not_None_eq)
  have new: "sqlcUserToDomain \<lparr>ro_ID = i, ro_Email = e, ro_PasswordHash = h, ro_Name = n, ro_IsActive = Some True,
      ro_CreatedAt = Some now, ro_UpdatedAt = Some now\<rparr> = new_user now i e h n"
    by (simp add: sqlcUserToDomain_def PgtypeToUUID_def new_user_def)
  show ?thesis
  proof (cases "\<exists>r \<in> set (pg_users d). ro_ID r = i \<or> ro_Email r = e")
    case True
    with taken assms(1) show ?thesis
      by (simp add: refines_def as_res_def repo_Create_def CreateUser_def del: not_None_eq)
  next
    case False
    let ?r = "\<lparr>ro_ID = i, ro_Email = e, ro_PasswordHash = h, ro_Name = n, ro_IsActive = Some True,
      ro_CreatedAt = Some now, ro_UpdatedAt = Some now\<rparr>"
    have "repo_step U now (OpCreate i e h n) d = (Inr (RUser (new_user now i e h n)), d\<lparr>pg_users := pg_users d @ [?r]\<rparr>)"
      using False assms(1) new by (simp add: as_res_def repo_Create_def CreateUser_def Let_def)
    moreover have "dir (pg_users d @ [?r]) = (dir (pg_users d))(i \<mapsto> new_user now i e h n)"
      using False new by (subst dir_append) auto
    ultimately show ?thesis using False taken assms(1) by (simp add: refines_def del: not_None_eq)
  qed
qed

text \<open>The updates by identifier change one entry of the directory.\<close>

lemma refines_by_id:
  assumes "quiet d" and "repo_step U now op = as_res (\<lambda>_. RUnit) (by_id U what s q)"
    and "\<And>r. dir_answer U now op (dir (pg_users d)) r \<longleftrightarrow> r = (if uu_Parse U s = None then Inl (user_not_found s) else Inr RUnit)"
    and "\<And>i. q (Some i) d = (Inr (), update_where (\<lambda>r. ro_ID r = i \<and> P r) f d)"
    and "\<And>D. dir_effect U now op D = change U s g D"
    and "\<And>r. r \<in> set (pg_users d) \<Longrightarrow> P r \<Longrightarrow> ro_ID (f r) = ro_ID r \<and> sqlcUserToDomain (f r) = g (sqlcUserToDomain r)"
    and "\<And>r. r \<in> set (pg_users d) \<Longrightarrow> \<not> P r \<Longrightarrow> g (sqlcUserToDomain r) = sqlcUserToDomain r"
  shows "refines U now op d"
proof (cases "uu_Parse U s")
  case None
  then show ?thesis using assms(1,2,3) by (simp add: refines_def as_res_def by_id_def)
next
  case (Some i)
  let ?f = "\<lambda>r. if P r then f r else r"
  have "dir (map (\<lambda>r. if ro_ID r = i then ?f r else r) (pg_users d)) = (dir (pg_users d))(i := map_option g (dir (pg_users d) i))"
    by (rule dir_map) (use assms(6,7) in auto)
  moreover have "(\<lambda>r. if ro_ID r = i then ?f r else r) = (\<lambda>r. if ro_ID r = i \<and> P r then f r else r)"
    by auto
  ultimately have "dir (pg_users (update_where (\<lambda>r. ro_ID r = i \<and> P r) f d)) = change U s g (dir (pg_users d))"
    using Some by (simp add: change_def)
  then show ?thesis
    using Some assms(1-5) by (simp add: refines_def as_res_def by_id_def UUIDToPgtype_def)
qed

lemma refines_updates:
  assumes "quiet d" and "table_ok (pg_users d)"
  shows "refines U now (OpDelete s) d" "refines U now (OpActivate s) d" "refines U now (OpDeactivate s) d"
    "refines U now (OpUpdatePassword s h) d"
proof -
  show "refines U now (OpDelete s) d"
    by (rule refines_by_id [where P = "\<lambda>_. True" and q = "DeleteUser now" and f = "\<lambda>r. r\<lparr>ro_IsActive := Some False, ro_UpdatedAt := Some now\<rparr>"
          and g = "\<lambda>u. u\<lparr>us_IsActive := False, us_UpdatedAt := Some now\<rparr>"])
      (use assms in \<open>simp_all add: repo_Delete_def DeleteUser_def sqlcUserToDomain_def\<close>)
  show "refines U now (OpActivate s) d"
    by (rule refines_by_id [where P = "\<lambda>_. True" and q = "ActivateUser now" and f = "\<lambda>r. r\<lparr>ro_IsActive := Some True, ro_UpdatedAt := Some now\<rparr>"
          and g = "\<lambda>u. u\<lparr>us_IsActive := True, us_UpdatedAt := Some now\<rparr>"])
      (use assms in \<open>simp_all add: repo_Activate_def ActivateUser_def sqlcUserToDomain_def\<close>)
  show "refines U now (OpDeactivate s) d"
    by (rule refines_by_id [where P = "\<lambda>_. True" and q = "DeactivateUser now" and f = "\<lambda>r. r\<lparr>ro_IsActive := Some False, ro_UpdatedAt := Some now\<rparr>"
          and g = "\<lambda>u. u\<lparr>us_IsActive := False, us_UpdatedAt := Some now\<rparr>"])
      (use assms in \<open>simp_all add: repo_Deactivate_def DeactivateUser_def sqlcUserToDomain_def\<close>)
  show "refines U now (OpUpdatePassword s h) d"
    by (rule refines_by_id [where P = "\<lambda>r. ro_IsActive r = Some True" and q = "\<lambda>u. UpdatePassword now u h"
          and f = "\<lambda>r. r\<lparr>ro_PasswordHash := h, ro_UpdatedAt := Some now\<rparr>"
          and g = "\<lambda>u. if us_IsActive u then u\<lparr>us_PasswordHash := h, us_UpdatedAt := Some now\<rparr> else u"])
      (use assms in \<open>auto simp: Let_def repo_UpdatePassword_def UpdatePassword_def sqlcUserToDomain_def split: option.split\<close>)
qed

lemma refines_Update:
  assumes "quiet d" and "table_ok (pg_users d)"
  shows "refines U now (OpUpdate s n e) d"
proof (cases "Option.bind (uu_Parse U s) (\<lambda>i. map_of (map (\<lambda>r. (ro_ID r, r)) (pg_users d)) i)")
  case None
  then have "fst (repo_Update U now s n e d) = Inl (user_not_found s)" "snd (repo_Update U now s n e d) = d"
    using assms by (auto simp: repo_Update_def UpdateUser_def UUIDToPgtype_def filter_id split: option.split)
  moreover have "Option.bind (uu_Parse U s) (dir (pg_users d)) = None"
    using None by (cases "uu_Parse U s") (auto simp: dir_def)
  ultimately show ?thesis using assms(1) by (simp add: refines_def as_res_def case_prod_unfold)
next
  case (Some r)
  then obtain i where i: "uu_Parse U s = Some i" "map_of (map (\<lambda>r. (ro_ID r, r)) (pg_users d)) i = Some r"
    by (cases "uu_Parse U s") auto
  then have r: "r \<in> set (pg_users d)" "ro_ID r = i" using row_Some [OF i(2)] by auto
  let ?em = "coalesce_nullif e (ro_Email r)"
  define r' where "r' = r\<lparr>ro_Name := coalesce_nullif n (ro_Name r), ro_Email := ?em, ro_UpdatedAt := Some now\<rparr>"
  have dir_r: "dir (pg_users d) i = Some (sqlcUserToDomain r)" using i(2) by (simp add: dir_def)
  have r'_eq: "sqlcUserToDomain r' = renamed now n e (sqlcUserToDomain r)"
    by (simp add: r'_def sqlcUserToDomain_def renamed_def)
  have taken: "(\<exists>q \<in> set (pg_users d). ro_ID q \<noteq> i \<and> ro_Email q = ?em) \<longleftrightarrow>
      (\<exists>j v. holds_email (dir (pg_users d)) ?em j v \<and> j \<noteq> i)"
    using assms(2) by (auto simp: holds_email_iff)
  have step: "repo_step U now (OpUpdate s n e) d =
      (if \<exists>q \<in> set (pg_users d). ro_ID q \<noteq> i \<and> ro_Email q = ?em then (Inl (email_taken e), d)
       else (Inr (RUser (sqlcUserToDomain r')), update_where (\<lambda>q. ro_ID q = i) (\<lambda>_. r') d))"
    using assms i r by (simp add: as_res_def repo_Update_def UpdateUser_def UUIDToPgtype_def filter_id Let_def r'_def)
  have "dir (map (\<lambda>q. if ro_ID q = i then r' else q) (pg_users d))
      = (dir (pg_users d))(i := map_option (renamed now n e) (dir (pg_users d) i))"
    by (rule dir_map) (use r r'_eq table_ok_unique [OF assms(2)] in \<open>auto simp: r'_def\<close>)
  moreover have "us_Email (renamed now n e (sqlcUserToDomain r)) = ?em" by (simp add: renamed_def)
  ultimately show ?thesis
    using step taken i(1) dir_r r(2) r'_eq assms(1) by (simp add: refines_def change_def)
qed

lemma refines_step: "quiet d \<Longrightarrow> table_ok (pg_users d) \<Longrightarrow> refines U now op d"
  using refines_reads refines_Count refines_List refines_Create refines_Update refines_updates by (cases op) simp_all

text \<open>A run of operations with its answers, as the directory allows it.\<close>

fun dir_run :: "uuid_api \<Rightarrow> (go_time \<times> repo_op) list \<Rightarrow> (go_error + repo_res) list \<Rightarrow> directory \<Rightarrow> directory \<Rightarrow> bool" where
  "dir_run U [] [] D D' \<longleftrightarrow> D' = D"
| "dir_run U ((now, op) # ops) (r # rs) D D' \<longleftrightarrow>
     dir_answer U now op D r \<and> dir_run U ops rs (case r of Inl _ \<Rightarrow> D | Inr _ \<Rightarrow> dir_effect U now op D) D'"
| "dir_run U _ _ D D' \<longleftrightarrow> False"

lemma repo_run_refines:
  "quiet d \<Longrightarrow> table_ok (pg_users d) \<Longrightarrow>
   dir_run U ops (fst (repo_run U ops d)) (dir (pg_users d)) (dir (pg_users (snd (repo_run U ops d))))"
proof (induction ops arbitrary: d)
  case Nil
  then show ?case by simp
next
  case (Cons o1 ops)
  obtain now op where o1: "o1 = (now, op)" by fastforce
  obtain r d1 where s: "repo_step U now op d = (r, d1)" by fastforce
  have "table_ok (pg_users d1)" using keeps_step [of U now op] Cons.prems(2) s by (auto simp: keeps_def dest!: spec [of _ d])
  with Cons.IH [of d1] refines_step [OF Cons.prems, of U now op] s o1 show ?case
    by (simp add: refines_def case_prod_unfold)
qed

lemma repo_run_keeps: "table_ok (pg_users d) \<Longrightarrow> table_ok (pg_users (snd (repo_run U ops d)))"
proof (induction ops arbitrary: d)
  case Nil
  then show ?case by simp
next
  case (Cons o1 ops)
  then show ?case
    using keeps_step [of U "fst o1" "snd o1"] by (cases o1) (auto simp: keeps_def case_prod_unfold)
qed

section \<open>The UUID library\<close>

text \<open>
  What the service relies on: parsing the text of an identifier gives the identifier back, and the text is made of
  hexadecimal digits and dashes. The instance below writes and reads the canonical form of RFC 4122.
\<close>

locale uuid_lib =
  fixes U :: uuid_api
  assumes parse_text: "uu_Parse U (uu_String U i) = Some i"
    and text_chars: "set (uu_String U i) \<subseteq> set ''0123456789abcdef-''"
    and text_not_empty: "uu_String U i \<noteq> []"
begin

lemma text_inj: "uu_String U i = uu_String U j \<longleftrightarrow> i = j"
  by (metis parse_text option.inject)

lemma nullable_text: "NullableUUID U (uu_String U i) = Some i"
  by (simp add: NullableUUID_def parse_text text_not_empty UUIDToPgtype_def)

lemma colon_free: "CHR '':'' \<notin> set (uu_String U i)"
  using text_chars [of i] by auto

end

primrec hex_text :: "nat \<Rightarrow> int \<Rightarrow> string" where
  "hex_text 0 n = []"
| "hex_text (Suc k) n = hex_text k (n div 16) @ [hex_digit (nat (n mod 16))]"

fun hex_value :: "int \<Rightarrow> string \<Rightarrow> int option" where
  "hex_value acc [] = Some acc"
| "hex_value acc (c # cs) = (case hex_val c of None \<Rightarrow> None | Some v \<Rightarrow> hex_value (16 * acc + int v) cs)"

definition uuid_text :: "uuid \<Rightarrow> string" where
  "uuid_text i =
     (let h = hex_text 32 (uint i)
      in take 8 h @ ''-'' @ take 4 (drop 8 h) @ ''-'' @ take 4 (drop 12 h) @ ''-'' @ take 4 (drop 16 h) @ ''-'' @ drop 20 h)"

definition uuid_parse :: "string \<Rightarrow> uuid option" where
  "uuid_parse s =
     (if length s = 36 \<and> (\<forall>k \<in> set [8, 13, 18, 23]. s ! k = CHR ''-'')
      then map_option word_of_int
             (hex_value 0 (take 8 s @ take 4 (drop 9 s) @ take 4 (drop 14 s) @ take 4 (drop 19 s) @ drop 24 s))
      else None)"

definition uuid_rfc4122 :: uuid_api where
  "uuid_rfc4122 = \<lparr>uu_Parse = uuid_parse, uu_String = uuid_text\<rparr>"

lemma hex_text_length [simp]: "length (hex_text k n) = k"
  by (induction k arbitrary: n) simp_all

lemma hex_digit_chars:
  assumes "d < 16"
  shows "hex_digit d \<in> set ''0123456789abcdef''"
proof -
  have all: "\<forall>d \<in> set [0..<16]. hex_digit d \<in> set ''0123456789abcdef''"
    unfolding list_all_iff [symmetric] by code_simp
  have "d \<in> set [0..<16]" using assms by simp
  then show ?thesis by (rule all [THEN bspec])
qed

lemma hex_text_chars: "set (hex_text k n) \<subseteq> set ''0123456789abcdef''"
proof (induction k arbitrary: n)
  case (Suc k)
  have "hex_digit (nat (n mod 16)) \<in> set ''0123456789abcdef''" by (rule hex_digit_chars) simp
  with Suc [of "n div 16"] show ?case unfolding hex_text.simps by (simp only: set_append list.set Un_subset_iff) blast
qed simp

lemma hex_value_append: "hex_value acc (s @ [c]) = Option.bind (hex_value acc s) (\<lambda>a. map_option (\<lambda>v. 16 * a + int v) (hex_val c))"
  by (induction s arbitrary: acc) (auto split: option.split)

lemma hex_value_text: "0 \<le> n \<Longrightarrow> n < 16 ^ k \<Longrightarrow> hex_value 0 (hex_text k n) = Some n"
proof (induction k arbitrary: n)
  case (Suc k)
  have "n < 16 * 16 ^ k" using Suc.prems by simp
  then have "n div 16 < 16 ^ k" by linarith
  with Suc.IH [of "n div 16"] Suc.prems show ?case by (simp add: hex_value_append hex_val_digit)
qed simp

lemma pieces:
  assumes "length h = 32"
  shows "take 8 h @ take 4 (drop 8 h) @ take 4 (drop 12 h) @ take 4 (drop 16 h) @ drop 20 h = h"
proof -
  have "take 8 h @ take 4 (drop 8 h) @ take 4 (drop 12 h) @ take 4 (drop 16 h) @ drop 20 h
      = take 20 h @ drop 20 h"
    using take_add [of 8 4 h] take_add [of 12 4 h] take_add [of 16 4 h] by simp
  then show ?thesis by simp
qed

lemma uuid_parse_pieces:
  assumes "length a = 8" "length b = 4" "length c = 4" "length d = 4" "length e = 12"
  shows "uuid_parse (a @ ''-'' @ b @ ''-'' @ c @ ''-'' @ d @ ''-'' @ e) = map_option word_of_int (hex_value 0 (a @ b @ c @ d @ e))"
proof -
  let ?s = "a @ ''-'' @ b @ ''-'' @ c @ ''-'' @ d @ ''-'' @ e"
  have "length ?s = 36" "?s ! 8 = CHR ''-''" "?s ! 13 = CHR ''-''" "?s ! 18 = CHR ''-''" "?s ! 23 = CHR ''-''"
    using assms by (simp_all add: nth_append)
  moreover have "take 8 ?s = a" "take 4 (drop 9 ?s) = b" "take 4 (drop 14 ?s) = c" "take 4 (drop 19 ?s) = d" "drop 24 ?s = e"
    using assms by simp_all
  ultimately show ?thesis by (simp only: uuid_parse_def) simp
qed

lemma uuid_parse_text: "uuid_parse (uuid_text i) = Some i"
proof -
  define h where "h = hex_text 32 (uint i)"
  have len: "length h = 32" by (simp add: h_def)
  have "uint i < 16 ^ 32" using uint_lt2p [of i] by simp
  then have "hex_value 0 h = Some (uint i)" unfolding h_def by (intro hex_value_text) simp_all
  then show ?thesis
    unfolding uuid_text_def h_def [symmetric] Let_def
    by (subst uuid_parse_pieces) (simp_all add: len pieces)
qed

lemma uuid_text_chars: "set (uuid_text i) \<subseteq> set ''0123456789abcdef-''"
proof -
  define h where "h = hex_text 32 (uint i)"
  have h: "set h \<subseteq> set ''0123456789abcdef''" unfolding h_def by (rule hex_text_chars)
  then have p: "set (take m (drop k h)) \<subseteq> set ''0123456789abcdef''" "set (drop k h) \<subseteq> set ''0123456789abcdef''"
      "set (take m h) \<subseteq> set ''0123456789abcdef''" for m k
    by (meson order.trans set_take_subset set_drop_subset)+
  show ?thesis
    unfolding uuid_text_def h_def [symmetric] Let_def set_append
    by (intro Un_least; (rule subset_trans [OF p(1)] subset_trans [OF p(2)] subset_trans [OF p(3)])?) auto
qed

interpretation rfc4122: uuid_lib uuid_rfc4122
proof
  fix i
  show "uu_Parse uuid_rfc4122 (uu_String uuid_rfc4122 i) = Some i"
    by (simp add: uuid_rfc4122_def uuid_parse_text)
  show "set (uu_String uuid_rfc4122 i) \<subseteq> set ''0123456789abcdef-''"
    by (simp only: uuid_rfc4122_def uuid_api.simps uuid_text_chars)
  show "uu_String uuid_rfc4122 i \<noteq> []" by (simp add: uuid_rfc4122_def uuid_text_def Let_def)
qed

section \<open>Properties\<close>

definition example_pg :: pg where
  "example_pg = \<lparr>pg_users = [\<lparr>ro_ID = 7, ro_Email = ''ada@example.com'', ro_PasswordHash = ''h7'', ro_Name = ''Ada'',
      ro_IsActive = Some True, ro_CreatedAt = Some 1, ro_UpdatedAt = Some 1\<rparr>],
     pg_faults = [], pg_varchar = (\<lambda>_. None), pg_ilike = (\<lambda>s p. s = p)\<rparr>"

definition example_ops :: "(go_time \<times> repo_op) list" where
  "example_ops = [(2, OpCreate 9 ''bob@example.com'' ''h9'' ''Bob''), (3, OpCreate 11 ''bob@example.com'' ''h'' ''Bob''),
     (4, OpDelete ''00000000-0000-0000-0000-000000000009''), (5, OpExistsByEmail ''bob@example.com''),
     (6, OpUpdatePassword ''00000000-0000-0000-0000-000000000009'' ''h10''), (7, OpCount (Some True))]"

text \<open>
  C4. The repository implements a directory of users. On a database whose table keeps its constraints and that
  executes the statements, every sequence of repository calls answers as the directory (a partial map from
  identifiers to users) answers, errors included, and leaves the directory that the calls describe: look-ups by
  identifier and by email, the count, creation with the duplicate check, renaming, password changes (which touch
  active users only), soft deletion and activation.
\<close>

theorem repository_refines_directory:
  assumes "quiet d" and "table_ok (pg_users d)"
  shows "dir_run U ops (fst (repo_run U ops d)) (dir (pg_users d)) (dir (pg_users (snd (repo_run U ops d))))"
  by (rule repo_run_refines [OF assms])

lemma repository_refines_directory_witness:
  "quiet example_pg \<and> table_ok (pg_users example_pg) \<and>
   dir_run uuid_rfc4122 example_ops (fst (repo_run uuid_rfc4122 example_ops example_pg)) (dir (pg_users example_pg))
     (dir (pg_users (snd (repo_run uuid_rfc4122 example_ops example_pg)))) \<and>
   map (\<lambda>r. \<not> isl r) (fst (repo_run uuid_rfc4122 example_ops example_pg)) = [True, False, True, True, True, True]"
proof -
  have "quiet example_pg" "table_ok (pg_users example_pg)" by (auto simp: quiet_def example_pg_def table_ok_def)
  moreover have "map (\<lambda>r. \<not> isl r) (fst (repo_run uuid_rfc4122 example_ops example_pg)) = [True, False, True, True, True, True]"
    by code_simp
  ultimately show ?thesis
    using repository_refines_directory [of example_pg uuid_rfc4122 example_ops] by simp
qed



text \<open>
  A transaction is atomic. Whatever the function of the transaction does to the table and whichever statement
  fails (the function's own, the commit, or the rollback), an error means that the table is exactly what it was
  before, and success means that it is what the function left.
\<close>

theorem with_tx_atomic:
  "case WithTx fn d of
     (Inl err, d') \<Rightarrow> pg_users d' = pg_users d
   | (Inr a, d') \<Rightarrow> \<exists>d2. fn (snd (next_fault d)) = (Inr a, d2) \<and> pg_users d' = pg_users d2"
proof -
  have ok: "\<exists>d2. fn (snd (next_fault d)) = (Inr a, d2) \<and> pg_users d' = pg_users d2" if tx: "WithTx fn d = (Inr a, d')" for a d'
  proof -
    obtain d2 where d2: "fn (snd (next_fault d)) = (Inr a, d2)" "next_fault d2 = (None, d')"
      using tx by (auto simp: WithTx_def split: prod.splits sum.splits option.splits)
    then show ?thesis using next_fault_frame(1) [of d2] by simp
  qed
  obtain r d' where tx: "WithTx fn d = (r, d')" by fastforce
  show ?thesis
  proof (cases r)
    case (Inl e)
    with tx WithTx_error [OF tx [unfolded Inl]] show ?thesis by simp
  next
    case (Inr a)
    with tx ok [OF tx [unfolded Inr]] show ?thesis by simp
  qed
qed

end
