(* ===== verification/Pagination.thy ===== *)
theory Pagination
  imports Apperr Json Crypto
begin

text \<open>
  Cursor pagination, \<^verbatim>\<open>src/internal/shared/domain/cursor.go\<close>. A cursor travels to the client and back as the base64 text
  of its JSON; the page constructors cut the extra item that was fetched and attach the cursors of the neighbouring
  pages. \<^verbatim>\<open>LastValue\<close> holds a JSON value.
\<close>

record Cursor =
  cu_LastID :: string
  cu_LastValue :: "json option"
  cu_Direction :: string

definition CursorDirectionNext :: string where "CursorDirectionNext = ''next''"
definition CursorDirectionPrev :: string where "CursorDirectionPrev = ''prev''"

definition cursor_json :: "Cursor \<Rightarrow> json" where
  "cursor_json c =
     JObj ([(''last_id'', JStr (cu_LastID c))] @
           (case cu_LastValue c of None \<Rightarrow> [] | Some v \<Rightarrow> [(''last_value'', v)]) @
           (if cu_Direction c = '''' then [] else [(''direction'', JStr (cu_Direction c))]))"

definition Encode :: "Cursor option \<Rightarrow> string" where
  "Encode c =
     (case c of
        None \<Rightarrow> ''''
      | Some cu \<Rightarrow> if cu_LastID cu = '''' then '''' else b64_encode (print_json (cursor_json cu)))"

text \<open>A field of type \<^verbatim>\<open>any\<close> takes the last member with its name; null sets it to nil.\<close>

definition dec_any :: "(string \<times> json) list \<Rightarrow> string \<Rightarrow> json option" where
  "dec_any kvs name =
     fold (\<lambda>v _. if v = JNull then None else Some v) (field_values kvs name) None"

definition unmarshal_cursor :: "json \<Rightarrow> Cursor option" where
  "unmarshal_cursor v =
     (case v of
        JObj kvs \<Rightarrow>
          (case (dec_string kvs ''last_id'', dec_string kvs ''direction'') of
             (Some i, Some dr) \<Rightarrow> Some \<lparr>cu_LastID = i, cu_LastValue = dec_any kvs ''last_value'', cu_Direction = dr\<rparr>
           | _ \<Rightarrow> None)
      | JNull \<Rightarrow> Some \<lparr>cu_LastID = '''', cu_LastValue = None, cu_Direction = ''''\<rparr>
      | _ \<Rightarrow> None)"

definition DecodeCursor :: "string \<Rightarrow> go_error + Cursor option" where
  "DecodeCursor encoded =
     (if encoded = '''' then Inr None
      else (case b64_decode encoded of
              None \<Rightarrow> Inl (errorf_w ''invalid cursor format'' (ErrText ''illegal base64 data''))
            | Some data \<Rightarrow>
                (case Option.bind (parse_json data) unmarshal_cursor of
                   None \<Rightarrow> Inl (errorf_w ''invalid cursor data'' (ErrText ''invalid json''))
                 | Some cu \<Rightarrow> Inr (Some cu))))"

record 'a CursorPage =
  cp_Items :: "'a list"
  cp_NextCursor :: "string option"
  cp_PrevCursor :: "string option"
  cp_HasMore :: bool
  cp_HasPrev :: bool
  cp_Total :: "int option"

definition meta_json :: "'a CursorPage \<Rightarrow> json" where
  "meta_json p =
     JObj ((case cp_NextCursor p of None \<Rightarrow> [] | Some s \<Rightarrow> [(''next_cursor'', JStr s)]) @
           (case cp_PrevCursor p of None \<Rightarrow> [] | Some s \<Rightarrow> [(''prev_cursor'', JStr s)]) @
           [(''has_more'', JBool (cp_HasMore p)), (''has_prev'', JBool (cp_HasPrev p))] @
           (case cp_Total p of None \<Rightarrow> [] | Some n \<Rightarrow> [(''total'', JNum (itoa n))]))"

definition page_cursor :: "('a \<Rightarrow> Cursor option) \<Rightarrow> string \<Rightarrow> 'a \<Rightarrow> string option" where
  "page_cursor cursorFn direction x =
     (case cursorFn x of None \<Rightarrow> None | Some cu \<Rightarrow> Some (Encode (Some (cu\<lparr>cu_Direction := direction\<rparr>))))"

definition NewCursorPage :: "'a list \<Rightarrow> int \<Rightarrow> ('a \<Rightarrow> Cursor option) \<Rightarrow> 'a CursorPage" where
  "NewCursorPage data0 limit cursorFn =
     (let hasMore = limit < int (length data0);
          data = (if hasMore then take (nat limit) data0 else data0);
          nextCursor = (if hasMore \<and> 0 < length data then page_cursor cursorFn CursorDirectionNext (last data) else None)
      in \<lparr>cp_Items = data, cp_NextCursor = nextCursor, cp_PrevCursor = None, cp_HasMore = hasMore, cp_HasPrev = False,
          cp_Total = None\<rparr>)"

definition NewBidirectionalCursorPage ::
  "'a list \<Rightarrow> int \<Rightarrow> string \<Rightarrow> bool \<Rightarrow> ('a \<Rightarrow> Cursor option) \<Rightarrow> 'a CursorPage" where
  "NewBidirectionalCursorPage data0 limit direction hasCursor cursorFn =
     (let hasExtra = limit < int (length data0);
          isBackward = (direction = ''prev'');
          hasMore = (if isBackward then hasCursor else hasExtra);
          hasPrev = (if isBackward then hasExtra else hasCursor);
          data = (if hasExtra then (if isBackward then drop 1 data0 else take (nat limit) data0) else data0);
          nextCursor = (if 0 < length data \<and> hasMore then page_cursor cursorFn CursorDirectionNext (last data) else None);
          prevCursor = (if 0 < length data \<and> hasPrev then page_cursor cursorFn CursorDirectionPrev (hd data) else None)
      in \<lparr>cp_Items = data, cp_NextCursor = nextCursor, cp_PrevCursor = prevCursor, cp_HasMore = hasMore, cp_HasPrev = hasPrev,
          cp_Total = None\<rparr>)"

definition WithTotal :: "'a CursorPage \<Rightarrow> int \<Rightarrow> 'a CursorPage" where
  "WithTotal p t = p\<lparr>cp_Total := Some t\<rparr>"

definition cursor_DefaultLimit :: int where "cursor_DefaultLimit = 20"
definition cursor_MaxLimit :: int where "cursor_MaxLimit = 100"

definition NormalizeLimit :: "int \<Rightarrow> int" where
  "NormalizeLimit limit =
     (if limit \<le> 0 then cursor_DefaultLimit else if cursor_MaxLimit < limit then cursor_MaxLimit else limit)"

section \<open>Lemmas\<close>

lemma NormalizeLimit_bounds: "1 \<le> NormalizeLimit l" "NormalizeLimit l \<le> 100"
  by (simp_all add: NormalizeLimit_def cursor_DefaultLimit_def cursor_MaxLimit_def)

lemma ascii_names:
  "valid_utf8 ''last_id''" "valid_utf8 ''last_value''" "valid_utf8 ''direction''" "valid_utf8 ''next''" "valid_utf8 ''prev''"
  by (simp_all add: valid_utf8_ascii byte_in_def)

lemma field_name_cases:
  "to_lower ''last_id'' \<noteq> to_lower ''last_value''" "to_lower ''last_id'' \<noteq> to_lower ''direction''"
  "to_lower ''last_value'' \<noteq> to_lower ''direction''"
  by (simp_all add: to_lower_def byte_lower_def)

lemma decode_encode:
  assumes "cu_LastID c \<noteq> ''''" and "valid_utf8 (cu_LastID c)" and "valid_utf8 (cu_Direction c)"
    and "\<And>v. cu_LastValue c = Some v \<Longrightarrow> wf_json v \<and> v \<noteq> JNull"
  shows "DecodeCursor (Encode (Some c)) = Inr (Some c)"
proof -
  have "wf_json (cursor_json c)" using assms ascii_names by (auto simp: cursor_json_def split: option.split)
  then have p: "parse_json (print_json (cursor_json c)) = Some (cursor_json c)" by (rule parse_json_print_json)
  then have ne: "print_json (cursor_json c) \<noteq> []" by (auto simp: cursor_json_def)
  have "unmarshal_cursor (cursor_json c) = Some c"
    using assms(4) field_name_cases
    by (cases c) (auto simp: unmarshal_cursor_def cursor_json_def dec_string_def dec_any_def field_values_def assign_string_def
        split: option.split)
  with p ne assms(1) show ?thesis
    by (simp add: DecodeCursor_def Encode_def b64_decode_encode b64_encode_Nil)
qed

lemma decode_page_cursor:
  assumes "cursorFn x = Some \<lparr>cu_LastID = i, cu_LastValue = None, cu_Direction = d0\<rparr>" and "i \<noteq> ''''" and "valid_utf8 i"
    and "valid_utf8 d"
  shows "\<exists>s. page_cursor cursorFn d x = Some s \<and> s \<noteq> '''' \<and> DecodeCursor s = Inr (Some \<lparr>cu_LastID = i, cu_LastValue = None, cu_Direction = d\<rparr>)"
proof -
  let ?c = "\<lparr>cu_LastID = i, cu_LastValue = None, cu_Direction = d\<rparr>"
  have dec: "DecodeCursor (Encode (Some ?c)) = Inr (Some ?c)" by (rule decode_encode) (use assms in auto)
  then have "Encode (Some ?c) \<noteq> ''''" by (auto simp: DecodeCursor_def)
  with dec assms(1) show ?thesis by (simp add: page_cursor_def)
qed

section \<open>Properties\<close>

text \<open>
  A cursor survives its trip to the client. Decoding the text of any cursor with a last identifier gives exactly
  that cursor, for identifiers and directions of valid UTF-8 and every encodable last value.
\<close>

theorem cursor_roundtrip:
  assumes "cu_LastID c \<noteq> ''''" and "valid_utf8 (cu_LastID c)" and "valid_utf8 (cu_Direction c)"
    and "\<forall>v. cu_LastValue c = Some v \<longrightarrow> wf_json v \<and> v \<noteq> JNull"
  shows "DecodeCursor (Encode (Some c)) = Inr (Some c)"
  using assms(4) by (intro decode_encode [OF assms(1-3)]) simp

lemma cursor_roundtrip_witness:
  "DecodeCursor (Encode (Some \<lparr>cu_LastID = ''a-1'', cu_LastValue = Some (JBool True), cu_Direction = ''next''\<rparr>))
   = Inr (Some \<lparr>cu_LastID = ''a-1'', cu_LastValue = Some (JBool True), cu_Direction = ''next''\<rparr>)"
  by (rule cursor_roundtrip) (simp_all add: valid_utf8_ascii byte_in_def)

end
