(* ===== verification/Validator.thy ===== *)
theory Validator
  imports Http
begin

text \<open>
  Reading a request: \<^verbatim>\<open>src/internal/platform/validator/validator.go\<close> and \<^verbatim>\<open>src/internal/platform/sanitizer/sanitizer.go\<close>. The
  framework's body and query parsers, the rules of the validation library and the HTML policy are parameters,
  gathered in the record \<open>binding\<close> for a request type: \<open>bd_parse\<close> fills the struct from the request, \<open>bd_value\<close> and
  \<open>bd_back\<close> are its reflective view, and \<open>bd_rules\<close> lists the field errors that the validation tags give.
\<close>

section \<open>Sanitizer\<close>

text \<open>The kinds of values that the reflective walk tells apart.\<close>

datatype rvalue =
    RString string
  | RStruct "rvalue list"
  | RPtr "rvalue option"
  | RSlice "rvalue list"
  | ROther

fun sanitizeValue :: "(string \<Rightarrow> string) \<Rightarrow> rvalue \<Rightarrow> rvalue" where
  "sanitizeValue policy (RString s) = RString (policy s)"
| "sanitizeValue policy (RStruct fs) = RStruct (map (sanitizeValue policy) fs)"
| "sanitizeValue policy (RPtr None) = RPtr None"
| "sanitizeValue policy (RPtr (Some v)) = RPtr (Some (sanitizeValue policy v))"
| "sanitizeValue policy (RSlice vs) = RSlice (map (sanitizeValue policy) vs)"
| "sanitizeValue policy ROther = ROther"

text \<open>\<^verbatim>\<open>SanitizeStruct\<close> looks through one pointer and does nothing unless it finds a struct.\<close>

fun SanitizeStruct :: "(string \<Rightarrow> string) \<Rightarrow> rvalue \<Rightarrow> rvalue" where
  "SanitizeStruct policy (RPtr (Some (RStruct fs))) = RPtr (Some (sanitizeValue policy (RStruct fs)))"
| "SanitizeStruct policy (RStruct fs) = sanitizeValue policy (RStruct fs)"
| "SanitizeStruct policy v = v"

fun strings_of :: "rvalue \<Rightarrow> string set" where
  "strings_of (RString s) = {s}"
| "strings_of (RStruct fs) = (\<Union>f \<in> set fs. strings_of f)"
| "strings_of (RPtr None) = {}"
| "strings_of (RPtr (Some v)) = strings_of v"
| "strings_of (RSlice vs) = (\<Union>v \<in> set vs. strings_of v)"
| "strings_of ROther = {}"

section \<open>Validator\<close>

record field_error =
  fe_Field :: string
  fe_Tag :: string
  fe_Param :: string

definition formatError :: "field_error \<Rightarrow> string" where
  "formatError err =
     (let field = fe_Field err; tag = fe_Tag err; param = fe_Param err in
      if tag = ''required'' then field @ '' is required''
      else if tag = ''email'' then field @ '' must be a valid email address''
      else if tag = ''min'' then field @ '' must be at least '' @ param @ '' characters''
      else if tag = ''max'' then field @ '' must be at most '' @ param @ '' characters''
      else if tag = ''len'' then field @ '' must be exactly '' @ param @ '' characters''
      else if tag = ''gte'' then field @ '' must be greater than or equal to '' @ param
      else if tag = ''lte'' then field @ '' must be less than or equal to '' @ param
      else if tag = ''gt'' then field @ '' must be greater than '' @ param
      else if tag = ''lt'' then field @ '' must be less than '' @ param
      else if tag = ''oneof'' then field @ '' must be one of: '' @ param
      else if tag = ''uuid'' then field @ '' must be a valid UUID''
      else if tag = ''url'' then field @ '' must be a valid URL''
      else if tag = ''alphanum'' then field @ '' must contain only alphanumeric characters''
      else if tag = ''numeric'' then field @ '' must be numeric''
      else if tag = ''eqfield'' then field @ '' must be equal to '' @ param
      else field @ '' is invalid'')"

text \<open>The map of messages: a later error of a field replaces an earlier one.\<close>

definition ValidateStruct :: "field_error list \<Rightarrow> (string \<times> string) list" where
  "ValidateStruct errors = fold (\<lambda>e m. AList.update (fe_Field e) (formatError e) m) errors []"

definition Validate :: "field_error list \<Rightarrow> go_error option" where
  "Validate errors =
     (let errs = ValidateStruct errors in if 0 < length errs then Some (ValidationError errs) else None)"

fun IsValidationError :: "go_error \<Rightarrow> (string \<times> string) list option" where
  "IsValidationError (ValidationError errs) = Some errs"
| "IsValidationError (ErrWrap t e) = IsValidationError e"
| "IsValidationError (AppError c m h (Some e)) = IsValidationError e"
| "IsValidationError _ = None"

record 'r binding =
  bd_parse :: "fiber_ctx \<Rightarrow> go_error + 'r"
  bd_value :: "'r \<Rightarrow> rvalue"
  bd_back :: "rvalue \<Rightarrow> 'r"
  bd_rules :: "'r \<Rightarrow> field_error list"

definition ValidateAndBind :: "(string \<Rightarrow> string) \<Rightarrow> 'r binding \<Rightarrow> fiber_ctx \<Rightarrow> go_error + 'r" where
  "ValidateAndBind policy b c =
     (case bd_parse b c of
        Inl _ \<Rightarrow> Inl (ValidationError [(''body'', ''Invalid request body'')])
      | Inr r0 \<Rightarrow>
          (let r = bd_back b (SanitizeStruct policy (bd_value b r0)) in
           case Validate (bd_rules b r) of Some e \<Rightarrow> Inl e | None \<Rightarrow> Inr r))"

definition ValidateQuery :: "'r binding \<Rightarrow> fiber_ctx \<Rightarrow> go_error + 'r" where
  "ValidateQuery b c =
     (case bd_parse b c of
        Inl _ \<Rightarrow> Inl (ValidationError [(''query'', ''Invalid query parameters'')])
      | Inr r \<Rightarrow> (case Validate (bd_rules b r) of Some e \<Rightarrow> Inl e | None \<Rightarrow> Inr r))"

definition HandleValidationError :: "fiber_ctx \<Rightarrow> go_error \<Rightarrow> sent" where
  "HandleValidationError c err =
     (case IsValidationError err of
        Some errs \<Rightarrow> ValidationFailed c errs
      | None \<Rightarrow> Fail c (BadRequestf (error_text err)))"

text \<open>A handler that reads a request before it does anything else.\<close>

definition bound :: "(go_error + 'r) \<Rightarrow> ('r \<Rightarrow> 'w handler) \<Rightarrow> 'w handler" where
  "bound req h w c = (case req of Inl e \<Rightarrow> with_state w (HandleValidationError c e) | Inr r \<Rightarrow> h r w c)"

text \<open>The two ways in which handlers answer for a call that can fail.\<close>

definition answer :: "fiber_ctx \<Rightarrow> ('r \<Rightarrow> sent) \<Rightarrow> (go_error + 'r) \<times> 'w \<Rightarrow> go_error option \<times> 'w \<times> fiber_ctx" where
  "answer c ok rw = (case rw of (Inl err, w) \<Rightarrow> with_state w (Fail c err) | (Inr r, w) \<Rightarrow> with_state w (ok r))"

definition answer_err :: "fiber_ctx \<Rightarrow> sent \<Rightarrow> go_error option \<times> 'w \<Rightarrow> go_error option \<times> 'w \<times> fiber_ctx" where
  "answer_err c ok ew = (case ew of (Some err, w) \<Rightarrow> with_state w (Fail c err) | (None, w) \<Rightarrow> with_state w ok)"

section \<open>Lemmas\<close>

lemma sanitizeValue_strings: "strings_of (sanitizeValue policy v) = policy ` strings_of v"
  by (induction policy v rule: sanitizeValue.induct) auto

lemma ValidateStruct_Nil: "ValidateStruct errors = [] \<longleftrightarrow> errors = []"
proof (cases errors)
  case Nil
  then show ?thesis by (simp add: ValidateStruct_def)
next
  case (Cons e es)
  have "m \<noteq> [] \<Longrightarrow> fold (\<lambda>e m. AList.update (fe_Field e) (formatError e) m) es m \<noteq> []" for m
    by (induction es arbitrary: m) (auto simp: update_nonempty)
  with Cons show ?thesis by (simp add: ValidateStruct_def)
qed

lemma Validate_None: "Validate errors = None \<longleftrightarrow> errors = []"
  using ValidateStruct_Nil [of errors] by (simp add: Validate_def Let_def)

lemma ValidateAndBind_Inr:
  "ValidateAndBind policy b c = Inr r \<Longrightarrow>
   \<exists>r0. bd_parse b c = Inr r0 \<and> r = bd_back b (SanitizeStruct policy (bd_value b r0)) \<and> bd_rules b r = []"
  by (auto simp: ValidateAndBind_def Let_def Validate_None split: sum.splits option.splits)

lemma ValidateAndBind_Inl: "ValidateAndBind policy b c = Inl e \<Longrightarrow> \<exists>errs. e = ValidationError errs \<and> errs \<noteq> []"
  by (auto simp: ValidateAndBind_def Validate_def Let_def split: sum.splits if_splits)

definition example_binding :: "string binding" where
  "example_binding = \<lparr>bd_parse = (\<lambda>c. Inr (req_body c)), bd_value = (\<lambda>s. RPtr (Some (RStruct [RString s]))),
     bd_back = (\<lambda>v. case v of RPtr (Some (RStruct [RString s])) \<Rightarrow> s | _ \<Rightarrow> ''''), bd_rules = (\<lambda>s. [])\<rparr>"

section \<open>Properties\<close>

text \<open>
  No unsanitized string passes into a handler. When binding a request body succeeds, every string of the
  struct, at any depth of nesting, is an output of the HTML policy, and the struct satisfies its validation rules;
  when it fails, the answer is 400 and the handler does not run. The request type is one whose reflective view
  is a pointer to a struct from which it can be rebuilt.
\<close>

theorem bound_requests_are_sanitized:
  assumes "\<And>r. \<exists>fs. bd_value b r = RPtr (Some (RStruct fs))"
    and "\<And>r. bd_value b (bd_back b (SanitizeStruct policy (bd_value b r))) = SanitizeStruct policy (bd_value b r)"
  shows "(\<exists>r. (\<forall>h. bound (ValidateAndBind policy b c) h w c = h r w c) \<and>
            strings_of (bd_value b r) \<subseteq> range policy \<and> bd_rules b r = []) \<or>
         (\<exists>c'. (\<forall>h. bound (ValidateAndBind policy b c) h w c = (None, w, c')) \<and> res_status c' = 400)"
proof (cases "ValidateAndBind policy b c")
  case (Inl e)
  with ValidateAndBind_Inl [OF Inl] show ?thesis
    by (auto simp: bound_def HandleValidationError_def ValidationFailed_def with_state_def send_json_def)
next
  case (Inr r)
  from ValidateAndBind_Inr [OF Inr] obtain r0 where r0: "r = bd_back b (SanitizeStruct policy (bd_value b r0))" "bd_rules b r = []"
    by blast
  obtain fs where fs: "bd_value b r0 = RPtr (Some (RStruct fs))" using assms(1) by blast
  have "bd_value b r = RPtr (Some (sanitizeValue policy (RStruct fs)))" using r0(1) assms(2) [of r0] fs by simp
  then have "strings_of (bd_value b r) \<subseteq> range policy"
    using sanitizeValue_strings [of policy "RStruct fs"] by auto
  with Inr r0(2) show ?thesis by (auto simp: bound_def)
qed

lemma bound_requests_are_sanitized_witness:
  "\<exists>r. bound (ValidateAndBind (filter (\<lambda>x. x \<noteq> CHR ''<'')) example_binding (example_ctx\<lparr>req_body := ''a<b''\<rparr>))
        (\<lambda>r w c. (None, w, c)) () (example_ctx\<lparr>req_body := ''a<b''\<rparr>) = (None, (), example_ctx\<lparr>req_body := ''a<b''\<rparr>) \<and>
      strings_of (bd_value example_binding r) \<subseteq> range (filter (\<lambda>x. x \<noteq> CHR ''<''))"
proof -
  let ?c = "example_ctx\<lparr>req_body := ''a<b''\<rparr>" and ?p = "filter (\<lambda>x. x \<noteq> CHR ''<'')"
  have "bound (ValidateAndBind ?p example_binding ?c) (\<lambda>r w c. (Some ErrInternal, w, c)) () ?c = (Some ErrInternal, (), ?c)"
    by (simp add: bound_def ValidateAndBind_def example_binding_def Validate_def ValidateStruct_def)
  then show ?thesis
    using bound_requests_are_sanitized [of example_binding ?p ?c "()"] by (auto simp: example_binding_def)
qed

end
