(* ===== verification/Audit_Log.thy ===== *)
theory Audit_Log
  imports Http
begin

text \<open>
  Audit records: the port \<^verbatim>\<open>src/internal/port/auditor.go\<close> and its implementations \<^verbatim>\<open>src/internal/adapter/audit/postgres.go\<close> and
  \<^verbatim>\<open>noop.go\<close>, on the table of \<^verbatim>\<open>src/migrations/000002_init_audit.up.sql\<close>. The Go context that carries the caller is the
  map \<open>user_ctx\<close> of the request.

  What PostgreSQL decides is part of the state: \<open>ad_store\<close> says how a row is stored or why it is rejected (the
  foreign key, the formats of UUID, INET and JSONB columns, column widths), \<open>ad_fresh\<close> is the generated identifier,
  \<open>ad_reject\<close> the error of a query with malformed arguments. Statements fail as \<open>ad_faults\<close> lists.
\<close>

section \<open>The port\<close>

type_synonym go_context = "string \<Rightarrow> string option"

record AuditEntry =
  ae_ID :: string
  ae_UserID :: string
  ae_Action :: string
  ae_Resource :: string
  ae_ResourceID :: string
  ae_OldValue :: "json option"
  ae_NewValue :: "json option"
  ae_Metadata :: "(string \<times> json) list"
  ae_IPAddress :: string
  ae_UserAgent :: string
  ae_Timestamp :: go_time

definition AuditActionCreate :: string where "AuditActionCreate = ''CREATE''"
definition AuditActionRead :: string where "AuditActionRead = ''READ''"
definition AuditActionUpdate :: string where "AuditActionUpdate = ''UPDATE''"
definition AuditActionDelete :: string where "AuditActionDelete = ''DELETE''"
definition AuditActionLogin :: string where "AuditActionLogin = ''LOGIN''"
definition AuditActionLogout :: string where "AuditActionLogout = ''LOGOUT''"

record AuditFilter =
  af_UserID :: string
  af_Action :: string
  af_Resource :: string
  af_ResourceID :: string
  af_StartTime :: "go_time option"
  af_EndTime :: "go_time option"
  af_Limit :: int
  af_Cursor :: string

record AuditContext =
  ac_UserID :: string
  ac_IPAddress :: string
  ac_UserAgent :: string

definition ExtractAuditContext :: "go_context \<Rightarrow> AuditContext" where
  "ExtractAuditContext ctx =
     (let str = (\<lambda>k. case ctx k of Some v \<Rightarrow> v | None \<Rightarrow> '''')
      in \<lparr>ac_UserID = str key_user_id, ac_IPAddress = str key_ip_address, ac_UserAgent = str key_user_agent\<rparr>)"

definition NewAuditEntry :: "go_time \<Rightarrow> go_context \<Rightarrow> string \<Rightarrow> string \<Rightarrow> string \<Rightarrow> AuditEntry" where
  "NewAuditEntry now ctx action resource resourceID =
     (let ac = ExtractAuditContext ctx
      in \<lparr>ae_ID = '''', ae_UserID = ac_UserID ac, ae_Action = action, ae_Resource = resource, ae_ResourceID = resourceID,
          ae_OldValue = None, ae_NewValue = None, ae_Metadata = [], ae_IPAddress = ac_IPAddress ac,
          ae_UserAgent = ac_UserAgent ac, ae_Timestamp = now\<rparr>)"

record 'a auditor =
  au_Log :: "AuditEntry \<Rightarrow> 'a \<Rightarrow> go_error option \<times> 'a"
  au_Query :: "AuditFilter \<Rightarrow> 'a \<Rightarrow> (go_error + AuditEntry list) \<times> 'a"

section \<open>The PostgreSQL auditor\<close>

record audit_row =
  ar_ID :: string
  ar_UserID :: "string option"
  ar_Action :: string
  ar_Resource :: string
  ar_ResourceID :: string
  ar_OldValue :: "string option"
  ar_NewValue :: "string option"
  ar_IPAddress :: "string option"
  ar_UserAgent :: "string option"
  ar_CreatedAt :: go_time

record audit_db =
  ad_rows :: "audit_row list"
  ad_faults :: "go_error option list"
  ad_store :: "audit_row \<Rightarrow> go_error + audit_row"
  ad_fresh :: "audit_row list \<Rightarrow> string"
  ad_reject :: "AuditFilter \<Rightarrow> go_error option"

definition audit_fault :: "audit_db \<Rightarrow> go_error option \<times> audit_db" where
  "audit_fault d = (case ad_faults d of [] \<Rightarrow> (None, d) | f # fs \<Rightarrow> (f, d\<lparr>ad_faults := fs\<rparr>))"

definition nullString :: "string \<Rightarrow> string option" where
  "nullString s = (if s = '''' then None else Some s)"

definition pg_Log :: "AuditEntry \<Rightarrow> audit_db \<Rightarrow> go_error option \<times> audit_db" where
  "pg_Log entry d0 =
     (let oldValueJSON = map_option print_json (ae_OldValue entry);
          newValueJSON = map_option print_json (ae_NewValue entry);
          userID = (if ae_UserID entry \<noteq> '''' then Some (ae_UserID entry) else None);
          row = \<lparr>ar_ID = ad_fresh d0 (ad_rows d0), ar_UserID = userID, ar_Action = ae_Action entry,
                 ar_Resource = ae_Resource entry, ar_ResourceID = ae_ResourceID entry, ar_OldValue = oldValueJSON,
                 ar_NewValue = newValueJSON, ar_IPAddress = nullString (ae_IPAddress entry),
                 ar_UserAgent = nullString (ae_UserAgent entry), ar_CreatedAt = ae_Timestamp entry\<rparr>
      in case audit_fault d0 of
           (Some e, d) \<Rightarrow> (Some (errorf_w ''failed to insert audit log'' e), d)
         | (None, d) \<Rightarrow>
             (case ad_store d row of
                Inl e \<Rightarrow> (Some (errorf_w ''failed to insert audit log'' e), d)
              | Inr r \<Rightarrow> (None, d\<lparr>ad_rows := ad_rows d @ [r]\<rparr>)))"

text \<open>The WHERE clause that \<^verbatim>\<open>Query\<close> assembles: a condition for each filter that is set.\<close>

definition audit_match :: "AuditFilter \<Rightarrow> audit_row \<Rightarrow> bool" where
  "audit_match f r \<longleftrightarrow>
     (af_UserID f \<noteq> '''' \<longrightarrow> ar_UserID r = Some (af_UserID f)) \<and>
     (af_Action f \<noteq> '''' \<longrightarrow> ar_Action r = af_Action f) \<and>
     (af_Resource f \<noteq> '''' \<longrightarrow> ar_Resource r = af_Resource f) \<and>
     (af_ResourceID f \<noteq> '''' \<longrightarrow> ar_ResourceID r = af_ResourceID f) \<and>
     (case af_StartTime f of None \<Rightarrow> True | Some t \<Rightarrow> t \<le> ar_CreatedAt r) \<and>
     (case af_EndTime f of None \<Rightarrow> True | Some t \<Rightarrow> ar_CreatedAt r \<le> t)"

definition row_entry :: "audit_row \<Rightarrow> AuditEntry" where
  "row_entry r =
     (let str = (\<lambda>v. case v of Some s \<Rightarrow> s | None \<Rightarrow> '''')
      in \<lparr>ae_ID = ar_ID r, ae_UserID = str (ar_UserID r), ae_Action = ar_Action r, ae_Resource = ar_Resource r,
          ae_ResourceID = ar_ResourceID r, ae_OldValue = Option.bind (ar_OldValue r) parse_json,
          ae_NewValue = Option.bind (ar_NewValue r) parse_json, ae_Metadata = [], ae_IPAddress = str (ar_IPAddress r),
          ae_UserAgent = str (ar_UserAgent r), ae_Timestamp = ar_CreatedAt r\<rparr>)"

definition audit_limit :: "AuditFilter \<Rightarrow> int" where
  "audit_limit f = (if af_Limit f \<le> 0 then 50 else af_Limit f)"

definition pg_Query :: "AuditFilter \<Rightarrow> audit_db \<Rightarrow> (go_error + AuditEntry list) \<times> audit_db" where
  "pg_Query f d0 =
     (case audit_fault d0 of
        (Some e, d) \<Rightarrow> (Inl (errorf_w ''failed to query audit logs'' e), d)
      | (None, d) \<Rightarrow>
          (case ad_reject d f of
             Some e \<Rightarrow> (Inl (errorf_w ''failed to query audit logs'' e), d)
           | None \<Rightarrow>
               (Inr (map row_entry (take (nat (audit_limit f)) (rev (sort_key ar_CreatedAt (filter (audit_match f) (ad_rows d)))))), d)))"

definition PostgresAuditor :: "audit_db auditor" where
  "PostgresAuditor = \<lparr>au_Log = pg_Log, au_Query = pg_Query\<rparr>"

definition NoOpAuditor :: "'a auditor" where
  "NoOpAuditor = \<lparr>au_Log = (\<lambda>entry s. (None, s)), au_Query = (\<lambda>f s. (Inr [], s))\<rparr>"

section \<open>Lemmas\<close>

text \<open>The newest \<open>n\<close> of a list: at most \<open>n\<close>, newest first, none left out that is newer than one taken.\<close>

definition newest :: "nat \<Rightarrow> audit_row list \<Rightarrow> audit_row list" where
  "newest n rs = take n (rev (sort_key ar_CreatedAt rs))"

lemma newest_sorted: "sorted_wrt (\<lambda>a b. ar_CreatedAt b \<le> ar_CreatedAt a) (newest n rs)"
proof -
  have "sorted_wrt (\<lambda>a b. ar_CreatedAt a \<le> ar_CreatedAt b) (sort_key ar_CreatedAt rs)"
    using sorted_sort_key [of ar_CreatedAt rs] by (simp add: sorted_map)
  then have "sorted_wrt (\<lambda>a b. ar_CreatedAt b \<le> ar_CreatedAt a) (rev (sort_key ar_CreatedAt rs))" by (simp add: sorted_wrt_rev)
  then show ?thesis unfolding newest_def by (rule sorted_wrt_take)
qed

lemma newest_cut:
  assumes "r \<in> set rs" and "r \<notin> set (newest n rs)" and "q \<in> set (newest n rs)"
  shows "ar_CreatedAt r \<le> ar_CreatedAt q"
proof -
  let ?s = "rev (sort_key ar_CreatedAt rs)"
  have "sorted_wrt (\<lambda>a b. ar_CreatedAt b \<le> ar_CreatedAt a) (take n ?s @ drop n ?s)"
    using newest_sorted [of "length ?s" rs] by (simp add: newest_def)
  moreover have "r \<in> set (drop n ?s)"
    using assms(1,2) set_append [of "take n ?s" "drop n ?s"] by (simp add: newest_def)
  ultimately show ?thesis using assms(3) unfolding sorted_wrt_append newest_def by blast
qed

lemma newest_subset: "set (newest n rs) \<subseteq> set rs"
  unfolding newest_def by (auto dest!: in_set_takeD)

lemma newest_length: "length (newest n rs) \<le> n" "length (newest n rs) = min n (length rs)"
  by (simp_all add: newest_def)

lemma audit_fault_Nil [simp]: "ad_faults d = [] \<Longrightarrow> audit_fault d = (None, d)"
  by (simp add: audit_fault_def)

lemma pg_Query_newest:
  "ad_faults d = [] \<Longrightarrow> ad_reject d f = None \<Longrightarrow>
   pg_Query f d = (Inr (map row_entry (newest (nat (audit_limit f)) (filter (audit_match f) (ad_rows d)))), d)"
  by (simp add: pg_Query_def newest_def)

section \<open>Properties\<close>

text \<open>
  A query of the audit log is exact. On a database that executes it, the result has as many entries as the
  limit (50 by default) allows, newest first; it consists of stored rows that match every filter that is set; and a
  matching row that is left out is not newer than any row in the result.
\<close>

theorem audit_query_exact:
  assumes "ad_faults d = []" and "ad_reject d f = None"
  shows "\<exists>rs. pg_Query f d = (Inr (map row_entry rs), d) \<and>
    int (length rs) = min (audit_limit f) (int (length (filter (audit_match f) (ad_rows d)))) \<and>
    set rs \<subseteq> {r \<in> set (ad_rows d). audit_match f r} \<and>
    sorted_wrt (\<lambda>a b. ar_CreatedAt b \<le> ar_CreatedAt a) rs \<and>
    (\<forall>r \<in> set (ad_rows d). audit_match f r \<longrightarrow> r \<notin> set rs \<longrightarrow> (\<forall>q \<in> set rs. ar_CreatedAt r \<le> ar_CreatedAt q))"
proof (intro exI conjI)
  let ?all = "filter (audit_match f) (ad_rows d)" and ?n = "nat (audit_limit f)"
  show "pg_Query f d = (Inr (map row_entry (newest ?n ?all)), d)" by (rule pg_Query_newest [OF assms])
  show "int (length (newest ?n ?all)) = min (audit_limit f) (int (length ?all))"
    by (auto simp: newest_length(2) audit_limit_def min_def)
  show "set (newest ?n ?all) \<subseteq> {r \<in> set (ad_rows d). audit_match f r}" using newest_subset [of ?n ?all] by auto
  show "sorted_wrt (\<lambda>a b. ar_CreatedAt b \<le> ar_CreatedAt a) (newest ?n ?all)" by (rule newest_sorted)
  show "\<forall>r \<in> set (ad_rows d). audit_match f r \<longrightarrow> r \<notin> set (newest ?n ?all) \<longrightarrow>
      (\<forall>q \<in> set (newest ?n ?all). ar_CreatedAt r \<le> ar_CreatedAt q)"
    using newest_cut [of _ ?all ?n] by simp
qed

definition example_audit :: audit_db where
  "example_audit = \<lparr>ad_rows = [], ad_faults = [], ad_store = Inr, ad_fresh = (\<lambda>rs. itoa (int (length rs))), ad_reject = (\<lambda>f. None)\<rparr>"

definition any_filter :: AuditFilter where
  "any_filter = \<lparr>af_UserID = '''', af_Action = '''', af_Resource = '''', af_ResourceID = '''', af_StartTime = None,
     af_EndTime = None, af_Limit = 0, af_Cursor = ''''\<rparr>"

lemma audit_query_exact_witness:
  "\<exists>rs. pg_Query any_filter (snd (pg_Log (NewAuditEntry 5 (\<lambda>_. None) AuditActionLogin ''user'' ''u1'') example_audit))
      = (Inr (map row_entry rs), snd (pg_Log (NewAuditEntry 5 (\<lambda>_. None) AuditActionLogin ''user'' ''u1'') example_audit)) \<and>
      length rs = 1"
proof -
  let ?d = "snd (pg_Log (NewAuditEntry 5 (\<lambda>_. None) AuditActionLogin ''user'' ''u1'') example_audit)"
  have "ad_faults ?d = []" "ad_reject ?d any_filter = None" "length (ad_rows ?d) = 1"
    by (simp_all add: pg_Log_def example_audit_def Let_def)
  moreover have "audit_match any_filter r" for r by (simp add: audit_match_def any_filter_def)
  ultimately show ?thesis
    using audit_query_exact [of ?d any_filter] by (auto simp: audit_limit_def any_filter_def)
qed

end
