(* ===== verification/Config.thy ===== *)
theory Config
  imports Apperr Json
begin

text \<open>
  Configuration, \<^verbatim>\<open>src/internal/platform/config/config.go\<close>: the structs, loading them from the JSON file, the overrides from
  environment variables, and the checks made at startup. \<^verbatim>\<open>applyEnvOverrides\<close> walks the struct by reflection; here its
  loop body is one function per kind of field (\<open>env_string\<close>, \<open>env_int\<close>, \<open>env_bool\<close>, \<open>env_strings\<close>), applied to every
  field with its \<^verbatim>\<open>env\<close> tag, struct by struct. The environment (with the variables of a \<^verbatim>\<open>.env\<close> file already in it)
  maps a name to its value, the empty string when unset. A nil slice is the empty list. White space is trimmed as
  on ASCII strings.
\<close>

section \<open>Structs\<close>

record AppConfig =
  app_Name :: string
  app_Env :: string

record ServerConfig =
  srv_Host :: string
  srv_Port :: int
  srv_ReadTimeout :: int
  srv_WriteTimeout :: int
  srv_IdleTimeout :: int
  srv_TrustedProxies :: "string list"
  srv_ProxyHeader :: string

record DatabaseConfig =
  db_Host :: string
  db_Port :: int
  db_User :: string
  db_Password :: string
  db_Name :: string
  db_SSLMode :: string
  db_MaxOpenConns :: int
  db_MaxIdleConns :: int
  db_ConnMaxLifetime :: int

record JWTConfig =
  jwt_Secret :: string
  jwt_AccessTokenTTL :: int
  jwt_RefreshTokenTTL :: int
  jwt_Issuer :: string
  jwt_Audience :: string

record CORSConfig =
  cors_AllowOrigins :: string
  cors_AllowMethods :: string
  cors_AllowHeaders :: string
  cors_AllowCredentials :: bool

record RedisConfig =
  rds_Enabled :: bool
  rds_Host :: string
  rds_Port :: int
  rds_Password :: string
  rds_DB :: int

record RabbitMQConfig =
  rmq_Enabled :: bool
  rmq_URL :: string
  rmq_PrefetchCount :: int

record LocalStorage =
  lst_BasePath :: string

record S3Storage =
  s3_Endpoint :: string
  s3_Bucket :: string
  s3_Region :: string
  s3_AccessKey :: string
  s3_SecretKey :: string

record StorageConfig =
  stc_Mode :: string
  stc_Local :: LocalStorage
  stc_S3 :: S3Storage

record SSEConfig =
  ssec_Enabled :: bool

record AuditConfig =
  auc_Enabled :: bool

record AuthorizationConfig =
  azc_Enabled :: bool

record WorkerConfig =
  wkc_Enabled :: bool
  wkc_Concurrency :: int
  wkc_QueueName :: string
  wkc_Exchange :: string

record MetricsConfig =
  met_Enabled :: bool
  met_Port :: int

record TracingConfig =
  trc_Enabled :: bool
  trc_Endpoint :: string

record ObservabilityConfig =
  obs_Metrics :: MetricsConfig
  obs_Tracing :: TracingConfig

record EmailConfig =
  eml_Enabled :: bool
  eml_Host :: string
  eml_Port :: int
  eml_Username :: string
  eml_Password :: string
  eml_From :: string

record RateLimitSettings =
  rlc_Enabled :: bool
  rlc_Max :: int
  rlc_WindowSec :: int

record HealthConfig =
  hlc_ReadinessTimeoutSec :: int

record Config =
  cfg_App :: AppConfig
  cfg_Server :: ServerConfig
  cfg_Database :: DatabaseConfig
  cfg_JWT :: JWTConfig
  cfg_CORS :: CORSConfig
  cfg_Redis :: RedisConfig
  cfg_RabbitMQ :: RabbitMQConfig
  cfg_Storage :: StorageConfig
  cfg_SSE :: SSEConfig
  cfg_Audit :: AuditConfig
  cfg_Authorization :: AuthorizationConfig
  cfg_Worker :: WorkerConfig
  cfg_Observability :: ObservabilityConfig
  cfg_Email :: EmailConfig
  cfg_RateLimit :: RateLimitSettings
  cfg_Health :: HealthConfig

section \<open>Decoding the file\<close>

definition set_string :: "(string \<times> json) list \<Rightarrow> string \<Rightarrow> string \<Rightarrow> string option" where
  "set_string kvs name old = fold assign_string (field_values kvs name) (Some old)"

text \<open>An integer field takes a number literal that \<^verbatim>\<open>strconv.ParseInt\<close> accepts.\<close>

definition assign_int :: "json \<Rightarrow> int option \<Rightarrow> int option" where
  "assign_int v acc = (case v of JNum s \<Rightarrow> Option.bind acc (\<lambda>_. atoi s) | JNull \<Rightarrow> acc | _ \<Rightarrow> None)"

definition set_int :: "(string \<times> json) list \<Rightarrow> string \<Rightarrow> int \<Rightarrow> int option" where
  "set_int kvs name old = fold assign_int (field_values kvs name) (Some old)"

definition assign_bool :: "json \<Rightarrow> bool option \<Rightarrow> bool option" where
  "assign_bool v acc = (case v of JBool b \<Rightarrow> map_option (\<lambda>_. b) acc | JNull \<Rightarrow> acc | _ \<Rightarrow> None)"

definition set_bool :: "(string \<times> json) list \<Rightarrow> string \<Rightarrow> bool \<Rightarrow> bool option" where
  "set_bool kvs name old = fold assign_bool (field_values kvs name) (Some old)"

definition set_strings :: "(string \<times> json) list \<Rightarrow> string \<Rightarrow> string list \<Rightarrow> string list option" where
  "set_strings kvs name old =
     map_option (\<lambda>v. case v of None \<Rightarrow> [] | Some ss \<Rightarrow> ss) (fold assign_strings (field_values kvs name) (Some (Some old)))"

definition assign_struct :: "((string \<times> json) list \<Rightarrow> 'c \<Rightarrow> 'c option) \<Rightarrow> json \<Rightarrow> 'c option \<Rightarrow> 'c option" where
  "assign_struct dec v acc = (case v of JObj kvs \<Rightarrow> Option.bind acc (dec kvs) | JNull \<Rightarrow> acc | _ \<Rightarrow> None)"

definition set_struct ::
  "((string \<times> json) list \<Rightarrow> 'c \<Rightarrow> 'c option) \<Rightarrow> (string \<times> json) list \<Rightarrow> string \<Rightarrow> 'c \<Rightarrow> 'c option" where
  "set_struct dec kvs name old = fold (assign_struct dec) (field_values kvs name) (Some old)"

definition zero_AppConfig :: AppConfig where
  "zero_AppConfig = \<lparr>app_Name = '''', app_Env = ''''\<rparr>"

definition zero_ServerConfig :: ServerConfig where
  "zero_ServerConfig = \<lparr>srv_Host = '''', srv_Port = 0, srv_ReadTimeout = 0, srv_WriteTimeout = 0, srv_IdleTimeout = 0, srv_TrustedProxies = [], srv_ProxyHeader = ''''\<rparr>"

definition zero_DatabaseConfig :: DatabaseConfig where
  "zero_DatabaseConfig = \<lparr>db_Host = '''', db_Port = 0, db_User = '''', db_Password = '''', db_Name = '''', db_SSLMode = '''', db_MaxOpenConns = 0, db_MaxIdleConns = 0, db_ConnMaxLifetime = 0\<rparr>"

definition zero_JWTConfig :: JWTConfig where
  "zero_JWTConfig = \<lparr>jwt_Secret = '''', jwt_AccessTokenTTL = 0, jwt_RefreshTokenTTL = 0, jwt_Issuer = '''', jwt_Audience = ''''\<rparr>"

definition zero_CORSConfig :: CORSConfig where
  "zero_CORSConfig = \<lparr>cors_AllowOrigins = '''', cors_AllowMethods = '''', cors_AllowHeaders = '''', cors_AllowCredentials = False\<rparr>"

definition zero_RedisConfig :: RedisConfig where
  "zero_RedisConfig = \<lparr>rds_Enabled = False, rds_Host = '''', rds_Port = 0, rds_Password = '''', rds_DB = 0\<rparr>"

definition zero_RabbitMQConfig :: RabbitMQConfig where
  "zero_RabbitMQConfig = \<lparr>rmq_Enabled = False, rmq_URL = '''', rmq_PrefetchCount = 0\<rparr>"

definition zero_LocalStorage :: LocalStorage where
  "zero_LocalStorage = \<lparr>lst_BasePath = ''''\<rparr>"

definition zero_S3Storage :: S3Storage where
  "zero_S3Storage = \<lparr>s3_Endpoint = '''', s3_Bucket = '''', s3_Region = '''', s3_AccessKey = '''', s3_SecretKey = ''''\<rparr>"

definition zero_StorageConfig :: StorageConfig where
  "zero_StorageConfig = \<lparr>stc_Mode = '''', stc_Local = zero_LocalStorage, stc_S3 = zero_S3Storage\<rparr>"

definition zero_SSEConfig :: SSEConfig where
  "zero_SSEConfig = \<lparr>ssec_Enabled = False\<rparr>"

definition zero_AuditConfig :: AuditConfig where
  "zero_AuditConfig = \<lparr>auc_Enabled = False\<rparr>"

definition zero_AuthorizationConfig :: AuthorizationConfig where
  "zero_AuthorizationConfig = \<lparr>azc_Enabled = False\<rparr>"

definition zero_WorkerConfig :: WorkerConfig where
  "zero_WorkerConfig = \<lparr>wkc_Enabled = False, wkc_Concurrency = 0, wkc_QueueName = '''', wkc_Exchange = ''''\<rparr>"

definition zero_MetricsConfig :: MetricsConfig where
  "zero_MetricsConfig = \<lparr>met_Enabled = False, met_Port = 0\<rparr>"

definition zero_TracingConfig :: TracingConfig where
  "zero_TracingConfig = \<lparr>trc_Enabled = False, trc_Endpoint = ''''\<rparr>"

definition zero_ObservabilityConfig :: ObservabilityConfig where
  "zero_ObservabilityConfig = \<lparr>obs_Metrics = zero_MetricsConfig, obs_Tracing = zero_TracingConfig\<rparr>"

definition zero_EmailConfig :: EmailConfig where
  "zero_EmailConfig = \<lparr>eml_Enabled = False, eml_Host = '''', eml_Port = 0, eml_Username = '''', eml_Password = '''', eml_From = ''''\<rparr>"

definition zero_RateLimitSettings :: RateLimitSettings where
  "zero_RateLimitSettings = \<lparr>rlc_Enabled = False, rlc_Max = 0, rlc_WindowSec = 0\<rparr>"

definition zero_HealthConfig :: HealthConfig where
  "zero_HealthConfig = \<lparr>hlc_ReadinessTimeoutSec = 0\<rparr>"

definition zero_Config :: Config where
  "zero_Config = \<lparr>cfg_App = zero_AppConfig, cfg_Server = zero_ServerConfig, cfg_Database = zero_DatabaseConfig, cfg_JWT = zero_JWTConfig, cfg_CORS = zero_CORSConfig, cfg_Redis = zero_RedisConfig, cfg_RabbitMQ = zero_RabbitMQConfig, cfg_Storage = zero_StorageConfig, cfg_SSE = zero_SSEConfig, cfg_Audit = zero_AuditConfig, cfg_Authorization = zero_AuthorizationConfig, cfg_Worker = zero_WorkerConfig, cfg_Observability = zero_ObservabilityConfig, cfg_Email = zero_EmailConfig, cfg_RateLimit = zero_RateLimitSettings, cfg_Health = zero_HealthConfig\<rparr>"
definition dec_AppConfig :: "(string \<times> json) list \<Rightarrow> AppConfig \<Rightarrow> AppConfig option" where
  "dec_AppConfig kvs c =
     Option.bind (set_string kvs ''name'' (app_Name c)) (\<lambda>v0.
     Option.bind (set_string kvs ''env'' (app_Env c)) (\<lambda>v1.
     Some \<lparr>app_Name = v0, app_Env = v1\<rparr>))"

definition dec_ServerConfig :: "(string \<times> json) list \<Rightarrow> ServerConfig \<Rightarrow> ServerConfig option" where
  "dec_ServerConfig kvs c =
     Option.bind (set_string kvs ''host'' (srv_Host c)) (\<lambda>v0.
     Option.bind (set_int kvs ''port'' (srv_Port c)) (\<lambda>v1.
     Option.bind (set_int kvs ''read_timeout'' (srv_ReadTimeout c)) (\<lambda>v2.
     Option.bind (set_int kvs ''write_timeout'' (srv_WriteTimeout c)) (\<lambda>v3.
     Option.bind (set_int kvs ''idle_timeout'' (srv_IdleTimeout c)) (\<lambda>v4.
     Option.bind (set_strings kvs ''trusted_proxies'' (srv_TrustedProxies c)) (\<lambda>v5.
     Option.bind (set_string kvs ''proxy_header'' (srv_ProxyHeader c)) (\<lambda>v6.
     Some \<lparr>srv_Host = v0, srv_Port = v1, srv_ReadTimeout = v2, srv_WriteTimeout = v3, srv_IdleTimeout = v4,
          srv_TrustedProxies = v5, srv_ProxyHeader = v6\<rparr>)))))))"

definition dec_DatabaseConfig :: "(string \<times> json) list \<Rightarrow> DatabaseConfig \<Rightarrow> DatabaseConfig option" where
  "dec_DatabaseConfig kvs c =
     Option.bind (set_string kvs ''host'' (db_Host c)) (\<lambda>v0.
     Option.bind (set_int kvs ''port'' (db_Port c)) (\<lambda>v1.
     Option.bind (set_string kvs ''user'' (db_User c)) (\<lambda>v2.
     Option.bind (set_string kvs ''password'' (db_Password c)) (\<lambda>v3.
     Option.bind (set_string kvs ''name'' (db_Name c)) (\<lambda>v4.
     Option.bind (set_string kvs ''ssl_mode'' (db_SSLMode c)) (\<lambda>v5.
     Option.bind (set_int kvs ''max_open_conns'' (db_MaxOpenConns c)) (\<lambda>v6.
     Option.bind (set_int kvs ''max_idle_conns'' (db_MaxIdleConns c)) (\<lambda>v7.
     Option.bind (set_int kvs ''conn_max_lifetime'' (db_ConnMaxLifetime c)) (\<lambda>v8.
     Some \<lparr>db_Host = v0, db_Port = v1, db_User = v2, db_Password = v3, db_Name = v4, db_SSLMode = v5,
          db_MaxOpenConns = v6, db_MaxIdleConns = v7, db_ConnMaxLifetime = v8\<rparr>)))))))))"

definition dec_JWTConfig :: "(string \<times> json) list \<Rightarrow> JWTConfig \<Rightarrow> JWTConfig option" where
  "dec_JWTConfig kvs c =
     Option.bind (set_string kvs ''secret'' (jwt_Secret c)) (\<lambda>v0.
     Option.bind (set_int kvs ''access_token_ttl'' (jwt_AccessTokenTTL c)) (\<lambda>v1.
     Option.bind (set_int kvs ''refresh_token_ttl'' (jwt_RefreshTokenTTL c)) (\<lambda>v2.
     Option.bind (set_string kvs ''issuer'' (jwt_Issuer c)) (\<lambda>v3.
     Option.bind (set_string kvs ''audience'' (jwt_Audience c)) (\<lambda>v4.
     Some \<lparr>jwt_Secret = v0, jwt_AccessTokenTTL = v1, jwt_RefreshTokenTTL = v2, jwt_Issuer = v3, jwt_Audience = v4\<rparr>)))))"

definition dec_CORSConfig :: "(string \<times> json) list \<Rightarrow> CORSConfig \<Rightarrow> CORSConfig option" where
  "dec_CORSConfig kvs c =
     Option.bind (set_string kvs ''allow_origins'' (cors_AllowOrigins c)) (\<lambda>v0.
     Option.bind (set_string kvs ''allow_methods'' (cors_AllowMethods c)) (\<lambda>v1.
     Option.bind (set_string kvs ''allow_headers'' (cors_AllowHeaders c)) (\<lambda>v2.
     Option.bind (set_bool kvs ''allow_credentials'' (cors_AllowCredentials c)) (\<lambda>v3.
     Some \<lparr>cors_AllowOrigins = v0, cors_AllowMethods = v1, cors_AllowHeaders = v2, cors_AllowCredentials = v3\<rparr>))))"

definition dec_RedisConfig :: "(string \<times> json) list \<Rightarrow> RedisConfig \<Rightarrow> RedisConfig option" where
  "dec_RedisConfig kvs c =
     Option.bind (set_bool kvs ''enabled'' (rds_Enabled c)) (\<lambda>v0.
     Option.bind (set_string kvs ''host'' (rds_Host c)) (\<lambda>v1.
     Option.bind (set_int kvs ''port'' (rds_Port c)) (\<lambda>v2.
     Option.bind (set_string kvs ''password'' (rds_Password c)) (\<lambda>v3.
     Option.bind (set_int kvs ''db'' (rds_DB c)) (\<lambda>v4.
     Some \<lparr>rds_Enabled = v0, rds_Host = v1, rds_Port = v2, rds_Password = v3, rds_DB = v4\<rparr>)))))"

definition dec_RabbitMQConfig :: "(string \<times> json) list \<Rightarrow> RabbitMQConfig \<Rightarrow> RabbitMQConfig option" where
  "dec_RabbitMQConfig kvs c =
     Option.bind (set_bool kvs ''enabled'' (rmq_Enabled c)) (\<lambda>v0.
     Option.bind (set_string kvs ''url'' (rmq_URL c)) (\<lambda>v1.
     Option.bind (set_int kvs ''prefetch_count'' (rmq_PrefetchCount c)) (\<lambda>v2.
     Some \<lparr>rmq_Enabled = v0, rmq_URL = v1, rmq_PrefetchCount = v2\<rparr>)))"

definition dec_LocalStorage :: "(string \<times> json) list \<Rightarrow> LocalStorage \<Rightarrow> LocalStorage option" where
  "dec_LocalStorage kvs c =
     Option.bind (set_string kvs ''base_path'' (lst_BasePath c)) (\<lambda>v0.
     Some \<lparr>lst_BasePath = v0\<rparr>)"

definition dec_S3Storage :: "(string \<times> json) list \<Rightarrow> S3Storage \<Rightarrow> S3Storage option" where
  "dec_S3Storage kvs c =
     Option.bind (set_string kvs ''endpoint'' (s3_Endpoint c)) (\<lambda>v0.
     Option.bind (set_string kvs ''bucket'' (s3_Bucket c)) (\<lambda>v1.
     Option.bind (set_string kvs ''region'' (s3_Region c)) (\<lambda>v2.
     Option.bind (set_string kvs ''access_key'' (s3_AccessKey c)) (\<lambda>v3.
     Option.bind (set_string kvs ''secret_key'' (s3_SecretKey c)) (\<lambda>v4.
     Some \<lparr>s3_Endpoint = v0, s3_Bucket = v1, s3_Region = v2, s3_AccessKey = v3, s3_SecretKey = v4\<rparr>)))))"

definition dec_StorageConfig :: "(string \<times> json) list \<Rightarrow> StorageConfig \<Rightarrow> StorageConfig option" where
  "dec_StorageConfig kvs c =
     Option.bind (set_string kvs ''mode'' (stc_Mode c)) (\<lambda>v0.
     Option.bind (set_struct dec_LocalStorage kvs ''local'' (stc_Local c)) (\<lambda>v1.
     Option.bind (set_struct dec_S3Storage kvs ''s3'' (stc_S3 c)) (\<lambda>v2.
     Some \<lparr>stc_Mode = v0, stc_Local = v1, stc_S3 = v2\<rparr>)))"

definition dec_SSEConfig :: "(string \<times> json) list \<Rightarrow> SSEConfig \<Rightarrow> SSEConfig option" where
  "dec_SSEConfig kvs c =
     Option.bind (set_bool kvs ''enabled'' (ssec_Enabled c)) (\<lambda>v0.
     Some \<lparr>ssec_Enabled = v0\<rparr>)"

definition dec_AuditConfig :: "(string \<times> json) list \<Rightarrow> AuditConfig \<Rightarrow> AuditConfig option" where
  "dec_AuditConfig kvs c =
     Option.bind (set_bool kvs ''enabled'' (auc_Enabled c)) (\<lambda>v0.
     Some \<lparr>auc_Enabled = v0\<rparr>)"

definition dec_AuthorizationConfig :: "(string \<times> json) list \<Rightarrow> AuthorizationConfig \<Rightarrow> AuthorizationConfig option" where
  "dec_AuthorizationConfig kvs c =
     Option.bind (set_bool kvs ''enabled'' (azc_Enabled c)) (\<lambda>v0.
     Some \<lparr>azc_Enabled = v0\<rparr>)"

definition dec_WorkerConfig :: "(string \<times> json) list \<Rightarrow> WorkerConfig \<Rightarrow> WorkerConfig option" where
  "dec_WorkerConfig kvs c =
     Option.bind (set_bool kvs ''enabled'' (wkc_Enabled c)) (\<lambda>v0.
     Option.bind (set_int kvs ''concurrency'' (wkc_Concurrency c)) (\<lambda>v1.
     Option.bind (set_string kvs ''queue_name'' (wkc_QueueName c)) (\<lambda>v2.
     Option.bind (set_string kvs ''exchange'' (wkc_Exchange c)) (\<lambda>v3.
     Some \<lparr>wkc_Enabled = v0, wkc_Concurrency = v1, wkc_QueueName = v2, wkc_Exchange = v3\<rparr>))))"

definition dec_MetricsConfig :: "(string \<times> json) list \<Rightarrow> MetricsConfig \<Rightarrow> MetricsConfig option" where
  "dec_MetricsConfig kvs c =
     Option.bind (set_bool kvs ''enabled'' (met_Enabled c)) (\<lambda>v0.
     Option.bind (set_int kvs ''port'' (met_Port c)) (\<lambda>v1.
     Some \<lparr>met_Enabled = v0, met_Port = v1\<rparr>))"

definition dec_TracingConfig :: "(string \<times> json) list \<Rightarrow> TracingConfig \<Rightarrow> TracingConfig option" where
  "dec_TracingConfig kvs c =
     Option.bind (set_bool kvs ''enabled'' (trc_Enabled c)) (\<lambda>v0.
     Option.bind (set_string kvs ''endpoint'' (trc_Endpoint c)) (\<lambda>v1.
     Some \<lparr>trc_Enabled = v0, trc_Endpoint = v1\<rparr>))"

definition dec_ObservabilityConfig :: "(string \<times> json) list \<Rightarrow> ObservabilityConfig \<Rightarrow> ObservabilityConfig option" where
  "dec_ObservabilityConfig kvs c =
     Option.bind (set_struct dec_MetricsConfig kvs ''metrics'' (obs_Metrics c)) (\<lambda>v0.
     Option.bind (set_struct dec_TracingConfig kvs ''tracing'' (obs_Tracing c)) (\<lambda>v1.
     Some \<lparr>obs_Metrics = v0, obs_Tracing = v1\<rparr>))"

definition dec_EmailConfig :: "(string \<times> json) list \<Rightarrow> EmailConfig \<Rightarrow> EmailConfig option" where
  "dec_EmailConfig kvs c =
     Option.bind (set_bool kvs ''enabled'' (eml_Enabled c)) (\<lambda>v0.
     Option.bind (set_string kvs ''host'' (eml_Host c)) (\<lambda>v1.
     Option.bind (set_int kvs ''port'' (eml_Port c)) (\<lambda>v2.
     Option.bind (set_string kvs ''username'' (eml_Username c)) (\<lambda>v3.
     Option.bind (set_string kvs ''password'' (eml_Password c)) (\<lambda>v4.
     Option.bind (set_string kvs ''from'' (eml_From c)) (\<lambda>v5.
     Some \<lparr>eml_Enabled = v0, eml_Host = v1, eml_Port = v2, eml_Username = v3, eml_Password = v4, eml_From = v5\<rparr>))))))"

definition dec_RateLimitSettings :: "(string \<times> json) list \<Rightarrow> RateLimitSettings \<Rightarrow> RateLimitSettings option" where
  "dec_RateLimitSettings kvs c =
     Option.bind (set_bool kvs ''enabled'' (rlc_Enabled c)) (\<lambda>v0.
     Option.bind (set_int kvs ''max'' (rlc_Max c)) (\<lambda>v1.
     Option.bind (set_int kvs ''window_sec'' (rlc_WindowSec c)) (\<lambda>v2.
     Some \<lparr>rlc_Enabled = v0, rlc_Max = v1, rlc_WindowSec = v2\<rparr>)))"

definition dec_HealthConfig :: "(string \<times> json) list \<Rightarrow> HealthConfig \<Rightarrow> HealthConfig option" where
  "dec_HealthConfig kvs c =
     Option.bind (set_int kvs ''readiness_timeout_sec'' (hlc_ReadinessTimeoutSec c)) (\<lambda>v0.
     Some \<lparr>hlc_ReadinessTimeoutSec = v0\<rparr>)"

definition dec_Config :: "(string \<times> json) list \<Rightarrow> Config \<Rightarrow> Config option" where
  "dec_Config kvs c =
     Option.bind (set_struct dec_AppConfig kvs ''app'' (cfg_App c)) (\<lambda>v0.
     Option.bind (set_struct dec_ServerConfig kvs ''server'' (cfg_Server c)) (\<lambda>v1.
     Option.bind (set_struct dec_DatabaseConfig kvs ''database'' (cfg_Database c)) (\<lambda>v2.
     Option.bind (set_struct dec_JWTConfig kvs ''jwt'' (cfg_JWT c)) (\<lambda>v3.
     Option.bind (set_struct dec_CORSConfig kvs ''cors'' (cfg_CORS c)) (\<lambda>v4.
     Option.bind (set_struct dec_RedisConfig kvs ''redis'' (cfg_Redis c)) (\<lambda>v5.
     Option.bind (set_struct dec_RabbitMQConfig kvs ''rabbitmq'' (cfg_RabbitMQ c)) (\<lambda>v6.
     Option.bind (set_struct dec_StorageConfig kvs ''storage'' (cfg_Storage c)) (\<lambda>v7.
     Option.bind (set_struct dec_SSEConfig kvs ''sse'' (cfg_SSE c)) (\<lambda>v8.
     Option.bind (set_struct dec_AuditConfig kvs ''audit'' (cfg_Audit c)) (\<lambda>v9.
     Option.bind (set_struct dec_AuthorizationConfig kvs ''authorization'' (cfg_Authorization c)) (\<lambda>v10.
     Option.bind (set_struct dec_WorkerConfig kvs ''worker'' (cfg_Worker c)) (\<lambda>v11.
     Option.bind (set_struct dec_ObservabilityConfig kvs ''observability'' (cfg_Observability c)) (\<lambda>v12.
     Option.bind (set_struct dec_EmailConfig kvs ''email'' (cfg_Email c)) (\<lambda>v13.
     Option.bind (set_struct dec_RateLimitSettings kvs ''rate_limit'' (cfg_RateLimit c)) (\<lambda>v14.
     Option.bind (set_struct dec_HealthConfig kvs ''health'' (cfg_Health c)) (\<lambda>v15.
     Some \<lparr>cfg_App = v0, cfg_Server = v1, cfg_Database = v2, cfg_JWT = v3, cfg_CORS = v4, cfg_Redis = v5,
          cfg_RabbitMQ = v6, cfg_Storage = v7, cfg_SSE = v8, cfg_Audit = v9, cfg_Authorization = v10,
          cfg_Worker = v11, cfg_Observability = v12, cfg_Email = v13, cfg_RateLimit = v14, cfg_Health = v15\<rparr>))))))))))))))))"

section \<open>Environment overrides\<close>

type_synonym env = "string \<Rightarrow> string"

definition env_string :: "env \<Rightarrow> string \<Rightarrow> string \<Rightarrow> string" where
  "env_string env tag old = (if env tag = '''' then old else env tag)"

definition env_int :: "env \<Rightarrow> string \<Rightarrow> int \<Rightarrow> int" where
  "env_int env tag old =
     (if env tag = '''' then old else (case atoi (env tag) of Some i \<Rightarrow> i | None \<Rightarrow> old))"

definition env_bool :: "env \<Rightarrow> string \<Rightarrow> bool \<Rightarrow> bool" where
  "env_bool env tag old = (if env tag = '''' then old else to_lower (env tag) = ''true'' \<or> env tag = ''1'')"

definition env_strings :: "env \<Rightarrow> string \<Rightarrow> string list \<Rightarrow> string list" where
  "env_strings env tag old =
     (if env tag = '''' then old
      else filter (\<lambda>v. v \<noteq> '''') (map trim_space (split_on (CHR '','') (env tag))))"

definition env_AppConfig :: "env \<Rightarrow> AppConfig \<Rightarrow> AppConfig" where
  "env_AppConfig env c = c\<lparr>app_Name := env_string env ''APP_NAME'' (app_Name c), app_Env := env_string env ''APP_ENV'' (app_Env c)\<rparr>"

definition env_ServerConfig :: "env \<Rightarrow> ServerConfig \<Rightarrow> ServerConfig" where
  "env_ServerConfig env c = c\<lparr>srv_Host := env_string env ''SERVER_HOST'' (srv_Host c), srv_Port := env_int env ''SERVER_PORT'' (srv_Port c),
     srv_ReadTimeout := env_int env ''SERVER_READ_TIMEOUT'' (srv_ReadTimeout c),
     srv_WriteTimeout := env_int env ''SERVER_WRITE_TIMEOUT'' (srv_WriteTimeout c),
     srv_IdleTimeout := env_int env ''SERVER_IDLE_TIMEOUT'' (srv_IdleTimeout c),
     srv_TrustedProxies := env_strings env ''SERVER_TRUSTED_PROXIES'' (srv_TrustedProxies c),
     srv_ProxyHeader := env_string env ''SERVER_PROXY_HEADER'' (srv_ProxyHeader c)\<rparr>"

definition env_DatabaseConfig :: "env \<Rightarrow> DatabaseConfig \<Rightarrow> DatabaseConfig" where
  "env_DatabaseConfig env c = c\<lparr>db_Host := env_string env ''DB_HOST'' (db_Host c), db_Port := env_int env ''DB_PORT'' (db_Port c),
     db_User := env_string env ''DB_USER'' (db_User c),
     db_Password := env_string env ''DB_PASSWORD'' (db_Password c),
     db_Name := env_string env ''DB_NAME'' (db_Name c), db_SSLMode := env_string env ''DB_SSL_MODE'' (db_SSLMode c),
     db_MaxOpenConns := env_int env ''DB_MAX_OPEN_CONNS'' (db_MaxOpenConns c),
     db_MaxIdleConns := env_int env ''DB_MAX_IDLE_CONNS'' (db_MaxIdleConns c),
     db_ConnMaxLifetime := env_int env ''DB_CONN_MAX_LIFETIME'' (db_ConnMaxLifetime c)\<rparr>"

definition env_JWTConfig :: "env \<Rightarrow> JWTConfig \<Rightarrow> JWTConfig" where
  "env_JWTConfig env c = c\<lparr>jwt_Secret := env_string env ''JWT_SECRET'' (jwt_Secret c),
     jwt_AccessTokenTTL := env_int env ''JWT_ACCESS_TOKEN_TTL'' (jwt_AccessTokenTTL c),
     jwt_RefreshTokenTTL := env_int env ''JWT_REFRESH_TOKEN_TTL'' (jwt_RefreshTokenTTL c),
     jwt_Issuer := env_string env ''JWT_ISSUER'' (jwt_Issuer c),
     jwt_Audience := env_string env ''JWT_AUDIENCE'' (jwt_Audience c)\<rparr>"

definition env_CORSConfig :: "env \<Rightarrow> CORSConfig \<Rightarrow> CORSConfig" where
  "env_CORSConfig env c = c\<lparr>cors_AllowOrigins := env_string env ''CORS_ALLOW_ORIGINS'' (cors_AllowOrigins c),
     cors_AllowMethods := env_string env ''CORS_ALLOW_METHODS'' (cors_AllowMethods c),
     cors_AllowHeaders := env_string env ''CORS_ALLOW_HEADERS'' (cors_AllowHeaders c),
     cors_AllowCredentials := env_bool env ''CORS_ALLOW_CREDENTIALS'' (cors_AllowCredentials c)\<rparr>"

definition env_RedisConfig :: "env \<Rightarrow> RedisConfig \<Rightarrow> RedisConfig" where
  "env_RedisConfig env c = c\<lparr>rds_Enabled := env_bool env ''REDIS_ENABLED'' (rds_Enabled c),
     rds_Host := env_string env ''REDIS_HOST'' (rds_Host c), rds_Port := env_int env ''REDIS_PORT'' (rds_Port c),
     rds_Password := env_string env ''REDIS_PASSWORD'' (rds_Password c), rds_DB := env_int env ''REDIS_DB'' (rds_DB c)\<rparr>"

definition env_RabbitMQConfig :: "env \<Rightarrow> RabbitMQConfig \<Rightarrow> RabbitMQConfig" where
  "env_RabbitMQConfig env c = c\<lparr>rmq_Enabled := env_bool env ''RABBITMQ_ENABLED'' (rmq_Enabled c),
     rmq_URL := env_string env ''RABBITMQ_URL'' (rmq_URL c),
     rmq_PrefetchCount := env_int env ''RABBITMQ_PREFETCH_COUNT'' (rmq_PrefetchCount c)\<rparr>"

definition env_LocalStorage :: "env \<Rightarrow> LocalStorage \<Rightarrow> LocalStorage" where
  "env_LocalStorage env c = c\<lparr>lst_BasePath := env_string env ''STORAGE_LOCAL_PATH'' (lst_BasePath c)\<rparr>"

definition env_S3Storage :: "env \<Rightarrow> S3Storage \<Rightarrow> S3Storage" where
  "env_S3Storage env c = c\<lparr>s3_Endpoint := env_string env ''S3_ENDPOINT'' (s3_Endpoint c),
     s3_Bucket := env_string env ''S3_BUCKET'' (s3_Bucket c),
     s3_Region := env_string env ''S3_REGION'' (s3_Region c),
     s3_AccessKey := env_string env ''S3_ACCESS_KEY'' (s3_AccessKey c),
     s3_SecretKey := env_string env ''S3_SECRET_KEY'' (s3_SecretKey c)\<rparr>"

definition env_StorageConfig :: "env \<Rightarrow> StorageConfig \<Rightarrow> StorageConfig" where
  "env_StorageConfig env c = c\<lparr>stc_Mode := env_string env ''STORAGE_MODE'' (stc_Mode c), stc_Local := env_LocalStorage env (stc_Local c),
     stc_S3 := env_S3Storage env (stc_S3 c)\<rparr>"

definition env_SSEConfig :: "env \<Rightarrow> SSEConfig \<Rightarrow> SSEConfig" where
  "env_SSEConfig env c = c\<lparr>ssec_Enabled := env_bool env ''SSE_ENABLED'' (ssec_Enabled c)\<rparr>"

definition env_AuditConfig :: "env \<Rightarrow> AuditConfig \<Rightarrow> AuditConfig" where
  "env_AuditConfig env c = c\<lparr>auc_Enabled := env_bool env ''AUDIT_ENABLED'' (auc_Enabled c)\<rparr>"

definition env_AuthorizationConfig :: "env \<Rightarrow> AuthorizationConfig \<Rightarrow> AuthorizationConfig" where
  "env_AuthorizationConfig env c = c\<lparr>azc_Enabled := env_bool env ''AUTHORIZATION_ENABLED'' (azc_Enabled c)\<rparr>"

definition env_WorkerConfig :: "env \<Rightarrow> WorkerConfig \<Rightarrow> WorkerConfig" where
  "env_WorkerConfig env c = c\<lparr>wkc_Enabled := env_bool env ''WORKER_ENABLED'' (wkc_Enabled c),
     wkc_Concurrency := env_int env ''WORKER_CONCURRENCY'' (wkc_Concurrency c),
     wkc_QueueName := env_string env ''WORKER_QUEUE_NAME'' (wkc_QueueName c),
     wkc_Exchange := env_string env ''WORKER_EXCHANGE'' (wkc_Exchange c)\<rparr>"

definition env_MetricsConfig :: "env \<Rightarrow> MetricsConfig \<Rightarrow> MetricsConfig" where
  "env_MetricsConfig env c = c\<lparr>met_Enabled := env_bool env ''METRICS_ENABLED'' (met_Enabled c),
     met_Port := env_int env ''METRICS_PORT'' (met_Port c)\<rparr>"

definition env_TracingConfig :: "env \<Rightarrow> TracingConfig \<Rightarrow> TracingConfig" where
  "env_TracingConfig env c = c\<lparr>trc_Enabled := env_bool env ''TRACING_ENABLED'' (trc_Enabled c),
     trc_Endpoint := env_string env ''TRACING_ENDPOINT'' (trc_Endpoint c)\<rparr>"

definition env_ObservabilityConfig :: "env \<Rightarrow> ObservabilityConfig \<Rightarrow> ObservabilityConfig" where
  "env_ObservabilityConfig env c = c\<lparr>obs_Metrics := env_MetricsConfig env (obs_Metrics c), obs_Tracing := env_TracingConfig env (obs_Tracing c)\<rparr>"

definition env_EmailConfig :: "env \<Rightarrow> EmailConfig \<Rightarrow> EmailConfig" where
  "env_EmailConfig env c = c\<lparr>eml_Enabled := env_bool env ''EMAIL_ENABLED'' (eml_Enabled c),
     eml_Host := env_string env ''EMAIL_HOST'' (eml_Host c), eml_Port := env_int env ''EMAIL_PORT'' (eml_Port c),
     eml_Username := env_string env ''EMAIL_USERNAME'' (eml_Username c),
     eml_Password := env_string env ''EMAIL_PASSWORD'' (eml_Password c),
     eml_From := env_string env ''EMAIL_FROM'' (eml_From c)\<rparr>"

definition env_RateLimitSettings :: "env \<Rightarrow> RateLimitSettings \<Rightarrow> RateLimitSettings" where
  "env_RateLimitSettings env c = c\<lparr>rlc_Enabled := env_bool env ''RATE_LIMIT_ENABLED'' (rlc_Enabled c),
     rlc_Max := env_int env ''RATE_LIMIT_MAX'' (rlc_Max c),
     rlc_WindowSec := env_int env ''RATE_LIMIT_WINDOW_SEC'' (rlc_WindowSec c)\<rparr>"

definition env_HealthConfig :: "env \<Rightarrow> HealthConfig \<Rightarrow> HealthConfig" where
  "env_HealthConfig env c = c\<lparr>hlc_ReadinessTimeoutSec := env_int env ''HEALTH_READINESS_TIMEOUT_SEC'' (hlc_ReadinessTimeoutSec c)\<rparr>"

definition env_Config :: "env \<Rightarrow> Config \<Rightarrow> Config" where
  "env_Config env c = c\<lparr>cfg_App := env_AppConfig env (cfg_App c), cfg_Server := env_ServerConfig env (cfg_Server c),
     cfg_Database := env_DatabaseConfig env (cfg_Database c), cfg_JWT := env_JWTConfig env (cfg_JWT c),
     cfg_CORS := env_CORSConfig env (cfg_CORS c), cfg_Redis := env_RedisConfig env (cfg_Redis c),
     cfg_RabbitMQ := env_RabbitMQConfig env (cfg_RabbitMQ c), cfg_Storage := env_StorageConfig env (cfg_Storage c),
     cfg_SSE := env_SSEConfig env (cfg_SSE c), cfg_Audit := env_AuditConfig env (cfg_Audit c),
     cfg_Authorization := env_AuthorizationConfig env (cfg_Authorization c),
     cfg_Worker := env_WorkerConfig env (cfg_Worker c),
     cfg_Observability := env_ObservabilityConfig env (cfg_Observability c),
     cfg_Email := env_EmailConfig env (cfg_Email c), cfg_RateLimit := env_RateLimitSettings env (cfg_RateLimit c),
     cfg_Health := env_HealthConfig env (cfg_Health c)\<rparr>"

text \<open>\<^verbatim>\<open>Load\<close>; the file system is an argument.\<close>

definition Load :: "env \<Rightarrow> (string \<Rightarrow> go_error + string) \<Rightarrow> string \<Rightarrow> go_error + Config" where
  "Load env readFile path =
     (case readFile path of
        Inl e \<Rightarrow> Inl (errorf_w ''failed to read config file'' e)
      | Inr data \<Rightarrow>
          (case Option.bind (parse_json data) (\<lambda>v. assign_struct dec_Config v (Some zero_Config)) of
             None \<Rightarrow> Inl (errorf_w ''failed to parse config file'' (ErrText ''invalid json''))
           | Some cfg \<Rightarrow> Inr (env_Config env cfg)))"

section \<open>Methods\<close>

definition DSN :: "DatabaseConfig \<Rightarrow> string" where
  "DSN c = ''postgres://'' @ db_User c @ '':'' @ db_Password c @ ''@'' @ db_Host c @ '':'' @ itoa (db_Port c) @ ''/'' @
     db_Name c @ ''?sslmode='' @ db_SSLMode c"

definition AccessTokenDuration :: "JWTConfig \<Rightarrow> int" where
  "AccessTokenDuration c = int64 (jwt_AccessTokenTTL c * minute)"

definition RefreshTokenDuration :: "JWTConfig \<Rightarrow> int" where
  "RefreshTokenDuration c = int64 (jwt_RefreshTokenTTL c * minute)"

definition redis_Addr :: "RedisConfig \<Rightarrow> string" where
  "redis_Addr c = rds_Host c @ '':'' @ itoa (rds_Port c)"

definition ReadinessTimeout :: "HealthConfig \<Rightarrow> int" where
  "ReadinessTimeout c =
     (if hlc_ReadinessTimeoutSec c \<le> 0 then 2 * second else int64 (hlc_ReadinessTimeoutSec c * second))"

definition PlaceholderJWTSecret :: string where
  "PlaceholderJWTSecret = ''your-super-secret-key-change-in-production''"

definition MinJWTSecretLen :: nat where "MinJWTSecretLen = 32"

definition config_Validate :: "Config \<Rightarrow> go_error option" where
  "config_Validate c =
     (let secret = jwt_Secret (cfg_JWT c); minLen = itoa (int MinJWTSecretLen) in
      if secret = '''' then
        Some (ErrText (''jwt.secret is required: set the JWT_SECRET env override to a value of at least '' @ minLen @ '' bytes''))
      else if secret = PlaceholderJWTSecret then
        Some (ErrText (''jwt.secret is the committed placeholder '' @ quote PlaceholderJWTSecret @
          '': set the JWT_SECRET env override to a real value of at least '' @ minLen @ '' bytes''))
      else if length secret < MinJWTSecretLen then
        Some (ErrText (''jwt.secret is '' @ itoa (int (length secret)) @ '' bytes; minimum is '' @ minLen @
          '': set the JWT_SECRET env override to a longer value''))
      else if jwt_Issuer (cfg_JWT c) = '''' then
        Some (ErrText (''jwt.issuer is required: set JWT_ISSUER to the service identifier (e.g. '' @ quote ''goscratch'' @ '')''))
      else if jwt_Audience (cfg_JWT c) = '''' then
        Some (ErrText (''jwt.audience is required: set JWT_AUDIENCE to the expected audience (e.g. '' @ quote ''goscratch-api'' @ '')''))
      else None)"

definition IsDevelopment :: "Config \<Rightarrow> bool" where
  "IsDevelopment c \<longleftrightarrow> app_Env (cfg_App c) = ''development''"

definition IsProduction :: "Config \<Rightarrow> bool" where
  "IsProduction c \<longleftrightarrow> app_Env (cfg_App c) = ''production''"

section \<open>Lemmas\<close>

lemmas env_kinds = env_string_def env_int_def env_bool_def env_strings_def

lemma env_kind_unset [simp]:
  "env_string (\<lambda>_. '''') t v = v" "env_int (\<lambda>_. '''') t i = i" "env_bool (\<lambda>_. '''') t b = b" "env_strings (\<lambda>_. '''') t vs = vs"
  by (simp_all add: env_kinds)

lemma env_kind_twice [simp]:
  "env_string env t (env_string env t v) = env_string env t v" "env_int env t (env_int env t i) = env_int env t i"
  "env_bool env t (env_bool env t b) = env_bool env t b" "env_strings env t (env_strings env t vs) = env_strings env t vs"
  by (simp_all add: env_kinds split: option.split)

lemmas env_structs = env_AppConfig_def env_ServerConfig_def env_DatabaseConfig_def env_JWTConfig_def env_CORSConfig_def
  env_RedisConfig_def env_RabbitMQConfig_def env_LocalStorage_def env_S3Storage_def env_StorageConfig_def env_SSEConfig_def
  env_AuditConfig_def env_AuthorizationConfig_def env_WorkerConfig_def env_MetricsConfig_def env_TracingConfig_def
  env_ObservabilityConfig_def env_EmailConfig_def env_RateLimitSettings_def env_HealthConfig_def env_Config_def

lemma env_Config_unset: "env_Config (\<lambda>_. '''') c = c"
  by (simp add: env_structs)

lemma env_Config_twice: "env_Config env (env_Config env c) = env_Config env c"
  by (simp add: env_structs)

lemma env_Config_secret: "jwt_Secret (cfg_JWT (env_Config env c)) = env_string env ''JWT_SECRET'' (jwt_Secret (cfg_JWT c))"
  by (simp add: env_structs)

lemma config_Validate_None:
  "config_Validate c = None \<longleftrightarrow>
     MinJWTSecretLen \<le> length (jwt_Secret (cfg_JWT c)) \<and> jwt_Secret (cfg_JWT c) \<noteq> PlaceholderJWTSecret \<and>
     jwt_Issuer (cfg_JWT c) \<noteq> '''' \<and> jwt_Audience (cfg_JWT c) \<noteq> ''''"
  by (auto simp: config_Validate_def Let_def MinJWTSecretLen_def)

section \<open>Properties\<close>

text \<open>
  A service that starts has a real secret. When loading succeeds and the startup check accepts the result, the
  signing secret has at least 32 bytes, is not the committed placeholder, and is the value of \<^verbatim>\<open>JWT_SECRET\<close> whenever that
  variable is set, whatever the file says; issuer and audience are not empty.
\<close>

theorem startup_config_secure:
  assumes "Load env readFile path = Inr cfg" and "config_Validate cfg = None"
  shows "32 \<le> length (jwt_Secret (cfg_JWT cfg)) \<and> jwt_Secret (cfg_JWT cfg) \<noteq> PlaceholderJWTSecret \<and>
    jwt_Issuer (cfg_JWT cfg) \<noteq> '''' \<and> jwt_Audience (cfg_JWT cfg) \<noteq> '''' \<and>
    (env ''JWT_SECRET'' \<noteq> '''' \<longrightarrow> jwt_Secret (cfg_JWT cfg) = env ''JWT_SECRET'')"
proof -
  from assms(1) obtain c where "cfg = env_Config env c" by (auto simp: Load_def split: sum.splits option.splits)
  with assms(2) show ?thesis
    by (auto simp: config_Validate_None MinJWTSecretLen_def env_Config_secret env_string_def split: if_splits)
qed

definition example_file :: string where
  "example_file = print_json (JObj [(''jwt'', JObj [(''secret'', JStr PlaceholderJWTSecret), (''issuer'', JStr ''goscratch''),
     (''audience'', JStr ''goscratch-api''), (''access_token_ttl'', JNum ''15'')])])"

definition example_env :: env where
  "example_env tag = (if tag = ''JWT_SECRET'' then ''0123456789abcdef0123456789abcdef'' else '''')"

lemma startup_config_secure_witness:
  "\<exists>cfg. Load example_env (\<lambda>_. Inr example_file) ''config.json'' = Inr cfg \<and> config_Validate cfg = None \<and>
     jwt_Secret (cfg_JWT cfg) = ''0123456789abcdef0123456789abcdef'' \<and> jwt_AccessTokenTTL (cfg_JWT cfg) = 15"
proof -
  have "case Load example_env (\<lambda>_. Inr example_file) ''config.json'' of
      Inr cfg \<Rightarrow> config_Validate cfg = None \<and> jwt_AccessTokenTTL (cfg_JWT cfg) = 15 | Inl e \<Rightarrow> False"
    by code_simp
  then obtain cfg where cfg: "Load example_env (\<lambda>_. Inr example_file) ''config.json'' = Inr cfg" "config_Validate cfg = None"
      "jwt_AccessTokenTTL (cfg_JWT cfg) = 15"
    by (auto split: sum.splits)
  with startup_config_secure [OF cfg(1,2)] show ?thesis by (simp add: example_env_def)
qed

text \<open>
  The overrides are a well-behaved layer over the file: with no variable set the configuration is the file's,
  and applying the overrides again changes nothing (a variable that is not a number leaves an integer field alone).
\<close>

theorem env_overrides_layer: "env_Config (\<lambda>_. '''') c = c \<and> env_Config env (env_Config env c) = env_Config env c"
  by (simp add: env_Config_unset env_Config_twice)

text \<open>
  Token lifetimes do not overflow up to 153722867 minutes: the duration is then exactly the configured number of
  minutes and positive. One minute more wraps around to a negative duration.
\<close>

theorem token_duration_bounds:
  assumes "0 < jwt_RefreshTokenTTL c" and "0 < jwt_AccessTokenTTL c"
  shows "(jwt_RefreshTokenTTL c \<le> 153722867 \<longrightarrow>
      RefreshTokenDuration c = jwt_RefreshTokenTTL c * minute \<and> 0 < RefreshTokenDuration c) \<and>
    (jwt_AccessTokenTTL c \<le> 153722867 \<longrightarrow>
      AccessTokenDuration c = jwt_AccessTokenTTL c * minute \<and> 0 < AccessTokenDuration c) \<and>
    RefreshTokenDuration (c\<lparr>jwt_RefreshTokenTTL := 153722868\<rparr>) < 0"
  using assms by (auto simp: RefreshTokenDuration_def AccessTokenDuration_def int64_def)

lemma token_duration_bounds_witness:
  "RefreshTokenDuration (zero_JWTConfig\<lparr>jwt_RefreshTokenTTL := 10080, jwt_AccessTokenTTL := 15\<rparr>) = 10080 * minute"
  using token_duration_bounds [of "zero_JWTConfig\<lparr>jwt_RefreshTokenTTL := 10080, jwt_AccessTokenTTL := 15\<rparr>"] by simp

end
