(* ===== verification/Auth_Usecase.thy ===== *)
theory Auth_Usecase
  imports Config Users Cache_Port Middleware_Auth Rate_Limit Crypto Audit_Log Validator
begin

text \<open>
  The auth module: \<^verbatim>\<open>src/internal/module/auth/usecase/auth_usecase.go\<close>, its audit decorator \<^verbatim>\<open>audit_decorator.go\<close>, the handlers
  \<^verbatim>\<open>src/internal/module/auth/handler/auth_handler.go\<close>, the DTOs and the routes of \<^verbatim>\<open>src/internal/module/auth/module.go\<close>.

  A refresh token is opaque to the server; two cache keys stand for a session, the lookup key
  \<^verbatim>\<open>refresh:tok:<hash>\<close> holding the user id and the index key \<^verbatim>\<open>refresh:user:<id>:<hash>\<close>, where the hash is the hexadecimal
  SHA-256 of the token. The operations run on the cache state, the user repository's state and the auditor's state.
  The libraries bcrypt, JWT and UUID are the record \<open>libs\<close>; the random bytes and the clock are arguments, and the
  clock reads the same within one operation.

  The specification is a store of sessions, a partial map from token hashes to the user and the expiry time. The
  lemmas in the context of \<open>kv_store\<close> show that the operations implement it over any cache with the laws of that
  locale.
\<close>

section \<open>Libraries and interfaces\<close>

record bcrypt_api =
  bc_Compare :: "string \<Rightarrow> string \<Rightarrow> go_error option"
  bc_Generate :: "string \<Rightarrow> string \<Rightarrow> go_error + string"

text \<open>The second argument of \<open>bc_Generate\<close> is the random salt.\<close>

record libs =
  lib_bcrypt :: bcrypt_api
  lib_jwt :: jwt_api
  lib_uuid :: uuid_api

record 'd UserRepo =
  ur_GetByEmail :: "string \<Rightarrow> 'd \<Rightarrow> (go_error + User) \<times> 'd"
  ur_GetByID :: "string \<Rightarrow> 'd \<Rightarrow> (go_error + User) \<times> 'd"

definition repository_lookup :: "uuid_api \<Rightarrow> pg UserRepo" where
  "repository_lookup U = \<lparr>ur_GetByEmail = repo_GetByEmail, ur_GetByID = repo_GetByID U\<rparr>"

record ('s, 'd) authUseCase =
  uc_userRepo :: "'d UserRepo"
  uc_cache :: "'s cache_port"
  uc_jwtCfg :: JWTConfig

section \<open>Requests and responses\<close>

record LoginRequest =
  lr_Email :: string
  lr_Password :: string

record LoginResponse =
  lo_AccessToken :: string
  lo_RefreshToken :: string
  lo_ExpiresIn :: int
  lo_TokenType :: string
  lo_UserID :: string

record RefreshRequest =
  rr_RefreshToken :: string

record RefreshResponse =
  re_AccessToken :: string
  re_RefreshToken :: string
  re_ExpiresIn :: int
  re_TokenType :: string

record LogoutRequest =
  lq_RefreshToken :: string

definition login_json :: "LoginResponse \<Rightarrow> json" where
  "login_json r = JObj [(''access_token'', JStr (lo_AccessToken r)), (''refresh_token'', JStr (lo_RefreshToken r)),
     (''expires_in'', JNum (itoa (lo_ExpiresIn r))), (''token_type'', JStr (lo_TokenType r))]"

definition refresh_json :: "RefreshResponse \<Rightarrow> json" where
  "refresh_json r = JObj [(''access_token'', JStr (re_AccessToken r)), (''refresh_token'', JStr (re_RefreshToken r)),
     (''expires_in'', JNum (itoa (re_ExpiresIn r))), (''token_type'', JStr (re_TokenType r))]"

section \<open>Use case\<close>

definition tokenHash :: "string \<Rightarrow> string" where
  "tokenHash token = hex_encode (sha256 token)"

definition tokLookupKey :: "string \<Rightarrow> string" where
  "tokLookupKey token = ''refresh:tok:'' @ tokenHash token"

definition userIdxKey :: "string \<Rightarrow> string \<Rightarrow> string" where
  "userIdxKey userID token = ''refresh:user:'' @ userID @ '':'' @ tokenHash token"

definition generateAccessToken ::
  "libs \<Rightarrow> JWTConfig \<Rightarrow> go_time \<Rightarrow> string \<Rightarrow> string \<Rightarrow> string \<Rightarrow> go_error + string" where
  "generateAccessToken L cfg now userID email name =
     (let jwt = lib_jwt L;
          cl = \<lparr>jc_Subject = userID, jc_Issuer = jwt_Issuer cfg, jc_Audience = [jwt_Audience cfg],
                jc_ExpiresAt = Some (jwt_date jwt (now + AccessTokenDuration cfg)), jc_IssuedAt = Some (jwt_date jwt now),
                jc_NotBefore = Some (jwt_date jwt now), jc_UserID = userID, jc_Email = email, jc_Name = name\<rparr>
      in jwt_sign jwt (jwt_Secret cfg) cl)"

text \<open>The outcome of reading 32 random bytes is the argument.\<close>

definition generateRefreshToken :: "go_error + string \<Rightarrow> go_error + string" where
  "generateRefreshToken rnd = (case rnd of Inl e \<Rightarrow> Inl e | Inr bs \<Rightarrow> Inr (b64_encode bs))"

definition bad_credentials :: go_error where
  "bad_credentials = WithMessage ErrUnauthorized ''Invalid email or password''"

definition bad_refresh :: go_error where
  "bad_refresh = WithMessage ErrUnauthorized ''Invalid or expired refresh token''"

definition cache_down :: go_error where
  "cache_down = Internalf ''auth: cache unavailable, cannot issue refresh token''"

text \<open>The two writes of a session, with the best-effort removal of the first key when the second write fails.\<close>

definition store_session ::
  "'s cache_port \<Rightarrow> go_time \<Rightarrow> int \<Rightarrow> string \<Rightarrow> string \<Rightarrow> 's \<Rightarrow> go_error option \<times> 's" where
  "store_session ca now ttl userID token s =
     (case ca_Set ca now (tokLookupKey token) userID ttl s of
        (Some _, s1) \<Rightarrow> (Some cache_down, s1)
      | (None, s1) \<Rightarrow>
          (case ca_Set ca now (userIdxKey userID token) ''1'' ttl s1 of
             (Some _, s2) \<Rightarrow> (Some cache_down, snd (ca_Delete ca now (tokLookupKey token) s2))
           | (None, s2) \<Rightarrow> (None, s2)))"

definition Login ::
  "libs \<Rightarrow> ('s, 'd) authUseCase \<Rightarrow> go_time \<Rightarrow> go_error + string \<Rightarrow> LoginRequest \<Rightarrow> 's \<times> 'd \<Rightarrow>
   (go_error + LoginResponse) \<times> 's \<times> 'd" where
  "Login L uc now rnd req w =
     (case w of (s, d) \<Rightarrow>
      case ur_GetByEmail (uc_userRepo uc) (lr_Email req) d of
        (Inl _, d1) \<Rightarrow> (Inl bad_credentials, s, d1)
      | (Inr user, d1) \<Rightarrow>
          if bc_Compare (lib_bcrypt L) (us_PasswordHash user) (lr_Password req) \<noteq> None then (Inl bad_credentials, s, d1)
          else
            (let userID = uu_String (lib_uuid L) (us_ID user) in
             case generateAccessToken L (uc_jwtCfg uc) now userID (us_Email user) (us_Name user) of
               Inl _ \<Rightarrow> (Inl (Internalf ''failed to generate access token''), s, d1)
             | Inr accessToken \<Rightarrow>
                 (case generateRefreshToken rnd of
                    Inl _ \<Rightarrow> (Inl (Internalf ''failed to generate refresh token''), s, d1)
                  | Inr refreshToken \<Rightarrow>
                      (case store_session (uc_cache uc) now (RefreshTokenDuration (uc_jwtCfg uc)) userID refreshToken s of
                         (Some e, s1) \<Rightarrow> (Inl e, s1, d1)
                       | (None, s1) \<Rightarrow>
                           (Inr \<lparr>lo_AccessToken = accessToken, lo_RefreshToken = refreshToken,
                                 lo_ExpiresIn = int64 (jwt_AccessTokenTTL (uc_jwtCfg uc) * 60), lo_TokenType = ''Bearer'',
                                 lo_UserID = userID\<rparr>, s1, d1)))))"

definition Refresh ::
  "libs \<Rightarrow> ('s, 'd) authUseCase \<Rightarrow> go_time \<Rightarrow> go_error + string \<Rightarrow> RefreshRequest \<Rightarrow> 's \<times> 'd \<Rightarrow>
   (go_error + RefreshResponse) \<times> 's \<times> 'd" where
  "Refresh L uc now rnd req w =
     (case w of (s, d) \<Rightarrow>
      let cache = uc_cache uc; token = rr_RefreshToken req in
      case ca_Get cache now (tokLookupKey token) s of
        Inl _ \<Rightarrow> (Inl bad_refresh, s, d)
      | Inr userID \<Rightarrow>
          (case ca_Get cache now (userIdxKey userID token) s of
             Inl _ \<Rightarrow> (Inl bad_refresh, s, d)
           | Inr _ \<Rightarrow>
               (case ur_GetByID (uc_userRepo uc) userID d of
                  (Inl _, d1) \<Rightarrow> (Inl (WithMessage ErrUnauthorized ''User not found''), s, d1)
                | (Inr user, d1) \<Rightarrow>
                    (let s1 = snd (ca_Delete cache now (tokLookupKey token) s);
                         s2 = snd (ca_Delete cache now (userIdxKey userID token) s1);
                         newID = uu_String (lib_uuid L) (us_ID user)
                     in case generateAccessToken L (uc_jwtCfg uc) now newID (us_Email user) (us_Name user) of
                          Inl _ \<Rightarrow> (Inl (Internalf ''failed to generate access token''), s2, d1)
                        | Inr accessToken \<Rightarrow>
                            (case generateRefreshToken rnd of
                               Inl _ \<Rightarrow> (Inl (Internalf ''failed to generate refresh token''), s2, d1)
                             | Inr newToken \<Rightarrow>
                                 (case store_session cache now (RefreshTokenDuration (uc_jwtCfg uc)) newID newToken s2 of
                                    (Some e, s3) \<Rightarrow> (Inl e, s3, d1)
                                  | (None, s3) \<Rightarrow>
                                      (Inr \<lparr>re_AccessToken = accessToken, re_RefreshToken = newToken,
                                            re_ExpiresIn = int64 (jwt_AccessTokenTTL (uc_jwtCfg uc) * 60),
                                            re_TokenType = ''Bearer''\<rparr>, s3, d1)))))))"

definition Logout ::
  "('s, 'd) authUseCase \<Rightarrow> go_time \<Rightarrow> string \<Rightarrow> string \<Rightarrow> 's \<Rightarrow> go_error option \<times> 's" where
  "Logout uc now callerID refreshToken s =
     (let cache = uc_cache uc in
      case ca_Get cache now (tokLookupKey refreshToken) s of
        Inl _ \<Rightarrow> (None, s)
      | Inr storedUserID \<Rightarrow>
          if storedUserID \<noteq> callerID then (None, s)
          else (let s1 = snd (ca_Delete cache now (tokLookupKey refreshToken) s)
                in (None, snd (ca_Delete cache now (userIdxKey callerID refreshToken) s1))))"

definition RevokeAllForUser :: "('s, 'd) authUseCase \<Rightarrow> go_time \<Rightarrow> string \<Rightarrow> 's \<Rightarrow> go_error option \<times> 's" where
  "RevokeAllForUser uc now userID s = ca_DeleteByPrefix (uc_cache uc) now (''refresh:user:'' @ userID @ '':'') s"

section \<open>Audit decorator\<close>

definition classifyLoginFailure :: "go_error \<Rightarrow> string" where
  "classifyLoginFailure err =
     (case AsAppError err of
        Some ae \<Rightarrow>
          if Code ae = CodeUnauthorized then ''invalid_credentials''
          else if Code ae = CodeForbidden then ''user_inactive'' else ''unknown''
      | None \<Rightarrow> ''unknown'')"

definition audited_Login ::
  "libs \<Rightarrow> ('s, 'd) authUseCase \<Rightarrow> 'a auditor \<Rightarrow> go_time \<Rightarrow> go_context \<Rightarrow> go_error + string \<Rightarrow> LoginRequest \<Rightarrow>
   's \<times> 'd \<times> 'a \<Rightarrow> (go_error + LoginResponse) \<times> 's \<times> 'd \<times> 'a" where
  "audited_Login L uc au now ctx rnd req w =
     (case w of (s, d, a) \<Rightarrow>
      case Login L uc now rnd req (s, d) of
        (Inl err, s', d') \<Rightarrow>
          (let entry = (NewAuditEntry now ctx AuditActionLogin ''user'' (lr_Email req))
                 \<lparr>ae_Metadata := [(''outcome'', JStr ''failed''), (''reason'', JStr (classifyLoginFailure err))]\<rparr>
           in (Inl err, s', d', snd (au_Log au entry a)))
      | (Inr resp, s', d') \<Rightarrow>
          (let entry = (NewAuditEntry now ctx AuditActionLogin ''user'' (lo_UserID resp))
                 \<lparr>ae_Metadata := [(''outcome'', JStr ''success'')]\<rparr>
           in (Inr resp, s', d', snd (au_Log au entry a))))"

definition audited_Refresh ::
  "libs \<Rightarrow> ('s, 'd) authUseCase \<Rightarrow> go_time \<Rightarrow> go_error + string \<Rightarrow> RefreshRequest \<Rightarrow>
   's \<times> 'd \<times> 'a \<Rightarrow> (go_error + RefreshResponse) \<times> 's \<times> 'd \<times> 'a" where
  "audited_Refresh L uc now rnd req w =
     (case w of (s, d, a) \<Rightarrow> case Refresh L uc now rnd req (s, d) of (r, s', d') \<Rightarrow> (r, s', d', a))"

definition audited_Logout ::
  "('s, 'd) authUseCase \<Rightarrow> 'a auditor \<Rightarrow> go_time \<Rightarrow> go_context \<Rightarrow> string \<Rightarrow> string \<Rightarrow>
   's \<times> 'd \<times> 'a \<Rightarrow> go_error option \<times> 's \<times> 'd \<times> 'a" where
  "audited_Logout uc au now ctx callerID token w =
     (case w of (s, d, a) \<Rightarrow>
      case Logout uc now callerID token s of
        (Some err, s') \<Rightarrow> (Some err, s', d, a)
      | (None, s') \<Rightarrow> (None, s', d, snd (au_Log au (NewAuditEntry now ctx AuditActionLogout ''user'' callerID) a)))"

section \<open>Handlers and routes\<close>

text \<open>What a handler needs besides the request: the libraries, the wired use case and the request bindings.\<close>

record ('s, 'd, 'a) auth_module =
  am_libs :: libs
  am_uc :: "('s, 'd) authUseCase"
  am_auditor :: "'a auditor"
  am_policy :: "string \<Rightarrow> string"
  am_login :: "LoginRequest binding"
  am_refresh :: "RefreshRequest binding"
  am_logout :: "LogoutRequest binding"

definition handler_Login :: "('s, 'd, 'a) auth_module \<Rightarrow> go_time \<Rightarrow> go_error + string \<Rightarrow> ('s \<times> 'd \<times> 'a) handler" where
  "handler_Login m now rnd w c =
     bound (ValidateAndBind (am_policy m) (am_login m) c)
       (\<lambda>req w c. case audited_Login (am_libs m) (am_uc m) (am_auditor m) now (user_ctx c) rnd req w of
          (Inl err, w') \<Rightarrow> with_state w' (Fail c err)
        | (Inr result, w') \<Rightarrow> with_state w' (Success c (login_json result))) w c"

definition handler_Refresh :: "('s, 'd, 'a) auth_module \<Rightarrow> go_time \<Rightarrow> go_error + string \<Rightarrow> ('s \<times> 'd \<times> 'a) handler" where
  "handler_Refresh m now rnd w c =
     bound (ValidateAndBind (am_policy m) (am_refresh m) c)
       (\<lambda>req w c. case audited_Refresh (am_libs m) (am_uc m) now rnd req w of
          (Inl err, w') \<Rightarrow> with_state w' (Fail c err)
        | (Inr result, w') \<Rightarrow> with_state w' (Success c (refresh_json result))) w c"

definition handler_Logout :: "('s, 'd, 'a) auth_module \<Rightarrow> go_time \<Rightarrow> ('s \<times> 'd \<times> 'a) handler" where
  "handler_Logout m now w c =
     (let callerID = GetUserID c in
      if callerID = '''' then with_state w (Unauthorized c ''Missing or invalid token'')
      else bound (ValidateAndBind (am_policy m) (am_logout m) c)
        (\<lambda>req w c. case audited_Logout (am_uc m) (am_auditor m) now (user_ctx c) callerID (lq_RefreshToken req) w of
           (Some err, w') \<Rightarrow> with_state w' (Fail c err)
         | (None, w') \<Rightarrow> with_state w' (resp_Message c ''Logged out successfully'')) w c)"

text \<open>
  The routes. The limiter of \<^verbatim>\<open>/login\<close> and \<^verbatim>\<open>/refresh\<close> uses the cache, which is never nil, so the backend is the Redis
  one; its state is the cache state.
\<close>

definition auth_rate_limit :: RateLimitConfig where
  "auth_rate_limit = \<lparr>rl_Max = 20, rl_Window = 5 * minute, rl_FailClosed = True\<rparr>"

definition route_login :: "('s, 'd, 'a) auth_module \<Rightarrow> go_time \<Rightarrow> go_error + string \<Rightarrow> ('s \<times> 'd \<times> 'a) handler" where
  "route_login m now rnd = RateLimit now auth_rate_limit None (redis_Allow (uc_cache (am_uc m))) (handler_Login m now rnd)"

definition route_refresh :: "('s, 'd, 'a) auth_module \<Rightarrow> go_time \<Rightarrow> go_error + string \<Rightarrow> ('s \<times> 'd \<times> 'a) handler" where
  "route_refresh m now rnd = RateLimit now auth_rate_limit None (redis_Allow (uc_cache (am_uc m))) (handler_Refresh m now rnd)"

definition route_logout :: "('s, 'd, 'a) auth_module \<Rightarrow> go_time \<Rightarrow> ('s \<times> 'd \<times> 'a) handler" where
  "route_logout m now =
     Auth (lib_jwt (am_libs m)) now (DefaultAuthConfig (jwt_Secret (uc_jwtCfg (am_uc m)))) (handler_Logout m now)"

section \<open>The specification: a store of sessions\<close>

text \<open>A session store maps the hash of a refresh token to the user and the time at which the session ends.\<close>

type_synonym sessions = "string \<Rightarrow> (string \<times> go_time) option"

definition session_at :: "sessions \<Rightarrow> go_time \<Rightarrow> string \<Rightarrow> string option" where
  "session_at A t h = (case A h of Some (uid, ex) \<Rightarrow> if t < ex then Some uid else None | None \<Rightarrow> None)"

definition spec_Login ::
  "libs \<Rightarrow> ('s, 'd) authUseCase \<Rightarrow> go_time \<Rightarrow> go_error + string \<Rightarrow> LoginRequest \<Rightarrow> sessions \<times> 'd \<Rightarrow>
   (go_error + LoginResponse) \<times> sessions \<times> 'd" where
  "spec_Login L uc now rnd req w =
     (case w of (A, d) \<Rightarrow>
      case ur_GetByEmail (uc_userRepo uc) (lr_Email req) d of
        (Inl _, d1) \<Rightarrow> (Inl bad_credentials, A, d1)
      | (Inr user, d1) \<Rightarrow>
          if bc_Compare (lib_bcrypt L) (us_PasswordHash user) (lr_Password req) \<noteq> None then (Inl bad_credentials, A, d1)
          else
            (let userID = uu_String (lib_uuid L) (us_ID user) in
             case generateAccessToken L (uc_jwtCfg uc) now userID (us_Email user) (us_Name user) of
               Inl _ \<Rightarrow> (Inl (Internalf ''failed to generate access token''), A, d1)
             | Inr accessToken \<Rightarrow>
                 (case generateRefreshToken rnd of
                    Inl _ \<Rightarrow> (Inl (Internalf ''failed to generate refresh token''), A, d1)
                  | Inr refreshToken \<Rightarrow>
                      (Inr \<lparr>lo_AccessToken = accessToken, lo_RefreshToken = refreshToken,
                            lo_ExpiresIn = int64 (jwt_AccessTokenTTL (uc_jwtCfg uc) * 60), lo_TokenType = ''Bearer'',
                            lo_UserID = userID\<rparr>,
                       A(tokenHash refreshToken \<mapsto> (userID, now + RefreshTokenDuration (uc_jwtCfg uc))), d1))))"

definition spec_Refresh ::
  "libs \<Rightarrow> ('s, 'd) authUseCase \<Rightarrow> go_time \<Rightarrow> go_error + string \<Rightarrow> RefreshRequest \<Rightarrow> sessions \<times> 'd \<Rightarrow>
   (go_error + RefreshResponse) \<times> sessions \<times> 'd" where
  "spec_Refresh L uc now rnd req w =
     (case w of (A, d) \<Rightarrow>
      let h = tokenHash (rr_RefreshToken req) in
      case session_at A now h of
        None \<Rightarrow> (Inl bad_refresh, A, d)
      | Some userID \<Rightarrow>
          (case ur_GetByID (uc_userRepo uc) userID d of
             (Inl _, d1) \<Rightarrow> (Inl (WithMessage ErrUnauthorized ''User not found''), A, d1)
           | (Inr user, d1) \<Rightarrow>
               (let A1 = A(h := None); newID = uu_String (lib_uuid L) (us_ID user)
                in case generateAccessToken L (uc_jwtCfg uc) now newID (us_Email user) (us_Name user) of
                     Inl _ \<Rightarrow> (Inl (Internalf ''failed to generate access token''), A1, d1)
                   | Inr accessToken \<Rightarrow>
                       (case generateRefreshToken rnd of
                          Inl _ \<Rightarrow> (Inl (Internalf ''failed to generate refresh token''), A1, d1)
                        | Inr newToken \<Rightarrow>
                            (Inr \<lparr>re_AccessToken = accessToken, re_RefreshToken = newToken,
                                  re_ExpiresIn = int64 (jwt_AccessTokenTTL (uc_jwtCfg uc) * 60), re_TokenType = ''Bearer''\<rparr>,
                             A1(tokenHash newToken \<mapsto> (newID, now + RefreshTokenDuration (uc_jwtCfg uc))), d1)))))"

definition spec_Logout :: "go_time \<Rightarrow> string \<Rightarrow> string \<Rightarrow> sessions \<Rightarrow> sessions" where
  "spec_Logout now callerID token A =
     (if session_at A now (tokenHash token) = Some callerID then A(tokenHash token := None) else A)"

definition spec_Revoke :: "string \<Rightarrow> sessions \<Rightarrow> sessions" where
  "spec_Revoke userID A h = (case A h of Some (uid, ex) \<Rightarrow> if uid = userID then None else Some (uid, ex) | None \<Rightarrow> None)"

section \<open>Sessions in the key space\<close>

definition tokk :: "string \<Rightarrow> string" where "tokk h = ''refresh:tok:'' @ h"
definition idxk :: "string \<Rightarrow> string \<Rightarrow> string" where "idxk uid h = ''refresh:user:'' @ uid @ '':'' @ h"
definition userp :: "string \<Rightarrow> string" where "userp uid = ''refresh:user:'' @ uid @ '':''"

lemma key_forms [simp]: "tokLookupKey t = tokk (tokenHash t)" "userIdxKey u t = idxk u (tokenHash t)"
  "RevokeAllForUser uc now u s = ca_DeleteByPrefix (uc_cache uc) now (userp u) s"
  by (simp_all add: tokLookupKey_def userIdxKey_def tokk_def idxk_def userp_def RevokeAllForUser_def)

lemma tokk_simps [simp]: "tokk h = tokk h' \<longleftrightarrow> h = h'" "tokk h \<noteq> idxk u h'" "idxk u h' \<noteq> tokk h"
  by (simp_all add: tokk_def idxk_def)

text \<open>The session that a view of the key space holds for a hash: both keys have to be there.\<close>

definition session_of :: "(string \<Rightarrow> string option) \<Rightarrow> string \<Rightarrow> string option" where
  "session_of v h =
     (case v (tokk h) of None \<Rightarrow> None | Some uid \<Rightarrow> if v (idxk uid h) = None then None else Some uid)"

definition colon_free :: "string \<Rightarrow> bool" where "colon_free u \<longleftrightarrow> CHR '':'' \<notin> set u"

lemma idxk_inj: "length h = length h' \<Longrightarrow> idxk u h = idxk u' h' \<longleftrightarrow> u = u' \<and> h = h'"
  by (auto simp: idxk_def)

lemma session_of_put:
  assumes "\<And>k. v' k = (if k = idxk uid h then i else if k = tokk h then j else v k)"
    and "length h = length h'"
  shows "h' \<noteq> h \<Longrightarrow> session_of v' h' = session_of v h'"
    and "i = (if b then Some x else None) \<Longrightarrow> j = (if b then Some uid else None) \<Longrightarrow>
      session_of v' h = (if b then Some uid else None)"
    and "i = None \<Longrightarrow> j = None \<Longrightarrow> session_of v' h' = (if h' = h then None else session_of v h')"
  using assms(2) idxk_inj [of h h'] idxk_inj [of h' h] by (auto simp: session_of_def assms(1) split: option.split)

lemma split_at_colon: "colon_free u \<Longrightarrow> colon_free u' \<Longrightarrow> u' @ CHR '':'' # h = u @ CHR '':'' # r \<Longrightarrow> u' = u"
proof (induction u arbitrary: u')
  case Nil
  then show ?case by (cases u') (auto simp: colon_free_def)
next
  case (Cons c u)
  then show ?case by (cases u') (auto simp: colon_free_def)
qed

lemma has_prefix_idxk:
  assumes "colon_free u" and "colon_free u'"
  shows "has_prefix (idxk u' h) (userp u) \<longleftrightarrow> u' = u"
  using split_at_colon [OF assms, of h] by (auto simp: has_prefix_iff idxk_def userp_def)

lemma session_of_revoke:
  assumes "\<And>k. v' k = (if has_prefix k (userp uid) then None else v k)" and "colon_free uid"
    and "\<And>u. session_of v h = Some u \<Longrightarrow> colon_free u"
  shows "session_of v' h = (case session_of v h of Some u \<Rightarrow> if u = uid then None else Some u | None \<Rightarrow> None)"
proof -
  have t: "\<not> has_prefix (tokk h) (userp uid)" by (simp add: has_prefix_def tokk_def userp_def)
  show ?thesis
  proof (cases "session_of v h")
    case None
    then show ?thesis using t by (auto simp: session_of_def assms(1) split: option.splits if_splits)
  next
    case (Some u)
    with has_prefix_idxk [OF assms(2) assms(3) [OF Some]] t show ?thesis
      by (auto simp: session_of_def assms(1) split: option.splits if_splits)
  qed
qed

lemma tokenHash_length [simp]: "length (tokenHash t) = 64"
  by (simp add: tokenHash_def hex_encode_length sha256_length)

lemma refresh_keys: "has_prefix (tokk h) ''refresh:''" "has_prefix (idxk u h) ''refresh:''"
  by (simp_all add: has_prefix_def tokk_def idxk_def)

section \<open>The use case implements the session store\<close>

locale session_cache = kv_store cache live ok skey + uuid_lib U
  for cache :: "'s cache_port" and live :: "'s \<Rightarrow> go_time \<Rightarrow> string \<Rightarrow> string option" and ok :: "'s \<Rightarrow> bool"
    and skey :: "string \<Rightarrow> bool" and U :: uuid_api +
  assumes refresh_skey: "has_prefix k ''refresh:'' \<Longrightarrow> skey k"
begin

definition rel :: "sessions \<Rightarrow> 's \<Rightarrow> go_time \<Rightarrow> bool" where
  "rel A s now \<longleftrightarrow> ok s \<and> (\<forall>h t. length h = 64 \<longrightarrow> now \<le> t \<longrightarrow> session_of (live s t) h = session_at A t h) \<and>
     (\<forall>h uid ex. A h = Some (uid, ex) \<longrightarrow> colon_free uid)"

lemma rel_later: "rel A s now \<Longrightarrow> now \<le> now' \<Longrightarrow> rel A s now'"
  by (auto simp: rel_def)

lemma text_colon_free: "colon_free (uu_String U i)"
  using colon_free [of i] by (simp add: colon_free_def)

lemma get_tok: "ok s \<Longrightarrow> ca_Get cache now (tokk h) s = (case live s now (tokk h) of None \<Rightarrow> Inl ErrCacheMiss | Some v \<Rightarrow> Inr v)"
  by (rule kv_get) (auto intro: refresh_skey refresh_keys)

lemma get_idx: "ok s \<Longrightarrow> ca_Get cache now (idxk u h) s = (case live s now (idxk u h) of None \<Rightarrow> Inl ErrCacheMiss | Some v \<Rightarrow> Inr v)"
  by (rule kv_get) (auto intro: refresh_skey refresh_keys)

lemma store_session_effect:
  assumes "ok s" and "0 < ttl"
  obtains s' where "store_session cache now ttl uid tok s = (None, s')" "ok s'"
    "\<And>t k. now \<le> t \<Longrightarrow> live s' t k =
      (if k = idxk uid (tokenHash tok) then (if t < now + ttl then Some ''1'' else None)
       else if k = tokk (tokenHash tok) then (if t < now + ttl then Some uid else None) else live s t k)"
proof -
  let ?h = "tokenHash tok"
  obtain e1 s1 where 1: "ca_Set cache now (tokk ?h) uid ttl s = (e1, s1)" by fastforce
  have k1: "skey (tokk ?h)" "skey (idxk uid ?h)" by (auto intro: refresh_skey refresh_keys)
  have s1: "e1 = None" "ok s1" "\<And>t k. now \<le> t \<Longrightarrow> live s1 t k = (if k = tokk ?h then (if t < now + ttl then Some uid else None) else live s t k)"
    using kv_set [OF assms(1) k1(1) assms(2), of now uid] 1 by auto
  obtain e2 s2 where 2: "ca_Set cache now (idxk uid ?h) ''1'' ttl s1 = (e2, s2)" by fastforce
  have s2: "e2 = None" "ok s2" "\<And>t k. now \<le> t \<Longrightarrow> live s2 t k = (if k = idxk uid ?h then (if t < now + ttl then Some ''1'' else None) else live s1 t k)"
    using kv_set [OF s1(2) k1(2) assms(2), of now "''1''"] 2 by auto
  have "store_session cache now ttl uid tok s = (None, s2)"
    using 1 2 s1(1) s2(1) by (simp add: store_session_def)
  then show thesis
    by (rule that) (use s1 s2 in simp_all)
qed

lemma rel_put:
  assumes "rel A s now" and "0 < ttl" and "colon_free uid"
  obtains s' where "store_session cache now ttl uid tok s = (None, s')" "rel (A(tokenHash tok \<mapsto> (uid, now + ttl))) s' now"
proof -
  let ?h = "tokenHash tok"
  have "ok s" using assms(1) by (simp add: rel_def)
  then obtain s' where s': "store_session cache now ttl uid tok s = (None, s')" "ok s'"
    "\<And>t k. now \<le> t \<Longrightarrow> live s' t k =
      (if k = idxk uid ?h then (if t < now + ttl then Some ''1'' else None)
       else if k = tokk ?h then (if t < now + ttl then Some uid else None) else live s t k)"
    using store_session_effect [OF _ assms(2), of s now uid tok] by blast
  have "session_of (live s' t) h = session_at (A(?h \<mapsto> (uid, now + ttl))) t h" if "length h = 64" "now \<le> t" for h t
  proof (cases "h = ?h")
    case True
    have "session_of (live s' t) ?h = (if t < now + ttl then Some uid else None)"
      by (rule session_of_put(2) [where h' = ?h, OF s'(3) [OF that(2)]]) simp_all
    then show ?thesis using True by (simp add: session_at_def)
  next
    case False
    have "session_of (live s' t) h = session_of (live s t) h"
      by (rule session_of_put(1) [where h = ?h, OF s'(3) [OF that(2)]]) (use False that in simp_all)
    then show ?thesis using assms(1) that False by (simp add: rel_def session_at_def)
  qed
  then have "rel (A(?h \<mapsto> (uid, now + ttl))) s' now"
    using s'(2) assms(1,3) by (auto simp: rel_def)
  with s'(1) show thesis by (rule that)
qed

lemma rel_drop:
  assumes "rel A s now"
  shows "rel (A(tokenHash tok := None))
    (snd (ca_Delete cache now (userIdxKey uid tok) (snd (ca_Delete cache now (tokLookupKey tok) s)))) now"
proof -
  let ?h = "tokenHash tok" and ?s1 = "snd (ca_Delete cache now (tokLookupKey tok) s)"
  let ?s2 = "snd (ca_Delete cache now (userIdxKey uid tok) ?s1)"
  have ok: "ok s" "ok ?s1" "ok ?s2" using assms kv_delete by (auto simp: rel_def)
  have v: "live ?s2 t k = (if k = idxk uid ?h then None else if k = tokk ?h then None else live s t k)" for t k
    using kv_delete [OF ok(1), of now "tokLookupKey tok" t k] kv_delete [OF ok(2), of now "userIdxKey uid tok" t k]
    by simp
  have "session_of (live ?s2 t) h = (if h = ?h then None else session_of (live s t) h)" if "length h = 64" for h t
    by (rule session_of_put(3) [OF v]) (use that in simp_all)
  then show ?thesis using assms ok(3) by (auto simp: rel_def session_at_def)
qed

lemma rel_revoke:
  assumes "rel A s now" and "colon_free uid" and "plain uid"
  shows "fst (ca_DeleteByPrefix cache now (userp uid) s) = None \<and>
    rel (spec_Revoke uid A) (snd (ca_DeleteByPrefix cache now (userp uid) s)) now"
proof -
  let ?p = "userp uid" let ?s' = "snd (ca_DeleteByPrefix cache now ?p s)"
  have ok: "ok s" using assms(1) by (simp add: rel_def)
  have pl: "plain ?p" using assms(3) by (auto simp: plain_def userp_def)
  have e: "fst (ca_DeleteByPrefix cache now ?p s) = None" "ok ?s'"
    and v: "\<And>t k. now \<le> t \<Longrightarrow> live ?s' t k = (if has_prefix k ?p then None else live s t k)"
    using kv_delete_prefix [OF ok pl, of now] by blast+
  have "session_of (live ?s' t) h = session_at (spec_Revoke uid A) t h" if t: "length h = 64" "now \<le> t" for h t
  proof -
    have s: "session_of (live s t) h = session_at A t h" using assms(1) t by (simp add: rel_def)
    have "colon_free u" if "session_of (live s t) h = Some u" for u
    proof -
      have "session_at A t h = Some u" using that s by simp
      then obtain ex where "A h = Some (u, ex)" by (auto simp: session_at_def split: option.splits if_splits)
      then show ?thesis using assms(1) unfolding rel_def by blast
    qed
    then have "session_of (live ?s' t) h = (case session_of (live s t) h of Some u \<Rightarrow> if u = uid then None else Some u | None \<Rightarrow> None)"
      by (rule session_of_revoke [OF v [OF t(2)] assms(2)])
    with s show ?thesis by (auto simp: session_at_def spec_Revoke_def split: option.splits)
  qed
  moreover have "\<forall>h u ex. spec_Revoke uid A h = Some (u, ex) \<longrightarrow> colon_free u"
    using assms(1) by (auto simp: rel_def spec_Revoke_def split: option.splits if_splits)
  ultimately show ?thesis using e by (simp add: rel_def)
qed

end

context session_cache
begin

lemma Login_refines:
  assumes "rel A s now" and "uc_cache uc = cache" and "0 < RefreshTokenDuration (uc_jwtCfg uc)" and "lib_uuid L = U"
  obtains s' where "Login L uc now rnd req (s, d) =
      (fst (spec_Login L uc now rnd req (A, d)), s', snd (snd (spec_Login L uc now rnd req (A, d))))"
    "rel (fst (snd (spec_Login L uc now rnd req (A, d)))) s' now"
proof -
  obtain r d1 where u: "ur_GetByEmail (uc_userRepo uc) (lr_Email req) d = (r, d1)" by fastforce
  have "\<exists>s'. Login L uc now rnd req (s, d) =
      (fst (spec_Login L uc now rnd req (A, d)), s', snd (snd (spec_Login L uc now rnd req (A, d)))) \<and>
    rel (fst (snd (spec_Login L uc now rnd req (A, d)))) s' now"
  proof (cases r)
    case (Inl e)
    with u assms(1) show ?thesis by (simp add: Login_def spec_Login_def)
  next
    case (Inr user)
    let ?id = "uu_String U (us_ID user)"
    show ?thesis
    proof (cases "generateRefreshToken rnd")
      case Inl': (Inl e)
      with u Inr assms show ?thesis by (auto simp: Login_def spec_Login_def Let_def split: sum.split)
    next
      case Inr': (Inr tok)
      obtain s' where "store_session cache now (RefreshTokenDuration (uc_jwtCfg uc)) ?id tok s = (None, s')"
          "rel (A(tokenHash tok \<mapsto> (?id, now + RefreshTokenDuration (uc_jwtCfg uc)))) s' now"
        using rel_put [OF assms(1,3) text_colon_free [of "us_ID user"]] by blast
      with u Inr Inr' assms show ?thesis by (auto simp: Login_def spec_Login_def Let_def split: sum.split)
    qed
  qed
  then show thesis using that by blast
qed

lemma rel_session:
  assumes "rel A s now" and "length h = 64"
  shows "session_at A now h = (case live s now (tokk h) of None \<Rightarrow> None
     | Some uid \<Rightarrow> if live s now (idxk uid h) = None then None else Some uid)"
  using assms by (simp add: rel_def session_of_def [symmetric])

lemma Refresh_refines:
  assumes "rel A s now" and "uc_cache uc = cache" and "0 < RefreshTokenDuration (uc_jwtCfg uc)" and "lib_uuid L = U"
  obtains s' where "Refresh L uc now rnd req (s, d) =
      (fst (spec_Refresh L uc now rnd req (A, d)), s', snd (snd (spec_Refresh L uc now rnd req (A, d))))"
    "rel (fst (snd (spec_Refresh L uc now rnd req (A, d)))) s' now"
proof -
  let ?t = "rr_RefreshToken req" let ?h = "tokenHash ?t"
  have ok: "ok s" using assms(1) by (simp add: rel_def)
  note ses = rel_session [OF assms(1), of ?h, simplified]
  have "\<exists>s'. Refresh L uc now rnd req (s, d) =
      (fst (spec_Refresh L uc now rnd req (A, d)), s', snd (snd (spec_Refresh L uc now rnd req (A, d)))) \<and>
    rel (fst (snd (spec_Refresh L uc now rnd req (A, d)))) s' now"
  proof (cases "session_at A now ?h")
    case None
    then have "Refresh L uc now rnd req (s, d) = (Inl bad_refresh, s, d)"
      using ses assms(2) by (auto simp: Refresh_def Let_def get_tok [OF ok] get_idx [OF ok] split: option.splits)
    with None assms(1) show ?thesis by (simp add: spec_Refresh_def)
  next
    case (Some uid)
    then have l: "live s now (tokk ?h) = Some uid" "live s now (idxk uid ?h) \<noteq> None"
      using ses by (auto split: option.splits if_splits)
    have g: "ca_Get cache now (tokk ?h) s = Inr uid" "\<exists>v. ca_Get cache now (idxk uid ?h) s = Inr v"
      using l by (auto simp: get_tok [OF ok] get_idx [OF ok])
    obtain v where v: "ca_Get cache now (idxk uid ?h) s = Inr v" using g(2) by blast
    obtain r d1 where u: "ur_GetByID (uc_userRepo uc) uid d = (r, d1)" by fastforce
    let ?s2 = "snd (ca_Delete cache now (idxk uid ?h) (snd (ca_Delete cache now (tokk ?h) s)))"
    have r2: "rel (A(?h := None)) ?s2 now" using rel_drop [OF assms(1), of ?t uid] by simp
    note unf = Refresh_def spec_Refresh_def Let_def assms(2,4) g(1) v u Some
    show ?thesis
    proof (cases r)
      case (Inl e)
      with assms(1) show ?thesis by (simp add: unf)
    next
      case (Inr user)
      show ?thesis
      proof (cases "generateRefreshToken rnd")
        case Inl': (Inl e)
        with Inr r2 show ?thesis by (auto simp: unf split: sum.split)
      next
        case Inr': (Inr tok)
        obtain s' where "store_session cache now (RefreshTokenDuration (uc_jwtCfg uc)) (uu_String U (us_ID user)) tok ?s2 = (None, s')"
            "rel (A(?h := None, tokenHash tok \<mapsto> (uu_String U (us_ID user), now + RefreshTokenDuration (uc_jwtCfg uc)))) s' now"
          using rel_put [OF r2 assms(3) text_colon_free [of "us_ID user"]] by blast
        with Inr Inr' r2 show ?thesis by (auto simp: unf split: sum.split)
      qed
    qed
  qed
  then show thesis using that by blast
qed

end

section \<open>Sequences of calls\<close>

datatype auth_call =
    CallLogin "go_error + string" LoginRequest
  | CallRefresh "go_error + string" RefreshRequest
  | CallLogout string string
  | CallRevoke string

datatype auth_answer =
    AnsLogin "go_error + LoginResponse"
  | AnsRefresh "go_error + RefreshResponse"
  | AnsLogout "go_error option"
  | AnsRevoke "go_error option"

primrec auth_step ::
  "libs \<Rightarrow> ('s, 'd) authUseCase \<Rightarrow> go_time \<Rightarrow> auth_call \<Rightarrow> 's \<times> 'd \<Rightarrow> auth_answer \<times> 's \<times> 'd" where
  "auth_step L uc now (CallLogin rnd req) w = (case Login L uc now rnd req w of (r, w') \<Rightarrow> (AnsLogin r, w'))"
| "auth_step L uc now (CallRefresh rnd req) w = (case Refresh L uc now rnd req w of (r, w') \<Rightarrow> (AnsRefresh r, w'))"
| "auth_step L uc now (CallLogout caller tok) w =
     (case Logout uc now caller tok (fst w) of (e, s) \<Rightarrow> (AnsLogout e, s, snd w))"
| "auth_step L uc now (CallRevoke userID) w =
     (case RevokeAllForUser uc now userID (fst w) of (e, s) \<Rightarrow> (AnsRevoke e, s, snd w))"

primrec spec_step ::
  "libs \<Rightarrow> ('s, 'd) authUseCase \<Rightarrow> go_time \<Rightarrow> auth_call \<Rightarrow> sessions \<times> 'd \<Rightarrow> auth_answer \<times> sessions \<times> 'd" where
  "spec_step L uc now (CallLogin rnd req) w = (case spec_Login L uc now rnd req w of (r, w') \<Rightarrow> (AnsLogin r, w'))"
| "spec_step L uc now (CallRefresh rnd req) w = (case spec_Refresh L uc now rnd req w of (r, w') \<Rightarrow> (AnsRefresh r, w'))"
| "spec_step L uc now (CallLogout caller tok) w = (AnsLogout None, spec_Logout now caller tok (fst w), snd w)"
| "spec_step L uc now (CallRevoke userID) w = (AnsRevoke None, spec_Revoke userID (fst w), snd w)"

fun run_calls :: "(go_time \<Rightarrow> 'c \<Rightarrow> 'w \<Rightarrow> 'r \<times> 'w) \<Rightarrow> (go_time \<times> 'c) list \<Rightarrow> 'w \<Rightarrow> 'r list \<times> 'w" where
  "run_calls step [] w = ([], w)"
| "run_calls step ((now, c) # cs) w =
     (case step now c w of (r, w1) \<Rightarrow> case run_calls step cs w1 of (rs, w2) \<Rightarrow> (r # rs, w2))"

text \<open>The clock does not run backwards, and sessions are revoked for user ids only.\<close>

fun calls_ok :: "(string \<Rightarrow> bool) \<Rightarrow> go_time \<Rightarrow> (go_time \<times> auth_call) list \<Rightarrow> bool" where
  "calls_ok idok start [] \<longleftrightarrow> True"
| "calls_ok idok start ((now, c) # cs) \<longleftrightarrow>
     start \<le> now \<and> (case c of CallRevoke u \<Rightarrow> idok u | _ \<Rightarrow> True) \<and> calls_ok idok now cs"

definition user_id :: "string \<Rightarrow> bool" where "user_id u \<longleftrightarrow> colon_free u \<and> plain u"

lemma session_at_None_later: "session_at A now h = None \<Longrightarrow> now \<le> t \<Longrightarrow> session_at A t h = None"
  by (auto simp: session_at_def split: option.splits if_splits)

context session_cache
begin

lemma Logout_refines:
  assumes "rel A s now" and "uc_cache uc = cache"
  shows "fst (Logout uc now caller tok s) = None \<and> rel (spec_Logout now caller tok A) (snd (Logout uc now caller tok s)) now"
proof -
  let ?h = "tokenHash tok"
  have ok: "ok s" using assms(1) by (simp add: rel_def)
  note ses = rel_session [OF assms(1), of ?h, simplified]
  show ?thesis
  proof (cases "live s now (tokk ?h) = Some caller")
    case False
    then have "Logout uc now caller tok s = (None, s)"
      using assms(2) by (auto simp: Logout_def Let_def get_tok [OF ok] split: option.split)
    moreover have "session_at A now ?h \<noteq> Some caller" using ses False by (auto split: option.splits if_splits)
    ultimately show ?thesis using assms(1) by (simp add: spec_Logout_def)
  next
    case True
    let ?s2 = "snd (ca_Delete cache now (idxk caller ?h) (snd (ca_Delete cache now (tokk ?h) s)))"
    have e: "Logout uc now caller tok s = (None, ?s2)"
      using True assms(2) by (simp add: Logout_def Let_def get_tok [OF ok])
    have r: "rel (A(?h := None)) ?s2 now" using rel_drop [OF assms(1), of tok caller] by simp
    show ?thesis
    proof (cases "session_at A now ?h = Some caller")
      case True
      with e r show ?thesis by (simp add: spec_Logout_def)
    next
      case False
      with ses True have none: "session_at A now ?h = None" by (auto split: if_splits)
      have "session_at A t h = session_at (A(?h := None)) t h" if "now \<le> t" for t h
        using session_at_None_later [OF none that] by (cases "h = ?h") (simp_all add: session_at_def)
      moreover have "\<forall>h uid ex. A h = Some (uid, ex) \<longrightarrow> colon_free uid" using assms(1) by (simp add: rel_def)
      ultimately have "rel A ?s2 now" using r by (simp add: rel_def)
      with e False show ?thesis by (simp add: spec_Logout_def)
    qed
  qed
qed

lemma step_refines:
  assumes "rel A s now" and "uc_cache uc = cache" and "0 < RefreshTokenDuration (uc_jwtCfg uc)" and "lib_uuid L = U"
    and "case c of CallRevoke u \<Rightarrow> user_id u | _ \<Rightarrow> True"
  shows "\<exists>s'. auth_step L uc now c (s, d) = (fst (spec_step L uc now c (A, d)), s', snd (snd (spec_step L uc now c (A, d)))) \<and>
    rel (fst (snd (spec_step L uc now c (A, d)))) s' now"
proof (cases c)
  case (CallLogin rnd req)
  obtain s' where "Login L uc now rnd req (s, d) =
      (fst (spec_Login L uc now rnd req (A, d)), s', snd (snd (spec_Login L uc now rnd req (A, d))))"
    "rel (fst (snd (spec_Login L uc now rnd req (A, d)))) s' now"
    by (rule Login_refines [OF assms(1-4)])
  with CallLogin show ?thesis by (simp add: case_prod_unfold)
next
  case (CallRefresh rnd req)
  obtain s' where "Refresh L uc now rnd req (s, d) =
      (fst (spec_Refresh L uc now rnd req (A, d)), s', snd (snd (spec_Refresh L uc now rnd req (A, d))))"
    "rel (fst (snd (spec_Refresh L uc now rnd req (A, d)))) s' now"
    by (rule Refresh_refines [OF assms(1-4)])
  with CallRefresh show ?thesis by (simp add: case_prod_unfold)
next
  case (CallLogout caller tok)
  with Logout_refines [OF assms(1,2), of caller tok] show ?thesis by (auto simp: case_prod_unfold prod_eq_iff)
next
  case (CallRevoke u)
  with rel_revoke [OF assms(1), of u] assms(2,5) show ?thesis by (auto simp: case_prod_unfold prod_eq_iff user_id_def)
qed

lemma run_refines:
  assumes "rel A s start" and "uc_cache uc = cache" and "0 < RefreshTokenDuration (uc_jwtCfg uc)" and "lib_uuid L = U"
    and "calls_ok user_id start cs"
  shows "fst (run_calls (auth_step L uc) cs (s, d)) = fst (run_calls (spec_step L uc) cs (A, d))"
  using assms(1,5)
proof (induction cs arbitrary: A s d start)
  case Nil
  then show ?case by simp
next
  case (Cons nc cs)
  obtain now c where nc: "nc = (now, c)" by fastforce
  with Cons.prems have pre: "start \<le> now" "case c of CallRevoke u \<Rightarrow> user_id u | _ \<Rightarrow> True" "calls_ok user_id now cs" by simp_all
  obtain r A' d' where sp: "spec_step L uc now c (A, d) = (r, A', d')" by (metis prod.collapse)
  obtain s' where "auth_step L uc now c (s, d) = (r, s', d')" "rel A' s' now"
    using step_refines [OF rel_later [OF Cons.prems(1) pre(1)] assms(2-4) pre(2), of d] sp by auto
  with Cons.IH [of A' s' now d'] pre(3) sp nc show ?case by (simp add: case_prod_unfold)
qed

end

context session_cache
begin

lemma revoke_effect:
  assumes "ok s" and "uc_cache uc = cache" and "user_id u" and "\<forall>t h v. session_of (live s t) h = Some v \<longrightarrow> colon_free v" and "now \<le> t"
  shows "fst (RevokeAllForUser uc now u s) = None \<and> ok (snd (RevokeAllForUser uc now u s)) \<and>
    session_of (live (snd (RevokeAllForUser uc now u s)) t) h =
      (case session_of (live s t) h of Some v \<Rightarrow> if v = u then None else Some v | None \<Rightarrow> None)"
proof -
  have pl: "plain (userp u)" using assms(3) by (auto simp: plain_def userp_def user_id_def)
  have d: "fst (ca_DeleteByPrefix cache now (userp u) s) = None" "ok (snd (ca_DeleteByPrefix cache now (userp u) s))"
    "\<And>k. live (snd (ca_DeleteByPrefix cache now (userp u) s)) t k = (if has_prefix k (userp u) then None else live s t k)"
    using kv_delete_prefix [OF assms(1) pl, of now t] assms(5) by auto
  have "session_of (live (snd (ca_DeleteByPrefix cache now (userp u) s)) t) h =
      (case session_of (live s t) h of Some v \<Rightarrow> if v = u then None else Some v | None \<Rightarrow> None)"
    by (rule session_of_revoke [OF d(3)]) (use assms(3,4) in \<open>auto simp: user_id_def\<close>)
  with d assms(2) show ?thesis by simp
qed

lemma refresh_without_session:
  assumes "ok s" and "uc_cache uc = cache" and "session_of (live s now) (tokenHash (rr_RefreshToken req)) = None"
  shows "Refresh L uc now rnd req (s, d) = (Inl bad_refresh, s, d)"
  using assms(2,3) unfolding session_of_def
  by (auto simp: Refresh_def Let_def get_tok [OF assms(1)] get_idx [OF assms(1)] split: option.splits if_splits)

end

section \<open>Redis keeps sessions\<close>

interpretation rs: session_cache "RedisCache 5 redis_cmds" redis_live redis_ok string_key uuid_rfc4122
proof
  show "string_key k" if "has_prefix k ''refresh:''" for k
    using that by (auto simp: string_key_def has_prefix_iff)
qed

section \<open>Dead tokens stay dead\<close>

definition mints :: "string \<Rightarrow> auth_call \<Rightarrow> bool" where
  "mints h c = (case c of
     CallLogin rnd _ \<Rightarrow> (case generateRefreshToken rnd of Inr t \<Rightarrow> tokenHash t = h | Inl _ \<Rightarrow> False)
   | CallRefresh rnd _ \<Rightarrow> (case generateRefreshToken rnd of Inr t \<Rightarrow> tokenHash t = h | Inl _ \<Rightarrow> False)
   | _ \<Rightarrow> False)"

definition refreshes :: "string \<Rightarrow> auth_call \<Rightarrow> bool" where
  "refreshes h c = (case c of CallRefresh _ req \<Rightarrow> tokenHash (rr_RefreshToken req) = h | _ \<Rightarrow> False)"

lemma session_at_upd:
  "session_at (A(h' := x)) t h = (if h = h' then session_at (\<lambda>_. x) t h else session_at A t h)"
  by (simp add: session_at_def)

lemma spec_step_dead:
  assumes "session_at A now h = None" and "\<not> mints h c" and "spec_step L uc now c (A, d) = (r, A', d')"
  shows "session_at A' now h = None \<and> (refreshes h c \<longrightarrow> r = AnsRefresh (Inl bad_refresh))"
proof (cases c)
  case (CallLogin rnd req)
  with assms show ?thesis
    by (auto simp: spec_Login_def mints_def refreshes_def session_at_upd Let_def split: prod.splits sum.splits if_splits)
next
  case (CallRefresh rnd req)
  show ?thesis
  proof (cases "tokenHash (rr_RefreshToken req) = h")
    case True
    with CallRefresh assms show ?thesis by (auto simp: spec_Refresh_def)
  next
    case False
    with CallRefresh assms show ?thesis
      by (auto simp: spec_Refresh_def mints_def refreshes_def session_at_upd Let_def
          split: prod.splits sum.splits option.splits if_splits)
  qed
next
  case (CallLogout caller tok)
  with assms show ?thesis
    by (auto simp: spec_Logout_def refreshes_def session_at_def split: if_splits)
next
  case (CallRevoke u)
  with assms show ?thesis
    by (auto simp: spec_Revoke_def refreshes_def session_at_def split: option.splits if_splits)
qed

lemma spec_run_dead:
  assumes "session_at A start h = None" and "calls_ok idok start cs" and "\<forall>c \<in> set (map snd cs). \<not> mints h c"
  shows "\<forall>(c, a) \<in> set (zip (map snd cs) (fst (run_calls (spec_step L uc) cs (A, d)))). refreshes h c \<longrightarrow> a = AnsRefresh (Inl bad_refresh)"
  using assms
proof (induction cs arbitrary: A start d)
  case Nil
  then show ?case by simp
next
  case (Cons nc cs)
  obtain now c where nc: "nc = (now, c)" by fastforce
  obtain r A' d' where sp: "spec_step L uc now c (A, d) = (r, A', d')" by (metis prod.collapse)
  have "session_at A now h = None" using session_at_None_later [OF Cons.prems(1)] Cons.prems(2) nc by simp
  with spec_step_dead [OF this _ sp] Cons.prems(3) nc
  have st: "session_at A' now h = None" "refreshes h c \<longrightarrow> r = AnsRefresh (Inl bad_refresh)" by auto
  with Cons.IH [OF st(1), of d'] Cons.prems nc sp show ?case by (simp add: case_prod_unfold)
qed

lemma run_calls_append:
  "run_calls step (xs @ ys) w =
     (case run_calls step xs w of (rs, w1) \<Rightarrow> case run_calls step ys w1 of (rs', w2) \<Rightarrow> (rs @ rs', w2))"
  by (induction xs arbitrary: w) (auto split: prod.splits)

lemma run_calls_length: "length (fst (run_calls step cs w)) = length cs"
  by (induction cs arbitrary: w) (auto simp: case_prod_unfold)

lemma calls_ok_append: "calls_ok idok start (xs @ ys) \<Longrightarrow> \<exists>t1 \<ge> start. calls_ok idok t1 ys"
proof (induction xs arbitrary: start)
  case (Cons x xs)
  obtain now c where x: "x = (now, c)" by fastforce
  with Cons.prems have "start \<le> now" "calls_ok idok now (xs @ ys)" by simp_all
  with Cons.IH [of now] show ?case by (meson order_trans)
qed auto

lemma spec_single_use:
  assumes "calls_ok idok start (pre @ (now, CallRefresh rnd req) # post)"
    and "\<forall>c \<in> set (map snd ((now, CallRefresh rnd req) # post)). \<not> mints (tokenHash (rr_RefreshToken req)) c"
    and "fst (run_calls (spec_step L uc) (pre @ (now, CallRefresh rnd req) # post) w) ! length pre = AnsRefresh (Inr resp)"
  shows "\<forall>(c, a) \<in> set (zip (map snd post) (drop (Suc (length pre))
      (fst (run_calls (spec_step L uc) (pre @ (now, CallRefresh rnd req) # post) w)))).
    refreshes (tokenHash (rr_RefreshToken req)) c \<longrightarrow> a = AnsRefresh (Inl bad_refresh)"
proof -
  let ?h = "tokenHash (rr_RefreshToken req)"
  obtain rs A d where pre: "run_calls (spec_step L uc) pre w = (rs, A, d)" by (metis prod.collapse)
  have len: "length rs = length pre" using run_calls_length [of "spec_step L uc" pre w] pre by simp
  obtain r A1 d1 where sp: "spec_Refresh L uc now rnd req (A, d) = (r, A1, d1)" by (metis prod.collapse)
  have full: "fst (run_calls (spec_step L uc) (pre @ (now, CallRefresh rnd req) # post) w)
      = rs @ AnsRefresh r # fst (run_calls (spec_step L uc) post (A1, d1))"
    by (simp add: run_calls_append pre sp case_prod_unfold)
  then have r: "r = Inr resp" using assms(3) len by (simp add: nth_append)
  have dead: "session_at A1 now ?h = None"
    using sp r assms(2) by (auto simp: spec_Refresh_def mints_def session_at_upd Let_def session_at_def
        split: prod.splits sum.splits option.splits if_splits)
  have "calls_ok idok now post" using calls_ok_append [OF assms(1)] by auto
  from spec_run_dead [OF dead this, of L uc d1] assms(2) full len show ?thesis by simp
qed

section \<open>Properties\<close>

text \<open>
  C1. Refresh tokens behave as a store of sessions. Over every cache that keeps the laws of a key-value store, from a
  state without sessions and with a clock that does not run backwards, every sequence of logins, refreshes, logouts
  and revocations gets the answers of the abstract store: a session exists from the login (or refresh) that issued
  its token until it expires, is rotated away, is logged out by its owner or is revoked for its user.
\<close>

theorem refresh_sessions_refine:
  assumes "session_cache ca live ok skey (lib_uuid L)" and "uc_cache uc = ca" and "ok s"
    and "\<forall>t h. session_of (live s t) h = None"
    and "0 < RefreshTokenDuration (uc_jwtCfg uc)" and "calls_ok user_id start cs"
  shows "fst (run_calls (auth_step L uc) cs (s, d)) = fst (run_calls (spec_step L uc) cs (\<lambda>_. None, d))"
proof -
  have "session_cache.rel live ok (\<lambda>_. None) s start"
    using assms(3,4) by (simp add: session_cache.rel_def [OF assms(1)] session_at_def)
  then show ?thesis
    by (rule session_cache.run_refines [OF assms(1) _ assms(2,5) refl assms(6)])
qed

definition demo_libs :: libs where
  "demo_libs = \<lparr>lib_bcrypt = \<lparr>bc_Compare = (\<lambda>h p. if h = ''#'' @ p then None else Some (ErrText ''mismatch'')),
      bc_Generate = (\<lambda>p salt. Inr (''#'' @ p))\<rparr>, lib_jwt = demo_jwt, lib_uuid = uuid_rfc4122\<rparr>"

definition demo_cfg :: JWTConfig where
  "demo_cfg = \<lparr>jwt_Secret = ''0123456789abcdef0123456789abcdef'', jwt_AccessTokenTTL = 15, jwt_RefreshTokenTTL = 60,
     jwt_Issuer = ''goscratch'', jwt_Audience = ''goscratch-api''\<rparr>"

definition demo_uc :: "(redis, pg) authUseCase" where
  "demo_uc = \<lparr>uc_userRepo = repository_lookup uuid_rfc4122, uc_cache = RedisCache 5 redis_cmds, uc_jwtCfg = demo_cfg\<rparr>"

definition demo_pg :: pg where
  "demo_pg = example_pg\<lparr>pg_users := map (\<lambda>r. r\<lparr>ro_PasswordHash := ''#secret''\<rparr>) (pg_users example_pg)\<rparr>"

definition empty_redis :: redis where
  "empty_redis = example_redis\<lparr>r_keys := []\<rparr>"

definition tok_r :: string where "tok_r = b64_encode ''r''"
definition tok_s :: string where "tok_s = b64_encode ''s''"

lemma demo_tokens: "generateRefreshToken (Inr ''r'') = Inr tok_r" "generateRefreshToken (Inr ''s'') = Inr tok_s"
  by (simp_all add: generateRefreshToken_def tok_r_def tok_s_def)

definition demo_calls :: "(go_time \<times> auth_call) list" where
  "demo_calls = [(1, CallLogin (Inr ''r'') \<lparr>lr_Email = ''ada@example.com'', lr_Password = ''secret''\<rparr>),
     (2, CallRefresh (Inr ''s'') \<lparr>rr_RefreshToken = tok_r\<rparr>)]"

lemma demo_redis: "redis_ok empty_redis" "\<forall>t h. session_of (redis_live empty_redis t) h = None"
  by (auto simp: redis_ok_def empty_redis_def example_redis_def session_of_def redis_live_def redis_lookup_def)

lemma demo_ttl: "0 < RefreshTokenDuration demo_cfg" "RefreshTokenDuration demo_cfg = 3600000000000"
  by (simp_all add: RefreshTokenDuration_def demo_cfg_def int64_def)

definition ada :: User where
  "ada = \<lparr>us_ID = 7, us_Email = ''ada@example.com'', us_PasswordHash = ''#secret'', us_Name = ''Ada'', us_IsActive = True,
     us_CreatedAt = Some 1, us_UpdatedAt = Some 1\<rparr>"

lemma demo_user [simp]:
  "ur_GetByEmail (uc_userRepo demo_uc) ''ada@example.com'' demo_pg = (Inr ada, demo_pg)"
  "ur_GetByID (uc_userRepo demo_uc) (uu_String (lib_uuid demo_libs) 7) demo_pg = (Inr ada, demo_pg)"
  "us_ID ada = 7" "us_PasswordHash ada = ''#secret''" "bc_Compare (lib_bcrypt demo_libs) ''#secret'' ''secret'' = None"
  by (simp_all add: repo_GetByEmail_def GetUserByEmail_def repo_GetByID_def GetUserByID_def first_row_def demo_pg_def example_pg_def
      uuid_rfc4122_def uuid_parse_text UUIDToPgtype_def demo_uc_def repository_lookup_def demo_libs_def sqlcUserToDomain_def
      PgtypeToUUID_def ada_def)

lemma demo_access: "\<exists>t. generateAccessToken demo_libs cfg now u e n = Inr t"
  by (simp add: generateAccessToken_def demo_libs_def demo_jwt_def Let_def)

lemma demo_spec_run:
  "\<exists>l r. fst (run_calls (spec_step demo_libs demo_uc) demo_calls (\<lambda>_. None, demo_pg)) = [AnsLogin (Inr l), AnsRefresh (Inr r)]"
proof -
  let ?id = "uu_String (lib_uuid demo_libs) 7"
  obtain t1 t2 where t: "generateAccessToken demo_libs (uc_jwtCfg demo_uc) 1 ?id (us_Email ada) (us_Name ada) = Inr t1"
      "generateAccessToken demo_libs (uc_jwtCfg demo_uc) 2 ?id (us_Email ada) (us_Name ada) = Inr t2"
    using demo_access by metis
  have "RefreshTokenDuration (uc_jwtCfg demo_uc) = 3600000000000" by (simp add: demo_uc_def demo_ttl)
  with t show ?thesis
    by (simp add: demo_calls_def spec_Login_def spec_Refresh_def demo_tokens Let_def session_at_def)
qed

lemma refresh_sessions_refine_witness:
  "\<exists>l r. fst (run_calls (auth_step demo_libs demo_uc) demo_calls (empty_redis, demo_pg)) = [AnsLogin (Inr l), AnsRefresh (Inr r)]"
proof -
  have "fst (run_calls (auth_step demo_libs demo_uc) demo_calls (empty_redis, demo_pg))
      = fst (run_calls (spec_step demo_libs demo_uc) demo_calls (\<lambda>_. None, demo_pg))"
  proof (rule refresh_sessions_refine [where start = 0])
    show "session_cache (RedisCache 5 redis_cmds) redis_live redis_ok string_key (lib_uuid demo_libs)"
      using rs.session_cache_axioms by (simp add: demo_libs_def)
    show "uc_cache demo_uc = RedisCache 5 redis_cmds" "0 < RefreshTokenDuration (uc_jwtCfg demo_uc)"
      by (simp_all add: demo_uc_def demo_ttl)
    show "calls_ok user_id 0 demo_calls" by (simp add: demo_calls_def)
  qed (use demo_redis in auto)
  with demo_spec_run show ?thesis by simp
qed

text \<open>
  C6. A refresh token is used at most once. Take any such sequence in which a refresh succeeds, where neither that
  call nor a later one happens to mint a token with the same hash: every later attempt to refresh with the old
  token is rejected, whatever happens in between.
\<close>

theorem refresh_token_single_use:
  assumes "session_cache ca live ok skey (lib_uuid L)" and "uc_cache uc = ca" and "ok s"
    and "\<forall>t h. session_of (live s t) h = None" and "0 < RefreshTokenDuration (uc_jwtCfg uc)"
    and "cs = pre @ (now, CallRefresh rnd req) # post" and "calls_ok user_id start cs"
    and "\<forall>c \<in> set (map snd ((now, CallRefresh rnd req) # post)). \<not> mints (tokenHash (rr_RefreshToken req)) c"
    and "fst (run_calls (auth_step L uc) cs (s, d)) ! length pre = AnsRefresh (Inr resp)"
  shows "\<forall>(c, a) \<in> set (zip (map snd post) (drop (Suc (length pre)) (fst (run_calls (auth_step L uc) cs (s, d))))).
    refreshes (tokenHash (rr_RefreshToken req)) c \<longrightarrow> a = AnsRefresh (Inl bad_refresh)"
proof -
  have "session_cache.rel live ok (\<lambda>_. None) s start"
    using assms(3,4) by (simp add: session_cache.rel_def [OF assms(1)] session_at_def)
  from session_cache.run_refines [OF assms(1) this assms(2,5) refl assms(7)]
  have eq: "fst (run_calls (auth_step L uc) cs (s, d)) = fst (run_calls (spec_step L uc) cs (\<lambda>_. None, d))" .
  show ?thesis
    using spec_single_use [OF assms(7) [unfolded assms(6)] assms(8)] assms(9) unfolding eq unfolding assms(6) by blast
qed

lemma demo_hashes: "tokenHash tok_r \<noteq> tokenHash tok_s"
  using digests_differ by (simp only: tok_r_def tok_s_def tokenHash_def) simp

definition demo_replay :: "(go_time \<times> auth_call) list" where
  "demo_replay = demo_calls @ [(3, CallRefresh (Inl (ErrText ''no entropy'')) \<lparr>rr_RefreshToken = tok_r\<rparr>)]"

lemma refresh_token_single_use_witness:
  "\<exists>r. fst (run_calls (auth_step demo_libs demo_uc) demo_replay (empty_redis, demo_pg)) ! 1 = AnsRefresh (Inr r) \<and>
     fst (run_calls (auth_step demo_libs demo_uc) demo_replay (empty_redis, demo_pg)) ! 2 = AnsRefresh (Inl bad_refresh)"
proof -
  let ?old = "\<lparr>rr_RefreshToken = tok_r\<rparr>" and ?as = "fst (run_calls (auth_step demo_libs demo_uc) demo_replay (empty_redis, demo_pg))"
  have cache: "session_cache (RedisCache 5 redis_cmds) redis_live redis_ok string_key (lib_uuid demo_libs)"
    "uc_cache demo_uc = RedisCache 5 redis_cmds" "0 < RefreshTokenDuration (uc_jwtCfg demo_uc)"
    using rs.session_cache_axioms by (simp_all add: demo_libs_def demo_uc_def demo_ttl)
  obtain l r where run: "fst (run_calls (auth_step demo_libs demo_uc) demo_calls (empty_redis, demo_pg)) = [AnsLogin (Inr l), AnsRefresh (Inr r)]"
  proof -
    have "session_cache.rel redis_live redis_ok (\<lambda>_. None) empty_redis 0"
      using demo_redis by (simp add: rs.rel_def session_at_def)
    then have "fst (run_calls (auth_step demo_libs demo_uc) demo_calls (empty_redis, demo_pg))
        = fst (run_calls (spec_step demo_libs demo_uc) demo_calls (\<lambda>_. None, demo_pg))"
      by (rule session_cache.run_refines [OF cache(1) _ cache(2,3) refl]) (simp add: demo_calls_def)
    with demo_spec_run that show thesis by auto
  qed
  have ok1: "?as ! 1 = AnsRefresh (Inr r)"
    using run by (simp add: demo_replay_def run_calls_append case_prod_unfold)
  have "\<forall>(c, a) \<in> set (zip (map snd [(3 :: int, CallRefresh (Inl (ErrText ''no entropy'')) ?old)]) (drop (Suc (length [hd demo_calls])) ?as)).
      refreshes (tokenHash (rr_RefreshToken ?old)) c \<longrightarrow> a = AnsRefresh (Inl bad_refresh)"
  proof (rule refresh_token_single_use [OF cache(1,2) demo_redis cache(3), where rnd = "Inr ''s''" and now = 2 and start = 0 and resp = r])
    show "demo_replay = [hd demo_calls] @ (2, CallRefresh (Inr ''s'') ?old) # [(3, CallRefresh (Inl (ErrText ''no entropy'')) ?old)]"
      "calls_ok user_id 0 demo_replay"
      by (simp_all add: demo_replay_def demo_calls_def)
    show "\<forall>c \<in> set (map snd ((2, CallRefresh (Inr ''s'') ?old) # [(3, CallRefresh (Inl (ErrText ''no entropy'')) ?old)])).
        \<not> mints (tokenHash (rr_RefreshToken ?old)) c"
      using demo_hashes by (simp add: mints_def demo_tokens) (simp add: generateRefreshToken_def)
    show "?as ! length [hd demo_calls] = AnsRefresh (Inr r)" using ok1 by simp
  qed
  moreover obtain a0 a1 a2 where "?as = [a0, a1, a2]"
    using run_calls_length [of "auth_step demo_libs demo_uc" demo_replay "(empty_redis, demo_pg)"]
    by (auto simp: demo_replay_def demo_calls_def length_Suc_conv)
  ultimately show ?thesis using ok1 by (simp add: refreshes_def)
qed

text \<open>
  C8. Revoking the sessions of a user ends all of them and no other. Over every cache with the laws of a key-value
  store, \<^verbatim>\<open>RevokeAllForUser\<close> reports no error; from then on no refresh token stands for a session of that user and
  every attempt to refresh one is rejected, while the sessions of other users are as before.
\<close>

theorem revoke_ends_all_sessions:
  assumes "session_cache ca live ok skey (lib_uuid L)" and "uc_cache uc = ca" and "ok s" and "user_id u"
    and "\<forall>t h v. session_of (live s t) h = Some v \<longrightarrow> colon_free v"
    and "RevokeAllForUser uc now u s = (e, s')" and "now \<le> t"
  shows "e = None \<and> ok s' \<and>
    session_of (live s' t) (tokenHash tok) =
      (case session_of (live s t) (tokenHash tok) of Some v \<Rightarrow> if v = u then None else Some v | None \<Rightarrow> None) \<and>
    (session_of (live s t) (tokenHash tok) = Some u \<longrightarrow>
      fst (Refresh L uc t rnd \<lparr>rr_RefreshToken = tok\<rparr> (s', d)) = Inl bad_refresh)"
proof -
  have s': "s' = snd (RevokeAllForUser uc now u s)" "e = fst (RevokeAllForUser uc now u s)" using assms(6) by simp_all
  note eff = session_cache.revoke_effect [OF assms(1,3,2,4,5) assms(7), of "tokenHash tok", folded s']
  moreover have "fst (Refresh L uc t rnd \<lparr>rr_RefreshToken = tok\<rparr> (s', d)) = Inl bad_refresh"
    if "session_of (live s t) (tokenHash tok) = Some u"
  proof -
    have "session_of (live s' t) (tokenHash tok) = None" using eff that by simp
    with eff show ?thesis using session_cache.refresh_without_session [OF assms(1) _ assms(2), of s' t "\<lparr>rr_RefreshToken = tok\<rparr>"] by simp
  qed
  ultimately show ?thesis by blast
qed

lemma revoke_ends_all_sessions_witness:
  "\<exists>e s'. RevokeAllForUser demo_uc 1 (uuid_text 7) empty_redis = (e, s') \<and> e = None \<and>
     session_of (redis_live s' 2) (tokenHash tok_r) = None"
proof -
  obtain e s' where r: "RevokeAllForUser demo_uc 1 (uuid_text 7) empty_redis = (e, s')" by fastforce
  have "e = None \<and> redis_ok s' \<and> session_of (redis_live s' 2) (tokenHash tok_r) =
      (case session_of (redis_live empty_redis 2) (tokenHash tok_r) of Some v \<Rightarrow> if v = uuid_text 7 then None else Some v | None \<Rightarrow> None) \<and>
    (session_of (redis_live empty_redis 2) (tokenHash tok_r) = Some (uuid_text 7) \<longrightarrow>
      fst (Refresh demo_libs demo_uc 2 (Inr ''s'') \<lparr>rr_RefreshToken = tok_r\<rparr> (s', demo_pg)) = Inl bad_refresh)"
  proof (rule revoke_ends_all_sessions [OF _ _ _ _ _ r])
    show "session_cache (RedisCache 5 redis_cmds) redis_live redis_ok string_key (lib_uuid demo_libs)"
      using rs.session_cache_axioms by (simp add: demo_libs_def)
    show "user_id (uuid_text 7)"
      using rfc4122.text_chars [of 7] by (auto simp: user_id_def colon_free_def plain_def uuid_rfc4122_def)
  qed (use demo_redis in \<open>auto simp: demo_uc_def\<close>)
  with r demo_redis show ?thesis by simp
qed

text \<open>
  C19. The access token that a login issues is accepted by the authentication middleware exactly under the built-in
  issuer and audience. For every JWT library with the laws and a configuration with a non-empty issuer and
  audience: while the token has not expired, a request that carries it reaches the handler with the user's id when
  the configured issuer and audience are \<^verbatim>\<open>goscratch\<close> and \<^verbatim>\<open>goscratch-api\<close>, the constants of \<^verbatim>\<open>DefaultAuthConfig\<close>; under any other
  configuration the service rejects its own tokens with 401.
\<close>

theorem issued_token_authenticates:
  assumes "jwt_lib (lib_jwt L) signed_by" and "generateAccessToken L cfg now uid email name = Inr tok"
    and "ctx_Get c ''Authorization'' = ''Bearer '' @ tok"
    and "now \<le> t" and "t < jwt_date (lib_jwt L) (now + AccessTokenDuration cfg)"
  shows "if jwt_Issuer cfg = ''goscratch'' \<and> jwt_Audience cfg = ''goscratch-api''
    then \<exists>c'. (\<forall>rest. Auth (lib_jwt L) t (DefaultAuthConfig (jwt_Secret cfg)) rest w c = rest w c') \<and> GetUserID c' = uid
    else \<exists>c'. (\<forall>rest. Auth (lib_jwt L) t (DefaultAuthConfig (jwt_Secret cfg)) rest w c = (None, w, c')) \<and> res_status c' = 401"
proof -
  let ?jwt = "lib_jwt L"
  define cl where "cl = \<lparr>jc_Subject = uid, jc_Issuer = jwt_Issuer cfg, jc_Audience = [jwt_Audience cfg],
      jc_ExpiresAt = Some (jwt_date ?jwt (now + AccessTokenDuration cfg)), jc_IssuedAt = Some (jwt_date ?jwt now),
      jc_NotBefore = Some (jwt_date ?jwt now), jc_UserID = uid, jc_Email = email, jc_Name = name\<rparr>"
  have signed: "signed_by (jwt_Secret cfg) cl tok"
    using jwt_lib.sign_law [OF assms(1), of "jwt_Secret cfg" cl] assms(2) by (auto simp: generateAccessToken_def cl_def Let_def)
  have ext: "extractToken c ''header:Authorization'' = Inr tok"
    using assms(3) by (simp add: extractToken_def has_prefix_def trim_prefix_def)
  show ?thesis
  proof (cases "jwt_Issuer cfg = ''goscratch'' \<and> jwt_Audience cfg = ''goscratch-api''")
    case True
    have "claims_valid t ''goscratch'' ''goscratch-api'' cl"
      using True assms(4,5) jwt_lib.date_law [OF assms(1), of now] by (simp add: claims_valid_def cl_def)
    then have "parseToken ?jwt t tok (jwt_Secret cfg) ''goscratch'' ''goscratch-api'' = Inr cl"
      using jwt_lib.parse_valid [OF assms(1) signed] by (simp add: parseToken_def)
    with ext have "\<forall>rest. Auth ?jwt t (DefaultAuthConfig (jwt_Secret cfg)) rest w c =
        rest w (store_claims (DefaultAuthConfig (jwt_Secret cfg)) (toDomainClaims cl) c)"
      by (simp add: Auth_def DefaultAuthConfig_def)
    moreover have "GetUserID (store_claims (DefaultAuthConfig (jwt_Secret cfg)) (toDomainClaims cl) c) = uid"
      by (simp add: toDomainClaims_def cl_def)
    ultimately have "\<exists>c'. (\<forall>rest. Auth ?jwt t (DefaultAuthConfig (jwt_Secret cfg)) rest w c = rest w c') \<and> GetUserID c' = uid"
      by blast
    with True show ?thesis by simp
  next
    case False
    obtain err where "parseToken ?jwt t tok (jwt_Secret cfg) ''goscratch'' ''goscratch-api'' = Inl err"
    proof (cases "parseToken ?jwt t tok (jwt_Secret cfg) ''goscratch'' ''goscratch-api''")
      case (Inr cl')
      from jwt_lib.parseToken_sound [OF assms(1) Inr] jwt_lib.signed_unique [OF assms(1) signed, of cl']
      have "claims_valid t ''goscratch'' ''goscratch-api'' cl" by auto
      with False show ?thesis by (auto simp: claims_valid_def cl_def)
    qed
    with ext have "\<exists>c'. (\<forall>rest. Auth ?jwt t (DefaultAuthConfig (jwt_Secret cfg)) rest w c = (None, w, c')) \<and> res_status c' = 401"
      by (simp add: Auth_def DefaultAuthConfig_def with_state_def Unauthorized_def send_json_def)
    with False show ?thesis by auto
  qed
qed

lemma issued_token_authenticates_witness:
  "\<exists>tok c'. generateAccessToken demo_libs demo_cfg 0 ''u-1'' ''e'' ''n'' = Inr tok \<and>
     Auth demo_jwt 1 (DefaultAuthConfig (jwt_Secret demo_cfg)) (\<lambda>w c. (None, w, c)) () (example_ctx\<lparr>req_headers := [(''Authorization'', ''Bearer '' @ tok)]\<rparr>)
       = (None, (), c') \<and> GetUserID c' = ''u-1''"
proof -
  obtain tok where tok: "generateAccessToken demo_libs demo_cfg 0 ''u-1'' ''e'' ''n'' = Inr tok" using demo_access by blast
  have lib: "lib_jwt demo_libs = demo_jwt" by (simp add: demo_libs_def)
  have "jwt_lib (lib_jwt demo_libs) (\<lambda>secret cl tok. tok = enc_claims cl @ secret)" using demo.jwt_lib_axioms lib by simp
  moreover have "ctx_Get (example_ctx\<lparr>req_headers := [(''Authorization'', ''Bearer '' @ tok)]\<rparr>) ''Authorization'' = ''Bearer '' @ tok"
    by (simp add: ctx_Get_def assoc_str_def)
  moreover have "1 < jwt_date (lib_jwt demo_libs) (0 + AccessTokenDuration demo_cfg)"
    by (simp add: lib demo_jwt_def AccessTokenDuration_def demo_cfg_def int64_def)
  ultimately show ?thesis
    using issued_token_authenticates [OF _ tok, where t = 1 and w = "()"] tok lib by (fastforce simp: demo_cfg_def)
qed


definition login_binding :: "LoginRequest binding" where
  "login_binding = \<lparr>bd_parse = (\<lambda>c. Inr \<lparr>lr_Email = req_body c, lr_Password = ''wrong''\<rparr>),
     bd_value = (\<lambda>r. RPtr (Some (RStruct [RString (lr_Email r), RString (lr_Password r)]))),
     bd_back = (\<lambda>v. case v of RPtr (Some (RStruct [RString e, RString p])) \<Rightarrow> \<lparr>lr_Email = e, lr_Password = p\<rparr>
                             | _ \<Rightarrow> \<lparr>lr_Email = '''', lr_Password = ''''\<rparr>),
     bd_rules = (\<lambda>r. [])\<rparr>"

definition demo_module :: "(redis, pg, audit_db) auth_module" where
  "demo_module = \<lparr>am_libs = demo_libs, am_uc = demo_uc, am_auditor = PostgresAuditor, am_policy = (\<lambda>s. s), am_login = login_binding,
     am_refresh = \<lparr>bd_parse = (\<lambda>c. Inr \<lparr>rr_RefreshToken = req_body c\<rparr>), bd_value = (\<lambda>r. RPtr (Some (RStruct [RString (rr_RefreshToken r)]))),
       bd_back = (\<lambda>v. case v of RPtr (Some (RStruct [RString t])) \<Rightarrow> \<lparr>rr_RefreshToken = t\<rparr> | _ \<Rightarrow> \<lparr>rr_RefreshToken = ''''\<rparr>),
       bd_rules = (\<lambda>r. [])\<rparr>,
     am_logout = \<lparr>bd_parse = (\<lambda>c. Inr \<lparr>lq_RefreshToken = req_body c\<rparr>), bd_value = (\<lambda>r. RPtr (Some (RStruct [RString (lq_RefreshToken r)]))),
       bd_back = (\<lambda>v. case v of RPtr (Some (RStruct [RString t])) \<Rightarrow> \<lparr>lq_RefreshToken = t\<rparr> | _ \<Rightarrow> \<lparr>lq_RefreshToken = ''''\<rparr>),
       bd_rules = (\<lambda>r. [])\<rparr>\<rparr>"


text \<open>
  Without Redis a login succeeds but its session does not exist. Over the no-op cache, valid credentials yield
  tokens and no error, and every refresh is rejected, also of the token just issued.
\<close>

theorem noop_cache_login_without_session:
  assumes "jwt_lib (lib_jwt L) signed_by" and "uc_cache uc = NoOpCache"
    and "ur_GetByEmail (uc_userRepo uc) (lr_Email req) d = (Inr user, d')"
    and "bc_Compare (lib_bcrypt L) (us_PasswordHash user) (lr_Password req) = None"
  shows "(\<exists>resp. Login L uc now (Inr bs) req (s, d) = (Inr resp, s, d')) \<and>
    fst (Refresh L uc t rnd rreq (s', d'')) = Inl bad_refresh"
proof -
  have "\<exists>tok. generateAccessToken L (uc_jwtCfg uc) now u e n = Inr tok" for u e n
    unfolding generateAccessToken_def Let_def using jwt_lib.sign_law [OF assms(1)] by blast
  then obtain tok where "generateAccessToken L (uc_jwtCfg uc) now (uu_String (lib_uuid L) (us_ID user)) (us_Email user) (us_Name user) = Inr tok"
    by blast
  with assms(2-4) show ?thesis
    by (simp add: Login_def Refresh_def Let_def store_session_def NoOpCache_def generateRefreshToken_def del: key_forms)
qed

lemma noop_cache_login_without_session_witness:
  "\<exists>resp. Login demo_libs (demo_uc\<lparr>uc_cache := NoOpCache\<rparr>) 1 (Inr ''r'') \<lparr>lr_Email = ''ada@example.com'', lr_Password = ''secret''\<rparr>
      (empty_redis, demo_pg) = (Inr resp, empty_redis, demo_pg) \<and>
    fst (Refresh demo_libs (demo_uc\<lparr>uc_cache := NoOpCache\<rparr>) 2 (Inr ''s'') \<lparr>rr_RefreshToken = lo_RefreshToken resp\<rparr> (empty_redis, demo_pg))
      = Inl bad_refresh"
proof -
  have "jwt_lib (lib_jwt demo_libs) (\<lambda>secret cl tok. tok = enc_claims cl @ secret)"
    using demo.jwt_lib_axioms by (simp add: demo_libs_def)
  moreover have "ur_GetByEmail (uc_userRepo (demo_uc\<lparr>uc_cache := NoOpCache\<rparr>)) ''ada@example.com'' demo_pg = (Inr ada, demo_pg)" by simp
  ultimately show ?thesis
    using noop_cache_login_without_session [of demo_libs _ "demo_uc\<lparr>uc_cache := NoOpCache\<rparr>"
        "\<lparr>lr_Email = ''ada@example.com'', lr_Password = ''secret''\<rparr>" demo_pg ada demo_pg 1 "''r''" empty_redis] by simp
qed

end
