(* ===== verification/User_Usecase.thy ===== *)
theory User_Usecase
  imports Auth_Usecase Pagination
begin

text \<open>
  The user module: \<^verbatim>\<open>src/internal/module/user/usecase/user_usecase.go\<close>, its audit decorator \<^verbatim>\<open>audit_decorator.go\<close>, the handlers of
  \<^verbatim>\<open>src/internal/module/user/handler/user_handler.go\<close>, the DTOs and the routes of \<^verbatim>\<open>src/internal/module/user/module.go\<close>. The use
  case runs on the database \<open>pg\<close>; changing a password also runs on the cache, through the revoker of the auth module.
  How a time is printed depends on the time zone of the process and is the parameter \<open>ud_fmt\<close>. The identifier that
  the database generates, the salt of the password hash and the clock are arguments.
\<close>

section \<open>Requests and responses\<close>

record CreateUserRequest =
  cr_Email :: string
  cr_Password :: string
  cr_Name :: string

record UpdateUserRequest =
  ur_Name :: string
  ur_Email :: string

record ChangePasswordRequest =
  cp_CurrentPassword :: string
  cp_NewPassword :: string

record UserResponse =
  ure_ID :: string
  ure_Email :: string
  ure_Name :: string
  ure_IsActive :: bool
  ure_CreatedAt :: string
  ure_UpdatedAt :: string

record ListUsersRequest =
  lu_Cursor :: string
  lu_Limit :: int
  lu_Search :: "string option"
  lu_Email :: "string option"
  lu_IsActive :: "bool option"

definition user_json :: "UserResponse \<Rightarrow> json" where
  "user_json u = JObj [(''id'', JStr (ure_ID u)), (''email'', JStr (ure_Email u)), (''name'', JStr (ure_Name u)),
     (''is_active'', JBool (ure_IsActive u)), (''created_at'', JStr (ure_CreatedAt u)), (''updated_at'', JStr (ure_UpdatedAt u))]"

section \<open>Use case\<close>

record 's user_deps =
  ud_libs :: libs
  ud_fmt :: "go_time option \<Rightarrow> string"
  ud_authRevoker :: "(go_time \<Rightarrow> string \<Rightarrow> 's \<Rightarrow> go_error option \<times> 's) option"

definition toUserResponse :: "'s user_deps \<Rightarrow> User \<Rightarrow> UserResponse" where
  "toUserResponse D user =
     \<lparr>ure_ID = uu_String (lib_uuid (ud_libs D)) (us_ID user), ure_Email = us_Email user, ure_Name = us_Name user,
      ure_IsActive = us_IsActive user, ure_CreatedAt = ud_fmt D (us_CreatedAt user), ure_UpdatedAt = ud_fmt D (us_UpdatedAt user)\<rparr>"

definition uc_GetByID :: "'s user_deps \<Rightarrow> string \<Rightarrow> UserResponse query" where
  "uc_GetByID D i d =
     (case repo_GetByID (lib_uuid (ud_libs D)) i d of
        (Inl err, d') \<Rightarrow> (Inl err, d')
      | (Inr user, d') \<Rightarrow> (Inr (toUserResponse D user), d'))"

definition response_cursor :: "UserResponse \<Rightarrow> Cursor option" where
  "response_cursor u = Some \<lparr>cu_LastID = ure_ID u, cu_LastValue = None, cu_Direction = ''''\<rparr>"

definition uc_List :: "'s user_deps \<Rightarrow> ListUsersRequest \<Rightarrow> UserResponse CursorPage query" where
  "uc_List D req d =
     (let limit = NormalizeLimit (lu_Limit req);
          cur = (if lu_Cursor req \<noteq> '''' then DecodeCursor (lu_Cursor req) else Inr None)
      in case cur of
           Inl _ \<Rightarrow> (Inl (BadRequestf ''invalid cursor''), d)
         | Inr co \<Rightarrow>
             (let cursorID = (case co of None \<Rightarrow> '''' | Some cu \<Rightarrow> cu_LastID cu);
                  direction = (case co of None \<Rightarrow> '''' | Some cu \<Rightarrow> cu_Direction cu);
                  hasCursor = (co \<noteq> None);
                  f = \<lparr>uf_Cursor = cursorID, uf_Limit = limit, uf_Direction = direction, uf_Search = lu_Search req,
                       uf_Email = lu_Email req, uf_IsActive = lu_IsActive req, uf_SortBy = '''', uf_SortOrder = ''''\<rparr>
              in case repo_List (lib_uuid (ud_libs D)) f d of
                   (Inl err, d') \<Rightarrow> (Inl err, d')
                 | (Inr us, d') \<Rightarrow>
                     (Inr (NewBidirectionalCursorPage (map (toUserResponse D) us) limit direction hasCursor response_cursor), d')))"

definition uc_Create ::
  "'s user_deps \<Rightarrow> go_time \<Rightarrow> uuid \<Rightarrow> string \<Rightarrow> CreateUserRequest \<Rightarrow> UserResponse query" where
  "uc_Create D now new_id salt req d =
     (case bc_Generate (lib_bcrypt (ud_libs D)) (cr_Password req) salt of
        Inl _ \<Rightarrow> (Inl (Internalf ''failed to hash password''), d)
      | Inr passwordHash \<Rightarrow>
          (case WithTx (\<lambda>d.
             case repo_ExistsByEmail (cr_Email req) d of
               (Inl err, d1) \<Rightarrow> (Inl err, d1)
             | (Inr ex, d1) \<Rightarrow>
                 if ex then (Inl (email_taken (cr_Email req)), d1)
                 else repo_Create now new_id (cr_Email req) passwordHash (cr_Name req) d1) d of
             (Inl err, d') \<Rightarrow> (Inl err, d')
           | (Inr user, d') \<Rightarrow> (Inr (toUserResponse D user), d')))"

definition uc_Update :: "'s user_deps \<Rightarrow> go_time \<Rightarrow> string \<Rightarrow> UpdateUserRequest \<Rightarrow> UserResponse query" where
  "uc_Update D now i req d =
     (case repo_Update (lib_uuid (ud_libs D)) now i (ur_Name req) (ur_Email req) d of
        (Inl err, d') \<Rightarrow> (Inl err, d')
      | (Inr user, d') \<Rightarrow> (Inr (toUserResponse D user), d'))"

definition uc_ChangePassword ::
  "'s user_deps \<Rightarrow> go_time \<Rightarrow> string \<Rightarrow> string \<Rightarrow> ChangePasswordRequest \<Rightarrow> 's \<times> pg \<Rightarrow> go_error option \<times> 's \<times> pg" where
  "uc_ChangePassword D now salt i req w =
     (case w of (s, d) \<Rightarrow>
      case repo_GetByID (lib_uuid (ud_libs D)) i d of
        (Inl err, d1) \<Rightarrow> (Some err, s, d1)
      | (Inr user, d1) \<Rightarrow>
          if bc_Compare (lib_bcrypt (ud_libs D)) (us_PasswordHash user) (cp_CurrentPassword req) \<noteq> None
          then (Some (WithMessage ErrUnauthorized ''Current password is incorrect''), s, d1)
          else
            (case bc_Generate (lib_bcrypt (ud_libs D)) (cp_NewPassword req) salt of
               Inl _ \<Rightarrow> (Some (Internalf ''failed to hash password''), s, d1)
             | Inr passwordHash \<Rightarrow>
                 (case repo_UpdatePassword (lib_uuid (ud_libs D)) now i passwordHash d1 of
                    (Inl err, d2) \<Rightarrow> (Some err, s, d2)
                  | (Inr _, d2) \<Rightarrow>
                      (case ud_authRevoker D of
                         None \<Rightarrow> (None, s, d2)
                       | Some revoke \<Rightarrow>
                           (case revoke now i s of
                              (Some err, s') \<Rightarrow>
                                (Some (errorf_w ''password updated but refresh token revocation failed'' err), s', d2)
                            | (None, s') \<Rightarrow> (None, s', d2))))))"

text \<open>A query without a result, as an operation that returns an error.\<close>

definition err_of :: "unit query \<Rightarrow> pg \<Rightarrow> go_error option \<times> pg" where
  "err_of q d = (case q d of (Inl err, d') \<Rightarrow> (Some err, d') | (Inr _, d') \<Rightarrow> (None, d'))"

definition uc_Delete :: "'s user_deps \<Rightarrow> go_time \<Rightarrow> string \<Rightarrow> pg \<Rightarrow> go_error option \<times> pg" where
  "uc_Delete D now i d = err_of (repo_Delete (lib_uuid (ud_libs D)) now i) d"

definition uc_Activate :: "'s user_deps \<Rightarrow> go_time \<Rightarrow> string \<Rightarrow> pg \<Rightarrow> go_error option \<times> pg" where
  "uc_Activate D now i d =
     (case repo_GetByID (lib_uuid (ud_libs D)) i d of
        (Inl err, d1) \<Rightarrow> (Some err, d1)
      | (Inr user, d1) \<Rightarrow>
          if us_IsActive user then (None, d1)
          else err_of (repo_Activate (lib_uuid (ud_libs D)) now i) d1)"

definition uc_Deactivate :: "'s user_deps \<Rightarrow> go_time \<Rightarrow> string \<Rightarrow> pg \<Rightarrow> go_error option \<times> pg" where
  "uc_Deactivate D now i d =
     (case repo_GetByID (lib_uuid (ud_libs D)) i d of
        (Inl err, d1) \<Rightarrow> (Some err, d1)
      | (Inr user, d1) \<Rightarrow>
          if \<not> us_IsActive user then (None, d1)
          else err_of (repo_Deactivate (lib_uuid (ud_libs D)) now i) d1)"

section \<open>Audit decorator\<close>

text \<open>The decorator works on the database and the auditor's state; changing a password also on the cache.\<close>

definition entry_for :: "go_time \<Rightarrow> go_context \<Rightarrow> string \<Rightarrow> string \<Rightarrow> AuditEntry" where
  "entry_for now ctx action i = NewAuditEntry now ctx action ''user'' i"

definition email_name :: "string \<Rightarrow> string \<Rightarrow> json" where
  "email_name email name = json_map [(''email'', JStr email), (''name'', JStr name)]"

definition audited_Create ::
  "'s user_deps \<Rightarrow> 'a auditor \<Rightarrow> go_time \<Rightarrow> go_context \<Rightarrow> uuid \<Rightarrow> string \<Rightarrow> CreateUserRequest \<Rightarrow> pg \<times> 'a \<Rightarrow>
   (go_error + UserResponse) \<times> pg \<times> 'a" where
  "audited_Create D au now ctx new_id salt req w =
     (case w of (d, a) \<Rightarrow>
      case uc_Create D now new_id salt req d of
        (Inl err, d') \<Rightarrow> (Inl err, d', a)
      | (Inr resp, d') \<Rightarrow>
          (let entry = (entry_for now ctx AuditActionCreate (ure_ID resp))
                 \<lparr>ae_NewValue := Some (email_name (ure_Email resp) (ure_Name resp))\<rparr>
           in (Inr resp, d', snd (au_Log au entry a))))"

definition audited_Update ::
  "'s user_deps \<Rightarrow> 'a auditor \<Rightarrow> go_time \<Rightarrow> go_context \<Rightarrow> string \<Rightarrow> UpdateUserRequest \<Rightarrow> pg \<times> 'a \<Rightarrow>
   (go_error + UserResponse) \<times> pg \<times> 'a" where
  "audited_Update D au now ctx i req w =
     (case w of (d, a) \<Rightarrow>
      case uc_GetByID D i d of
        (Inl err, d1) \<Rightarrow> (Inl err, d1, a)
      | (Inr oldUser, d1) \<Rightarrow>
          (case uc_Update D now i req d1 of
             (Inl err, d2) \<Rightarrow> (Inl err, d2, a)
           | (Inr resp, d2) \<Rightarrow>
               (let entry = (entry_for now ctx AuditActionUpdate (ure_ID resp))
                      \<lparr>ae_OldValue := Some (email_name (ure_Email oldUser) (ure_Name oldUser)),
                       ae_NewValue := Some (email_name (ure_Email resp) (ure_Name resp))\<rparr>
                in (Inr resp, d2, snd (au_Log au entry a)))))"

definition audited_ChangePassword ::
  "'s user_deps \<Rightarrow> 'a auditor \<Rightarrow> go_time \<Rightarrow> go_context \<Rightarrow> string \<Rightarrow> string \<Rightarrow> ChangePasswordRequest \<Rightarrow> 's \<times> pg \<times> 'a \<Rightarrow>
   go_error option \<times> 's \<times> pg \<times> 'a" where
  "audited_ChangePassword D au now ctx salt i req w =
     (case w of (s, d, a) \<Rightarrow>
      case uc_ChangePassword D now salt i req (s, d) of
        (Some err, s', d') \<Rightarrow> (Some err, s', d', a)
      | (None, s', d') \<Rightarrow>
          (let entry = (entry_for now ctx AuditActionUpdate i)\<lparr>ae_Metadata := [(''field'', JStr ''password'')]\<rparr>
           in (None, s', d', snd (au_Log au entry a))))"

definition audited_Delete ::
  "'s user_deps \<Rightarrow> 'a auditor \<Rightarrow> go_time \<Rightarrow> go_context \<Rightarrow> string \<Rightarrow> pg \<times> 'a \<Rightarrow> go_error option \<times> pg \<times> 'a" where
  "audited_Delete D au now ctx i w =
     (case w of (d, a) \<Rightarrow>
      case uc_GetByID D i d of
        (Inl err, d1) \<Rightarrow> (Some err, d1, a)
      | (Inr oldUser, d1) \<Rightarrow>
          (case uc_Delete D now i d1 of
             (Some err, d2) \<Rightarrow> (Some err, d2, a)
           | (None, d2) \<Rightarrow>
               (let entry = (entry_for now ctx AuditActionDelete i)
                      \<lparr>ae_OldValue := Some (email_name (ure_Email oldUser) (ure_Name oldUser))\<rparr>
                in (None, d2, snd (au_Log au entry a)))))"

definition active_value :: "bool \<Rightarrow> json" where
  "active_value b = json_map [(''is_active'', JBool b)]"

definition audited_Activate ::
  "'s user_deps \<Rightarrow> 'a auditor \<Rightarrow> go_time \<Rightarrow> go_context \<Rightarrow> string \<Rightarrow> pg \<times> 'a \<Rightarrow> go_error option \<times> pg \<times> 'a" where
  "audited_Activate D au now ctx i w =
     (case w of (d, a) \<Rightarrow>
      case uc_GetByID D i d of
        (Inl err, d1) \<Rightarrow> (Some err, d1, a)
      | (Inr oldUser, d1) \<Rightarrow>
          (case uc_Activate D now i d1 of
             (Some err, d2) \<Rightarrow> (Some err, d2, a)
           | (None, d2) \<Rightarrow>
               if \<not> ure_IsActive oldUser then
                 (let entry = (entry_for now ctx AuditActionUpdate i)
                        \<lparr>ae_OldValue := Some (active_value False), ae_NewValue := Some (active_value True)\<rparr>
                  in (None, d2, snd (au_Log au entry a)))
               else (None, d2, a)))"

definition audited_Deactivate ::
  "'s user_deps \<Rightarrow> 'a auditor \<Rightarrow> go_time \<Rightarrow> go_context \<Rightarrow> string \<Rightarrow> pg \<times> 'a \<Rightarrow> go_error option \<times> pg \<times> 'a" where
  "audited_Deactivate D au now ctx i w =
     (case w of (d, a) \<Rightarrow>
      case uc_GetByID D i d of
        (Inl err, d1) \<Rightarrow> (Some err, d1, a)
      | (Inr oldUser, d1) \<Rightarrow>
          (case uc_Deactivate D now i d1 of
             (Some err, d2) \<Rightarrow> (Some err, d2, a)
           | (None, d2) \<Rightarrow>
               if ure_IsActive oldUser then
                 (let entry = (entry_for now ctx AuditActionUpdate i)
                        \<lparr>ae_OldValue := Some (active_value True), ae_NewValue := Some (active_value False)\<rparr>
                  in (None, d2, snd (au_Log au entry a)))
               else (None, d2, a)))"

section \<open>Handlers\<close>

record ('s, 'a) user_module =
  um_deps :: "'s user_deps"
  um_auditor :: "'a auditor"
  um_policy :: "string \<Rightarrow> string"
  um_list :: "ListUsersRequest binding"
  um_create :: "CreateUserRequest binding"
  um_update :: "UpdateUserRequest binding"
  um_password :: "ChangePasswordRequest binding"

text \<open>An operation on the database and the auditor as part of the service state.\<close>

definition on_db :: "(pg \<times> 'a \<Rightarrow> 'r \<times> pg \<times> 'a) \<Rightarrow> 's \<times> pg \<times> 'a \<Rightarrow> 'r \<times> 's \<times> pg \<times> 'a" where
  "on_db f w = (case w of (s, d, a) \<Rightarrow> case f (d, a) of (r, d', a') \<Rightarrow> (r, s, d', a'))"

definition reading :: "'r query \<Rightarrow> pg \<times> 'a \<Rightarrow> (go_error + 'r) \<times> pg \<times> 'a" where
  "reading q w = (case w of (d, a) \<Rightarrow> case q d of (r, d') \<Rightarrow> (r, d', a))"

definition h_GetByID :: "('s, 'a) user_module \<Rightarrow> ('s \<times> pg \<times> 'a) handler" where
  "h_GetByID m w c =
     answer c (\<lambda>u. Success c (user_json u)) (on_db (reading (uc_GetByID (um_deps m) (ctx_Params c ''id''))) w)"

definition h_List :: "('s, 'a) user_module \<Rightarrow> ('s \<times> pg \<times> 'a) handler" where
  "h_List m w c =
     bound (ValidateQuery (um_list m) c)
       (\<lambda>req w c. answer c (\<lambda>p. Paginated c (JArr (map user_json (cp_Items p))) (meta_json p))
          (on_db (reading (uc_List (um_deps m) req)) w)) w c"

definition h_Create :: "('s, 'a) user_module \<Rightarrow> go_time \<Rightarrow> uuid \<Rightarrow> string \<Rightarrow> ('s \<times> pg \<times> 'a) handler" where
  "h_Create m now new_id salt w c =
     bound (ValidateAndBind (um_policy m) (um_create m) c)
       (\<lambda>req w c. answer c (\<lambda>u. Created c (user_json u))
          (on_db (audited_Create (um_deps m) (um_auditor m) now (user_ctx c) new_id salt req) w)) w c"

definition h_Update :: "('s, 'a) user_module \<Rightarrow> go_time \<Rightarrow> ('s \<times> pg \<times> 'a) handler" where
  "h_Update m now w c =
     (let i = ctx_Params c ''id'' in
      bound (ValidateAndBind (um_policy m) (um_update m) c)
       (\<lambda>req w c. answer c (\<lambda>u. Success c (user_json u))
          (on_db (audited_Update (um_deps m) (um_auditor m) now (user_ctx c) i req) w)) w c)"

definition h_ChangePassword :: "('s, 'a) user_module \<Rightarrow> go_time \<Rightarrow> string \<Rightarrow> ('s \<times> pg \<times> 'a) handler" where
  "h_ChangePassword m now salt w c =
     (let userID = GetUserID c in
      if userID = '''' then with_state w (Unauthorized c '''')
      else bound (ValidateAndBind (um_policy m) (um_password m) c)
        (\<lambda>req w c. answer_err c (resp_Message c ''Password changed successfully'')
           (audited_ChangePassword (um_deps m) (um_auditor m) now (user_ctx c) salt userID req w)) w c)"

definition h_Delete :: "('s, 'a) user_module \<Rightarrow> go_time \<Rightarrow> ('s \<times> pg \<times> 'a) handler" where
  "h_Delete m now w c =
     answer_err c (NoContent c) (on_db (audited_Delete (um_deps m) (um_auditor m) now (user_ctx c) (ctx_Params c ''id'')) w)"

definition h_GetMe :: "('s, 'a) user_module \<Rightarrow> ('s \<times> pg \<times> 'a) handler" where
  "h_GetMe m w c =
     (let userID = GetUserID c in
      if userID = '''' then with_state w (Unauthorized c '''')
      else answer c (\<lambda>u. Success c (user_json u)) (on_db (reading (uc_GetByID (um_deps m) userID)) w))"

definition h_Activate :: "('s, 'a) user_module \<Rightarrow> go_time \<Rightarrow> ('s \<times> pg \<times> 'a) handler" where
  "h_Activate m now w c =
     answer_err c (resp_Message c ''User activated successfully'')
       (on_db (audited_Activate (um_deps m) (um_auditor m) now (user_ctx c) (ctx_Params c ''id'')) w)"

definition h_Deactivate :: "('s, 'a) user_module \<Rightarrow> go_time \<Rightarrow> ('s \<times> pg \<times> 'a) handler" where
  "h_Deactivate m now w c =
     answer_err c (resp_Message c ''User deactivated successfully'')
       (on_db (audited_Deactivate (um_deps m) (um_auditor m) now (user_ctx c) (ctx_Params c ''id'')) w)"

section \<open>Routes\<close>

datatype user_route = GetMe | PostPassword | GetUsers | GetUser | PostUser | PutUser | DeleteUserR | PostActivate | PostDeactivate

text \<open>The permission on the object \<^verbatim>\<open>users\<close> that a route requires beyond authentication.\<close>

primrec route_permission :: "user_route \<Rightarrow> string option" where
  "route_permission GetMe = None"
| "route_permission PostPassword = None"
| "route_permission GetUsers = Some ''read''"
| "route_permission GetUser = Some ''read''"
| "route_permission PostUser = Some ''create''"
| "route_permission PutUser = Some ''update''"
| "route_permission DeleteUserR = Some ''delete''"
| "route_permission PostActivate = Some ''update''"
| "route_permission PostDeactivate = Some ''update''"

primrec route_handler :: "('s, 'a) user_module \<Rightarrow> go_time \<Rightarrow> uuid \<Rightarrow> string \<Rightarrow> user_route \<Rightarrow> ('s \<times> pg \<times> 'a) handler" where
  "route_handler m now new_id salt GetMe = h_GetMe m"
| "route_handler m now new_id salt PostPassword = h_ChangePassword m now salt"
| "route_handler m now new_id salt GetUsers = h_List m"
| "route_handler m now new_id salt GetUser = h_GetByID m"
| "route_handler m now new_id salt PostUser = h_Create m now new_id salt"
| "route_handler m now new_id salt PutUser = h_Update m now"
| "route_handler m now new_id salt DeleteUserR = h_Delete m now"
| "route_handler m now new_id salt PostActivate = h_Activate m now"
| "route_handler m now new_id salt PostDeactivate = h_Deactivate m now"

definition user_routes ::
  "'z authorizer \<Rightarrow> string \<Rightarrow> ('s, 'a) user_module \<Rightarrow> go_time \<Rightarrow> uuid \<Rightarrow> string \<Rightarrow> user_route \<Rightarrow> ('z \<times> 's \<times> pg \<times> 'a) handler" where
  "user_routes az jwtSecret m now new_id salt r =
     protected (lib_jwt (ud_libs (um_deps m))) now jwtSecret az (map_option (Pair ''users'') (route_permission r))
       (behind (route_handler m now new_id salt r))"

section \<open>Pages\<close>

text \<open>The users that a request selects, in the order of the pages, and the identifier its cursor stands for.\<close>

definition matching :: "ListUsersRequest \<Rightarrow> pg \<Rightarrow> user_row list" where
  "matching req d =
     sort_key ro_ID (filter (list_match d \<lparr>lp_Limit = 0, lp_Cursor = None, lp_Search = non_empty (lu_Search req),
       lp_EmailFilter = non_empty (lu_Email req), lp_IsActive = lu_IsActive req\<rparr>) (pg_users d))"

definition at_cursor :: "uuid_api \<Rightarrow> ListUsersRequest \<Rightarrow> uuid option \<Rightarrow> string \<Rightarrow> bool" where
  "at_cursor U req c dr \<longleftrightarrow>
     (case c of
        None \<Rightarrow> lu_Cursor req = '''' \<and> dr = ''''
      | Some i \<Rightarrow> lu_Cursor req \<noteq> '''' \<and>
          DecodeCursor (lu_Cursor req) = Inr (Some \<lparr>cu_LastID = uu_String U i, cu_LastValue = None, cu_Direction = dr\<rparr>))"

definition beyond :: "uuid option \<Rightarrow> user_row list \<Rightarrow> user_row list" where
  "beyond c rs = filter (\<lambda>r. case c of None \<Rightarrow> True | Some i \<Rightarrow> i < ro_ID r) rs"

abbreviation page_size :: "ListUsersRequest \<Rightarrow> nat" where
  "page_size req \<equiv> nat (NormalizeLimit (lu_Limit req))"

abbreviation shown :: "'s user_deps \<Rightarrow> user_row \<Rightarrow> UserResponse" where
  "shown D r \<equiv> toUserResponse D (sqlcUserToDomain r)"

text \<open>Following the next cursors from a request; \<open>None\<close> means that the fuel ran out.\<close>

fun walk :: "'s user_deps \<Rightarrow> nat \<Rightarrow> ListUsersRequest \<Rightarrow> pg \<Rightarrow> (go_error + UserResponse list list) option" where
  "walk D 0 req d = None"
| "walk D (Suc n) req d =
     (case uc_List D req d of
        (Inl err, d') \<Rightarrow> Some (Inl err)
      | (Inr p, d') \<Rightarrow>
          (case cp_NextCursor p of
             None \<Rightarrow> Some (Inr [cp_Items p])
           | Some s \<Rightarrow> map_option (map_sum id ((#) (cp_Items p))) (walk D n (req\<lparr>lu_Cursor := s\<rparr>) d')))"

lemma page_size_pos: "0 < page_size req" "int (page_size req) = NormalizeLimit (lu_Limit req)" "page_size req \<le> 100"
  using NormalizeLimit_bounds [of "lu_Limit req"] by simp_all

lemma matching_cursor [simp]: "matching (req\<lparr>lu_Cursor := s\<rparr>) d = matching req d"
  by (simp add: matching_def)

lemma matching_sorted:
  assumes "table_ok (pg_users d)"
  shows "sorted_wrt (\<lambda>a b. ro_ID a < ro_ID b) (matching req d)"
proof -
  have "distinct (map ro_ID (matching req d))"
    using assms by (simp add: matching_def table_ok_def distinct_map inj_on_def)
  moreover have "sorted (map ro_ID (matching req d))" by (simp add: matching_def)
  ultimately have "sorted_wrt (<) (map ro_ID (matching req d))" by (simp add: strict_sorted_iff)
  then show ?thesis by (simp add: sorted_wrt_map)
qed

lemma beyond_suffix:
  assumes "sorted_wrt (\<lambda>a b. ro_ID a < ro_ID b) (xs @ r # ys)"
  shows "beyond (Some (ro_ID r)) (xs @ r # ys) = ys"
proof -
  have "filter (\<lambda>q. ro_ID r < ro_ID q) xs = []" "filter (\<lambda>q. ro_ID r < ro_ID q) ys = ys"
    using assms by (auto simp: sorted_wrt_append filter_empty_conv filter_id_conv)
  then show ?thesis by (simp add: beyond_def)
qed

lemma before_prefix:
  assumes "sorted_wrt (\<lambda>a b. ro_ID a < ro_ID b) (xs @ r # ys)"
  shows "filter (\<lambda>q. ro_ID q < ro_ID r) (xs @ r # ys) = xs"
proof -
  have "filter (\<lambda>q. ro_ID q < ro_ID r) ys = []" "filter (\<lambda>q. ro_ID q < ro_ID r) xs = xs"
    using assms by (auto simp: sorted_wrt_append filter_empty_conv filter_id_conv)
  then show ?thesis by simp
qed

lemma beyond_split: "sorted_wrt (\<lambda>a b. ro_ID a < ro_ID b) ms \<Longrightarrow> \<exists>pre. ms = pre @ beyond c ms"
proof (induction ms)
  case (Cons m ms)
  then obtain pre where p: "ms = pre @ beyond c ms" by auto
  show ?case
  proof (cases "case c of None \<Rightarrow> True | Some i \<Rightarrow> i < ro_ID m")
    case True
    then have "beyond c (m # ms) = m # ms"
      using Cons.prems by (auto simp: beyond_def filter_id_conv split: option.splits)
    then show ?thesis by simp
  next
    case False
    then have "beyond c (m # ms) = beyond c ms" by (simp add: beyond_def)
    with p show ?thesis by (metis append_Cons)
  qed
qed (simp add: beyond_def)

lemma list_match_only:
  "list_match d \<lparr>lp_Limit = l, lp_Cursor = c, lp_Search = x, lp_EmailFilter = e, lp_IsActive = b\<rparr> =
   list_match d \<lparr>lp_Limit = 0, lp_Cursor = None, lp_Search = x, lp_EmailFilter = e, lp_IsActive = b\<rparr>"
  by (simp add: fun_eq_iff list_match_def)

lemma uc_List_pages:
  assumes "uuid_lib (lib_uuid (ud_libs D))" and "quiet d" and "at_cursor (lib_uuid (ud_libs D)) req c dr"
  shows "uc_List D req d =
    (Inr (NewBidirectionalCursorPage
       (map (shown D)
         (if dr = ''prev''
          then rev (take (Suc (page_size req)) (rev (filter (\<lambda>r. case c of None \<Rightarrow> True | Some i \<Rightarrow> ro_ID r < i) (matching req d))))
          else take (Suc (page_size req)) (beyond c (matching req d))))
       (NormalizeLimit (lu_Limit req)) dr (c \<noteq> None) response_cursor), d)"
proof -
  let ?U = "lib_uuid (ud_libs D)" and ?l = "NormalizeLimit (lu_Limit req)"
  have l: "1 \<le> ?l" "?l \<le> 100" "int32 (?l + 1) = ?l + 1" "nat (?l + 1) = Suc (page_size req)"
    using NormalizeLimit_bounds [of "lu_Limit req"] by (auto simp: int32_def)
  have nu: "NullableUUID ?U (uu_String ?U i) = Some i" for i by (rule uuid_lib.nullable_text [OF assms(1)])
  have ne: "NullableUUID ?U '''' = None" by (simp add: NullableUUID_def)
  have fs: "filter P (matching req d) =
      sort_key ro_ID (filter (\<lambda>r. P r \<and> list_match d \<lparr>lp_Limit = 0, lp_Cursor = None, lp_Search = non_empty (lu_Search req),
        lp_EmailFilter = non_empty (lu_Email req), lp_IsActive = lu_IsActive req\<rparr> r) (pg_users d))" for P
    by (simp add: matching_def filter_sort conj_commute)
  show ?thesis
    using assms(2,3) l nu ne
    by (auto simp: comp_def uc_List_def at_cursor_def repo_List_def Let_def NormalizeFilter_def ListUsers_def ListUsersPrev_def beyond_def fs
        list_match_only [of d _ "Some _"] list_match_only [of d "1 + _"] list_match_only [of d "_ + 1"] rev_map
        MaxLimit_def DefaultLimit_def split: option.splits)
qed

lemma cursor_of_row:
  assumes "uuid_lib U" and "U = lib_uuid (ud_libs D)" and "dr \<in> {''next'', ''prev''}"
  shows "\<exists>s. page_cursor response_cursor dr (shown D r) = Some s \<and> at_cursor U (req\<lparr>lu_Cursor := s\<rparr>) (Some (ro_ID r)) dr"
proof -
  let ?i = "uu_String U (ro_ID r)"
  have "valid_utf8 ?i"
    using uuid_lib.text_chars [OF assms(1), of "ro_ID r"] by (intro valid_utf8_ascii) (fastforce simp: list_all_iff byte_in_def)
  moreover have "valid_utf8 dr" using assms(3) ascii_names by auto
  moreover have "response_cursor (shown D r) = Some \<lparr>cu_LastID = ?i, cu_LastValue = None, cu_Direction = ''''\<rparr>"
    by (simp add: response_cursor_def toUserResponse_def assms(2))
  ultimately show ?thesis
    using decode_page_cursor [of response_cursor "shown D r" ?i "''''" dr] uuid_lib.text_not_empty [OF assms(1), of "ro_ID r"]
    by (auto simp: at_cursor_def)
qed

lemma forward_page:
  assumes "uuid_lib (lib_uuid (ud_libs D))" and "quiet d" and "at_cursor (lib_uuid (ud_libs D)) req c dr" and "dr \<noteq> ''prev''"
    and "rest = beyond c (matching req d)"
  obtains p where "uc_List D req d = (Inr p, d)" and "cp_Items p = map (shown D) (take (page_size req) rest)"
    and "length rest \<le> page_size req \<Longrightarrow> cp_NextCursor p = None"
    and "page_size req < length rest \<Longrightarrow> \<exists>s. cp_NextCursor p = Some s \<and>
      at_cursor (lib_uuid (ud_libs D)) (req\<lparr>lu_Cursor := s\<rparr>) (Some (ro_ID (last (take (page_size req) rest)))) ''next''"
    and "c \<noteq> None \<Longrightarrow> rest \<noteq> [] \<Longrightarrow> \<exists>s. cp_PrevCursor p = Some s \<and>
      at_cursor (lib_uuid (ud_libs D)) (req\<lparr>lu_Cursor := s\<rparr>) (Some (ro_ID (hd rest))) ''prev''"
proof -
  define L where "L = page_size req"
  have l: "NormalizeLimit (lu_Limit req) = int L" "0 < L" using page_size_pos [of req] by (simp_all add: L_def)
  define p where "p = NewBidirectionalCursorPage (map (shown D) (take (Suc L) rest)) (int L) dr (c \<noteq> None) response_cursor"
  have run: "uc_List D req d = (Inr p, d)"
    using uc_List_pages [OF assms(1-3), unfolded l(1)] assms(4,5) by (simp add: p_def)
  have items: "cp_Items p = map (shown D) (take L rest)"
    using assms(4) by (cases "L < length rest") (simp_all add: p_def NewBidirectionalCursorPage_def Let_def take_map)
  have none: "cp_NextCursor p = None" if "length rest \<le> L"
    using that assms(4) by (simp add: p_def NewBidirectionalCursorPage_def Let_def)
  have nxt: "cp_NextCursor p = page_cursor response_cursor ''next'' (shown D (last (take L rest)))" if "L < length rest"
    using that assms(4) l(2) by (auto simp: p_def NewBidirectionalCursorPage_def Let_def take_map CursorDirectionNext_def last_map)
  have prv: "cp_PrevCursor p = page_cursor response_cursor ''prev'' (shown D (hd rest))" if "c \<noteq> None" "rest \<noteq> []"
    using that assms(4) l(2)
    by (auto simp: p_def NewBidirectionalCursorPage_def Let_def take_map CursorDirectionPrev_def hd_map)
  show thesis
    by (rule that [OF run])
       (use items none nxt prv cursor_of_row [OF assms(1) refl, of "''next''"] cursor_of_row [OF assms(1) refl, of "''prev''"]
         in \<open>simp_all add: L_def\<close>)
qed

lemma next_rest:
  assumes "sorted_wrt (\<lambda>a b. ro_ID a < ro_ID b) ms" and "0 < k" and "k < length (beyond c ms)"
  shows "beyond (Some (ro_ID (last (take k (beyond c ms))))) ms = drop k (beyond c ms)"
proof -
  obtain rest pre where rest: "beyond c ms = rest" and pre: "ms = pre @ rest" using beyond_split [OF assms(1)] by blast
  have "take k rest \<noteq> []" using assms(2,3) rest by auto
  then have "rest = butlast (take k rest) @ last (take k rest) # drop k rest"
    by (metis append_Cons append_Nil append_assoc append_butlast_last_id append_take_drop_id)
  with pre obtain a r b where split: "ms = a @ r # b" "r = last (take k rest)" "b = drop k rest" by (metis append_assoc)
  with beyond_suffix [of a r b] assms(1) rest show ?thesis by simp
qed

lemma walk_pages:
  assumes "uuid_lib (lib_uuid (ud_libs D))" and "quiet d" and "table_ok (pg_users d)"
  shows "at_cursor (lib_uuid (ud_libs D)) req c dr \<Longrightarrow> dr \<noteq> ''prev'' \<Longrightarrow> length (beyond c (matching req d)) < n \<Longrightarrow>
    \<exists>ps. walk D n req d = Some (Inr ps) \<and> concat ps = map (shown D) (beyond c (matching req d)) \<and> ps \<noteq> [] \<and>
      (\<forall>p \<in> set (butlast ps). length p = page_size req) \<and> length (last ps) \<le> page_size req"
proof (induction n arbitrary: req c dr)
  case (Suc n)
  let ?rest = "beyond c (matching req d)" and ?L = "page_size req"
  obtain p where p: "uc_List D req d = (Inr p, d)" "cp_Items p = map (shown D) (take ?L ?rest)"
    "length ?rest \<le> ?L \<Longrightarrow> cp_NextCursor p = None"
    "?L < length ?rest \<Longrightarrow> \<exists>s. cp_NextCursor p = Some s \<and>
      at_cursor (lib_uuid (ud_libs D)) (req\<lparr>lu_Cursor := s\<rparr>) (Some (ro_ID (last (take ?L ?rest)))) ''next''"
    by (rule forward_page [OF assms(1,2) Suc.prems(1,2) refl]) blast
  show ?case
  proof (cases "?L < length ?rest")
    case False
    with p show ?thesis by simp
  next
    case True
    with p obtain s where s: "cp_NextCursor p = Some s"
      "at_cursor (lib_uuid (ud_libs D)) (req\<lparr>lu_Cursor := s\<rparr>) (Some (ro_ID (last (take ?L ?rest)))) ''next''" by auto
    let ?c = "Some (ro_ID (last (take ?L ?rest)))" and ?req = "req\<lparr>lu_Cursor := s\<rparr>"
    have rest: "beyond ?c (matching ?req d) = drop ?L ?rest"
      using next_rest [OF matching_sorted [OF assms(3)] page_size_pos(1) True] by simp
    moreover have "length (drop ?L ?rest) < n" using Suc.prems(3) page_size_pos(1) [of req] True by simp
    ultimately obtain ps where ps: "walk D n ?req d = Some (Inr ps)" "concat ps = map (shown D) (drop ?L ?rest)" "ps \<noteq> []"
      "\<forall>p \<in> set (butlast ps). length p = ?L" "length (last ps) \<le> ?L"
      using Suc.IH [OF s(2)] by auto
    have "walk D (Suc n) req d = Some (Inr (cp_Items p # ps))" using p(1) s(1) ps(1) by simp
    moreover have "concat (cp_Items p # ps) = map (shown D) ?rest" using p(2) ps(2) by (simp flip: map_append)
    ultimately show ?thesis using ps p(2) True by (intro exI [of _ "cp_Items p # ps"]) simp
  qed
qed simp

lemma back_page:
  assumes "uuid_lib (lib_uuid (ud_libs D))" and "quiet d" and "at_cursor (lib_uuid (ud_libs D)) req (Some i) ''prev''"
    and "filter (\<lambda>r. ro_ID r < i) (matching req d) = pre @ us" and "length us = page_size req"
  shows "\<exists>p. uc_List D req d = (Inr p, d) \<and> cp_Items p = map (shown D) us"
proof -
  have l: "NormalizeLimit (lu_Limit req) = int (length us)" using page_size_pos [of req] assms(5) by simp
  have t: "rev (take (Suc (length us)) (rev (pre @ us))) = (if pre = [] then us else last pre # us)"
    by (cases pre rule: rev_cases) simp_all
  show ?thesis
    using uc_List_pages [OF assms(1-3)] assms(4) t
    by (simp add: l del: rev_append) (simp add: NewBidirectionalCursorPage_def Let_def)
qed

section \<open>Properties of the pages\<close>

definition list_all_request :: "int \<Rightarrow> ListUsersRequest" where
  "list_all_request n = \<lparr>lu_Cursor = '''', lu_Limit = n, lu_Search = None, lu_Email = None, lu_IsActive = None\<rparr>"

definition demo_deps :: "redis user_deps" where
  "demo_deps = \<lparr>ud_libs = demo_libs, ud_fmt = (\<lambda>t. ''''), ud_authRevoker = Some (RevokeAllForUser demo_uc)\<rparr>"

definition two_users :: pg where
  "two_users = demo_pg\<lparr>pg_users := pg_users demo_pg @ [\<lparr>ro_ID = 9, ro_Email = ''bob@example.com'', ro_PasswordHash = ''#x'', ro_Name = ''Bob'',
     ro_IsActive = Some False, ro_CreatedAt = Some 2, ro_UpdatedAt = Some 2\<rparr>]\<rparr>"

lemmas two_users_eval = two_users_def demo_pg_def example_pg_def

lemma two_users_ok: "quiet two_users" "table_ok (pg_users two_users)"
  by (auto simp: quiet_def table_ok_def two_users_eval)



text \<open>
  C21. Going to the next page and back shows the same users. When a page of a forward walk has a next cursor, the page
  behind it has a previous cursor, and following that one returns exactly the items of the first page.
\<close>

theorem next_then_prev_returns:
  assumes "uuid_lib (lib_uuid (ud_libs D))" and "quiet d" and "table_ok (pg_users d)"
    and "at_cursor (lib_uuid (ud_libs D)) req c dr" and "dr \<noteq> ''prev''"
    and "fst (uc_List D req d) = Inr p" and "cp_NextCursor p = Some s"
  shows "\<exists>p2 s2 p3. fst (uc_List D (req\<lparr>lu_Cursor := s\<rparr>) d) = Inr p2 \<and> cp_PrevCursor p2 = Some s2 \<and>
    fst (uc_List D (req\<lparr>lu_Cursor := s2\<rparr>) d) = Inr p3 \<and> cp_Items p3 = cp_Items p"
proof -
  let ?U = "lib_uuid (ud_libs D)"
  define ms where "ms = matching req d"
  define L where "L = page_size req"
  define rest where "rest = beyond c ms"
  have sorted: "sorted_wrt (\<lambda>a b. ro_ID a < ro_ID b) ms" unfolding ms_def by (rule matching_sorted [OF assms(3)])
  have pos: "0 < L" using page_size_pos [of req] by (simp add: L_def)
  obtain p' where p': "uc_List D req d = (Inr p', d)" "cp_Items p' = map (shown D) (take L rest)"
    "length rest \<le> L \<Longrightarrow> cp_NextCursor p' = None"
    "L < length rest \<Longrightarrow> \<exists>s. cp_NextCursor p' = Some s \<and> at_cursor ?U (req\<lparr>lu_Cursor := s\<rparr>) (Some (ro_ID (last (take L rest)))) ''next''"
    unfolding L_def by (rule forward_page [OF assms(1,2,4,5), of rest]) (simp_all add: rest_def ms_def)
  have more: "L < length rest" and s: "at_cursor ?U (req\<lparr>lu_Cursor := s\<rparr>) (Some (ro_ID (last (take L rest)))) ''next''"
    and p: "cp_Items p = map (shown D) (take L rest)"
    using p' assms(6,7) by (force simp: not_le)+
  have rest2: "beyond (Some (ro_ID (last (take L rest)))) ms = drop L rest"
    using next_rest [OF sorted pos, of c] more by (simp add: rest_def)
  have hd2: "hd (drop L rest) = rest ! L" using more by (simp add: hd_drop_conv_nth)
  have ne2: "drop L rest \<noteq> []" using more by simp
  obtain p2 s2 where p2: "uc_List D (req\<lparr>lu_Cursor := s\<rparr>) d = (Inr p2, d)" "cp_PrevCursor p2 = Some s2"
    "at_cursor ?U (req\<lparr>lu_Cursor := s2\<rparr>) (Some (ro_ID (rest ! L))) ''prev''"
  proof (rule forward_page [OF assms(1,2) s, of "drop L rest"])
    fix q assume q: "uc_List D (req\<lparr>lu_Cursor := s\<rparr>) d = (Inr q, d)"
      "Some (ro_ID (last (take L rest))) \<noteq> None \<Longrightarrow> drop L rest \<noteq> [] \<Longrightarrow> \<exists>s'. cp_PrevCursor q = Some s' \<and>
        at_cursor ?U (req\<lparr>lu_Cursor := s, lu_Cursor := s'\<rparr>) (Some (ro_ID (hd (drop L rest)))) ''prev''"
    then show thesis using that [OF q(1)] hd2 ne2 by auto
  qed (use rest2 in \<open>simp_all add: ms_def\<close>)
  obtain pre where pre: "ms = pre @ rest" using beyond_split [OF sorted, of c] by (auto simp: rest_def)
  have before: "filter (\<lambda>r. ro_ID r < ro_ID (rest ! L)) ms = pre @ take L rest"
  proof -
    have split: "ms = (pre @ take L rest) @ rest ! L # drop (Suc L) rest" using pre more by (simp add: id_take_nth_drop)
    show ?thesis using before_prefix [of "pre @ take L rest" "rest ! L" "drop (Suc L) rest"] sorted split by metis
  qed
  show ?thesis
    using p2 p back_page [OF assms(1,2) p2(3), of pre "take L rest"] before more by (auto simp: ms_def L_def)
qed

lemma next_then_prev_returns_witness:
  "\<exists>p s p2 s2 p3. fst (uc_List demo_deps (list_all_request 1) two_users) = Inr p \<and> cp_NextCursor p = Some s \<and>
     fst (uc_List demo_deps ((list_all_request 1)\<lparr>lu_Cursor := s\<rparr>) two_users) = Inr p2 \<and> cp_PrevCursor p2 = Some s2 \<and>
     fst (uc_List demo_deps ((list_all_request 1)\<lparr>lu_Cursor := s2\<rparr>) two_users) = Inr p3 \<and> cp_Items p3 = cp_Items p"
proof -
  let ?r = "list_all_request 1" and ?U = "lib_uuid (ud_libs demo_deps)"
  have U: "uuid_lib ?U" using rfc4122.uuid_lib_axioms by (simp add: demo_deps_def demo_libs_def)
  have c: "at_cursor ?U ?r None ''''" by (simp add: at_cursor_def list_all_request_def)
  have two: "length (beyond None (matching ?r two_users)) = 2" "page_size ?r = 1"
    by (simp_all add: beyond_def matching_def list_match_def list_all_request_def two_users_eval non_empty_def NormalizeLimit_def
        cursor_MaxLimit_def)
  obtain p s where p: "uc_List demo_deps ?r two_users = (Inr p, two_users)" "cp_NextCursor p = Some s"
    by (rule forward_page [OF U two_users_ok(1) c _ refl]) (use two in auto)
  have "fst (uc_List demo_deps ?r two_users) = Inr p" using p(1) by simp
  from next_then_prev_returns [OF U two_users_ok c _ this p(2)] this p(2) show ?thesis by simp
qed

lemma login_accepted:
  assumes "uc_userRepo uc = repository_lookup (lib_uuid L)"
    and "\<forall>p salt h. bc_Generate (lib_bcrypt L) p salt = Inr h \<longrightarrow> bc_Compare (lib_bcrypt L) h p = None"
    and "bc_Generate (lib_bcrypt L) pw salt = Inr h"
    and "repo_GetByEmail e d = (Inr (sqlcUserToDomain (r\<lparr>ro_PasswordHash := h, ro_UpdatedAt := u\<rparr>)), d)"
  shows "fst (Login L uc t rnd \<lparr>lr_Email = e, lr_Password = pw\<rparr> (s, d)) \<noteq> Inl bad_credentials"
proof -
  have "bc_Compare (lib_bcrypt L) h pw = None" using assms(2,3) by blast
  moreover have "cache_down \<noteq> bad_credentials" "Internalf m \<noteq> bad_credentials" for m
    by (simp_all add: cache_down_def bad_credentials_def go_errors ErrUnauthorized_def)
  ultimately show ?thesis
    using assms(1,4) by (auto simp: Login_def repository_lookup_def store_session_def Let_def split: sum.splits option.splits prod.splits)
qed

section \<open>Changing a password\<close>

lemma table_ok_email: "table_ok rs \<Longrightarrow> r \<in> set rs \<Longrightarrow> q \<in> set rs \<Longrightarrow> ro_Email r = ro_Email q \<Longrightarrow> r = q"
  by (auto simp: table_ok_def distinct_map inj_on_def)

lemma get_by_email_row:
  assumes "quiet d" and "table_ok (pg_users d)" and "r \<in> set (pg_users d)" and "ro_IsActive r = Some True"
  shows "repo_GetByEmail (ro_Email r) d = (Inr (sqlcUserToDomain r), d)"
proof -
  let ?P = "\<lambda>q. ro_Email q = ro_Email r \<and> ro_IsActive q = Some True"
  obtain q qs where q: "filter ?P (pg_users d) = q # qs"
    using assms(3,4) by (cases "filter ?P (pg_users d)") (auto simp: filter_empty_conv)
  from filter_hd [OF q] have "q = r" using table_ok_email [OF assms(2) _ assms(3)] by blast
  with q assms(1) show ?thesis by (simp add: repo_GetByEmail_def GetUserByEmail_def first_row_def)
qed

lemma get_by_id_row:
  assumes "quiet d" and "uu_Parse U i = Some uid" and "repo_GetByID U i d = (Inr user, d')"
  shows "d' = d \<and> (\<exists>r \<in> set (pg_users d). ro_ID r = uid \<and> user = sqlcUserToDomain r)"
proof (cases "filter (\<lambda>r. ro_ID r = uid) (pg_users d)")
  case Nil
  with assms show ?thesis by (simp add: repo_GetByID_def GetUserByID_def first_row_def UUIDToPgtype_def)
next
  case (Cons r rs)
  with assms filter_hd [OF Cons] show ?thesis by (auto simp: repo_GetByID_def GetUserByID_def first_row_def UUIDToPgtype_def)
qed

lemma update_password_row:
  assumes "quiet d" and "uu_Parse U i = Some uid"
    and "d' = update_where (\<lambda>q. ro_ID q = uid \<and> ro_IsActive q = Some True) (\<lambda>q. q\<lparr>ro_PasswordHash := h, ro_UpdatedAt := Some now\<rparr>) d"
  shows "repo_UpdatePassword U now i h d = (Inr (), d')" and "table_ok (pg_users d) \<Longrightarrow> table_ok (pg_users d')"
proof -
  have q: "UpdatePassword now (Some uid) h d = (Inr (), d')" using assms(1,3) by (simp add: UpdatePassword_def Let_def)
  with assms(2) show "repo_UpdatePassword U now i h d = (Inr (), d')" by (simp add: repo_UpdatePassword_def by_id_def UUIDToPgtype_def)
  have "keeps (UpdatePassword now (Some uid) h)" by (rule keeps_queries)
  then show "table_ok (pg_users d')" if "table_ok (pg_users d)" using that q by (auto simp: keeps_def dest!: spec [of _ d])
qed

lemma uc_ChangePassword_done:
  assumes "quiet d" and "uu_Parse (lib_uuid (ud_libs D)) i = Some uid" and "ud_authRevoker D = Some revoke"
    and "uc_ChangePassword D now salt i req (s, d) = (None, s', d')"
  obtains r h where "r \<in> set (pg_users d)" and "ro_ID r = uid"
    and "bc_Compare (lib_bcrypt (ud_libs D)) (ro_PasswordHash r) (cp_CurrentPassword req) = None"
    and "bc_Generate (lib_bcrypt (ud_libs D)) (cp_NewPassword req) salt = Inr h"
    and "d' = update_where (\<lambda>q. ro_ID q = uid \<and> ro_IsActive q = Some True) (\<lambda>q. q\<lparr>ro_PasswordHash := h, ro_UpdatedAt := Some now\<rparr>) d"
    and "revoke now i s = (None, s')"
proof -
  from assms(4) obtain user d1 where g: "repo_GetByID (lib_uuid (ud_libs D)) i d = (Inr user, d1)"
    by (auto simp: uc_ChangePassword_def split: prod.splits sum.splits)
  from get_by_id_row [OF assms(1,2) g] obtain r where r: "d1 = d" "r \<in> set (pg_users d)" "ro_ID r = uid" "user = sqlcUserToDomain r" by auto
  from assms(4) g r(1,4) obtain h where h: "bc_Generate (lib_bcrypt (ud_libs D)) (cp_NewPassword req) salt = Inr h"
      and cmp: "bc_Compare (lib_bcrypt (ud_libs D)) (ro_PasswordHash r) (cp_CurrentPassword req) = None"
    by (auto simp: uc_ChangePassword_def split: sum.splits if_splits)
  from assms g r(1,4) h cmp show thesis
    by (intro that [OF r(2,3) cmp h])
       (auto simp: uc_ChangePassword_def update_password_row [OF assms(1,2) refl] split: option.splits prod.splits)
qed

section \<open>Properties of the use case\<close>

text \<open>
  C15. A password change that reports success takes effect. Over every cache with the laws of a key-value store, the
  current password was verified, no refresh token of the user can be redeemed afterwards, and an active user can log
  in with the new password. For an inactive user nothing is stored although success is reported, since the
  statement updates active users only.
\<close>

theorem change_password_takes_effect:
  assumes "session_cache ca live ok skey (lib_uuid L)" and "uc_cache uc = ca" and "uc_userRepo uc = repository_lookup (lib_uuid L)"
    and "ud_libs D = L" and "ud_authRevoker D = Some (RevokeAllForUser uc)"
    and "ok s" and "\<forall>t h v. session_of (live s t) h = Some v \<longrightarrow> colon_free v" and "quiet d" and "table_ok (pg_users d)"
    and "\<forall>p salt h. bc_Generate (lib_bcrypt L) p salt = Inr h \<longrightarrow> bc_Compare (lib_bcrypt L) h p = None"
    and "uc_ChangePassword D now salt (uu_String (lib_uuid L) i) req (s, d) = (None, s', d')" and "now \<le> t"
  shows "\<exists>r \<in> set (pg_users d). ro_ID r = i \<and> bc_Compare (lib_bcrypt L) (ro_PasswordHash r) (cp_CurrentPassword req) = None \<and>
    (session_of (live s t) (tokenHash tok) = Some (uu_String (lib_uuid L) i) \<longrightarrow>
      fst (Refresh L uc t rnd \<lparr>rr_RefreshToken = tok\<rparr> (s', d')) = Inl bad_refresh) \<and>
    (if ro_IsActive r = Some True
     then fst (Login L uc t rnd \<lparr>lr_Email = ro_Email r, lr_Password = cp_NewPassword req\<rparr> (s', d')) \<noteq> Inl bad_credentials
     else pg_users d' = pg_users d)"
proof -
  let ?U = "lib_uuid L" and ?id = "uu_String (lib_uuid L) i"
  have U: "uuid_lib ?U" using assms(1) by (simp add: session_cache_def)
  have parse: "uu_Parse (lib_uuid (ud_libs D)) ?id = Some i" using uuid_lib.parse_text [OF U] assms(4) by simp
  obtain r h where r: "r \<in> set (pg_users d)" "ro_ID r = i" "bc_Compare (lib_bcrypt L) (ro_PasswordHash r) (cp_CurrentPassword req) = None"
    "bc_Generate (lib_bcrypt L) (cp_NewPassword req) salt = Inr h"
    "d' = update_where (\<lambda>q. ro_ID q = i \<and> ro_IsActive q = Some True) (\<lambda>q. q\<lparr>ro_PasswordHash := h, ro_UpdatedAt := Some now\<rparr>) d"
    "RevokeAllForUser uc now ?id s = (None, s')"
    by (rule uc_ChangePassword_done [OF assms(8) parse assms(5,11)]) (use assms(4) in auto)
  have uid: "user_id ?id"
    using uuid_lib.text_chars [OF U, of i] by (auto simp: user_id_def colon_free_def plain_def)
  have dead: "fst (Refresh L uc t rnd \<lparr>rr_RefreshToken = tok\<rparr> (s', d')) = Inl bad_refresh"
    if "session_of (live s t) (tokenHash tok) = Some ?id"
  proof -
    have "ok s' \<and> session_of (live s' t) (tokenHash tok) = None"
      using session_cache.revoke_effect [OF assms(1,6,2) uid assms(7,12), of "tokenHash tok"] r(6) that by simp
    then show ?thesis
      using session_cache.refresh_without_session [OF assms(1) _ assms(2), of s' t "\<lparr>rr_RefreshToken = tok\<rparr>"] by simp
  qed
  have login: "fst (Login L uc t rnd \<lparr>lr_Email = ro_Email r, lr_Password = cp_NewPassword req\<rparr> (s', d')) \<noteq> Inl bad_credentials"
    if "ro_IsActive r = Some True"
  proof -
    let ?r = "r\<lparr>ro_PasswordHash := h, ro_UpdatedAt := Some now\<rparr>"
    have "?r \<in> set (pg_users d')" using r(1,2,5) that by force
    moreover have "table_ok (pg_users d')" by (rule update_password_row(2) [OF assms(8) parse r(5) assms(9)])
    ultimately have "repo_GetByEmail (ro_Email r) d' = (Inr (sqlcUserToDomain ?r), d')"
      using get_by_email_row [of d' ?r] that assms(8) r(5) by simp
    with assms(3,10) r(4) show ?thesis by (rule login_accepted)
  qed
  have "pg_users d' = pg_users d" if "ro_IsActive r \<noteq> Some True"
    using table_ok_unique [OF assms(9) r(1)] that r(2,5) by (auto intro!: map_idI) metis
  with r dead login show ?thesis by (intro bexI [OF _ r(1)]) simp
qed

lemma change_password_takes_effect_witness:
  "\<exists>s' d'. uc_ChangePassword demo_deps 5 ''salt'' (uu_String uuid_rfc4122 7) \<lparr>cp_CurrentPassword = ''secret'', cp_NewPassword = ''longer''\<rparr>
       (empty_redis, demo_pg) = (None, s', d') \<and>
     fst (Login demo_libs demo_uc 6 (Inr ''r'') \<lparr>lr_Email = ''ada@example.com'', lr_Password = ''longer''\<rparr> (s', d')) \<noteq> Inl bad_credentials"
proof -
  let ?id = "uu_String uuid_rfc4122 7" and ?req = "\<lparr>cp_CurrentPassword = ''secret'', cp_NewPassword = ''longer''\<rparr>"
  have lib: "lib_uuid demo_libs = uuid_rfc4122" "ud_libs demo_deps = demo_libs" "ud_authRevoker demo_deps = Some (RevokeAllForUser demo_uc)"
    by (simp_all add: demo_libs_def demo_deps_def)
  have pg: "quiet demo_pg" "table_ok (pg_users demo_pg)" by (auto simp: quiet_def table_ok_def demo_pg_def example_pg_def)
  have cache: "session_cache (RedisCache 5 redis_cmds) redis_live redis_ok string_key (lib_uuid demo_libs)"
    using rs.session_cache_axioms lib by simp
  have law: "\<forall>p salt h. bc_Generate (lib_bcrypt demo_libs) p salt = Inr h \<longrightarrow> bc_Compare (lib_bcrypt demo_libs) h p = None"
    by (simp add: demo_libs_def)
  have uid: "user_id ?id"
    using rfc4122.text_chars [of 7] by (auto simp: user_id_def colon_free_def plain_def)
  have live: "\<forall>t h v. session_of (redis_live empty_redis t) h = Some v \<longrightarrow> colon_free v" using demo_redis(2) by simp
  have rev: "fst (RevokeAllForUser demo_uc 5 ?id empty_redis) = None"
    using rs.revoke_effect [OF demo_redis(1) _ uid live, of demo_uc 5 5] by (simp add: demo_uc_def del: key_forms)
  have "repo_GetByID uuid_rfc4122 ?id demo_pg = (Inr ada, demo_pg)"
    using demo_user(2) by (simp add: lib demo_uc_def repository_lookup_def)
  moreover obtain s' where "RevokeAllForUser demo_uc 5 ?id empty_redis = (None, s')" using rev by (metis prod.collapse)
  moreover obtain d' where "repo_UpdatePassword uuid_rfc4122 5 ?id ''#longer'' demo_pg = (Inr (), d')"
    using update_password_row(1) [OF pg(1) rfc4122.parse_text refl] by blast
  moreover have "bc_Generate (lib_bcrypt demo_libs) ''longer'' ''salt'' = Inr ''#longer''" by (simp add: demo_libs_def)
  ultimately have run: "uc_ChangePassword demo_deps 5 ''salt'' ?id ?req (empty_redis, demo_pg) = (None, s', d')"
    by (simp add: uc_ChangePassword_def lib del: key_forms)
  have "\<exists>r \<in> set (pg_users demo_pg). ro_ID r = 7 \<and> bc_Compare (lib_bcrypt demo_libs) (ro_PasswordHash r) (cp_CurrentPassword ?req) = None \<and>
    (session_of (redis_live empty_redis 6) (tokenHash tok_r) = Some (uu_String (lib_uuid demo_libs) 7) \<longrightarrow>
      fst (Refresh demo_libs demo_uc 6 (Inr ''r'') \<lparr>rr_RefreshToken = tok_r\<rparr> (s', d')) = Inl bad_refresh) \<and>
    (if ro_IsActive r = Some True
     then fst (Login demo_libs demo_uc 6 (Inr ''r'') \<lparr>lr_Email = ro_Email r, lr_Password = cp_NewPassword ?req\<rparr> (s', d')) \<noteq> Inl bad_credentials
     else pg_users d' = pg_users demo_pg)"
    by (rule change_password_takes_effect [OF cache _ _ lib(2,3) demo_redis(1) live pg law run [folded lib(1)]])
       (simp_all add: demo_uc_def lib)
  then show ?thesis using run by (simp add: demo_pg_def example_pg_def)
qed

section \<open>Mutations through the decorator\<close>

datatype user_mutation =
    MCreate uuid string CreateUserRequest
  | MUpdate string UpdateUserRequest
  | MChangePassword string string ChangePasswordRequest
  | MDelete string
  | MActivate string
  | MDeactivate string

definition error_only :: "(go_error + 'r) \<times> 'w \<Rightarrow> go_error option \<times> 'w" where
  "error_only rw = (case rw of (Inl err, w) \<Rightarrow> (Some err, w) | (Inr _, w) \<Rightarrow> (None, w))"

primrec mutate ::
  "'s user_deps \<Rightarrow> 'a auditor \<Rightarrow> go_time \<Rightarrow> go_context \<Rightarrow> user_mutation \<Rightarrow> 's \<times> pg \<times> 'a \<Rightarrow> go_error option \<times> 's \<times> pg \<times> 'a" where
  "mutate D au now ctx (MCreate new_id salt req) w = error_only (on_db (audited_Create D au now ctx new_id salt req) w)"
| "mutate D au now ctx (MUpdate i req) w = error_only (on_db (audited_Update D au now ctx i req) w)"
| "mutate D au now ctx (MChangePassword salt i req) w = audited_ChangePassword D au now ctx salt i req w"
| "mutate D au now ctx (MDelete i) w = on_db (audited_Delete D au now ctx i) w"
| "mutate D au now ctx (MActivate i) w = on_db (audited_Activate D au now ctx i) w"
| "mutate D au now ctx (MDeactivate i) w = on_db (audited_Deactivate D au now ctx i) w"

text \<open>A query that only reads, and one that leaves the table alone when it reports an error.\<close>

definition reads :: "'a query \<Rightarrow> bool" where
  "reads q \<longleftrightarrow> (\<forall>d r d'. q d = (r, d') \<longrightarrow> pg_users d' = pg_users d)"

definition clean :: "'a query \<Rightarrow> bool" where
  "clean q \<longleftrightarrow> (\<forall>d err d'. q d = (Inl err, d') \<longrightarrow> pg_users d' = pg_users d)"

lemma reads_D: "reads q \<Longrightarrow> q d = (r, d') \<Longrightarrow> pg_users d' = pg_users d"
  by (simp add: reads_def)

lemma clean_D: "clean q \<Longrightarrow> q d = (Inl err, d') \<Longrightarrow> pg_users d' = pg_users d"
  by (simp add: clean_def)

lemma clean_statement: "clean q \<Longrightarrow> clean (statement q)"
  unfolding clean_def
proof (intro allI impI)
  fix d err d' assume q: "\<forall>d err d'. q d = (Inl err, d') \<longrightarrow> pg_users d' = pg_users d" and s: "statement q d = (Inl err, d')"
  obtain f d1 where f: "next_fault d = (f, d1)" by fastforce
  have "pg_users d1 = pg_users d" using next_fault_frame(1) [of d] f by simp
  with q s f show "pg_users d' = pg_users d" by (cases f) (auto simp: statement_def)
qed

lemma reads_statement: "reads q \<Longrightarrow> reads (statement q)"
  unfolding reads_def
proof (intro allI impI)
  fix d r d' assume q: "\<forall>d r d'. q d = (r, d') \<longrightarrow> pg_users d' = pg_users d" and s: "statement q d = (r, d')"
  obtain f d1 where f: "next_fault d = (f, d1)" by fastforce
  have "pg_users d1 = pg_users d" using next_fault_frame(1) [of d] f by simp
  with q s f show "pg_users d' = pg_users d" by (cases f) (auto simp: statement_def)
qed

lemma reads_GetByID: "reads (repo_GetByID U i)" "reads (uc_GetByID D i)"
proof -
  have "reads (GetUserByID u)" for u
    unfolding GetUserByID_def by (rule reads_statement) (auto simp: reads_def first_row_def split: list.splits)
  then show r: "reads (repo_GetByID U i)" for U by (auto simp: reads_def repo_GetByID_def split: option.splits prod.splits sum.splits)
  then show "reads (uc_GetByID D i)" by (auto simp: reads_def uc_GetByID_def split: prod.splits sum.splits)
qed

lemma clean_updates:
  "clean (UpdatePassword now i h)" "clean (DeleteUser now i)" "clean (ActivateUser now i)" "clean (DeactivateUser now i)"
  "clean (UpdateUser now i n e)"
  unfolding UpdatePassword_def DeleteUser_def ActivateUser_def DeactivateUser_def UpdateUser_def
  by (rule clean_statement; auto simp: clean_def Let_def split: option.splits list.splits if_splits)+

lemma clean_repo:
  "clean (repo_UpdatePassword U now i h)" "clean (repo_Delete U now i)" "clean (repo_Activate U now i)"
  "clean (repo_Deactivate U now i)" "clean (uc_Update D now i req)"
proof -
  have by_id: "clean (by_id U what i q)" if "\<And>u. clean (q u)" for what q
    using that by (auto simp: clean_def by_id_def split: option.splits prod.splits sum.splits)
  show "clean (repo_UpdatePassword U now i h)" "clean (repo_Delete U now i)" "clean (repo_Activate U now i)" "clean (repo_Deactivate U now i)"
    unfolding repo_UpdatePassword_def repo_Delete_def repo_Activate_def repo_Deactivate_def by (rule by_id, rule clean_updates)+
  show "clean (uc_Update D now i req)"
    using clean_updates(5)
    by (auto simp: clean_def uc_Update_def repo_Update_def split: option.splits prod.splits sum.splits if_splits)
qed

lemma clean_uc_Create: "clean (uc_Create D now new_id salt req)"
  using WithTx_error by (fastforce simp: clean_def uc_Create_def split: sum.splits prod.splits)

lemma err_of_clean: "clean q \<Longrightarrow> err_of q d = (Some err, d') \<Longrightarrow> pg_users d' = pg_users d"
  by (auto simp: err_of_def clean_def split: prod.splits sum.splits)

lemma toggles_error:
  "uc_Delete D now i d = (Some err, d') \<Longrightarrow> pg_users d' = pg_users d"
  "uc_Activate D now i d = (Some err, d') \<Longrightarrow> pg_users d' = pg_users d"
  "uc_Deactivate D now i d = (Some err, d') \<Longrightarrow> pg_users d' = pg_users d"
  using reads_D [OF reads_GetByID(1)] err_of_clean [OF clean_repo(2)] err_of_clean [OF clean_repo(3)] err_of_clean [OF clean_repo(4)]
  by (fastforce simp: uc_Delete_def uc_Activate_def uc_Deactivate_def split: prod.splits sum.splits if_splits)+

lemma GetByID_same:
  assumes "repo_GetByID U i d = (Inr u, d1)" and "repo_GetByID U i e = (Inr v, e1)" and "pg_users e = pg_users d"
  shows "v = u"
proof -
  have row: "\<exists>rs. filter P (pg_users d) = r # rs" if "statement (first_row P) d = (Inr r, d')" for P r and d d' :: pg
  proof (cases "next_fault d")
    case (Pair f d1)
    with that next_fault_frame(1) [of d] show ?thesis
      by (cases f) (auto simp: statement_def first_row_def split: list.splits)
  qed
  from assms(1,2) obtain uid r d' q e' where
    "GetUserByID (UUIDToPgtype uid) d = (Inr r, d')" "u = sqlcUserToDomain r"
    "GetUserByID (UUIDToPgtype uid) e = (Inr q, e')" "v = sqlcUserToDomain q"
    by (auto simp: repo_GetByID_def split: option.splits prod.splits sum.splits)
  with row [of _ d r d'] row [of _ e q e'] assms(3) show ?thesis unfolding GetUserByID_def by fastforce
qed

lemma toggles_idle:
  assumes "uc_GetByID D i d = (Inr u, d1)"
  shows "uc_Activate D now i d1 = (r, d2) \<Longrightarrow> ure_IsActive u \<Longrightarrow> pg_users d2 = pg_users d"
    and "uc_Deactivate D now i d1 = (r, d2) \<Longrightarrow> \<not> ure_IsActive u \<Longrightarrow> pg_users d2 = pg_users d"
proof -
  from assms obtain user where g: "repo_GetByID (lib_uuid (ud_libs D)) i d = (Inr user, d1)" "ure_IsActive u = us_IsActive user"
    by (auto simp: uc_GetByID_def toUserResponse_def split: prod.splits sum.splits)
  have d1: "pg_users d1 = pg_users d" by (rule reads_D [OF reads_GetByID(1) g(1)])
  have same: "us_IsActive v = us_IsActive user \<and> pg_users d3 = pg_users d"
    if "repo_GetByID (lib_uuid (ud_libs D)) i d1 = (Inr v, d3)" for v d3
    using GetByID_same [OF g(1) that d1] reads_D [OF reads_GetByID(1) that] d1 by simp
  have err: "pg_users d3 = pg_users d" if "repo_GetByID (lib_uuid (ud_libs D)) i d1 = (Inl e, d3)" for e d3
    using reads_D [OF reads_GetByID(1) that] d1 by simp
  obtain v d3 where v: "repo_GetByID (lib_uuid (ud_libs D)) i d1 = (v, d3)" by fastforce
  show "pg_users d2 = pg_users d" if "uc_Activate D now i d1 = (r, d2)" "ure_IsActive u"
    using that v g(2) same [of _ d3] err [of _ d3] by (cases v) (auto simp: uc_Activate_def)
  show "pg_users d2 = pg_users d" if "uc_Deactivate D now i d1 = (r, d2)" "\<not> ure_IsActive u"
    using that v g(2) same [of _ d3] err [of _ d3] by (cases v) (auto simp: uc_Deactivate_def)
qed

text \<open>What an audited change looks like: success, and one entry about a user in the name of the caller.\<close>

definition audited_by :: "'a auditor \<Rightarrow> go_context \<Rightarrow> 'a \<Rightarrow> 'a \<Rightarrow> bool" where
  "audited_by au ctx a a' \<longleftrightarrow>
     (\<exists>en. a' = snd (au_Log au en a) \<and> ae_Resource en = ''user'' \<and> ae_UserID en = ac_UserID (ExtractAuditContext ctx))"

lemma entry_for_fields [simp]:
  "ae_Resource (entry_for now ctx act i) = ''user''" "ae_UserID (entry_for now ctx act i) = ac_UserID (ExtractAuditContext ctx)"
  by (simp_all add: entry_for_def NewAuditEntry_def Let_def)

lemma audited_byI:
  "ae_Resource en = ''user'' \<Longrightarrow> ae_UserID en = ac_UserID (ExtractAuditContext ctx) \<Longrightarrow> audited_by au ctx a (snd (au_Log au en a))"
  by (auto simp: audited_by_def)

lemma audited_Create_change:
  assumes "audited_Create D au now ctx new_id salt req (d, a) = (r, d', a')" and "pg_users d' \<noteq> pg_users d"
  shows "(\<exists>x. r = Inr x) \<and> audited_by au ctx a a'"
proof (cases "uc_Create D now new_id salt req d")
  case (Pair x d1)
  then have "pg_users d1 = pg_users d" if "x = Inl err" for err using that by (auto intro: clean_D [OF clean_uc_Create])
  with assms Pair show ?thesis
    by (cases x) (auto simp: audited_Create_def Let_def intro!: audited_byI)
qed

lemma audited_Update_change:
  assumes "audited_Update D au now ctx i req (d, a) = (r, d', a')" and "pg_users d' \<noteq> pg_users d"
  shows "(\<exists>x. r = Inr x) \<and> audited_by au ctx a a'"
proof -
  obtain o1 d1 x d2 where x: "uc_GetByID D i d = (o1, d1)" "uc_Update D now i req d1 = (x, d2)" by (metis prod.exhaust)
  have "pg_users d1 = pg_users d" by (rule reads_D [OF reads_GetByID(2) x(1)])
  moreover have "pg_users d2 = pg_users d1" if "x = Inl err" for err using that x(2) by (auto intro: clean_D [OF clean_repo(5)])
  ultimately show ?thesis using assms x
    by (cases o1; cases x) (auto simp: audited_Update_def Let_def intro!: audited_byI)
qed

lemma audited_Delete_change:
  assumes "audited_Delete D au now ctx i (d, a) = (r, d', a')" and "pg_users d' \<noteq> pg_users d"
  shows "r = None \<and> audited_by au ctx a a'"
proof -
  obtain o1 d1 x d2 where x: "uc_GetByID D i d = (o1, d1)" "uc_Delete D now i d1 = (x, d2)" by (metis prod.exhaust)
  have "pg_users d1 = pg_users d" by (rule reads_D [OF reads_GetByID(2) x(1)])
  moreover have "pg_users d2 = pg_users d1" if "x = Some err" for err using that x(2) by (auto intro: toggles_error)
  ultimately show ?thesis using assms x
    by (cases o1; cases x) (auto simp: audited_Delete_def Let_def intro!: audited_byI)
qed

lemma audited_Activate_change:
  assumes "audited_Activate D au now ctx i (d, a) = (r, d', a')" and "pg_users d' \<noteq> pg_users d"
  shows "r = None \<and> audited_by au ctx a a'"
proof -
  obtain o1 d1 x d2 where x: "uc_GetByID D i d = (o1, d1)" "uc_Activate D now i d1 = (x, d2)" by (metis prod.exhaust)
  have "pg_users d1 = pg_users d" by (rule reads_D [OF reads_GetByID(2) x(1)])
  moreover have "pg_users d2 = pg_users d1" if "x = Some err" for err using that x(2) by (auto intro: toggles_error)
  moreover have "pg_users d2 = pg_users d" if "o1 = Inr u" "ure_IsActive u" for u
    using toggles_idle(1) [of D i d u d1 now x d2] that x by simp
  ultimately show ?thesis using assms x
    by (cases o1; cases x) (auto simp: audited_Activate_def Let_def intro!: audited_byI split: if_splits)
qed

lemma audited_Deactivate_change:
  assumes "audited_Deactivate D au now ctx i (d, a) = (r, d', a')" and "pg_users d' \<noteq> pg_users d"
  shows "r = None \<and> audited_by au ctx a a'"
proof -
  obtain o1 d1 x d2 where x: "uc_GetByID D i d = (o1, d1)" "uc_Deactivate D now i d1 = (x, d2)" by (metis prod.exhaust)
  have "pg_users d1 = pg_users d" by (rule reads_D [OF reads_GetByID(2) x(1)])
  moreover have "pg_users d2 = pg_users d1" if "x = Some err" for err using that x(2) by (auto intro: toggles_error)
  moreover have "pg_users d2 = pg_users d" if "o1 = Inr u" "\<not> ure_IsActive u" for u
    using toggles_idle(2) [of D i d u d1 now x d2] that x by simp
  ultimately show ?thesis using assms x
    by (cases o1; cases x) (auto simp: audited_Deactivate_def Let_def intro!: audited_byI split: if_splits)
qed

definition revocation_failed :: "go_error \<Rightarrow> go_error" where
  "revocation_failed err = errorf_w ''password updated but refresh token revocation failed'' err"

lemma uc_ChangePassword_error:
  assumes "uc_ChangePassword D now salt i req (s, d) = (Some e, s', d')" and "pg_users d' \<noteq> pg_users d"
  shows "\<exists>err revoke. e = revocation_failed err \<and> ud_authRevoker D = Some revoke \<and> revoke now i s = (Some err, s')"
proof -
  let ?U = "lib_uuid (ud_libs D)"
  obtain g d1 where g: "repo_GetByID ?U i d = (g, d1)" by fastforce
  have d1: "pg_users d1 = pg_users d" by (rule reads_D [OF reads_GetByID(1) g])
  from assms g d1 obtain user h where h: "g = Inr user" "bc_Generate (lib_bcrypt (ud_libs D)) (cp_NewPassword req) salt = Inr h"
    "bc_Compare (lib_bcrypt (ud_libs D)) (us_PasswordHash user) (cp_CurrentPassword req) = None"
    by (cases g) (auto simp: uc_ChangePassword_def split: sum.splits if_splits)
  obtain x d2 where x: "repo_UpdatePassword ?U now i h d1 = (x, d2)" by fastforce
  moreover have "pg_users d2 = pg_users d1" if "x = Inl err" for err using that x by (auto intro: clean_D [OF clean_repo(1)])
  ultimately show ?thesis using assms g h d1
    by (cases x) (auto simp: uc_ChangePassword_def revocation_failed_def split: option.splits prod.splits)
qed

lemma audited_ChangePassword_change:
  assumes "audited_ChangePassword D au now ctx salt i req (s, d, a) = (r, s', d', a')" and "pg_users d' \<noteq> pg_users d"
  shows "r = None \<and> audited_by au ctx a a' \<or>
    (\<exists>err revoke. r = Some (revocation_failed err) \<and> ud_authRevoker D = Some revoke \<and> revoke now i s = (Some err, s') \<and> a' = a)"
proof (cases "uc_ChangePassword D now salt i req (s, d)")
  case (fields e s1 d1)
  show ?thesis
  proof (cases e)
    case None
    with assms fields show ?thesis by (auto simp: audited_ChangePassword_def Let_def intro!: audited_byI)
  next
    case (Some err)
    with assms fields have eq: "r = Some err" "s1 = s'" "d1 = d'" "a' = a" by (auto simp: audited_ChangePassword_def)
    show ?thesis using uc_ChangePassword_error [OF fields [unfolded Some eq] assms(2)] eq by blast
  qed
qed

text \<open>
  C14. Every change of the user table that goes through the decorated use case is audited, with one exception. If
  creating, updating, deleting, activating or deactivating a user or changing a password changes the table, whatever
  statements of the database fail, then the call succeeded and handed the auditor an entry about a user in the name
  of the caller. The exception is a password change whose session revocation fails: it stores the new password,
  returns an error and leaves no entry.
\<close>

theorem user_changes_audited:
  assumes "mutate D au now ctx m (s, d, a) = (e, s', d', a')" and "pg_users d' \<noteq> pg_users d"
  shows "e = None \<and> audited_by au ctx a a' \<or>
    (\<exists>salt i req err revoke. m = MChangePassword salt i req \<and> e = Some (revocation_failed err) \<and>
       ud_authRevoker D = Some revoke \<and> revoke now i s = (Some err, s') \<and> a' = a)"
proof (cases m)
  case (MCreate new_id salt req)
  obtain r d1 a1 where "audited_Create D au now ctx new_id salt req (d, a) = (r, d1, a1)" by (metis prod.exhaust)
  with MCreate assms audited_Create_change [OF this] show ?thesis by (cases r) (auto simp: error_only_def on_db_def)
next
  case (MUpdate i req)
  obtain r d1 a1 where "audited_Update D au now ctx i req (d, a) = (r, d1, a1)" by (metis prod.exhaust)
  with MUpdate assms audited_Update_change [OF this] show ?thesis by (cases r) (auto simp: error_only_def on_db_def)
next
  case (MChangePassword salt i req)
  with assms audited_ChangePassword_change [of D au now ctx salt i req s d a] show ?thesis by auto
next
  case (MDelete i)
  with assms audited_Delete_change [of D au now ctx i d a] show ?thesis by (auto simp: on_db_def split: prod.splits)
next
  case (MActivate i)
  with assms audited_Activate_change [of D au now ctx i d a] show ?thesis by (auto simp: on_db_def split: prod.splits)
next
  case (MDeactivate i)
  with assms audited_Deactivate_change [of D au now ctx i d a] show ?thesis by (auto simp: on_db_def split: prod.splits)
qed

definition demo_auditor :: "AuditEntry list auditor" where
  "demo_auditor = \<lparr>au_Log = (\<lambda>en a. (None, a @ [en])), au_Query = (\<lambda>f a. (Inr a, a))\<rparr>"

lemma user_changes_audited_witness:
  "\<exists>e s' d' a'. mutate demo_deps demo_auditor 5 (\<lambda>_. None) (MDelete (uu_String uuid_rfc4122 7)) (empty_redis, demo_pg, []) = (e, s', d', a') \<and>
     e = None \<and> length a' = 1"
proof -
  let ?m = "MDelete (uu_String uuid_rfc4122 7)"
  obtain e s' d' a' where run: "mutate demo_deps demo_auditor 5 (\<lambda>_. None) ?m (empty_redis, demo_pg, []) = (e, s', d', a')"
    by (metis prod.exhaust)
  have "pg_users d' \<noteq> pg_users demo_pg"
    using run rfc4122.parse_text [of 7]
    by (auto simp: on_db_def audited_Delete_def uc_GetByID_def repo_GetByID_def GetUserByID_def first_row_def uc_Delete_def err_of_def
        repo_Delete_def by_id_def DeleteUser_def UUIDToPgtype_def update_where_def demo_deps_def demo_libs_def demo_pg_def example_pg_def Let_def)
  from user_changes_audited [OF run this] run show ?thesis by (auto simp: audited_by_def demo_auditor_def)
qed


definition no_binding :: "'r \<Rightarrow> 'r binding" where
  "no_binding r = \<lparr>bd_parse = (\<lambda>c. Inl ErrBadRequest), bd_value = (\<lambda>_. RStruct []), bd_back = (\<lambda>_. r), bd_rules = (\<lambda>_. [])\<rparr>"

definition demo_users :: "(redis, AuditEntry list) user_module" where
  "demo_users = \<lparr>um_deps = demo_deps, um_auditor = demo_auditor, um_policy = id, um_list = no_binding (list_all_request 1),
     um_create = no_binding \<lparr>cr_Email = '''', cr_Password = '''', cr_Name = ''''\<rparr>,
     um_update = no_binding \<lparr>ur_Name = '''', ur_Email = ''''\<rparr>,
     um_password = no_binding \<lparr>cp_CurrentPassword = '''', cp_NewPassword = ''''\<rparr>\<rparr>"

definition ada_claims :: jwt_claims where
  "ada_claims = \<lparr>jc_Subject = ''u-7'', jc_Issuer = ''goscratch'', jc_Audience = [''goscratch-api''], jc_ExpiresAt = Some 9, jc_IssuedAt = Some 0,
     jc_NotBefore = Some 0, jc_UserID = ''u-7'', jc_Email = '''', jc_Name = ''''\<rparr>"

definition ada_ctx :: fiber_ctx where
  "ada_ctx = example_ctx\<lparr>req_headers := [(''Authorization'', ''Bearer '' @ enc_claims ada_claims @ ''k'')],
     req_params := [(''id'', uu_String uuid_rfc4122 7)]\<rparr>"


end
