(* ===== verification/Paths.thy ===== *)
theory Paths
  imports Prelude
begin

text \<open>
  The functions of the Go package \<^verbatim>\<open>path/filepath\<close> that the storage code uses, on Unix: \<^verbatim>\<open>Clean\<close>, \<^verbatim>\<open>Join\<close>, \<^verbatim>\<open>Dir\<close>, \<^verbatim>\<open>Base\<close>, \<^verbatim>\<open>Ext\<close>
  and \<^verbatim>\<open>Rel\<close>. A path is processed by its elements, the pieces between slashes.
\<close>

abbreviation slash :: char where "slash \<equiv> CHR ''/''"

text \<open>The stack of elements, innermost first: \<^verbatim>\<open>.\<close> and empty elements vanish, \<^verbatim>\<open>..\<close> removes the element before it if it can.\<close>

fun clean_elems :: "bool \<Rightarrow> string list \<Rightarrow> string list \<Rightarrow> string list" where
  "clean_elems rooted st [] = rev st"
| "clean_elems rooted st (e # es) =
     (if e = '''' \<or> e = ''.'' then clean_elems rooted st es
      else if e = ''..'' then
        (if st \<noteq> [] \<and> hd st \<noteq> ''..'' then clean_elems rooted (tl st) es
         else if rooted then clean_elems rooted st es
         else clean_elems rooted (e # st) es)
      else clean_elems rooted (e # st) es)"

definition Clean :: "string \<Rightarrow> string" where
  "Clean path =
     (if path = '''' then ''.''
      else (let rooted = (hd path = slash);
                out = join ''/'' (clean_elems rooted [] (split_on slash path))
            in if rooted then slash # out else if out = '''' then ''.'' else out))"

definition Join :: "string \<Rightarrow> string \<Rightarrow> string" where
  "Join a b = (if a \<noteq> '''' then Clean (a @ ''/'' @ b) else if b \<noteq> '''' then Clean b else '''')"

text \<open>Everything up to the last slash, and everything behind it.\<close>

definition dir_part :: "string \<Rightarrow> string" where
  "dir_part path = rev (dropWhile (\<lambda>c. c \<noteq> slash) (rev path))"

definition base_part :: "string \<Rightarrow> string" where
  "base_part path = rev (takeWhile (\<lambda>c. c \<noteq> slash) (rev path))"

definition path_Dir :: "string \<Rightarrow> string" where
  "path_Dir path = Clean (dir_part path)"

definition path_Base :: "string \<Rightarrow> string" where
  "path_Base path =
     (if path = '''' then ''.''
      else (let stripped = rev (dropWhile (\<lambda>c. c = slash) (rev path));
                b = base_part stripped
            in if b = '''' then ''/'' else b))"

text \<open>The suffix of the last element from its last dot.\<close>

definition path_Ext :: "string \<Rightarrow> string" where
  "path_Ext path =
     (let b = base_part path;
          r = takeWhile (\<lambda>c. c \<noteq> CHR ''.'') (rev b)
      in if length r = length b then '''' else CHR ''.'' # rev r)"

text \<open>The elements of a cleaned path; the current directory has none.\<close>

definition elems :: "string \<Rightarrow> string list" where
  "elems p = (if p = ''.'' then [] else filter (\<lambda>e. e \<noteq> '''') (split_on slash p))"

fun strip_common :: "string list \<Rightarrow> string list \<Rightarrow> string list \<times> string list" where
  "strip_common (x # xs) (y # ys) = (if x = y then strip_common xs ys else (x # xs, y # ys))"
| "strip_common xs ys = (xs, ys)"

definition path_Rel :: "string \<Rightarrow> string \<Rightarrow> string option" where
  "path_Rel basepath targpath =
     (let base = Clean basepath; targ = Clean targpath in
      if targ = base then Some ''.''
      else if (hd base = slash) \<noteq> (hd targ = slash) then None
      else (case strip_common (elems base) (elems targ) of (b, t) \<Rightarrow>
              if b \<noteq> [] \<and> hd b = ''..'' then None
              else Some (join ''/'' (map (\<lambda>_. ''..'') b @ t))))"

section \<open>Elements\<close>

text \<open>An element that names something inside its directory.\<close>

definition plain_elem :: "string \<Rightarrow> bool" where
  "plain_elem e \<longleftrightarrow> e \<noteq> '''' \<and> e \<noteq> ''.'' \<and> e \<noteq> ''..'' \<and> slash \<notin> set e"

lemma plain_elemD: "plain_elem e \<Longrightarrow> e \<noteq> '''' \<and> e \<noteq> ''.'' \<and> e \<noteq> ''..''"
  by (simp add: plain_elem_def)

lemma clean_elems_append:
  "clean_elems rooted st (es @ fs) = clean_elems rooted (rev (clean_elems rooted st es)) fs"
proof (induction rooted st es rule: clean_elems.induct)
qed auto

lemma clean_elems_plain: "\<forall>e \<in> set es. plain_elem e \<Longrightarrow> clean_elems rooted st es = rev st @ es"
  by (induction es arbitrary: st) (auto dest: plain_elemD)

lemma set_clean_elems: "e \<in> set (clean_elems rooted st es) \<Longrightarrow> e \<in> set st \<union> set es"
proof (induction rooted st es rule: clean_elems.induct)
  case (2 rooted st x es)
  have "set (tl st) \<subseteq> set st" by (cases st) auto
  with 2 show ?case by (auto split: if_splits)
qed simp

lemma set_split_on: "e \<in> set (split_on c s) \<Longrightarrow> set e \<subseteq> set s"
proof (induction s arbitrary: e)
  case (Cons x s)
  then show ?case by (cases "split_on c s") (fastforce split: if_splits)+
qed simp

text \<open>The shape of a cleaned stack: going up comes first and only in relative paths, the rest are plain elements.\<close>

definition cleaned :: "bool \<Rightarrow> string list \<Rightarrow> bool" where
  "cleaned rooted es \<longleftrightarrow> (\<exists>n ps. es = replicate n ''..'' @ ps \<and> (\<forall>e \<in> set ps. plain_elem e) \<and> (rooted \<longrightarrow> n = 0))"

lemma cleaned_snoc_plain: "cleaned rooted es \<Longrightarrow> plain_elem e \<Longrightarrow> cleaned rooted (es @ [e])"
proof -
  assume "cleaned rooted es" and e: "plain_elem e"
  then obtain n ps where "es = replicate n ''..'' @ ps" "\<forall>e \<in> set ps. plain_elem e" "rooted \<longrightarrow> n = 0" by (auto simp: cleaned_def)
  with e show ?thesis unfolding cleaned_def by (intro exI [of _ n] exI [of _ "ps @ [e]"]) auto
qed

lemma cleaned_butlast: "cleaned rooted (es @ [e]) \<Longrightarrow> e \<noteq> ''..'' \<Longrightarrow> cleaned rooted es"
proof -
  assume "cleaned rooted (es @ [e])" and e: "e \<noteq> ''..''"
  then obtain n ps where s: "es @ [e] = replicate n ''..'' @ ps" "\<forall>e \<in> set ps. plain_elem e" "rooted \<longrightarrow> n = 0" by (auto simp: cleaned_def)
  have "ps \<noteq> []"
  proof
    assume "ps = []"
    with s(1) have "e \<in> set (replicate n ''..'')" by (metis append_Nil2 in_set_conv_decomp)
    with e show False by simp
  qed
  then have "es = replicate n ''..'' @ butlast ps" using s(1) by (metis butlast_append butlast_snoc)
  with s(2,3) show ?thesis unfolding cleaned_def by (metis in_set_butlastD)
qed

lemma cleaned_snoc_up:
  assumes "cleaned False es" and "es = [] \<or> last es = ''..''"
  shows "cleaned False (es @ [''..''])"
proof -
  obtain n ps where s: "es = replicate n ''..'' @ ps" "\<forall>e \<in> set ps. plain_elem e" using assms(1) by (auto simp: cleaned_def)
  have "ps = []"
  proof (rule ccontr)
    assume "ps \<noteq> []"
    then have "last es = last ps" "last ps \<in> set ps" using s(1) by auto
    with assms(2) s \<open>ps \<noteq> []\<close> show False by (auto simp: plain_elem_def)
  qed
  with s(1) have "es @ [''..''] = replicate (Suc n) ''..'' @ []" by (simp add: replicate_append_same)
  then show ?thesis unfolding cleaned_def by (metis empty_iff list.set(1))
qed

lemma clean_elems_cleaned:
  "cleaned rooted (rev st) \<Longrightarrow> \<forall>e \<in> set es. slash \<notin> set e \<Longrightarrow> cleaned rooted (clean_elems rooted st es)"
proof (induction rooted st es rule: clean_elems.induct)
  case (2 rooted st e es)
  consider "e = '''' \<or> e = ''.''" | "e = ''..''" "st \<noteq> []" "hd st \<noteq> ''..''" | "e = ''..''" "st = [] \<or> hd st = ''..''" | "plain_elem e"
    using 2 by (auto simp: plain_elem_def)
  then show ?case
  proof cases
    case 2
    then have "rev st = rev (tl st) @ [hd st]" by (metis list.collapse rev.simps(2))
    with 2 "2.prems" have "cleaned rooted (rev (tl st))" by (metis cleaned_butlast)
    with 2 "2.IH" "2.prems" show ?thesis by simp
  next
    case 3
    then have "cleaned rooted (rev st @ [''..''])" if "\<not> rooted"
      using cleaned_snoc_up [of "rev st"] "2.prems"(1) that by (auto simp: last_rev)
    with 3 "2.IH" "2.prems" show ?thesis by (cases rooted) auto
  next
    case 4
    with cleaned_snoc_plain [OF "2.prems"(1)] "2.IH"(5) "2.prems" show ?thesis by (auto dest: plain_elemD)
  qed (use "2.IH"(1) "2.prems" in auto)
qed simp

section \<open>Cleaned paths\<close>


lemma join_append: "es \<noteq> [] \<Longrightarrow> fs \<noteq> [] \<Longrightarrow> join sep (es @ fs) = join sep es @ sep @ join sep fs"
proof (induction sep es rule: join.induct)
  case (2 sep p)
  then show ?case by (cases fs) auto
qed auto

lemma join_Nil_iff: "\<forall>e \<in> set es. e \<noteq> [] \<Longrightarrow> join sep es = [] \<longleftrightarrow> es = []"
  by (induction sep es rule: join.induct) auto

lemma split_on_sep: "split_on c (s @ [c] @ t) = split_on c s @ split_on c t"
proof (induction s)
  case (Cons x s)
  then show ?case by (cases "split_on c s") auto
qed simp

lemma cleaned_no_slash:
  assumes "cleaned rooted es" and "e \<in> set es"
  shows "slash \<notin> set e \<and> e \<noteq> '''' \<and> e \<noteq> ''.''"
proof -
  from assms have "e = ''..'' \<or> plain_elem e" by (auto simp: cleaned_def)
  then show ?thesis by (auto simp: plain_elem_def)
qed

text \<open>The elements of the clean form of a path.\<close>

definition clean_of :: "string \<Rightarrow> string list" where
  "clean_of path = clean_elems (path \<noteq> '''' \<and> hd path = slash) [] (split_on slash path)"

lemma clean_of_cleaned: "cleaned (path \<noteq> '''' \<and> hd path = slash) (clean_of path)"
proof -
  have "cleaned r []" for r unfolding cleaned_def by (intro exI [of _ 0] exI [of _ "[]"]) simp
  then show ?thesis unfolding clean_of_def by (intro clean_elems_cleaned) (auto dest: split_on_pieces)
qed

lemma Clean_eq:
  "Clean path = (if path \<noteq> '''' \<and> hd path = slash then slash # join ''/'' (clean_of path)
     else if clean_of path = [] then ''.'' else join ''/'' (clean_of path))"
proof -
  have "\<forall>e \<in> set (clean_of path). e \<noteq> []" using clean_of_cleaned cleaned_no_slash by blast
  from join_Nil_iff [OF this, of "''/''"] show ?thesis
    by (cases "path = ''''"; cases "hd path = slash") (simp_all add: Clean_def Let_def clean_of_def)
qed

text \<open>Cleaning is idempotent, and a clean path is determined by its elements.\<close>

lemma clean_elems_self: "cleaned rooted es \<Longrightarrow> clean_elems rooted [] es = es"
proof -
  assume "cleaned rooted es"
  then obtain n ps where s: "es = replicate n ''..'' @ ps" "\<forall>e \<in> set ps. plain_elem e" "rooted \<longrightarrow> n = 0" by (auto simp: cleaned_def)
  have up: "clean_elems False (replicate k ''..'') (replicate m ''..'') = replicate (k + m) ''..''" for k m
  proof (induction m arbitrary: k)
    case (Suc m)
    then show ?case using Suc [of "Suc k"] by (cases k) auto
  qed simp
  show ?thesis
  proof (cases rooted)
    case True
    with s show ?thesis by (simp add: clean_elems_plain)
  next
    case False
    with s up [of 0 n] show ?thesis by (simp add: clean_elems_append clean_elems_plain)
  qed
qed

lemma clean_of_Clean: "clean_of (Clean path) = clean_of path"
proof -
  let ?r = "path \<noteq> '''' \<and> hd path = slash" and ?es = "clean_of path"
  have cl: "cleaned ?r ?es" by (rule clean_of_cleaned)
  have ns: "\<forall>e \<in> set ?es. slash \<notin> set e" "\<forall>e \<in> set ?es. e \<noteq> []" using cl cleaned_no_slash by blast+
  consider "?r" | "\<not> ?r" "?es = []" | "\<not> ?r" "?es \<noteq> []" by blast
  then show ?thesis
  proof cases
    case 1
    then have "clean_of (Clean path) = clean_elems True [] ([] # split_on slash (join ''/'' ?es))"
      by (simp add: Clean_eq clean_of_def [of "slash # _"])
    also have "\<dots> = ?es"
      using 1 cl clean_elems_self [of True ?es] split_on_join [of ?es slash] ns by (cases "?es = []") auto
    finally show ?thesis .
  next
    case 2
    then show ?thesis by (auto simp: Clean_eq clean_of_def [of "''.''"])
  next
    case 3
    then have c: "Clean path = join ''/'' ?es" unfolding Clean_eq by auto
    have "join ''/'' ?es \<noteq> []" using 3 join_Nil_iff [OF ns(2)] by blast
    moreover have "hd (join ''/'' ?es) \<noteq> slash"
      using 3 ns by (cases ?es rule: remdups_adj.cases) (auto simp: hd_append split: list.splits, (metis hd_in_set)+)
    ultimately have "clean_of (join ''/'' ?es) = clean_elems False [] (split_on slash (join ''/'' ?es))" by (simp add: clean_of_def)
    also have "\<dots> = ?es" using 3 ns split_on_join [of ?es slash] clean_elems_self [of False ?es] cl by (cases "path = ''''") simp_all
    finally show ?thesis using c by simp
  qed
qed

end
