(* ===== verification/Storage.thy ===== *)
theory Storage
  imports Paths Users Audit_Log Middleware_Auth Config
begin

text \<open>
  File storage: the port \<^verbatim>\<open>src/internal/port/storage.go\<close>, its implementations \<^verbatim>\<open>src/internal/adapter/storage/local.go\<close> and \<^verbatim>\<open>s3.go\<close>, and the
  storage module \<^verbatim>\<open>src/internal/module/storage\<close> (use case, audit decorator, handlers, routes).

  The local implementation runs on a model of the file system: a map from clean paths to files and directories, with
  a list of outcomes for the coming system calls. Symbolic links and permissions are not modelled; a call they make fail
  is an outcome of that list. The S3 client is a record of functions. \<^verbatim>\<open>http.DetectContentType\<close> is modelled with its
  table of signatures. An \<^verbatim>\<open>io.Reader\<close> is the bytes it delivers and the error it ends with, if any.
\<close>

section \<open>Port\<close>

type_synonym reader = "string \<times> go_error option"

record FileInfo =
  fi_Path :: string
  fi_Size :: int
  fi_ContentType :: string
  fi_ModifiedAt :: go_time

record UploadConfig =
  up_ContentType :: string
  up_Metadata :: "(string \<times> string) list"
  up_Public :: bool

type_synonym UploadOption = "UploadConfig \<Rightarrow> UploadConfig"

definition WithContentType :: "string \<Rightarrow> UploadOption" where
  "WithContentType ct c = c\<lparr>up_ContentType := ct\<rparr>"

definition WithMetadata :: "(string \<times> string) list \<Rightarrow> UploadOption" where
  "WithMetadata meta c = c\<lparr>up_Metadata := meta\<rparr>"

definition WithPublic :: "bool \<Rightarrow> UploadOption" where
  "WithPublic public c = c\<lparr>up_Public := public\<rparr>"

definition ApplyOptions :: "UploadOption list \<Rightarrow> UploadConfig" where
  "ApplyOptions opts =
     fold (\<lambda>opt cfg. opt cfg) opts \<lparr>up_ContentType = ''application/octet-stream'', up_Metadata = [], up_Public = False\<rparr>"

record 'd storage =
  st_Upload :: "go_time \<Rightarrow> string \<Rightarrow> reader \<Rightarrow> UploadOption list \<Rightarrow> 'd \<Rightarrow> (go_error + string) \<times> 'd"
  st_Download :: "string \<Rightarrow> 'd \<Rightarrow> (go_error + reader) \<times> 'd"
  st_Delete :: "string \<Rightarrow> 'd \<Rightarrow> go_error option \<times> 'd"
  st_Exists :: "string \<Rightarrow> 'd \<Rightarrow> (go_error + bool) \<times> 'd"
  st_GetURL :: "string \<Rightarrow> int \<Rightarrow> 'd \<Rightarrow> (go_error + string) \<times> 'd"
  st_List :: "string \<Rightarrow> 'd \<Rightarrow> (go_error + FileInfo list) \<times> 'd"

section \<open>The file system\<close>

datatype node = FileN string go_time | DirN

record fs =
  fs_nodes :: "(string \<times> node) list"
  fs_faults :: "go_error option list"

definition ErrNotExist :: go_error where "ErrNotExist = ErrText ''no such file or directory''"
definition err_invalid :: go_error where "err_invalid = ErrText ''invalid argument''"
definition err_not_dir :: go_error where "err_not_dir = ErrText ''not a directory''"
definition err_is_dir :: go_error where "err_is_dir = ErrText ''is a directory''"
definition err_not_empty :: go_error where "err_not_empty = ErrText ''directory not empty''"

text \<open>A system call consumes the next outcome; a path with a NUL byte is invalid.\<close>

definition syscall :: "string \<Rightarrow> (fs \<Rightarrow> (go_error + 'a) \<times> fs) \<Rightarrow> fs \<Rightarrow> (go_error + 'a) \<times> fs" where
  "syscall p f d =
     (let (out, d') = (case fs_faults d of [] \<Rightarrow> (None, d) | e # es \<Rightarrow> (e, d\<lparr>fs_faults := es\<rparr>))
      in case out of Some e \<Rightarrow> (Inl e, d') | None \<Rightarrow> if NUL \<in> set p then (Inl err_invalid, d') else f d')"

definition is_dir :: "fs \<Rightarrow> string \<Rightarrow> bool" where
  "is_dir d p \<longleftrightarrow> set (elems p) \<subseteq> {''..''} \<or> map_of (fs_nodes d) p = Some DirN"

definition is_file :: "fs \<Rightarrow> string \<Rightarrow> bool" where
  "is_file d p \<longleftrightarrow> (case map_of (fs_nodes d) p of Some (FileN _ _) \<Rightarrow> True | _ \<Rightarrow> False)"

definition rooted_path :: "bool \<Rightarrow> string list \<Rightarrow> string" where
  "rooted_path rooted es = (if rooted then slash # join ''/'' es else if es = [] then ''.'' else join ''/'' es)"

text \<open>A directory and the directories above it, outermost first.\<close>

definition ancestors :: "string \<Rightarrow> string list" where
  "ancestors p = (let es = elems p in map (\<lambda>k. rooted_path (hd p = slash) (take k es)) [1..<Suc (length es)])"

definition os_MkdirAll :: "string \<Rightarrow> fs \<Rightarrow> (go_error + unit) \<times> fs" where
  "os_MkdirAll p = syscall p (\<lambda>d.
     if list_ex (is_file d) (ancestors p) then (Inl err_not_dir, d)
     else (Inr (), d\<lparr>fs_nodes := fold (\<lambda>q. AList.update q DirN) (ancestors p) (fs_nodes d)\<rparr>))"

definition os_Create :: "go_time \<Rightarrow> string \<Rightarrow> fs \<Rightarrow> (go_error + unit) \<times> fs" where
  "os_Create now p = syscall p (\<lambda>d.
     if \<not> is_dir d (path_Dir p) then (Inl ErrNotExist, d)
     else if is_dir d p then (Inl err_is_dir, d)
     else (Inr (), d\<lparr>fs_nodes := AList.update p (FileN '''' now) (fs_nodes d)\<rparr>))"

text \<open>\<^verbatim>\<open>io.Copy\<close> into an open file: the bytes that the reader delivers are written even when it then fails.\<close>

definition io_Copy :: "go_time \<Rightarrow> string \<Rightarrow> reader \<Rightarrow> fs \<Rightarrow> go_error option \<times> fs" where
  "io_Copy now p r d =
     (let (out, d1) = (case fs_faults d of [] \<Rightarrow> (None, d) | e # es \<Rightarrow> (e, d\<lparr>fs_faults := es\<rparr>))
      in case out of
           Some e \<Rightarrow> (Some e, d1)
         | None \<Rightarrow> (snd r, d1\<lparr>fs_nodes := AList.update p (FileN (fst r) now) (fs_nodes d1)\<rparr>))"

definition os_Open :: "string \<Rightarrow> fs \<Rightarrow> (go_error + reader) \<times> fs" where
  "os_Open p = syscall p (\<lambda>d.
     (case map_of (fs_nodes d) p of
        Some (FileN c _) \<Rightarrow> (Inr (c, None), d)
      | _ \<Rightarrow> if is_dir d p then (Inr ('''', Some err_is_dir), d) else (Inl ErrNotExist, d)))"

definition os_Remove :: "string \<Rightarrow> fs \<Rightarrow> (go_error + unit) \<times> fs" where
  "os_Remove p = syscall p (\<lambda>d.
     (case map_of (fs_nodes d) p of
        Some (FileN _ _) \<Rightarrow> (Inr (), d\<lparr>fs_nodes := AList.delete p (fs_nodes d)\<rparr>)
      | _ \<Rightarrow>
          if \<not> is_dir d p then (Inl ErrNotExist, d)
          else if \<exists>(q, n) \<in> set (fs_nodes d). path_Dir q = p \<and> q \<noteq> p then (Inl err_not_empty, d)
          else (Inr (), d\<lparr>fs_nodes := AList.delete p (fs_nodes d)\<rparr>)))"

definition os_Stat :: "string \<Rightarrow> fs \<Rightarrow> (go_error + unit) \<times> fs" where
  "os_Stat p = syscall p (\<lambda>d. if map_of (fs_nodes d) p \<noteq> None \<or> is_dir d p then (Inr (), d) else (Inl ErrNotExist, d))"

text \<open>The files that \<^verbatim>\<open>filepath.Walk\<close> visits below a path, in its order: element by element.\<close>

definition walk_files :: "string \<Rightarrow> fs \<Rightarrow> (string \<times> string \<times> go_time) list" where
  "walk_files p d =
     sort_key (\<lambda>(q, _). elems q)
       (concat (map (\<lambda>(q, n). case n of
            FileN c t \<Rightarrow> if (hd q = slash) = (hd p = slash) \<and> take (length (elems p)) (elems q) = elems p then [(q, c, t)] else []
          | DirN \<Rightarrow> []) (fs_nodes d)))"

definition fs_Walk :: "string \<Rightarrow> fs \<Rightarrow> (go_error + (string \<times> string \<times> go_time) list) \<times> fs" where
  "fs_Walk p = syscall p (\<lambda>d.
     if map_of (fs_nodes d) p \<noteq> None \<or> is_dir d p then (Inr (walk_files p d), d) else (Inl ErrNotExist, d))"

section \<open>Local storage\<close>

text \<open>\<^verbatim>\<open>mime.TypeByExtension\<close> reads tables of the host and is the parameter \<open>ls_mime\<close>.\<close>

record local_dir =
  ls_basePath :: string
  ls_baseURL :: string
  ls_mime :: "string \<Rightarrow> string"

definition ErrPathEscapesBase :: go_error where
  "ErrPathEscapesBase = ErrText ''storage: path escapes base directory''"

definition resolveWithinBase :: "string \<Rightarrow> string \<Rightarrow> go_error + string" where
  "resolveWithinBase basePath key =
     (let fullPath = Join basePath key;
          cleanedFull = Clean fullPath;
          cleanedBase = Clean basePath
      in if cleanedFull = cleanedBase then Inr cleanedFull
         else if \<not> has_prefix cleanedFull (cleanedBase @ ''/'') then Inl ErrPathEscapesBase
         else Inr cleanedFull)"

definition NewLocalStorage :: "(string \<Rightarrow> string) \<Rightarrow> string \<Rightarrow> string \<Rightarrow> fs \<Rightarrow> (go_error + local_dir) \<times> fs" where
  "NewLocalStorage mime basePath baseURL d =
     (case os_MkdirAll basePath d of
        (Inl err, d') \<Rightarrow> (Inl (errorf_w ''failed to create storage directory'' err), d')
      | (Inr _, d') \<Rightarrow> (Inr \<lparr>ls_basePath = basePath, ls_baseURL = trim_suffix baseURL ''/'', ls_mime = mime\<rparr>, d'))"

definition local_Upload ::
  "local_dir \<Rightarrow> go_time \<Rightarrow> string \<Rightarrow> reader \<Rightarrow> UploadOption list \<Rightarrow> fs \<Rightarrow> (go_error + string) \<times> fs" where
  "local_Upload s now path data opts d =
     (case resolveWithinBase (ls_basePath s) path of
        Inl err \<Rightarrow> (Inl err, d)
      | Inr fullPath \<Rightarrow>
          (case os_MkdirAll (path_Dir fullPath) d of
             (Inl err, d1) \<Rightarrow> (Inl (errorf_w ''failed to create directory'' err), d1)
           | (Inr _, d1) \<Rightarrow>
               (case os_Create now fullPath d1 of
                  (Inl err, d2) \<Rightarrow> (Inl (errorf_w ''failed to create file'' err), d2)
                | (Inr _, d2) \<Rightarrow>
                    (case io_Copy now fullPath data d2 of
                       (Some err, d3) \<Rightarrow> (Inl (errorf_w ''failed to write file'' err), snd (os_Remove fullPath d3))
                     | (None, d3) \<Rightarrow> (Inr path, d3)))))"

definition local_Download :: "local_dir \<Rightarrow> string \<Rightarrow> fs \<Rightarrow> (go_error + reader) \<times> fs" where
  "local_Download s path d =
     (case resolveWithinBase (ls_basePath s) path of
        Inl err \<Rightarrow> (Inl err, d)
      | Inr fullPath \<Rightarrow>
          (case os_Open fullPath d of
             (Inl err, d') \<Rightarrow>
               (Inl (if err = ErrNotExist then ErrText (''file not found: '' @ path) else errorf_w ''failed to open file'' err), d')
           | (Inr file, d') \<Rightarrow> (Inr file, d')))"

definition local_Delete :: "local_dir \<Rightarrow> string \<Rightarrow> fs \<Rightarrow> go_error option \<times> fs" where
  "local_Delete s path d =
     (case resolveWithinBase (ls_basePath s) path of
        Inl err \<Rightarrow> (Some err, d)
      | Inr fullPath \<Rightarrow>
          (case os_Remove fullPath d of
             (Inl err, d') \<Rightarrow> (if err = ErrNotExist then None else Some (errorf_w ''failed to delete file'' err), d')
           | (Inr _, d') \<Rightarrow> (None, d')))"

definition local_Exists :: "local_dir \<Rightarrow> string \<Rightarrow> fs \<Rightarrow> (go_error + bool) \<times> fs" where
  "local_Exists s path d =
     (case resolveWithinBase (ls_basePath s) path of
        Inl err \<Rightarrow> (Inl err, d)
      | Inr fullPath \<Rightarrow>
          (case os_Stat fullPath d of
             (Inl err, d') \<Rightarrow> (if err = ErrNotExist then Inr False else Inl (errorf_w ''failed to check file'' err), d')
           | (Inr _, d') \<Rightarrow> (Inr True, d')))"

definition local_GetURL :: "local_dir \<Rightarrow> string \<Rightarrow> int \<Rightarrow> fs \<Rightarrow> (go_error + string) \<times> fs" where
  "local_GetURL s path expires d =
     (Inr (if ls_baseURL s \<noteq> '''' then ls_baseURL s @ ''/'' @ path else ''/uploads/'' @ path), d)"

fun list_infos :: "local_dir \<Rightarrow> (string \<times> string \<times> go_time) list \<Rightarrow> FileInfo list option" where
  "list_infos s [] = Some []"
| "list_infos s ((path, content, modTime) # fs) =
     (case path_Rel (ls_basePath s) path of
        None \<Rightarrow> None
      | Some relPath \<Rightarrow>
          (let ct = ls_mime s (path_Ext path);
               contentType = (if ct = '''' then ''application/octet-stream'' else ct)
           in map_option ((#) \<lparr>fi_Path = relPath, fi_Size = int (length content), fi_ContentType = contentType, fi_ModifiedAt = modTime\<rparr>)
                (list_infos s fs)))"

definition local_List :: "local_dir \<Rightarrow> string \<Rightarrow> fs \<Rightarrow> (go_error + FileInfo list) \<times> fs" where
  "local_List s pre d =
     (case resolveWithinBase (ls_basePath s) pre of
        Inl err \<Rightarrow> (Inl err, d)
      | Inr searchPath \<Rightarrow>
          (case fs_Walk searchPath d of
             (Inl err, d') \<Rightarrow> (if err = ErrNotExist then Inr [] else Inl (errorf_w ''failed to list files'' err), d')
           | (Inr fs, d') \<Rightarrow>
               (case list_infos s fs of
                  None \<Rightarrow> (Inl (errorf_w ''failed to list files'' (ErrText ''Rel'')), d')
                | Some infos \<Rightarrow> (Inr infos, d'))))"

definition local_storage :: "local_dir \<Rightarrow> fs storage" where
  "local_storage s = \<lparr>st_Upload = local_Upload s, st_Download = local_Download s, st_Delete = local_Delete s,
     st_Exists = local_Exists s, st_GetURL = local_GetURL s, st_List = local_List s\<rparr>"

section \<open>S3 storage\<close>

record PutObjectInput =
  po_Bucket :: string
  po_Key :: string
  po_Body :: string
  po_ContentType :: string
  po_Metadata :: "(string \<times> string) list"
  po_ACL :: "string option"

record s3_object =
  so_Key :: string
  so_Size :: int
  so_LastModified :: go_time

text \<open>The client. Listing gives the outcomes of the calls to \<^verbatim>\<open>NextPage\<close> while there are more pages.\<close>

record 's s3_api =
  s3_PutObject :: "PutObjectInput \<Rightarrow> 's \<Rightarrow> go_error option \<times> 's"
  s3_GetObject :: "string \<Rightarrow> string \<Rightarrow> 's \<Rightarrow> (go_error + reader) \<times> 's"
  s3_DeleteObject :: "string \<Rightarrow> string \<Rightarrow> 's \<Rightarrow> go_error option \<times> 's"
  s3_HeadObject :: "string \<Rightarrow> string \<Rightarrow> 's \<Rightarrow> go_error option \<times> 's"
  s3_PresignGetObject :: "string \<Rightarrow> string \<Rightarrow> int \<Rightarrow> 's \<Rightarrow> (go_error + string) \<times> 's"
  s3_ListPages :: "string \<Rightarrow> string \<Rightarrow> 's \<Rightarrow> (go_error + s3_object list) list \<times> 's"

definition s3_Upload ::
  "'s s3_api \<Rightarrow> string \<Rightarrow> go_time \<Rightarrow> string \<Rightarrow> reader \<Rightarrow> UploadOption list \<Rightarrow> 's \<Rightarrow> (go_error + string) \<times> 's" where
  "s3_Upload api bucket now path data opts s =
     (let cfg = ApplyOptions opts in
      case snd data of
        Some err \<Rightarrow> (Inl (errorf_w ''failed to read data'' err), s)
      | None \<Rightarrow>
          (let input = \<lparr>po_Bucket = bucket, po_Key = path, po_Body = fst data, po_ContentType = up_ContentType cfg,
                 po_Metadata = up_Metadata cfg, po_ACL = (if up_Public cfg then Some ''public-read'' else None)\<rparr>
           in case s3_PutObject api input s of
                (Some err, s') \<Rightarrow> (Inl (errorf_w ''failed to upload to s3'' err), s')
              | (None, s') \<Rightarrow> (Inr path, s')))"

definition s3_Download :: "'s s3_api \<Rightarrow> string \<Rightarrow> string \<Rightarrow> 's \<Rightarrow> (go_error + reader) \<times> 's" where
  "s3_Download api bucket path s =
     (case s3_GetObject api bucket path s of
        (Inl err, s') \<Rightarrow> (Inl (errorf_w ''failed to download from s3'' err), s')
      | (Inr body, s') \<Rightarrow> (Inr body, s'))"

definition s3_Delete :: "'s s3_api \<Rightarrow> string \<Rightarrow> string \<Rightarrow> 's \<Rightarrow> go_error option \<times> 's" where
  "s3_Delete api bucket path s =
     (case s3_DeleteObject api bucket path s of
        (Some err, s') \<Rightarrow> (Some (errorf_w ''failed to delete from s3'' err), s')
      | (None, s') \<Rightarrow> (None, s'))"

definition s3_Exists :: "'s s3_api \<Rightarrow> string \<Rightarrow> string \<Rightarrow> 's \<Rightarrow> (go_error + bool) \<times> 's" where
  "s3_Exists api bucket path s =
     (case s3_HeadObject api bucket path s of (Some err, s') \<Rightarrow> (Inr False, s') | (None, s') \<Rightarrow> (Inr True, s'))"

definition s3_GetURL :: "'s s3_api \<Rightarrow> string \<Rightarrow> string \<Rightarrow> int \<Rightarrow> 's \<Rightarrow> (go_error + string) \<times> 's" where
  "s3_GetURL api bucket path expires s =
     (case s3_PresignGetObject api bucket path expires s of
        (Inl err, s') \<Rightarrow> (Inl (errorf_w ''failed to generate presigned url'' err), s')
      | (Inr url, s') \<Rightarrow> (Inr url, s'))"

fun list_pages :: "(go_error + s3_object list) list \<Rightarrow> FileInfo list \<Rightarrow> go_error + FileInfo list" where
  "list_pages [] files = Inr files"
| "list_pages (Inl err # pages) files = Inl (errorf_w ''failed to list objects'' err)"
| "list_pages (Inr objs # pages) files =
     list_pages pages (files @ map (\<lambda>ob. \<lparr>fi_Path = so_Key ob, fi_Size = so_Size ob, fi_ContentType = '''',
       fi_ModifiedAt = so_LastModified ob\<rparr>) objs)"

definition s3_List :: "'s s3_api \<Rightarrow> string \<Rightarrow> string \<Rightarrow> 's \<Rightarrow> (go_error + FileInfo list) \<times> 's" where
  "s3_List api bucket pre s = (case s3_ListPages api bucket pre s of (pages, s') \<Rightarrow> (list_pages pages [], s'))"

definition s3_storage :: "'s s3_api \<Rightarrow> string \<Rightarrow> 's storage" where
  "s3_storage api bucket = \<lparr>st_Upload = s3_Upload api bucket, st_Download = s3_Download api bucket, st_Delete = s3_Delete api bucket,
     st_Exists = s3_Exists api bucket, st_GetURL = s3_GetURL api bucket, st_List = s3_List api bucket\<rparr>"

section \<open>Content types by signature\<close>

text \<open>
  \<^verbatim>\<open>http.DetectContentType\<close>. The masks of its table consist of the bytes 0x00 and 0xFF, so a masked pattern is a list
  of bytes with wildcards (\<open>None\<close>).
\<close>

datatype sniff_sig =
    HtmlSig string
  | ExactSig string string
  | MaskedSig bool "char option list" string
  | Mp4Sig
  | TextSig

definition is_ws :: "char \<Rightarrow> bool" where
  "is_ws c \<longleftrightarrow> c \<in> set [CHR 0x09, CHR 0x0A, CHR 0x0C, CHR 0x0D, CHR '' '']"

fun match_masked :: "char option list \<Rightarrow> string \<Rightarrow> bool" where
  "match_masked [] data = True"
| "match_masked (p # ps) [] = False"
| "match_masked (p # ps) (c # data) = ((p = None \<or> p = Some c) \<and> match_masked ps data)"

text \<open>Upper-case letters of the pattern match both cases; a tag ends with a space or an angle bracket.\<close>

fun match_html :: "string \<Rightarrow> string \<Rightarrow> bool" where
  "match_html [] data = (data \<noteq> [] \<and> hd data \<in> set '' >'')"
| "match_html (h # hs) [] = False"
| "match_html (h # hs) (c # data) =
     ((if CHR ''A'' \<le> h \<and> h \<le> CHR ''Z'' then char_of (Bit_Operations.and (of_char c) (0xDF :: nat)) else c) = h \<and> match_html hs data)"

definition match_mp4 :: "string \<Rightarrow> bool" where
  "match_mp4 data =
     (12 \<le> length data \<and>
      (let boxSize = foldl (\<lambda>n c. 256 * n + int (of_char c)) 0 (take 4 data)
       in boxSize \<le> int (length data) \<and> boxSize mod 4 = 0 \<and> take 4 (drop 4 data) = ''ftyp'' \<and>
          list_ex (\<lambda>k. k \<noteq> 1 \<and> take 3 (drop (8 + 4 * k) data) = ''mp4'') [0..<nat ((boxSize - 8 + 3) div 4)]))"

definition text_byte :: "char \<Rightarrow> bool" where
  "text_byte c \<longleftrightarrow> (let n = of_char c :: nat in \<not> (n \<le> 8 \<or> n = 11 \<or> 14 \<le> n \<and> n \<le> 26 \<or> 28 \<le> n \<and> n \<le> 31))"

fun sniff_match :: "string \<Rightarrow> sniff_sig \<Rightarrow> string option" where
  "sniff_match data (HtmlSig h) = (if match_html h (dropWhile is_ws data) then Some ''text/html; charset=utf-8'' else None)"
| "sniff_match data (ExactSig s ct) = (if has_prefix data s then Some ct else None)"
| "sniff_match data (MaskedSig skipWS pat ct) =
     (if match_masked pat (if skipWS then dropWhile is_ws data else data) then Some ct else None)"
| "sniff_match data Mp4Sig = (if match_mp4 data then Some ''video/mp4'' else None)"
| "sniff_match data TextSig =
     (if list_all text_byte (dropWhile is_ws data) then Some ''text/plain; charset=utf-8'' else None)"

abbreviation lits :: "string \<Rightarrow> char option list" where "lits s \<equiv> map Some s"

definition sniffSignatures :: "sniff_sig list" where
  "sniffSignatures =
     map HtmlSig [''<!DOCTYPE HTML'', ''<HTML'', ''<HEAD'', ''<SCRIPT'', ''<IFRAME'', ''<H1'', ''<DIV'', ''<FONT'', ''<TABLE'', ''<A'',
       ''<STYLE'', ''<TITLE'', ''<B'', ''<BODY'', ''<BR'', ''<P'', ''<!--''] @
     [MaskedSig True (lits ''<?xml'') ''text/xml; charset=utf-8'',
      ExactSig ''%PDF-'' ''application/pdf'',
      ExactSig ''%!PS-Adobe-'' ''application/postscript'',
      MaskedSig False [Some (CHR 0xFE), Some (CHR 0xFF), None, None] ''text/plain; charset=utf-16be'',
      MaskedSig False [Some (CHR 0xFF), Some (CHR 0xFE), None, None] ''text/plain; charset=utf-16le'',
      MaskedSig False [Some (CHR 0xEF), Some (CHR 0xBB), Some (CHR 0xBF), None] ''text/plain; charset=utf-8'',
      ExactSig [CHR 0x00, CHR 0x00, CHR 0x01, CHR 0x00] ''image/x-icon'',
      ExactSig [CHR 0x00, CHR 0x00, CHR 0x02, CHR 0x00] ''image/x-icon'',
      ExactSig ''BM'' ''image/bmp'',
      ExactSig ''GIF87a'' ''image/gif'',
      ExactSig ''GIF89a'' ''image/gif'',
      MaskedSig False (lits ''RIFF'' @ [None, None, None, None] @ lits ''WEBPVP'') ''image/webp'',
      ExactSig ([CHR 0x89] @ ''PNG'' @ [CHR 0x0D, CHR 0x0A, CHR 0x1A, CHR 0x0A]) ''image/png'',
      ExactSig [CHR 0xFF, CHR 0xD8, CHR 0xFF] ''image/jpeg'',
      MaskedSig False (lits ''FORM'' @ [None, None, None, None] @ lits ''AIFF'') ''audio/aiff'',
      MaskedSig False (lits ''ID3'') ''audio/mpeg'',
      MaskedSig False (lits (''OggS'' @ [CHR 0x00])) ''application/ogg'',
      MaskedSig False (lits (''MThd'' @ [CHR 0x00, CHR 0x00, CHR 0x00, CHR 0x06])) ''audio/midi'',
      MaskedSig False (lits ''RIFF'' @ [None, None, None, None] @ lits ''AVI '') ''video/avi'',
      MaskedSig False (lits ''RIFF'' @ [None, None, None, None] @ lits ''WAVE'') ''audio/wave'',
      Mp4Sig,
      ExactSig [CHR 0x1A, CHR 0x45, CHR 0xDF, CHR 0xA3] ''video/webm'',
      MaskedSig False (replicate 34 None @ lits ''LP'') ''application/vnd.ms-fontobject'',
      ExactSig [CHR 0x00, CHR 0x01, CHR 0x00, CHR 0x00] ''font/ttf'',
      ExactSig ''OTTO'' ''font/otf'',
      ExactSig ''ttcf'' ''font/collection'',
      ExactSig ''wOFF'' ''font/woff'',
      ExactSig ''wOF2'' ''font/woff2'',
      ExactSig [CHR 0x1F, CHR 0x8B, CHR 0x08] ''application/x-gzip'',
      ExactSig (''PK'' @ [CHR 0x03, CHR 0x04]) ''application/zip'',
      ExactSig (''Rar!'' @ [CHR 0x1A, CHR 0x07, CHR 0x00]) ''application/x-rar-compressed'',
      ExactSig (''Rar!'' @ [CHR 0x1A, CHR 0x07, CHR 0x01, CHR 0x00]) ''application/x-rar-compressed'',
      ExactSig [CHR 0x00, CHR 0x61, CHR 0x73, CHR 0x6D] ''application/wasm'',
      TextSig]"

fun first_match :: "string \<Rightarrow> sniff_sig list \<Rightarrow> string" where
  "first_match data [] = ''application/octet-stream''"
| "first_match data (sg # sgs) = (case sniff_match data sg of Some ct \<Rightarrow> ct | None \<Rightarrow> first_match data sgs)"

definition DetectContentType :: "string \<Rightarrow> string" where
  "DetectContentType data = first_match (take 512 data) sniffSignatures"

section \<open>Use case\<close>

record FileResponse =
  fr_Path :: string
  fr_Size :: int
  fr_ContentType :: string
  fr_URL :: string
  fr_ModTime :: string

record UploadResponse =
  ul_Path :: string
  ul_URL :: string
  ul_Size :: int

definition file_json :: "FileResponse \<Rightarrow> json" where
  "file_json f =
     JObj ([(''path'', JStr (fr_Path f)), (''size'', JNum (itoa (fr_Size f))), (''content_type'', JStr (fr_ContentType f))] @
           (if fr_URL f = '''' then [] else [(''url'', JStr (fr_URL f))]) @
           (if fr_ModTime f = '''' then [] else [(''mod_time'', JStr (fr_ModTime f))]))"

definition upload_json :: "UploadResponse \<Rightarrow> json" where
  "upload_json r = JObj [(''path'', JStr (ul_Path r)), (''url'', JStr (ul_URL r)), (''size'', JNum (itoa (ul_Size r)))]"

definition DefaultMaxFileSize :: int where "DefaultMaxFileSize = 10 * 1024 * 1024"

definition DefaultAllowedContentTypes :: "string list" where
  "DefaultAllowedContentTypes = [''image/jpeg'', ''image/png'', ''image/gif'', ''image/webp'', ''application/pdf'']"

record 'd storageUseCase =
  sc_storage :: "'d storage"
  sc_maxFileSize :: int
  sc_allowedContentTypes :: "string list"
  sc_fmt :: "go_time \<Rightarrow> string"

text \<open>The configuration is a size and the allowed types; how a time is printed is the last argument.\<close>

definition NewUseCase :: "'d storage \<Rightarrow> (int \<times> string list) option \<Rightarrow> (go_time \<Rightarrow> string) \<Rightarrow> 'd storageUseCase" where
  "NewUseCase storage cfg fmt =
     (let maxSize = (case cfg of Some (n, _) \<Rightarrow> if 0 < n then n else DefaultMaxFileSize | None \<Rightarrow> DefaultMaxFileSize);
          allowed = (case cfg of Some (_, ts) \<Rightarrow> if ts \<noteq> [] then ts else DefaultAllowedContentTypes | None \<Rightarrow> DefaultAllowedContentTypes)
      in \<lparr>sc_storage = storage, sc_maxFileSize = maxSize, sc_allowedContentTypes = allowed, sc_fmt = fmt\<rparr>)"

definition sanitizePath :: "string \<Rightarrow> string" where
  "sanitizePath path =
     (let p1 = filter (\<lambda>c. c \<noteq> NUL) path;
          p2 = Clean p1;
          p3 = trim_left ''/.'' p2
      in join ''/'' (filter (\<lambda>part. \<not> (part = ''..'' \<or> part = ''.'' \<or> part = '''')) (split_on slash p3)))"

text \<open>Peeking at the first bytes: the error of a short stream is the end of the file unless the reader failed.\<close>

definition peek_error :: "reader \<Rightarrow> go_error option" where
  "peek_error file = (if length (fst file) < 512 then snd file else None)"

definition base_type :: "string \<Rightarrow> string" where
  "base_type ct = (if CHR '';'' \<in> set ct then trim_space (takeWhile (\<lambda>c. c \<noteq> CHR '';'') ct) else ct)"

record file_header =
  fh_Filename :: string
  fh_Size :: int

definition sc_Upload ::
  "'d storageUseCase \<Rightarrow> go_time \<Rightarrow> string \<Rightarrow> reader \<Rightarrow> file_header \<Rightarrow> string \<Rightarrow> 'd \<Rightarrow> (go_error + UploadResponse) \<times> 'd" where
  "sc_Upload uc now new_uuid file header directory0 d =
     (if sc_maxFileSize uc < fh_Size header
      then (Inl (BadRequestf (''file size '' @ itoa (fh_Size header) @ '' exceeds maximum allowed size '' @ itoa (sc_maxFileSize uc))), d)
      else
        (case peek_error file of
           Some err \<Rightarrow> (Inl (Internalf (''failed to inspect uploaded file: '' @ error_text err)), d)
         | None \<Rightarrow>
             (let baseContentType = base_type (DetectContentType (take 512 (fst file))) in
              if baseContentType \<notin> set (sc_allowedContentTypes uc)
              then (Inl (UnsupportedMediaTypef (''content type '' @ quote baseContentType @ '' is not allowed'')), d)
              else
                (let ext = path_Ext (fh_Filename header);
                     uniqueName = new_uuid @ ext;
                     directory = sanitizePath directory0;
                     storagePath = (if directory \<noteq> '''' then directory @ ''/'' @ uniqueName else uniqueName)
                 in case st_Upload (sc_storage uc) now storagePath file [WithContentType baseContentType] d of
                      (Inl err, d1) \<Rightarrow> (Inl (Internalf (''failed to upload file: '' @ error_text err)), d1)
                    | (Inr path, d1) \<Rightarrow>
                        (case st_GetURL (sc_storage uc) path (24 * 60 * minute) d1 of
                           (Inl _, d2) \<Rightarrow> (Inr \<lparr>ul_Path = path, ul_URL = '''', ul_Size = fh_Size header\<rparr>, d2)
                         | (Inr url, d2) \<Rightarrow> (Inr \<lparr>ul_Path = path, ul_URL = url, ul_Size = fh_Size header\<rparr>, d2))))))"

text \<open>The check that a file exists, with the answer when it does not.\<close>

definition require_file :: "'d storageUseCase \<Rightarrow> string \<Rightarrow> 'd \<Rightarrow> go_error option \<times> 'd" where
  "require_file uc path d =
     (case st_Exists (sc_storage uc) path d of
        (Inl err, d1) \<Rightarrow> (Some (Internalf (''failed to check file existence: '' @ error_text err)), d1)
      | (Inr ex, d1) \<Rightarrow> (if ex then None else Some (NotFoundf (''file not found: '' @ path)), d1))"

definition content_type_of :: "string \<Rightarrow> string" where
  "content_type_of path =
     (let ext = to_lower (path_Ext path) in
      if ext = ''.jpg'' \<or> ext = ''.jpeg'' then ''image/jpeg''
      else if ext = ''.png'' then ''image/png''
      else if ext = ''.gif'' then ''image/gif''
      else if ext = ''.webp'' then ''image/webp''
      else if ext = ''.pdf'' then ''application/pdf''
      else ''application/octet-stream'')"

definition sc_Download :: "'d storageUseCase \<Rightarrow> string \<Rightarrow> 'd \<Rightarrow> (go_error + reader \<times> string) \<times> 'd" where
  "sc_Download uc path0 d =
     (let path = sanitizePath path0 in
      if path = '''' then (Inl (BadRequestf ''invalid file path''), d)
      else (case require_file uc path d of
              (Some err, d1) \<Rightarrow> (Inl err, d1)
            | (None, d1) \<Rightarrow>
                (case st_Download (sc_storage uc) path d1 of
                   (Inl err, d2) \<Rightarrow> (Inl (Internalf (''failed to download file: '' @ error_text err)), d2)
                 | (Inr r, d2) \<Rightarrow> (Inr (r, content_type_of path), d2))))"

definition sc_Delete :: "'d storageUseCase \<Rightarrow> string \<Rightarrow> 'd \<Rightarrow> go_error option \<times> 'd" where
  "sc_Delete uc path0 d =
     (let path = sanitizePath path0 in
      if path = '''' then (Some (BadRequestf ''invalid file path''), d)
      else (case require_file uc path d of
              (Some err, d1) \<Rightarrow> (Some err, d1)
            | (None, d1) \<Rightarrow>
                (case st_Delete (sc_storage uc) path d1 of
                   (Some err, d2) \<Rightarrow> (Some (Internalf (''failed to delete file: '' @ error_text err)), d2)
                 | (None, d2) \<Rightarrow> (None, d2))))"

definition sc_GetURL :: "'d storageUseCase \<Rightarrow> string \<Rightarrow> int \<Rightarrow> 'd \<Rightarrow> (go_error + FileResponse) \<times> 'd" where
  "sc_GetURL uc path0 expires d =
     (let path = sanitizePath path0 in
      if path = '''' then (Inl (BadRequestf ''invalid file path''), d)
      else (case require_file uc path d of
              (Some err, d1) \<Rightarrow> (Inl err, d1)
            | (None, d1) \<Rightarrow>
                (let ex = (if expires \<le> 0 then 60 * minute else expires) in
                 case st_GetURL (sc_storage uc) path ex d1 of
                   (Inl err, d2) \<Rightarrow> (Inl (Internalf (''failed to generate URL: '' @ error_text err)), d2)
                 | (Inr url, d2) \<Rightarrow>
                     (Inr \<lparr>fr_Path = path, fr_Size = 0, fr_ContentType = '''', fr_URL = url, fr_ModTime = ''''\<rparr>, d2))))"

definition sc_List :: "'d storageUseCase \<Rightarrow> string \<Rightarrow> 'd \<Rightarrow> (go_error + FileResponse list) \<times> 'd" where
  "sc_List uc pre d =
     (case st_List (sc_storage uc) (sanitizePath pre) d of
        (Inl err, d1) \<Rightarrow> (Inl (Internalf (''failed to list files: '' @ error_text err)), d1)
      | (Inr files, d1) \<Rightarrow>
          (Inr (map (\<lambda>f. \<lparr>fr_Path = fi_Path f, fr_Size = fi_Size f, fr_ContentType = fi_ContentType f, fr_URL = '''',
             fr_ModTime = sc_fmt uc (fi_ModifiedAt f)\<rparr>) files), d1))"

section \<open>Audit decorator\<close>

text \<open>The module wires the decorator only when there is an auditor.\<close>

definition logged :: "'a auditor option \<Rightarrow> AuditEntry \<Rightarrow> 'a \<Rightarrow> 'a" where
  "logged auo entry a = (case auo of None \<Rightarrow> a | Some au \<Rightarrow> snd (au_Log au entry a))"

definition audited_sc_Upload ::
  "'d storageUseCase \<Rightarrow> 'a auditor option \<Rightarrow> go_time \<Rightarrow> go_context \<Rightarrow> string \<Rightarrow> reader \<Rightarrow> file_header \<Rightarrow> string \<Rightarrow> 'd \<times> 'a \<Rightarrow>
   (go_error + UploadResponse) \<times> 'd \<times> 'a" where
  "audited_sc_Upload uc auo now ctx new_uuid file header directory w =
     (case w of (d, a) \<Rightarrow>
      case sc_Upload uc now new_uuid file header directory d of
        (Inl err, d') \<Rightarrow> (Inl err, d', a)
      | (Inr resp, d') \<Rightarrow>
          (let entry = (NewAuditEntry now ctx AuditActionCreate ''file'' (ul_Path resp))
                 \<lparr>ae_NewValue := Some (json_map [(''size'', JNum (itoa (ul_Size resp))), (''original_filename'', JStr (fh_Filename header))])\<rparr>
           in (Inr resp, d', logged auo entry a)))"

definition audited_sc_Delete ::
  "'d storageUseCase \<Rightarrow> 'a auditor option \<Rightarrow> go_time \<Rightarrow> go_context \<Rightarrow> string \<Rightarrow> 'd \<times> 'a \<Rightarrow> go_error option \<times> 'd \<times> 'a" where
  "audited_sc_Delete uc auo now ctx path w =
     (case w of (d, a) \<Rightarrow>
      case sc_Delete uc path d of
        (Some err, d') \<Rightarrow> (Some err, d', a)
      | (None, d') \<Rightarrow> (None, d', logged auo (NewAuditEntry now ctx AuditActionDelete ''file'' path) a))"

section \<open>Handlers and routes\<close>

text \<open>The multipart form of a request is parsed by the framework: the file with its header, and the directory field.\<close>

record ('d, 'a) storage_module =
  sm_uc :: "'d storageUseCase"
  sm_auditor :: "'a auditor option"
  sm_file :: "fiber_ctx \<Rightarrow> go_error + file_header \<times> (go_error + reader)"
  sm_directory :: "fiber_ctx \<Rightarrow> string"

definition sanitizeHeaderValue :: "string \<Rightarrow> string" where
  "sanitizeHeaderValue s = filter (\<lambda>c. c \<noteq> CHR 0x0D \<and> c \<noteq> CHR 0x0A \<and> c \<noteq> CHR 0x22) s"

definition sh_Upload :: "('d, 'a) storage_module \<Rightarrow> go_time \<Rightarrow> string \<Rightarrow> ('d \<times> 'a) handler" where
  "sh_Upload m now new_uuid w c =
     (case sm_file m c of
        Inl err \<Rightarrow> with_state w (Fail c (BadRequestf (''file is required: '' @ error_text err)))
      | Inr (header, opened) \<Rightarrow>
          (case opened of
             Inl _ \<Rightarrow> with_state w (Fail c (Internalf ''failed to open uploaded file''))
           | Inr src \<Rightarrow>
               (case audited_sc_Upload (sm_uc m) (sm_auditor m) now (user_ctx c) new_uuid src header (sm_directory m c) w of
                  (Inl err, w') \<Rightarrow> with_state w' (Fail c err)
                | (Inr result, w') \<Rightarrow> with_state w' (Created c (upload_json result)))))"

definition sh_Download :: "('d, 'a) storage_module \<Rightarrow> ('d \<times> 'a) handler" where
  "sh_Download m w c =
     (let path = ctx_Params c ''*'' in
      if path = '''' then with_state w (Fail c (BadRequestf ''file path is required''))
      else (case w of (d, a) \<Rightarrow>
            case sc_Download (sm_uc m) path d of
              (Inl err, d') \<Rightarrow> with_state (d', a) (Fail c err)
            | (Inr (r, contentType), d') \<Rightarrow>
                (let filename = path_Base path;
                     c1 = ctx_Set ''Content-Type'' contentType c;
                     c2 = ctx_Set ''Content-Disposition'' (''attachment; filename='' @ [CHR 0x22] @ sanitizeHeaderValue filename @ [CHR 0x22]) c1
                 in (None, (d', a), c2\<lparr>res_stream := Some (fst r)\<rparr>))))"

definition sh_Delete :: "('d, 'a) storage_module \<Rightarrow> go_time \<Rightarrow> ('d \<times> 'a) handler" where
  "sh_Delete m now w c =
     (let path = ctx_Params c ''*'' in
      if path = '''' then with_state w (Fail c (BadRequestf ''file path is required''))
      else (case audited_sc_Delete (sm_uc m) (sm_auditor m) now (user_ctx c) path w of
              (Some err, w') \<Rightarrow> with_state w' (Fail c err)
            | (None, w') \<Rightarrow> with_state w' (NoContent c)))"

text \<open>The product with a second wraps around as a 64-bit duration.\<close>

definition sh_GetURL :: "('d, 'a) storage_module \<Rightarrow> ('d \<times> 'a) handler" where
  "sh_GetURL m w c =
     (let path = ctx_Params c ''*'' in
      if path = '''' then with_state w (Fail c (BadRequestf ''file path is required''))
      else
        (let expiryStr = ctx_Query c ''expires'';
             expires = (if expiryStr = '''' then Some 0
                        else (case atoi expiryStr of None \<Rightarrow> None | Some n \<Rightarrow> if n \<le> 0 then None else Some (int64 (n * second))))
         in case expires of
              None \<Rightarrow> with_state w (Fail c (BadRequestf ''invalid expires value: must be a positive integer (seconds)''))
            | Some ex \<Rightarrow>
                (case w of (d, a) \<Rightarrow>
                 case sc_GetURL (sm_uc m) path ex d of
                   (Inl err, d') \<Rightarrow> with_state (d', a) (Fail c err)
                 | (Inr result, d') \<Rightarrow> with_state (d', a) (Success c (file_json result)))))"

definition sh_List :: "('d, 'a) storage_module \<Rightarrow> ('d \<times> 'a) handler" where
  "sh_List m w c =
     (case w of (d, a) \<Rightarrow>
      case sc_List (sm_uc m) (ctx_Query c ''prefix'') d of
        (Inl err, d') \<Rightarrow> with_state (d', a) (Fail c err)
      | (Inr files, d') \<Rightarrow> with_state (d', a) (Success c (JObj [(''files'', JArr (map file_json files))])))"

datatype storage_route = PostUpload | GetFiles | GetFileURL | GetDownload | DeleteFile

definition storage_routes ::
  "jwt_api \<Rightarrow> string \<Rightarrow> ('d, 'a) storage_module \<Rightarrow> go_time \<Rightarrow> string \<Rightarrow> storage_route \<Rightarrow> ('d \<times> 'a) handler" where
  "storage_routes jwt jwtSecret m now new_uuid r =
     Auth jwt now (DefaultAuthConfig jwtSecret)
       (case r of
          PostUpload \<Rightarrow> sh_Upload m now new_uuid
        | GetFiles \<Rightarrow> sh_List m
        | GetFileURL \<Rightarrow> sh_GetURL m
        | GetDownload \<Rightarrow> sh_Download m
        | DeleteFile \<Rightarrow> sh_Delete m now)"

section \<open>Paths stay inside the base directory\<close>

text \<open>A path in the tree below a base directory: the clean base followed by plain elements.\<close>

definition inside :: "string \<Rightarrow> string \<Rightarrow> bool" where
  "inside base f \<longleftrightarrow> (\<exists>ps. (\<forall>e \<in> set ps. plain_elem e) \<and> f = rooted_path (hd base = slash) (clean_of base @ ps))"

lemma Clean_rooted: "path \<noteq> '''' \<Longrightarrow> Clean path = rooted_path (hd path = slash) (clean_of path)"
  by (simp add: Clean_eq rooted_path_def)

lemma clean_of_join:
  assumes "base \<noteq> ''''"
  shows "clean_of (base @ ''/'' @ key) = clean_elems (hd base = slash) (rev (clean_of base)) (split_on slash key)"
proof -
  have "split_on slash (base @ ''/'' @ key) = split_on slash base @ split_on slash key" by (rule split_on_sep)
  then show ?thesis using assms by (simp add: clean_of_def clean_elems_append)
qed

lemma Clean_Join:
  assumes "base \<noteq> ''''"
  shows "Clean (Join base key) = rooted_path (hd base = slash) (clean_of (base @ ''/'' @ key))"
proof -
  let ?p = "base @ ''/'' @ key"
  have j: "Join base key = rooted_path (hd base = slash) (clean_of ?p)" using assms by (simp add: Join_def Clean_rooted)
  have ne: "Join base key \<noteq> ''''"
    using join_Nil_iff [of "clean_of ?p" "''/''"] clean_of_cleaned [of ?p] cleaned_no_slash unfolding j rooted_path_def by (auto split: if_splits)
  have hd: "(hd (Join base key) = slash) = (hd base = slash)"
  proof (cases "hd base = slash")
    case False
    have "hd (join ''/'' es) \<noteq> slash" if "es \<noteq> []" "\<forall>e \<in> set es. slash \<notin> set e \<and> e \<noteq> ''''" for es
      using that by (cases es rule: remdups_adj.cases) (auto simp: hd_append split: list.splits, (metis hd_in_set)+)
    with False clean_of_cleaned [of ?p] cleaned_no_slash show ?thesis unfolding j rooted_path_def by (auto split: if_splits)
  qed (simp add: j rooted_path_def)
  have "clean_of (Join base key) = clean_of ?p"
    using clean_of_Clean [of ?p] assms j by (simp add: Clean_rooted)
  then show ?thesis using Clean_rooted [OF ne] hd by simp
qed

lemma set_Clean: "set (Clean path) \<subseteq> set path \<union> {slash, CHR ''.''}"
proof -
  have "set e \<subseteq> set path" if "e \<in> set (clean_of path)" for e
  proof -
    have "e \<in> set (split_on slash path)" using set_clean_elems [OF that [unfolded clean_of_def]] by simp
    then show ?thesis by (rule set_split_on)
  qed
  then have "set (join ''/'' (clean_of path)) \<subseteq> set path \<union> {slash}" using set_join [of "''/''" "clean_of path"] by fastforce
  then show ?thesis unfolding Clean_eq by auto
qed

lemma split_first: "c \<noteq> slash \<Longrightarrow> \<exists>p ps. split_on slash (c # s) = (c # p) # ps"
  by (cases "split_on slash s") auto

lemma sanitize_parts:
  obtains ps where "sanitizePath path = join ''/'' ps" and "\<forall>e \<in> set ps. plain_elem e"
    and "ps \<noteq> [] \<Longrightarrow> hd (hd ps) \<noteq> CHR ''.''" and "\<forall>e \<in> set ps. NUL \<notin> set e"
proof
  let ?p = "trim_left ''/.'' (Clean (filter (\<lambda>c. c \<noteq> NUL) path))"
  let ?ps = "filter (\<lambda>part. \<not> (part = ''..'' \<or> part = ''.'' \<or> part = '''')) (split_on slash ?p)"
  show "sanitizePath path = join ''/'' ?ps" by (simp add: sanitizePath_def Let_def)
  show "\<forall>e \<in> set ?ps. plain_elem e" by (auto simp: plain_elem_def dest: split_on_pieces)
  show "hd (hd ?ps) \<noteq> CHR ''.''" if "?ps \<noteq> []"
  proof (cases ?p)
    case Nil
    with that show ?thesis by simp
  next
    case (Cons c s)
    then have "c \<notin> set ''/.''" by (rule trim_left_head)
    with split_first [of c s] Cons show ?thesis by auto
  qed
  have "NUL \<notin> set ?p"
    using set_Clean [of "filter (\<lambda>c. c \<noteq> NUL) path"] by (auto simp: trim_left_def dest!: set_dropWhileD)
  then show "\<forall>e \<in> set ?ps. NUL \<notin> set e" using set_split_on by fastforce
qed

lemma split_plain:
  assumes "\<forall>e \<in> set ps. plain_elem e"
  shows "clean_elems r st (split_on slash (join ''/'' ps)) = rev st @ ps"
proof (cases "ps = []")
  case False
  then have "split_on slash (join ''/'' ps) = ps" using assms by (intro split_on_join) (auto simp: plain_elem_def)
  then show ?thesis using assms by (simp add: clean_elems_plain)
qed simp

lemma has_prefix_rooted:
  assumes "bs \<noteq> []" and "\<forall>e \<in> set bs. slash \<notin> set e" and "\<forall>e \<in> set fe. slash \<notin> set e \<and> e \<noteq> ''''"
    and "has_prefix (rooted_path r fe) (rooted_path r bs @ ''/'')"
  obtains ps where "fe = bs @ ps"
proof -
  have ne: "fe \<noteq> []"
  proof
    assume "fe = []"
    with assms(4) have "r \<or> bs = []" "rooted_path r fe = (if r then ''/'' else ''.'')"
      by (auto simp: rooted_path_def has_prefix_iff Cons_eq_append_conv split: if_splits)
    with assms \<open>fe = []\<close> show False by (auto simp: rooted_path_def has_prefix_iff)
  qed
  from assms(1,4) ne obtain rest where "join ''/'' fe = join ''/'' bs @ ''/'' @ rest"
    by (auto simp: rooted_path_def has_prefix_iff split: if_splits)
  then have "split_on slash (join ''/'' fe) = split_on slash (join ''/'' bs) @ split_on slash rest" by (metis split_on_sep)
  then have "fe = bs @ split_on slash rest" using assms(1-3) ne by (simp add: split_on_join)
  then show thesis by (rule that)
qed

lemma suffix_plain:
  assumes "cleaned r (bs @ ps)" and "bs \<noteq> []" and "last bs \<noteq> ''..''"
  shows "\<forall>e \<in> set ps. plain_elem e"
proof -
  obtain n qs where s: "bs @ ps = replicate n ''..'' @ qs" "\<forall>e \<in> set qs. plain_elem e" using assms(1) by (auto simp: cleaned_def)
  have "n < length bs"
  proof (rule ccontr)
    assume "\<not> n < length bs"
    moreover have "0 < length bs" using assms(2) by simp
    ultimately have "length bs - 1 < n" "length bs - 1 < length bs" by linarith+
    then have "(bs @ ps) ! (length bs - 1) = last bs" "(replicate n ''..'' @ qs) ! (length bs - 1) = ''..''"
      using assms(2) by (simp_all add: nth_append last_conv_nth)
    with s(1) assms(3) show False by simp
  qed
  then obtain k where "length bs = n + k" by (metis less_imp_add_positive)
  with arg_cong [OF s(1), of "drop (length bs)"] have "ps = drop k qs" by simp
  with s(2) show ?thesis by (metis in_set_dropD)
qed

lemma resolve_confined:
  assumes "base \<noteq> ''''" and "clean_of base \<noteq> []" and "last (clean_of base) \<noteq> ''..''" and "resolveWithinBase base key = Inr f"
  shows "inside base f"
proof -
  let ?r = "hd base = slash" and ?bs = "clean_of base" and ?fe = "clean_of (base @ ''/'' @ key)"
  have full: "Clean (Join base key) = rooted_path ?r ?fe" and cb: "Clean base = rooted_path ?r ?bs"
    using assms(1) by (simp_all add: Clean_Join Clean_rooted)
  have cl: "cleaned ?r ?fe" using clean_of_cleaned [of "base @ ''/'' @ key"] assms(1) by simp
  from assms(4) consider "f = rooted_path ?r ?bs" | "f = rooted_path ?r ?fe" "has_prefix (rooted_path ?r ?fe) (rooted_path ?r ?bs @ ''/'')"
    by (auto simp: resolveWithinBase_def Let_def full cb split: if_splits)
  then show ?thesis
  proof cases
    case 1
    then show ?thesis unfolding inside_def by (intro exI [of _ "[]"]) simp
  next
    case 2
    have bs: "\<forall>e \<in> set ?bs. slash \<notin> set e" using clean_of_cleaned [of base] cleaned_no_slash by blast
    have fe: "\<forall>e \<in> set ?fe. slash \<notin> set e \<and> e \<noteq> ''''" using cl cleaned_no_slash by blast
    obtain ps where ps: "?fe = ?bs @ ps" by (rule has_prefix_rooted [OF assms(2) bs fe 2(2)])
    have "\<forall>e \<in> set ps. plain_elem e" by (rule suffix_plain [OF cl [unfolded ps] assms(2,3)])
    with 2(1) ps show ?thesis by (auto simp: inside_def)
  qed
qed

lemma resolve_plain:
  assumes "base \<noteq> ''''" and "clean_of base \<noteq> []" and "\<forall>e \<in> set ps. plain_elem e"
  shows "resolveWithinBase base (join ''/'' ps) = Inr (rooted_path (hd base = slash) (clean_of base @ ps))"
proof -
  have "clean_of (base @ ''/'' @ join ''/'' ps) = clean_of base @ ps"
    using clean_of_join [OF assms(1)] split_plain [OF assms(3)] by simp
  moreover have "has_prefix (rooted_path r (clean_of base @ ps)) (rooted_path r (clean_of base) @ ''/'')" if "ps \<noteq> []" for r
    using that assms(2) by (simp add: rooted_path_def join_append has_prefix_iff)
  ultimately show ?thesis using assms(1) by (cases "ps = []") (simp_all add: resolveWithinBase_def Let_def Clean_Join Clean_rooted)
qed

lemma hd_join_plain:
  assumes "\<forall>e \<in> set ps. plain_elem e" and "ps \<noteq> []"
  shows "join ''/'' ps \<noteq> ''''" and "hd (join ''/'' ps) = hd (hd ps)" and "hd (hd ps) \<noteq> slash"
proof -
  have h: "hd ps \<noteq> ''''" "slash \<notin> set (hd ps)" using assms by (auto simp: plain_elem_def)
  then show "join ''/'' ps \<noteq> ''''" "hd (join ''/'' ps) = hd (hd ps)" using assms(2) by (cases ps rule: remdups_adj.cases; simp add: hd_append)+
  show "hd (hd ps) \<noteq> slash" using h by (metis hd_in_set)
qed

lemma sanitize_fix:
  assumes "\<forall>e \<in> set ps. plain_elem e" and "ps \<noteq> []" and "hd (hd ps) \<noteq> CHR ''.''" and "\<forall>e \<in> set ps. NUL \<notin> set e"
  shows "sanitizePath (join ''/'' ps) = join ''/'' ps"
proof -
  let ?s = "join ''/'' ps"
  note hd = hd_join_plain [OF assms(1,2)]
  have "NUL \<notin> set ?s" using set_join [of "''/''" ps] assms(4) by auto
  then have "filter (\<lambda>c. c \<noteq> NUL) ?s = ?s" by (auto simp: filter_id_conv)
  moreover have sp: "split_on slash ?s = ps" using assms(1,2) by (intro split_on_join) (auto simp: plain_elem_def)
  moreover have "clean_of ?s = ps" using hd sp clean_elems_plain [OF assms(1), of _ "[]"] by (simp add: clean_of_def)
  then have "Clean ?s = ?s" using hd assms(2) by (simp add: Clean_rooted rooted_path_def)
  moreover have "trim_left ''/.'' ?s = ?s" using hd assms(3) by (cases ?s) (simp_all add: trim_left_def)
  moreover have "filter (\<lambda>part. \<not> (part = ''..'' \<or> part = ''.'' \<or> part = '''')) ps = ps"
    using assms(1) by (auto simp: filter_id_conv plain_elem_def)
  ultimately show ?thesis by (simp add: sanitizePath_def Let_def)
qed

lemma sanitize_idem: "sanitizePath (sanitizePath path) = sanitizePath path"
proof (rule sanitize_parts [of path])
  fix ps assume ps: "sanitizePath path = join ''/'' ps" "\<forall>e \<in> set ps. plain_elem e" "ps \<noteq> [] \<Longrightarrow> hd (hd ps) \<noteq> CHR ''.''"
    "\<forall>e \<in> set ps. NUL \<notin> set e"
  show ?thesis
  proof (cases "ps = []")
    case True
    then show ?thesis using ps(1) by (simp add: sanitizePath_def Clean_def trim_left_def)
  next
    case False
    with sanitize_fix [OF ps(2)] ps show ?thesis by simp
  qed
qed

section \<open>Uploading\<close>

definition file_at :: "fs \<Rightarrow> string \<Rightarrow> string option" where
  "file_at d p = (case map_of (fs_nodes d) p of Some (FileN c _) \<Rightarrow> Some c | _ \<Rightarrow> None)"

lemma syscall_quiet:
  assumes "fs_faults d = []"
  shows "syscall p f d = (if NUL \<in> set p then (Inl err_invalid, d) else f d)"
  using assms by (simp add: syscall_def)

lemma fold_update_DirN:
  "map_of (fold (\<lambda>q. AList.update q DirN) qs m) p = (if p \<in> set qs then Some DirN else map_of m p)"
  by (induction qs arbitrary: m) auto

lemma os_MkdirAll_files:
  assumes "fs_faults d = []" and "os_MkdirAll p d = (Inr u, d')"
  shows "fs_faults d' = [] \<and> (\<forall>q. file_at d' q = file_at d q)"
proof -
  from assms have none: "\<forall>q \<in> set (ancestors p). \<not> is_file d q"
      and d': "d' = d\<lparr>fs_nodes := fold (\<lambda>q. AList.update q DirN) (ancestors p) (fs_nodes d)\<rparr>"
    by (auto simp: os_MkdirAll_def syscall_quiet list_ex_iff split: if_splits)
  have "file_at d' q = file_at d q" for q
    using none d' by (auto simp: file_at_def is_file_def fold_update_DirN split: option.splits node.splits)
  with d' assms(1) show ?thesis by simp
qed

lemma os_Create_files:
  assumes "fs_faults d = []" and "os_Create now p d = (Inr u, d')"
  shows "fs_faults d' = [] \<and> NUL \<notin> set p \<and> (\<forall>q. q \<noteq> p \<longrightarrow> file_at d' q = file_at d q)"
  using assms by (auto simp: os_Create_def syscall_quiet file_at_def split: if_splits)

lemma local_Upload_effect:
  assumes "fs_faults d = []" and "local_Upload s now path data opts d = (Inr path', d')"
  obtains f where "path' = path" and "fs_faults d' = []" and "resolveWithinBase (ls_basePath s) path = Inr f" and "NUL \<notin> set f"
    and "snd data = None" and "file_at d' f = Some (fst data)" and "\<forall>q. q \<noteq> f \<longrightarrow> file_at d' q = file_at d q"
proof -
  obtain f where f: "resolveWithinBase (ls_basePath s) path = Inr f" using assms(2) by (auto simp: local_Upload_def split: sum.splits)
  obtain m d1 where m: "os_MkdirAll (path_Dir f) d = (m, d1)" by fastforce
  obtain u where u: "m = Inr u" using assms(2) f m by (cases m) (auto simp: local_Upload_def)
  note M = os_MkdirAll_files [OF assms(1) m [unfolded u]]
  obtain cr d2 where cr: "os_Create now f d1 = (cr, d2)" by fastforce
  obtain v where v: "cr = Inr v" using assms(2) f m u cr by (cases cr) (auto simp: local_Upload_def)
  have C: "fs_faults d2 = []" "NUL \<notin> set f" "\<forall>q. q \<noteq> f \<longrightarrow> file_at d2 q = file_at d1 q"
    using os_Create_files [OF _ cr [unfolded v]] M by auto
  have w: "path' = path" "snd data = None" "d' = d2\<lparr>fs_nodes := AList.update f (FileN (fst data) now) (fs_nodes d2)\<rparr>"
    using assms(2) f m u cr v C(1) by (auto simp: local_Upload_def io_Copy_def split: option.splits)
  show thesis by (rule that [OF w(1) _ f C(2) w(2)]) (use w(3) C M in \<open>auto simp: file_at_def\<close>)
qed

lemma join_chars: "c \<notin> set (join sep ps) \<Longrightarrow> \<forall>e \<in> set ps. c \<notin> set e"
  by (induction sep ps rule: join.induct) auto

lemma Ext_no_slash: "slash \<notin> set (path_Ext p)"
proof -
  have "slash \<notin> set (base_part p)" by (auto simp: base_part_def dest: set_takeWhileD)
  then show ?thesis by (auto simp: path_Ext_def Let_def dest: set_takeWhileD)
qed

text \<open>The name under which an upload is stored.\<close>

definition storage_path :: "string \<Rightarrow> string \<Rightarrow> string \<Rightarrow> string" where
  "storage_path new_uuid filename directory =
     (if sanitizePath directory \<noteq> '''' then sanitizePath directory @ ''/'' @ new_uuid @ path_Ext filename else new_uuid @ path_Ext filename)"

definition uuid_chars :: "string \<Rightarrow> bool" where
  "uuid_chars u \<longleftrightarrow> u \<noteq> '''' \<and> set u \<subseteq> set ''0123456789abcdef-''"

lemma storage_path_parts:
  assumes "uuid_chars u"
  obtains ps where "storage_path u filename directory = join ''/'' ps" and "ps \<noteq> []" and "\<forall>e \<in> set ps. plain_elem e"
    and "hd (hd ps) \<noteq> CHR ''.''" and "\<forall>e \<in> set (butlast ps). NUL \<notin> set e" and "last ps = u @ path_Ext filename"
proof (rule sanitize_parts [of directory])
  fix ps assume ps: "sanitizePath directory = join ''/'' ps" "\<forall>e \<in> set ps. plain_elem e" "ps \<noteq> [] \<Longrightarrow> hd (hd ps) \<noteq> CHR ''.''"
    "\<forall>e \<in> set ps. NUL \<notin> set e"
  let ?n = "u @ path_Ext filename"
  obtain c v where u: "u = c # v" "c \<in> set ''0123456789abcdef-''" using assms by (cases u) (auto simp: uuid_chars_def)
  then have c: "c \<noteq> CHR ''.''" by auto
  have "slash \<notin> set u" using assms by (auto simp: uuid_chars_def)
  then have n: "plain_elem ?n" using u(1) c Ext_no_slash [of filename] by (auto simp: plain_elem_def)
  show thesis
  proof (rule that [of "ps @ [?n]"])
    show "storage_path u filename directory = join ''/'' (ps @ [?n])"
      using ps(1) hd_join_plain(1) [OF ps(2)] by (cases "ps = []") (auto simp: storage_path_def join_append)
    show "hd (hd (ps @ [?n])) \<noteq> CHR ''.''" using ps(3) u(1) c by (cases ps) auto
  qed (use ps(2,4) n in auto)
qed

lemma sc_Upload_success:
  assumes "sc_Upload uc now u file header directory d = (Inr resp, d')"
  obtains d1 where "st_Upload (sc_storage uc) now (storage_path u (fh_Filename header) directory) file
      [WithContentType (base_type (DetectContentType (take 512 (fst file))))] d = (Inr (ul_Path resp), d1)"
    and "d' = snd (st_GetURL (sc_storage uc) (ul_Path resp) (24 * 60 * minute) d1)"
    and "base_type (DetectContentType (take 512 (fst file))) \<in> set (sc_allowedContentTypes uc)" and "fh_Size header \<le> sc_maxFileSize uc"
  using assms unfolding sc_Upload_def Let_def storage_path_def [symmetric]
  by (auto split: if_splits option.splits prod.splits sum.splits)

section \<open>Properties\<close>

text \<open>
  C16. No key reaches a file outside the storage directory. Let the base directory be a non-empty path whose clean
  form is neither the current directory nor the root and does not end in \<^verbatim>\<open>..\<close>. Every key, also one that did not pass the
  use case, resolves into the tree below the base or is rejected, and every path that the use case sanitized
  resolves into that tree. With the base directory \<^verbatim>\<open>..\<close> the check lets the parent of the base pass.
\<close>

theorem storage_paths_confined:
  assumes "base \<noteq> ''''" and "clean_of base \<noteq> []" and "last (clean_of base) \<noteq> ''..''"
  shows "(resolveWithinBase base key = Inl ErrPathEscapesBase \<or> (\<exists>f. resolveWithinBase base key = Inr f \<and> inside base f)) \<and>
    (\<exists>f. resolveWithinBase base (sanitizePath path) = Inr f \<and> inside base f) \<and>
    resolveWithinBase ''..'' ''..'' = Inr ''../..''"
proof (intro conjI)
  show "resolveWithinBase base key = Inl ErrPathEscapesBase \<or> (\<exists>f. resolveWithinBase base key = Inr f \<and> inside base f)"
    using resolve_confined [OF assms, of key] by (cases "resolveWithinBase base key") (auto simp: resolveWithinBase_def Let_def split: if_splits)
  show "\<exists>f. resolveWithinBase base (sanitizePath path) = Inr f \<and> inside base f"
  proof (rule sanitize_parts [of path])
    fix ps assume ps: "sanitizePath path = join ''/'' ps" "\<forall>e \<in> set ps. plain_elem e"
    with resolve_plain [OF assms(1,2) ps(2)] show ?thesis by (auto simp: inside_def)
  qed
  show "resolveWithinBase ''..'' ''..'' = Inr ''../..''" by code_simp
qed

lemma storage_paths_confined_witness:
  "(\<exists>f. resolveWithinBase ''./uploads'' (sanitizePath ''../../etc/passwd'') = Inr f \<and> inside ''./uploads'' f) \<and>
   resolveWithinBase ''./uploads'' ''../x'' = Inl ErrPathEscapesBase"
proof -
  have "clean_of ''./uploads'' = [''uploads'']" by code_simp
  then have "\<exists>f. resolveWithinBase ''./uploads'' (sanitizePath ''../../etc/passwd'') = Inr f \<and> inside ''./uploads'' f"
    using storage_paths_confined [of "''./uploads''" "''../x''" "''../../etc/passwd''"] by simp
  moreover have "resolveWithinBase ''./uploads'' ''../x'' = Inl ErrPathEscapesBase" by code_simp
  ultimately show ?thesis by blast
qed

text \<open>
  C17. What was uploaded is what a download returns. On a file system whose calls succeed, after an upload reported
  success, downloading the path that it returned yields exactly the uploaded bytes, the file lies in the tree below
  the base directory, and no other file has changed.
\<close>

theorem upload_download_roundtrip:
  assumes "sc_storage uc = local_storage s" and "ls_basePath s \<noteq> ''''" and "clean_of (ls_basePath s) \<noteq> []" and "fs_faults d = []"
    and "uuid_chars u" and "sc_Upload uc now u file header directory d = (Inr resp, d')"
  shows "\<exists>ct f. sc_Download uc (ul_Path resp) d' = (Inr ((fst file, None), ct), d') \<and> inside (ls_basePath s) f \<and>
    file_at d' f = Some (fst file) \<and> (\<forall>q. q \<noteq> f \<longrightarrow> file_at d' q = file_at d q)"
proof -
  obtain d1 where d1: "local_Upload s now (storage_path u (fh_Filename header) directory) file
      [WithContentType (base_type (DetectContentType (take 512 (fst file))))] d = (Inr (ul_Path resp), d1)" "d' = d1"
    using sc_Upload_success [OF assms(6)] assms(1) by (auto simp: local_storage_def local_GetURL_def)
  obtain f where f: "ul_Path resp = storage_path u (fh_Filename header) directory" "fs_faults d' = []"
    "resolveWithinBase (ls_basePath s) (ul_Path resp) = Inr f" "NUL \<notin> set f" "file_at d' f = Some (fst file)"
    "\<forall>q. q \<noteq> f \<longrightarrow> file_at d' q = file_at d q"
    by (rule local_Upload_effect [OF assms(4) d1(1)]) (use d1(2) in auto)
  obtain ps where ps: "ul_Path resp = join ''/'' ps" "ps \<noteq> []" "\<forall>e \<in> set ps. plain_elem e" "hd (hd ps) \<noteq> CHR ''.''"
    using storage_path_parts [OF assms(5)] f(1) by metis
  have full: "f = rooted_path (hd (ls_basePath s) = slash) (clean_of (ls_basePath s) @ ps)"
    using resolve_plain [OF assms(2,3) ps(3)] f(3) ps(1) by simp
  have "NUL \<notin> set (join ''/'' ps)" using f(4) assms(3) ps(2) by (auto simp: full rooted_path_def join_append split: if_splits)
  then have "\<forall>e \<in> set ps. NUL \<notin> set e" by (rule join_chars)
  with sanitize_fix [OF ps(3,2,4)] ps(1) have san: "sanitizePath (ul_Path resp) = ul_Path resp" by simp
  obtain t where node: "map_of (fs_nodes d') f = Some (FileN (fst file) t)"
    using f(5) by (auto simp: file_at_def split: option.splits node.splits)
  have "sc_Download uc (ul_Path resp) d' = (Inr ((fst file, None), content_type_of (ul_Path resp)), d')"
    using hd_join_plain(1) [OF ps(3,2)] san f(2-4) node ps(1) assms(1)
    by (simp add: sc_Download_def require_file_def local_storage_def local_Exists_def local_Download_def os_Stat_def os_Open_def syscall_quiet)
  moreover have "inside (ls_basePath s) f" using full ps(3) by (auto simp: inside_def)
  ultimately show ?thesis using f(5,6) by blast
qed

definition demo_local :: local_dir where
  "demo_local = \<lparr>ls_basePath = ''data'', ls_baseURL = '''', ls_mime = (\<lambda>_. '''')\<rparr>"

definition demo_storage :: "fs storageUseCase" where
  "demo_storage = NewUseCase (local_storage demo_local) None (\<lambda>_. '''')"

lemma upload_download_roundtrip_witness:
  "\<exists>resp d' ct. sc_Upload demo_storage 3 ''0a'' (''GIF89a...'', None) \<lparr>fh_Filename = ''x.gif'', fh_Size = 9\<rparr> ''../up''
       \<lparr>fs_nodes = [], fs_faults = []\<rparr> = (Inr resp, d') \<and>
     sc_Download demo_storage (ul_Path resp) d' = (Inr ((''GIF89a...'', None), ct), d')"
proof -
  let ?d = "\<lparr>fs_nodes = [], fs_faults = []\<rparr>" and ?h = "\<lparr>fh_Filename = ''x.gif'', fh_Size = 9\<rparr>"
  have "case fst (sc_Upload demo_storage 3 ''0a'' (''GIF89a...'', None) ?h ''../up'' ?d) of Inl _ \<Rightarrow> False | Inr _ \<Rightarrow> True" by code_simp
  then obtain resp d' where up: "sc_Upload demo_storage 3 ''0a'' (''GIF89a...'', None) ?h ''../up'' ?d = (Inr resp, d')"
    by (cases "sc_Upload demo_storage 3 ''0a'' (''GIF89a...'', None) ?h ''../up'' ?d") (auto split: sum.splits)
  have "clean_of (ls_basePath demo_local) \<noteq> []" by code_simp
  then show ?thesis
    using upload_download_roundtrip [OF _ _ _ _ _ up, of demo_local] up
    by (auto simp: demo_storage_def NewUseCase_def Let_def demo_local_def uuid_chars_def)
qed

definition media :: "string \<Rightarrow> bool" where
  "media bytes \<longleftrightarrow> has_prefix bytes ''%PDF-'' \<or> has_prefix bytes ''GIF87a'' \<or> has_prefix bytes ''GIF89a'' \<or>
     has_prefix bytes ([CHR 0x89] @ ''PNG'' @ [CHR 0x0D, CHR 0x0A, CHR 0x1A, CHR 0x0A]) \<or> has_prefix bytes [CHR 0xFF, CHR 0xD8, CHR 0xFF] \<or>
     (has_prefix bytes ''RIFF'' \<and> has_prefix (drop 8 bytes) ''WEBPVP'')"

text \<open>The types of the table that the default configuration allows, and the signatures that yield them.\<close>

fun sig_type :: "sniff_sig \<Rightarrow> string" where
  "sig_type (HtmlSig _) = ''text/html; charset=utf-8''"
| "sig_type (ExactSig _ ct) = ct"
| "sig_type (MaskedSig _ _ ct) = ct"
| "sig_type Mp4Sig = ''video/mp4''"
| "sig_type TextSig = ''text/plain; charset=utf-8''"

definition media_sigs :: "sniff_sig list" where
  "media_sigs = [ExactSig ''%PDF-'' ''application/pdf'', ExactSig ''GIF87a'' ''image/gif'', ExactSig ''GIF89a'' ''image/gif'',
     MaskedSig False (lits ''RIFF'' @ [None, None, None, None] @ lits ''WEBPVP'') ''image/webp'',
     ExactSig ([CHR 0x89] @ ''PNG'' @ [CHR 0x0D, CHR 0x0A, CHR 0x1A, CHR 0x0A]) ''image/png'',
     ExactSig [CHR 0xFF, CHR 0xD8, CHR 0xFF] ''image/jpeg'']"

lemma media_types:
  "list_all (\<lambda>sg. base_type (sig_type sg) \<in> set DefaultAllowedContentTypes \<longrightarrow> sg \<in> set media_sigs) sniffSignatures"
  "base_type ''application/octet-stream'' \<notin> set DefaultAllowedContentTypes"
  by code_simp+

lemma sniff_match_type: "sniff_match data sg = Some ct \<Longrightarrow> ct = sig_type sg"
  by (cases sg) (auto split: if_splits)

lemma first_match_cases:
  "first_match data sgs = ''application/octet-stream'' \<or> (\<exists>sg \<in> set sgs. sniff_match data sg = Some (first_match data sgs))"
  by (induction sgs) (auto split: option.split)

lemma match_masked_append:
  "match_masked (ps @ qs) data \<longleftrightarrow> match_masked ps data \<and> length ps \<le> length data \<and> match_masked qs (drop (length ps) data)"
  by (induction ps data rule: match_masked.induct) auto

lemma match_masked_lits: "match_masked (lits s) data \<longleftrightarrow> has_prefix data s"
proof (induction s arbitrary: data)
  case (Cons c s)
  then show ?case by (cases data) (auto simp: has_prefix_def)
qed (simp add: has_prefix_def)

lemma has_prefix_of_take: "has_prefix (take n data) p \<Longrightarrow> has_prefix data p"
  by (metis append_take_drop_id append_assoc has_prefix_iff)

lemma has_prefix_of_drop_take: "has_prefix (drop k (take n data)) p \<Longrightarrow> has_prefix (drop k data) p"
  by (metis drop_take has_prefix_of_take)

lemma detected_media:
  assumes "base_type (DetectContentType data) \<in> set DefaultAllowedContentTypes"
  shows "media data"
proof -
  from assms first_match_cases [of "take 512 data" sniffSignatures] media_types(2) obtain sg where sg: "sg \<in> set sniffSignatures"
      "sniff_match (take 512 data) sg = Some (DetectContentType data)"
    unfolding DetectContentType_def by metis
  have "sg \<in> set media_sigs"
    using media_types(1) sg assms sniff_match_type [OF sg(2)] by (simp add: list_all_iff)
  moreover have "has_prefix data s" if "sg = ExactSig s ct" for s ct
    using that sg(2) has_prefix_of_take [of 512 data] by (auto split: if_splits)
  moreover have "media data" if "sg = MaskedSig False (lits ''RIFF'' @ [None, None, None, None] @ lits ''WEBPVP'') ct" for ct
  proof -
    from that sg(2) have "match_masked (lits ''RIFF'' @ [None, None, None, None] @ lits ''WEBPVP'') (take 512 data)"
      by (simp split: if_splits)
    then have "match_masked (lits ''RIFF'') (take 512 data)"
        and "match_masked (lits ''WEBPVP'') (drop (length [None :: char option, None, None, None]) (drop (length (lits ''RIFF'')) (take 512 data)))"
      unfolding match_masked_append by blast+
    then have "has_prefix data ''RIFF''" "has_prefix (drop 8 (take 512 data)) ''WEBPVP''"
      using has_prefix_of_take [of 512 data] unfolding match_masked_lits by (simp_all add: numeral_eq_Suc)
    with has_prefix_of_drop_take [of 8 512 data "''WEBPVP''"] show ?thesis unfolding media_def by blast
  qed
  ultimately show ?thesis by (auto simp: media_sigs_def media_def)
qed

text \<open>
  Only images and PDF documents are stored, whatever the client claims. With the default configuration, an upload
  that succeeds had a size within the limit and content that begins with the signature of a PDF, GIF, PNG, JPEG or WebP
  file.
\<close>

theorem uploads_are_media:
  assumes "sc_Upload (NewUseCase st None fmt) now u file header directory d = (Inr resp, d')"
  shows "media (fst file) \<and> fh_Size header \<le> 10485760"
proof -
  have cfg: "sc_allowedContentTypes (NewUseCase st None fmt) = DefaultAllowedContentTypes" "sc_maxFileSize (NewUseCase st None fmt) = 10485760"
    by (simp_all add: NewUseCase_def Let_def DefaultMaxFileSize_def)
  have "base_type (DetectContentType (take 512 (fst file))) \<in> set DefaultAllowedContentTypes" "fh_Size header \<le> 10485760"
    using sc_Upload_success [OF assms] cfg by metis+
  moreover from this(1) have "base_type (DetectContentType (fst file)) \<in> set DefaultAllowedContentTypes" by (simp add: DetectContentType_def)
  ultimately show ?thesis using detected_media by blast
qed

lemma uploads_are_media_witness:
  "\<exists>resp d'. sc_Upload demo_storage 3 ''0a'' (''GIF89a...'', None) \<lparr>fh_Filename = ''x.gif'', fh_Size = 9\<rparr> ''a''
       \<lparr>fs_nodes = [], fs_faults = []\<rparr> = (Inr resp, d') \<and> media ''GIF89a...''"
proof -
  let ?up = "sc_Upload demo_storage 3 ''0a'' (''GIF89a...'', None) \<lparr>fh_Filename = ''x.gif'', fh_Size = 9\<rparr> ''a'' \<lparr>fs_nodes = [], fs_faults = []\<rparr>"
  have "case fst ?up of Inl _ \<Rightarrow> False | Inr _ \<Rightarrow> True" by code_simp
  then obtain resp d' where up: "?up = (Inr resp, d')" by (cases ?up) (auto split: sum.splits)
  from uploads_are_media [OF up [unfolded demo_storage_def]] up show ?thesis by auto
qed

end
