(* ===== verification/Go_Time.thy ===== *)
theory Go_Time
  imports Prelude
begin

text \<open>
  The part of the Go package \<^verbatim>\<open>time\<close> that turns an instant into the text that travels in JSON and back: the calendar in
  UTC, the layouts RFC3339 and RFC3339Nano, and the strict parser of \<^verbatim>\<open>UnmarshalJSON\<close>. An instant is the number of
  nanoseconds since the Unix epoch. The last lemma is the round trip for the years that four digits can write.
\<close>

section \<open>Calendar\<close>

text \<open>Years are counted from the year 1, so that the leap year is the last of its four years.\<close>

definition days_before :: "int \<Rightarrow> int" where
  "days_before y = 365 * y + y div 4 - y div 100 + y div 400"

definition leap :: "int \<Rightarrow> bool" where
  "leap y \<longleftrightarrow> (y + 1) mod 4 = 0 \<and> ((y + 1) mod 100 \<noteq> 0 \<or> (y + 1) mod 400 = 0)"

text \<open>The year of a day and the day in that year, by blocks of 400, 100, 4 and 1 years.\<close>

definition year_day :: "int \<Rightarrow> int \<times> int" where
  "year_day d =
     (let n400 = d div 146097; d1 = d - 146097 * n400;
          n100 = min 3 (d1 div 36524); d2 = d1 - 36524 * n100;
          n4 = d2 div 1461; d3 = d2 - 1461 * n4;
          n1 = min 3 (d3 div 365)
      in (400 * n400 + 100 * n100 + 4 * n4 + n1, d3 - 365 * n1))"

definition month_lengths :: "bool \<Rightarrow> int list" where
  "month_lengths lp = [31, if lp then 29 else 28, 31, 30, 31, 30, 31, 31, 30, 31, 30, 31]"

text \<open>The month, counted from 0, and the day in it, counted from 1.\<close>

fun month_day :: "int list \<Rightarrow> int \<Rightarrow> nat \<times> int" where
  "month_day [] r = (0, r + 1)"
| "month_day (l # ls) r = (if r < l then (0, r + 1) else (case month_day ls (r - l) of (m, d) \<Rightarrow> (Suc m, d)))"

definition epoch_day :: int where "epoch_day = 719162"

section \<open>Layouts\<close>

text \<open>A decimal number with a fixed number of digits.\<close>

fun pad :: "nat \<Rightarrow> nat \<Rightarrow> string" where
  "pad 0 n = []"
| "pad (Suc w) n = pad w (n div 10) @ [digit n]"

definition date_text :: "int \<Rightarrow> string" where
  "date_text days =
     (case year_day (days + epoch_day) of (y, r) \<Rightarrow>
      case month_day (month_lengths (leap y)) r of (m, d) \<Rightarrow>
        pad 4 (nat (y + 1)) @ ''-'' @ pad 2 (Suc m) @ ''-'' @ pad 2 (nat d))"

definition clock_text :: "int \<Rightarrow> string" where
  "clock_text s = pad 2 (nat (s div 3600)) @ '':'' @ pad 2 (nat (s div 60 mod 60)) @ '':'' @ pad 2 (nat (s mod 60))"

text \<open>The fraction without its trailing zeros, and without its point when nothing is left.\<close>

definition frac_text :: "nat \<Rightarrow> string" where
  "frac_text ns = (let ds = rev (dropWhile (\<lambda>c. c = CHR ''0'') (rev (pad 9 ns))) in if ds = [] then [] else CHR ''.'' # ds)"

definition year_of :: "go_time \<Rightarrow> int" where
  "year_of t = fst (year_day (t div second div 86400 + epoch_day)) + 1"

definition rfc3339 :: "go_time \<Rightarrow> string" where
  "rfc3339 t = date_text (t div second div 86400) @ ''T'' @ clock_text (t div second mod 86400) @ ''Z''"

definition rfc3339_nano :: "go_time \<Rightarrow> string" where
  "rfc3339_nano t =
     date_text (t div second div 86400) @ ''T'' @ clock_text (t div second mod 86400) @ frac_text (nat (t mod second)) @ ''Z''"

section \<open>Parser\<close>

definition num_field :: "string \<Rightarrow> nat \<Rightarrow> nat \<Rightarrow> int \<Rightarrow> int \<Rightarrow> int option" where
  "num_field s i w lo hi =
     (case digits_val 0 (take w (drop i s)) of
        None \<Rightarrow> None
      | Some n \<Rightarrow> if lo \<le> int n \<and> int n \<le> hi then Some (int n) else None)"

definition is_dec :: "char \<Rightarrow> bool" where
  "is_dec c \<longleftrightarrow> digit_val c \<noteq> None"

text \<open>At most nine digits of a fraction count.\<close>

definition frac_value :: "string \<Rightarrow> nat" where
  "frac_value ds = (case digits_val 0 (take 9 (ds @ replicate 9 (CHR ''0''))) of None \<Rightarrow> 0 | Some n \<Rightarrow> n)"

definition parse_frac :: "string \<Rightarrow> nat \<times> string" where
  "parse_frac s =
     (case s of
        c # r \<Rightarrow> if c = CHR ''.'' \<and> takeWhile is_dec r \<noteq> [] then (frac_value (takeWhile is_dec r), dropWhile is_dec r) else (0, s)
      | [] \<Rightarrow> (0, s))"

definition parse_zone :: "string \<Rightarrow> int option" where
  "parse_zone s =
     (if s = ''Z'' then Some 0
      else if length s = 6 \<and> s ! 0 \<in> set ''+-'' \<and> s ! 3 = CHR '':'' then
        (case (num_field s 1 2 0 23, num_field s 4 2 0 59) of
           (Some h, Some m) \<Rightarrow> Some ((if s ! 0 = CHR ''-'' then -1 else 1) * (h * 60 + m) * 60)
         | _ \<Rightarrow> None)
      else None)"

definition parse_rfc3339 :: "string \<Rightarrow> go_time option" where
  "parse_rfc3339 s =
     (if length s < 19 \<or> s ! 4 \<noteq> CHR ''-'' \<or> s ! 7 \<noteq> CHR ''-'' \<or> s ! 10 \<noteq> CHR ''T'' \<or> s ! 13 \<noteq> CHR '':'' \<or> s ! 16 \<noteq> CHR '':'' then None
      else
        (case (num_field s 0 4 0 9999, num_field s 5 2 1 12) of
           (Some y, Some mo) \<Rightarrow>
             (let ls = month_lengths (leap (y - 1)) in
              case (num_field s 8 2 1 (ls ! nat (mo - 1)), num_field s 11 2 0 23, num_field s 14 2 0 59, num_field s 17 2 0 59) of
                (Some d, Some h, Some mi, Some sc) \<Rightarrow>
                  (case parse_frac (drop 19 s) of (ns, z) \<Rightarrow>
                   case parse_zone z of
                     None \<Rightarrow> None
                   | Some off \<Rightarrow>
                       (let days = days_before (y - 1) + sum_list (take (nat (mo - 1)) ls) + d - 1 - epoch_day
                        in Some ((days * 86400 + h * 3600 + mi * 60 + sc - off) * second + int ns)))
              | _ \<Rightarrow> None)
         | _ \<Rightarrow> None))"

section \<open>The calendar has an inverse\<close>

lemma year_parts:
  fixes a b c e :: int
  assumes "0 \<le> b" "b \<le> 3" "0 \<le> c" "c \<le> 24" "0 \<le> e" "e \<le> 3"
  shows "days_before (400 * a + 100 * b + 4 * c + e) = 146097 * a + 36524 * b + 1461 * c + 365 * e"
proof -
  let ?y = "400 * a + 100 * b + 4 * c + e"
  have "?y div 4 = 100 * a + 25 * b + c" "?y div 100 = 4 * a + b" "?y div 400 = a" using assms by linarith+
  then show ?thesis by (simp add: days_before_def)
qed

lemma year_blocks:
  fixes a b c d e :: int
  assumes a: "a = d div 146097" and b0: "b = min 3 ((d - 146097 * a) div 36524)"
    and c0: "c = (d - 146097 * a - 36524 * b) div 1461" and e0: "e = min 3 ((d - 146097 * a - 36524 * b - 1461 * c) div 365)"
  shows "0 \<le> b \<and> b \<le> 3 \<and> 0 \<le> c \<and> c \<le> 24 \<and> 0 \<le> e \<and> e \<le> 3"
    and "0 \<le> d - (146097 * a + 36524 * b + 1461 * c + 365 * e)"
    and "d - (146097 * a + 36524 * b + 1461 * c + 365 * e) \<le> 365"
    and "d - (146097 * a + 36524 * b + 1461 * c + 365 * e) = 365 \<Longrightarrow> e = 3 \<and> (c = 24 \<longrightarrow> b = 3)"
proof -
  define r1 where "r1 = d - 146097 * a"
  have r1: "0 \<le> r1" "r1 < 146097" unfolding r1_def a by linarith+
  have b: "b = min 3 (r1 div 36524)" by (simp add: b0 r1_def)
  define r2 where "r2 = r1 - 36524 * b"
  have r2: "0 \<le> b" "b \<le> 3" "0 \<le> r2" "r2 \<le> 36524" "b \<noteq> 3 \<longrightarrow> r2 < 36524" using r1 unfolding r2_def b by linarith+
  have c: "c = r2 div 1461" by (simp add: c0 r2_def r1_def)
  define r3 where "r3 = r2 - 1461 * c"
  have r3: "0 \<le> c" "c \<le> 24" "0 \<le> r3" "r3 < 1461" "c = 24 \<longrightarrow> r3 \<le> 1460 \<and> (b \<noteq> 3 \<longrightarrow> r3 < 1460)" using r2 unfolding r3_def c by linarith+
  have e: "e = min 3 (r3 div 365)" by (simp add: e0 r3_def r2_def r1_def)
  have r4: "0 \<le> e" "e \<le> 3" "0 \<le> r3 - 365 * e" "r3 - 365 * e \<le> 365" "r3 - 365 * e = 365 \<longrightarrow> r3 = 1460 \<and> e = 3" using r3 unfolding e by linarith+
  have eq: "d - (146097 * a + 36524 * b + 1461 * c + 365 * e) = r3 - 365 * e" by (simp add: r3_def r2_def r1_def)
  show "0 \<le> b \<and> b \<le> 3 \<and> 0 \<le> c \<and> c \<le> 24 \<and> 0 \<le> e \<and> e \<le> 3" using r2 r3 r4 by simp
  show "0 \<le> d - (146097 * a + 36524 * b + 1461 * c + 365 * e)" "d - (146097 * a + 36524 * b + 1461 * c + 365 * e) \<le> 365"
    using r4 eq by simp_all
  show "e = 3 \<and> (c = 24 \<longrightarrow> b = 3)" if "d - (146097 * a + 36524 * b + 1461 * c + 365 * e) = 365"
    using that eq r3 r4 by auto
qed

lemma year_day_inverse:
  assumes "year_day d = (y, r)"
  shows "days_before y + r = d" and "0 \<le> r" and "r < sum_list (month_lengths (leap y))"
proof -
  define a where "a = d div 146097"
  define b where "b = min 3 ((d - 146097 * a) div 36524)"
  define c where "c = (d - 146097 * a - 36524 * b) div 1461"
  define e where "e = min 3 ((d - 146097 * a - 36524 * b - 1461 * c) div 365)"
  note blocks = year_blocks [OF a_def b_def c_def e_def]
  have "year_day d = (400 * a + 100 * b + 4 * c + e, d - 146097 * a - 36524 * b - 1461 * c - 365 * e)"
    unfolding year_day_def Let_def a_def [symmetric] b_def [symmetric] c_def [symmetric] e_def [symmetric] by (rule refl)
  then have y: "y = 400 * a + 100 * b + 4 * c + e" and r: "r = d - (146097 * a + 36524 * b + 1461 * c + 365 * e)"
    using assms by auto
  have db: "days_before y = 146097 * a + 36524 * b + 1461 * c + 365 * e" using blocks(1) unfolding y by (intro year_parts) auto
  then show "days_before y + r = d" using r by simp
  show "0 \<le> r" using blocks(2) r by simp
  show "r < sum_list (month_lengths (leap y))"
  proof (cases "r = 365")
    case True
    then have "e = 3" "c = 24 \<longrightarrow> b = 3" using blocks(4) r by auto
    then have y1: "y + 1 = 400 * a + 100 * b + 4 * (c + 1)" using y by simp
    have "(y + 1) mod 4 = 0" unfolding y1 by presburger
    moreover have "(y + 1) mod 100 \<noteq> 0 \<or> (y + 1) mod 400 = 0"
    proof (cases "c = 24")
      case False
      have "(y + 1) mod 100 = (4 * (c + 1) + 100 * (4 * a + b)) mod 100" unfolding y1 by (simp add: algebra_simps)
      also have "\<dots> = 4 * (c + 1) mod 100" by (rule mod_mult_self2)
      also have "\<dots> = 4 * (c + 1)" using blocks(1) False by (intro mod_pos_pos_trivial) auto
      finally show ?thesis using blocks(1) by simp
    next
      case True
      then have "y + 1 = 400 * (a + 1)" using \<open>c = 24 \<longrightarrow> b = 3\<close> unfolding y1 by simp
      then show ?thesis by simp
    qed
    ultimately have "(y + 1) mod 4 = 0" "(y + 1) mod 100 \<noteq> 0 \<or> (y + 1) mod 400 = 0" by blast+
    with True show ?thesis by (simp add: leap_def month_lengths_def)
  next
    case False
    with blocks(3) r show ?thesis by (simp add: month_lengths_def)
  qed
qed

lemma month_day_inverse:
  assumes "month_day ls r = (m, d)" and "0 \<le> r" and "r < sum_list ls" and "\<forall>l \<in> set ls. 0 \<le> l"
  shows "m < length ls \<and> sum_list (take m ls) + d - 1 = r \<and> 1 \<le> d \<and> d \<le> ls ! m"
  using assms
proof (induction ls r arbitrary: m d rule: month_day.induct)
  case (2 l ls r)
  show ?case
  proof (cases "r < l")
    case False
    obtain k d' where k: "month_day ls (r - l) = (k, d')" by fastforce
    with 2 False have "k < length ls \<and> sum_list (take k ls) + d' - 1 = r - l \<and> 1 \<le> d' \<and> d' \<le> ls ! k" by simp
    with 2(2) False k show ?thesis by auto
  qed (use 2 in auto)
qed simp

lemma month_lengths_props:
  "length (month_lengths lp) = 12" "\<forall>l \<in> set (month_lengths lp). 0 \<le> l \<and> l \<le> 31"
  by (auto simp: month_lengths_def)

section \<open>Texts can be read back\<close>

lemma pad_length [simp]: "length (pad w n) = w"
  by (induction w arbitrary: n) auto

lemma pad_value: "digits_val 0 (pad w n) = Some (n mod 10 ^ w)"
proof (induction w arbitrary: n)
  case (Suc w)
  have "10 * (n div 10 mod 10 ^ w) + n mod 10 = n mod 10 ^ Suc w"
    by (simp add: mod_mult2_eq)
  with Suc show ?case by (simp add: digits_val_append digit_val_digit)
qed simp

lemma pad_chars: "c \<in> set (pad w n) \<Longrightarrow> is_dec c"
  by (induction w arbitrary: n) (auto simp: is_dec_def digit_val_digit)

lemma num_field_pad:
  assumes "s = pre @ pad w n @ post" and "length pre = i" and "n < 10 ^ w" and "lo \<le> int n" and "int n \<le> hi"
  shows "num_field s i w lo hi = Some (int n)"
  using assms by (simp add: num_field_def pad_value)

lemma strip_pad:
  fixes ds :: string
  shows "take (length ds) (rev (dropWhile (\<lambda>c. c = x) (rev ds)) @ replicate (length ds) x) = ds"
proof -
  obtain k where k: "ds = rev (dropWhile (\<lambda>c. c = x) (rev ds)) @ replicate k x"
  proof -
    have "rev ds = takeWhile (\<lambda>c. c = x) (rev ds) @ dropWhile (\<lambda>c. c = x) (rev ds)" by simp
    moreover have "takeWhile (\<lambda>c. c = x) (rev ds) = replicate (length (takeWhile (\<lambda>c. c = x) (rev ds))) x"
      by (rule replicate_length_same [symmetric]) (auto dest: set_takeWhileD)
    ultimately have "ds = rev (dropWhile (\<lambda>c. c = x) (rev ds)) @ replicate (length (takeWhile (\<lambda>c. c = x) (rev ds))) x"
      by (metis rev_append rev_replicate rev_rev_ident)
    then show thesis by (rule that)
  qed
  let ?p = "rev (dropWhile (\<lambda>c. c = x) (rev ds))"
  have len: "length ds = length ?p + k" using k by (metis length_append length_replicate)
  have "take (length ds) (?p @ replicate (length ds) x) = ?p @ take k (replicate (length ds) x)"
    using len by simp
  also have "\<dots> = ?p @ replicate k x" using len by (simp add: min_absorb1)
  finally show ?thesis using k by simp
qed

lemma frac_roundtrip:
  assumes "ns < 10 ^ 9"
  shows "parse_frac (frac_text ns @ ''Z'') = (ns, ''Z'')"
proof -
  define ds where "ds = rev (dropWhile (\<lambda>c. c = CHR ''0'') (rev (pad 9 ns)))"
  have v: "frac_value ds = ns"
    using strip_pad [of "pad 9 ns" "CHR ''0''"] assms by (simp add: ds_def frac_value_def pad_value)
  have dec: "\<forall>c \<in> set ds. is_dec c" unfolding ds_def using pad_chars by (auto dest: set_dropWhileD)
  have z: "\<not> is_dec (CHR ''Z'')" by (simp add: is_dec_def digit_val_def)
  have tw: "takeWhile is_dec (ds @ ''Z'') = ds" "dropWhile is_dec (ds @ ''Z'') = ''Z''"
    using dec z by (simp_all add: takeWhile_append dropWhile_append)
  have tx: "frac_text ns = (if ds = [] then [] else CHR ''.'' # ds)" by (simp only: frac_text_def ds_def Let_def)
  show ?thesis
  proof (cases "ds = []")
    case True
    have "frac_value [] = 0" by code_simp
    with v True have "ns = 0" by simp
    with True tx show ?thesis by (simp add: parse_frac_def)
  next
    case False
    with v tw tx show ?thesis by (simp add: parse_frac_def)
  qed
qed

lemma date_text_form:
  assumes "year_day (days + epoch_day) = (y, r)" and "0 \<le> y + 1" and "y + 1 \<le> 9999"
  obtains m d where "date_text days = pad 4 (nat (y + 1)) @ ''-'' @ pad 2 (Suc m) @ ''-'' @ pad 2 (nat d)" and "m < 12"
    and "1 \<le> d" and "d \<le> month_lengths (leap y) ! m" and "d \<le> 31"
    and "days_before y + sum_list (take m (month_lengths (leap y))) + d - 1 - epoch_day = days"
proof -
  note inv = year_day_inverse [OF assms(1)]
  obtain m d where md: "month_day (month_lengths (leap y)) r = (m, d)" by fastforce
  have m: "m < 12" "sum_list (take m (month_lengths (leap y))) + d - 1 = r" "1 \<le> d" "d \<le> month_lengths (leap y) ! m"
    using month_day_inverse [OF md inv(2,3)] month_lengths_props by auto
  have "month_lengths (leap y) ! m \<in> set (month_lengths (leap y))" using m(1) month_lengths_props(1) by simp
  then have "month_lengths (leap y) ! m \<le> 31" using month_lengths_props(2) by blast
  with that [of m d] md m assms(1) inv(1) show thesis by (simp add: date_text_def)
qed

lemma clock_parts:
  fixes s :: int
  assumes "0 \<le> s" and "s < 86400"
  shows "nat (s div 3600) \<le> 23" "nat (s div 60 mod 60) \<le> 59" "nat (s mod 60) \<le> 59"
    "int (nat (s div 3600)) * 3600 + int (nat (s div 60 mod 60)) * 60 + int (nat (s mod 60)) = s"
proof -
  define q where "q = s div 60"
  have h: "s div 3600 = q div 60" using zdiv_zmult2_eq [of 60 s 60] by (simp add: q_def)
  have pos: "0 \<le> q div 60" "0 \<le> q mod 60" "0 \<le> s mod 60" using assms(1) by (simp_all add: q_def pos_imp_zdiv_nonneg_iff)
  have eqs: "q = 60 * (q div 60) + q mod 60" "s = 60 * q + s mod 60" unfolding q_def by (simp_all only: mult_div_mod_eq)
  have lim: "q mod 60 < 60" "s mod 60 < 60" by simp_all
  then have "q div 60 \<le> 23" using eqs pos assms(2) by linarith
  with pos lim show "nat (s div 3600) \<le> 23" "nat (s div 60 mod 60) \<le> 59" "nat (s mod 60) \<le> 59" unfolding h q_def [symmetric] by linarith+
  show "int (nat (s div 3600)) * 3600 + int (nat (s div 60 mod 60)) * 60 + int (nat (s mod 60)) = s"
    unfolding h q_def [symmetric] using pos eqs by (simp only: int_nat_eq if_True)
qed

lemma rfc3339_roundtrip:
  assumes "0 \<le> year_of t" and "year_of t \<le> 9999"
  shows "parse_rfc3339 (rfc3339_nano t) = Some t"
proof -
  define days sod ns where "days = t div second div 86400" and "sod = t div second mod 86400" and "ns = nat (t mod second)"
  have sod: "0 \<le> sod" "sod < 86400" and ns: "ns < 10 ^ 9" "int ns = t mod second" by (simp_all add: sod_def ns_def)
  have t: "(days * 86400 + sod) * second + int ns = t" using ns by (simp add: days_def sod_def)
  obtain y r where yr: "year_day (days + epoch_day) = (y, r)" by fastforce
  have y: "0 \<le> y + 1" "y + 1 \<le> 9999" using assms yr by (simp_all add: year_of_def days_def)
  obtain m d where dt: "date_text days = pad 4 (nat (y + 1)) @ ''-'' @ pad 2 (Suc m) @ ''-'' @ pad 2 (nat d)" and m: "m < 12"
    and d: "1 \<le> d" "d \<le> month_lengths (leap y) ! m" "d \<le> 31"
    and days: "days_before y + sum_list (take m (month_lengths (leap y))) + d - 1 - epoch_day = days"
    by (rule date_text_form [OF yr y])
  define h mi sc where "h = nat (sod div 3600)" and "mi = nat (sod div 60 mod 60)" and "sc = nat (sod mod 60)"
  have clock: "h \<le> 23" "mi \<le> 59" "sc \<le> 59" "int h * 3600 + int mi * 60 + int sc = sod"
    using clock_parts [OF sod] unfolding h_def mi_def sc_def by blast+
  define s where "s = rfc3339_nano t"
  have s: "s = pad 4 (nat (y + 1)) @ ''-'' @ pad 2 (Suc m) @ ''-'' @ pad 2 (nat d) @ ''T'' @ pad 2 h @ '':'' @ pad 2 mi @ '':'' @ pad 2 sc
      @ frac_text ns @ ''Z''"
    unfolding s_def rfc3339_nano_def days_def [symmetric] sod_def [symmetric] ns_def [symmetric] dt clock_text_def h_def mi_def sc_def by simp
  have nums: "num_field s 0 4 0 9999 = Some (y + 1)" "num_field s 5 2 1 12 = Some (int m + 1)"
      "num_field s 8 2 1 (month_lengths (leap y) ! m) = Some d" "num_field s 11 2 0 23 = Some (int h)"
      "num_field s 14 2 0 59 = Some (int mi)" "num_field s 17 2 0 59 = Some (int sc)"
    using y m d clock unfolding s by (simp_all add: num_field_def pad_value nth_append)
  have marks: "s ! 4 = CHR ''-''" "s ! 7 = CHR ''-''" "s ! 10 = CHR ''T''" "s ! 13 = CHR '':''" "s ! 16 = CHR '':''" "\<not> length s < 19"
      "drop 19 s = frac_text ns @ ''Z''"
    unfolding s by (simp_all add: nth_append)
  have "parse_rfc3339 s = Some ((days * 86400 + int h * 3600 + int mi * 60 + int sc) * second + int ns)"
    using days unfolding parse_rfc3339_def by (simp add: nums marks frac_roundtrip [OF ns(1)] parse_zone_def Let_def)
  then show ?thesis using clock(4) t unfolding s_def by (simp add: algebra_simps)
qed

end
