(* ===== verification/Queue.thy ===== *)
theory Queue
  imports Apperr Json
begin

text \<open>
  The message queue: the port \<^verbatim>\<open>src/internal/port/queue.go\<close>, the RabbitMQ adapter \<^verbatim>\<open>src/internal/adapter/queue/rabbitmq.go\<close> and
  \<^verbatim>\<open>noop.go\<close>. The AMQP client is a library: the record \<open>amqp_api\<close> has the calls that the adapter's two interfaces
  \<^verbatim>\<open>amqpConnection\<close> and \<^verbatim>\<open>amqpChannel\<close> name, on connections \<^typ>\<open>'c\<close>, channels \<^typ>\<open>'h\<close> and a state \<^typ>\<open>'t\<close> of the client and
  the broker. What the consumer relies on is the locale \<open>amqp_broker\<close>: only an acknowledgement removes a message.

  A consumer runs in a goroutine of its own and waits in \<^verbatim>\<open>select\<close> statements. The list of events is the order in which
  the selects find their cases ready; a select skips the events that are none of its cases. The loops end because
  every round takes an event.
\<close>

section \<open>Port\<close>

text \<open>A context is represented by its \<^verbatim>\<open>Err()\<close> at the time of the call; a message for \<^verbatim>\<open>PublishJSON\<close> by the outcome of encoding it.\<close>

record 'q queue =
  q_Publish :: "go_time \<Rightarrow> go_error option \<Rightarrow> string \<Rightarrow> string \<Rightarrow> string \<Rightarrow> 'q \<Rightarrow> go_error option \<times> 'q"
  q_PublishJSON :: "go_time \<Rightarrow> go_error option \<Rightarrow> string \<Rightarrow> string \<Rightarrow> (go_error + json) \<Rightarrow> 'q \<Rightarrow> go_error option \<times> 'q"
  q_Consume :: "go_error option \<Rightarrow> string \<Rightarrow> 'q \<Rightarrow> go_error option \<times> 'q"
  q_Ping :: "go_error option \<Rightarrow> 'q \<Rightarrow> go_error option \<times> 'q"
  q_DeclareQueue :: "go_error option \<Rightarrow> string \<Rightarrow> bool \<Rightarrow> 'q \<Rightarrow> go_error option \<times> 'q"
  q_DeclareExchange :: "go_error option \<Rightarrow> string \<Rightarrow> string \<Rightarrow> bool \<Rightarrow> 'q \<Rightarrow> go_error option \<times> 'q"
  q_BindQueue :: "go_error option \<Rightarrow> string \<Rightarrow> string \<Rightarrow> string \<Rightarrow> 'q \<Rightarrow> go_error option \<times> 'q"
  q_Close :: "'q \<Rightarrow> go_error option \<times> 'q"

section \<open>No-op queue\<close>

text \<open>\<^verbatim>\<open>Consume\<close> blocks until the context is done and returns its error.\<close>

definition NoOpQueue :: "unit queue" where
  "NoOpQueue = \<lparr>
     q_Publish = (\<lambda>now ctx exchange routingKey body q. (None, q)),
     q_PublishJSON = (\<lambda>now ctx exchange routingKey message q. (None, q)),
     q_Consume = (\<lambda>ctx queue q. (ctx, q)),
     q_Ping = (\<lambda>ctx q. (None, q)),
     q_DeclareQueue = (\<lambda>ctx name durable q. (None, q)),
     q_DeclareExchange = (\<lambda>ctx name kind durable q. (None, q)),
     q_BindQueue = (\<lambda>ctx queue exchange routingKey q. (None, q)),
     q_Close = (\<lambda>q. (None, q))\<rparr>"

section \<open>The AMQP client\<close>

record amqp_publishing =
  pb_ContentType :: string
  pb_Body :: string
  pb_Persistent :: bool
  pb_Timestamp :: go_time

text \<open>\<open>dl_Msg\<close> names the message at the broker.\<close>

record amqp_delivery =
  dl_Msg :: nat
  dl_Body :: string

text \<open>\<open>am_Code\<close> is the code of the \<^verbatim>\<open>*amqp.Error\<close> that \<^verbatim>\<open>errors.As\<close> finds in an error.\<close>

record ('c, 'h, 't) amqp_api =
  am_Dial :: "string \<Rightarrow> 't \<Rightarrow> (go_error + 'c) \<times> 't"
  am_Channel :: "'c \<Rightarrow> 't \<Rightarrow> (go_error + 'h) \<times> 't"
  am_ConnClose :: "'c \<Rightarrow> 't \<Rightarrow> go_error option \<times> 't"
  am_IsClosed :: "'c \<Rightarrow> 't \<Rightarrow> bool"
  am_Publish :: "'h \<Rightarrow> go_error option \<Rightarrow> string \<Rightarrow> string \<Rightarrow> amqp_publishing \<Rightarrow> 't \<Rightarrow> go_error option \<times> 't"
  am_Consume :: "'h \<Rightarrow> string \<Rightarrow> 't \<Rightarrow> go_error option \<times> 't"
  am_QueueDeclare :: "'h \<Rightarrow> string \<Rightarrow> bool \<Rightarrow> 't \<Rightarrow> go_error option \<times> 't"
  am_QueueDeclarePassive :: "'h \<Rightarrow> string \<Rightarrow> bool \<Rightarrow> 't \<Rightarrow> go_error option \<times> 't"
  am_ExchangeDeclare :: "'h \<Rightarrow> string \<Rightarrow> string \<Rightarrow> bool \<Rightarrow> 't \<Rightarrow> go_error option \<times> 't"
  am_QueueBind :: "'h \<Rightarrow> string \<Rightarrow> string \<Rightarrow> string \<Rightarrow> 't \<Rightarrow> go_error option \<times> 't"
  am_Qos :: "'h \<Rightarrow> int \<Rightarrow> 't \<Rightarrow> go_error option \<times> 't"
  am_ChanClose :: "'h \<Rightarrow> 't \<Rightarrow> go_error option \<times> 't"
  am_Ack :: "amqp_delivery \<Rightarrow> 't \<Rightarrow> go_error option \<times> 't"
  am_Nack :: "amqp_delivery \<Rightarrow> 't \<Rightarrow> go_error option \<times> 't"
  am_Code :: "go_error \<Rightarrow> int option"

section \<open>Adapter\<close>

record Options =
  op_PrefetchCount :: int
  op_MaxReconnectTries :: int
  op_ReconnectBaseDelay :: int
  op_ReconnectMaxDelay :: int

definition withDefaults :: "Options \<Rightarrow> Options" where
  "withDefaults o0 =
     (let o1 = (if op_PrefetchCount o0 \<le> 0 then o0\<lparr>op_PrefetchCount := 10\<rparr> else o0);
          o2 = (if op_MaxReconnectTries o1 \<le> 0 then o1\<lparr>op_MaxReconnectTries := 5\<rparr> else o1);
          o3 = (if op_ReconnectBaseDelay o2 \<le> 0 then o2\<lparr>op_ReconnectBaseDelay := second\<rparr> else o2)
      in if op_ReconnectMaxDelay o3 \<le> 0 then o3\<lparr>op_ReconnectMaxDelay := 30 * second\<rparr> else o3)"

record ('c, 'h) RabbitMQ =
  rq_url :: string
  rq_opts :: Options
  rq_conn :: "'c option"
  rq_pubCh :: "'h option"
  rq_closed :: bool

definition newRabbitMQ :: "('c, 'h, 't) amqp_api \<Rightarrow> string \<Rightarrow> Options \<Rightarrow> 't \<Rightarrow> (go_error + ('c, 'h) RabbitMQ) \<times> 't" where
  "newRabbitMQ api url opts t =
     (case am_Dial api url t of
        (Inl err, t1) \<Rightarrow> (Inl (errorf_w ''failed to connect to rabbitmq'' err), t1)
      | (Inr conn, t1) \<Rightarrow>
          (case am_Channel api conn t1 of
             (Inl err, t2) \<Rightarrow> (Inl (errorf_w ''failed to open publisher channel'' err), snd (am_ConnClose api conn t2))
           | (Inr pubCh, t2) \<Rightarrow>
               (Inr \<lparr>rq_url = url, rq_opts = withDefaults opts, rq_conn = Some conn, rq_pubCh = Some pubCh, rq_closed = False\<rparr>, t2)))"

definition NewRabbitMQ :: "('c, 'h, 't) amqp_api \<Rightarrow> string \<Rightarrow> 't \<Rightarrow> (go_error + ('c, 'h) RabbitMQ) \<times> 't" where
  "NewRabbitMQ api url t =
     newRabbitMQ api url \<lparr>op_PrefetchCount = 0, op_MaxReconnectTries = 0, op_ReconnectBaseDelay = 0, op_ReconnectMaxDelay = 0\<rparr> t"

text \<open>A call on a nil channel panics; the constructors never leave the channel nil.\<close>

definition nil_dereference :: go_error where
  "nil_dereference = ErrText ''invalid memory address or nil pointer dereference''"

definition withPubChannel :: "('c, 'h) RabbitMQ \<Rightarrow> ('h \<Rightarrow> 't \<Rightarrow> go_error option \<times> 't) \<Rightarrow> 't \<Rightarrow> go_error option \<times> 't" where
  "withPubChannel q fn t =
     (if rq_closed q then (Some (ErrText ''rabbitmq: adapter closed''), t)
      else (case rq_pubCh q of None \<Rightarrow> (Some nil_dereference, t) | Some ch \<Rightarrow> fn ch t))"

definition rabbit_Publish ::
  "('c, 'h, 't) amqp_api \<Rightarrow> ('c, 'h) RabbitMQ \<Rightarrow> go_time \<Rightarrow> go_error option \<Rightarrow> string \<Rightarrow> string \<Rightarrow> string \<Rightarrow> 't \<Rightarrow> go_error option \<times> 't" where
  "rabbit_Publish api q now ctx exchange routingKey body =
     withPubChannel q (\<lambda>ch. am_Publish api ch ctx exchange routingKey
       \<lparr>pb_ContentType = ''application/octet-stream'', pb_Body = body, pb_Persistent = True, pb_Timestamp = now\<rparr>)"

definition rabbit_PublishJSON ::
  "('c, 'h, 't) amqp_api \<Rightarrow> ('c, 'h) RabbitMQ \<Rightarrow> go_time \<Rightarrow> go_error option \<Rightarrow> string \<Rightarrow> string \<Rightarrow> (go_error + json) \<Rightarrow> 't \<Rightarrow> go_error option \<times> 't" where
  "rabbit_PublishJSON api q now ctx exchange routingKey message t =
     (case message of
        Inl err \<Rightarrow> (Some (errorf_w ''failed to marshal message'' err), t)
      | Inr v \<Rightarrow> withPubChannel q (\<lambda>ch. am_Publish api ch ctx exchange routingKey
          \<lparr>pb_ContentType = ''application/json'', pb_Body = print_json v, pb_Persistent = True, pb_Timestamp = now\<rparr>) t)"

definition openConsumer :: "('c, 'h, 't) amqp_api \<Rightarrow> ('c, 'h) RabbitMQ \<Rightarrow> string \<Rightarrow> 't \<Rightarrow> (go_error + 'h) \<times> 't" where
  "openConsumer api q queueName t =
     (case rq_conn q of
        None \<Rightarrow> (Inl (ErrText ''rabbitmq: connection closed''), t)
      | Some conn \<Rightarrow>
          if am_IsClosed api conn t then (Inl (ErrText ''rabbitmq: connection closed''), t)
          else (case am_Channel api conn t of
             (Inl err, t1) \<Rightarrow> (Inl (errorf_w ''failed to open consumer channel'' err), t1)
           | (Inr ch, t1) \<Rightarrow>
               (case am_Qos api ch (op_PrefetchCount (rq_opts q)) t1 of
                  (Some qosErr, t2) \<Rightarrow> (Inl (errorf_w ''failed to set qos'' qosErr), snd (am_ChanClose api ch t2))
                | (None, t2) \<Rightarrow>
                    (case am_Consume api ch queueName t2 of
                       (Some err, t3) \<Rightarrow> (Inl (errorf_w ''failed to register consumer'' err), snd (am_ChanClose api ch t3))
                     | (None, t3) \<Rightarrow> (Inr ch, t3)))))"

definition rabbit_Consume :: "('c, 'h, 't) amqp_api \<Rightarrow> ('c, 'h) RabbitMQ \<Rightarrow> string \<Rightarrow> 't \<Rightarrow> go_error option \<times> 't" where
  "rabbit_Consume api q queueName t =
     (case openConsumer api q queueName t of (Inl err, t') \<Rightarrow> (Some err, t') | (Inr ch, t') \<Rightarrow> (None, t'))"

definition redial :: "('c, 'h, 't) amqp_api \<Rightarrow> ('c, 'h) RabbitMQ \<Rightarrow> 't \<Rightarrow> go_error option \<times> ('c, 'h) RabbitMQ \<times> 't" where
  "redial api q t =
     (case am_Dial api (rq_url q) t of
        (Inl err, t1) \<Rightarrow> (Some err, q, t1)
      | (Inr conn, t1) \<Rightarrow>
          (case am_Channel api conn t1 of
             (Inl err, t2) \<Rightarrow> (Some err, q, snd (am_ConnClose api conn t2))
           | (Inr pubCh, t2) \<Rightarrow>
               (let t3 = (case rq_pubCh q of None \<Rightarrow> t2 | Some ch \<Rightarrow> snd (am_ChanClose api ch t2));
                    t4 = (case rq_conn q of None \<Rightarrow> t3 | Some c \<Rightarrow> snd (am_ConnClose api c t3))
                in (None, q\<lparr>rq_conn := Some conn, rq_pubCh := Some pubCh\<rparr>, t4))))"

text \<open>The product of a \<^verbatim>\<open>time.Duration\<close> wraps around.\<close>

definition nextBackoff :: "int \<Rightarrow> int \<Rightarrow> int" where
  "nextBackoff current ceiling = (let nxt = int64 (current * 2) in if ceiling < nxt then ceiling else nxt)"

definition rabbit_Ping :: "('c, 'h, 't) amqp_api \<Rightarrow> ('c, 'h) RabbitMQ \<Rightarrow> go_error option \<Rightarrow> 't \<Rightarrow> go_error option \<times> 't" where
  "rabbit_Ping api q ctx t =
     (case ctx of
        Some err \<Rightarrow> (Some err, t)
      | None \<Rightarrow>
          if rq_closed q then (Some (ErrText ''queue: closed''), t)
          else (case rq_conn q of
             None \<Rightarrow> (Some (ErrText ''queue: not connected''), t)
           | Some conn \<Rightarrow>
               if am_IsClosed api conn t then (Some (ErrText ''queue: connection closed''), t)
               else (case am_Channel api conn t of
                  (Inl err, t1) \<Rightarrow> (Some (errorf_w ''queue ping: open channel'' err), t1)
                | (Inr ch, t1) \<Rightarrow>
                    (case am_QueueDeclarePassive api ch ''healthz.probe'' True t1 of
                       (None, t2) \<Rightarrow> (None, snd (am_ChanClose api ch t2))
                     | (Some err, t2) \<Rightarrow>
                         (if am_Code api err = Some 404 then None else Some (errorf_w ''queue ping'' err), snd (am_ChanClose api ch t2))))))"

definition rabbit_DeclareQueue ::
  "('c, 'h, 't) amqp_api \<Rightarrow> ('c, 'h) RabbitMQ \<Rightarrow> go_error option \<Rightarrow> string \<Rightarrow> bool \<Rightarrow> 't \<Rightarrow> go_error option \<times> 't" where
  "rabbit_DeclareQueue api q ctx name durable t =
     (case ctx of
        Some err \<Rightarrow> (Some err, t)
      | None \<Rightarrow> withPubChannel q (\<lambda>ch t1. case am_QueueDeclare api ch name durable t1 of
          (Some err, t2) \<Rightarrow> (Some (errorf_w ''failed to declare queue'' err), t2) | (None, t2) \<Rightarrow> (None, t2)) t)"

definition rabbit_DeclareExchange ::
  "('c, 'h, 't) amqp_api \<Rightarrow> ('c, 'h) RabbitMQ \<Rightarrow> string \<Rightarrow> string \<Rightarrow> bool \<Rightarrow> 't \<Rightarrow> go_error option \<times> 't" where
  "rabbit_DeclareExchange api q name kind durable =
     withPubChannel q (\<lambda>ch t1. case am_ExchangeDeclare api ch name kind durable t1 of
       (Some err, t2) \<Rightarrow> (Some (errorf_w ''failed to declare exchange'' err), t2) | (None, t2) \<Rightarrow> (None, t2))"

definition rabbit_BindQueue ::
  "('c, 'h, 't) amqp_api \<Rightarrow> ('c, 'h) RabbitMQ \<Rightarrow> string \<Rightarrow> string \<Rightarrow> string \<Rightarrow> 't \<Rightarrow> go_error option \<times> 't" where
  "rabbit_BindQueue api q queueName exchange routingKey =
     withPubChannel q (\<lambda>ch t1. case am_QueueBind api ch queueName routingKey exchange t1 of
       (Some err, t2) \<Rightarrow> (Some (errorf_w ''failed to bind queue'' err), t2) | (None, t2) \<Rightarrow> (None, t2))"

definition rabbit_Close :: "('c, 'h, 't) amqp_api \<Rightarrow> ('c, 'h) RabbitMQ \<Rightarrow> 't \<Rightarrow> go_error option \<times> ('c, 'h) RabbitMQ \<times> 't" where
  "rabbit_Close api q t =
     (if rq_closed q then (None, q, t)
      else
        (let (e1, t1) = (case rq_pubCh q of None \<Rightarrow> (None, t) | Some ch \<Rightarrow> am_ChanClose api ch t);
             (e2, t2) = (case rq_conn q of None \<Rightarrow> (None, t1) | Some c \<Rightarrow> am_ConnClose api c t1)
         in (if e1 = None then e2 else e1, q\<lparr>rq_closed := True\<rparr>, t2)))"

definition rabbit_queue :: "('c, 'h, 't) amqp_api \<Rightarrow> (('c, 'h) RabbitMQ \<times> 't) queue" where
  "rabbit_queue api = \<lparr>
     q_Publish = (\<lambda>now ctx ex key body (q, t). map_prod id (Pair q) (rabbit_Publish api q now ctx ex key body t)),
     q_PublishJSON = (\<lambda>now ctx ex key m (q, t). map_prod id (Pair q) (rabbit_PublishJSON api q now ctx ex key m t)),
     q_Consume = (\<lambda>ctx name (q, t). map_prod id (Pair q) (rabbit_Consume api q name t)),
     q_Ping = (\<lambda>ctx (q, t). map_prod id (Pair q) (rabbit_Ping api q ctx t)),
     q_DeclareQueue = (\<lambda>ctx name durable (q, t). map_prod id (Pair q) (rabbit_DeclareQueue api q ctx name durable t)),
     q_DeclareExchange = (\<lambda>ctx name kind durable (q, t). map_prod id (Pair q) (rabbit_DeclareExchange api q name kind durable t)),
     q_BindQueue = (\<lambda>ctx name ex key (q, t). map_prod id (Pair q) (rabbit_BindQueue api q name ex key t)),
     q_Close = (\<lambda>(q, t). rabbit_Close api q t)\<rparr>"

section \<open>Consumer\<close>

datatype cevent = CtxDone | ChannelClosed | Delivered amqp_delivery | DeliveriesClosed | TimerFired

type_synonym 'w message_handler = "string \<Rightarrow> 'w \<Rightarrow> go_error option \<times> 'w"

definition settle :: "('c, 'h, 't) amqp_api \<Rightarrow> 'w message_handler \<Rightarrow> amqp_delivery \<Rightarrow> 'w \<times> 't \<Rightarrow> 'w \<times> 't" where
  "settle api handler msg s =
     (case s of (w, t) \<Rightarrow>
      case handler (dl_Body msg) w of
        (Some err, w') \<Rightarrow> (w', snd (am_Nack api msg t))
      | (None, w') \<Rightarrow> (w', snd (am_Ack api msg t)))"

text \<open>The result is \<open>None\<close> while the loop still waits, else whether to stop, with the events that are left.\<close>

fun drainDeliveries ::
  "('c, 'h, 't) amqp_api \<Rightarrow> 'w message_handler \<Rightarrow> cevent list \<Rightarrow> 'w \<times> 't \<Rightarrow> (bool \<times> cevent list) option \<times> 'w \<times> 't" where
  "drainDeliveries api handler [] s = (None, s)"
| "drainDeliveries api handler (CtxDone # evs) s = (Some (True, evs), s)"
| "drainDeliveries api handler (ChannelClosed # evs) s = (Some (False, evs), s)"
| "drainDeliveries api handler (DeliveriesClosed # evs) s = (Some (False, evs), s)"
| "drainDeliveries api handler (Delivered msg # evs) s = drainDeliveries api handler evs (settle api handler msg s)"
| "drainDeliveries api handler (TimerFired # evs) s = drainDeliveries api handler evs s"

text \<open>The wait before an attempt: \<open>None\<close> while it lasts, else whether the timer fired.\<close>

fun await :: "cevent list \<Rightarrow> (bool \<times> cevent list) option" where
  "await [] = None"
| "await (CtxDone # evs) = Some (False, evs)"
| "await (TimerFired # evs) = Some (True, evs)"
| "await (_ # evs) = await evs"

definition context_canceled :: go_error where "context_canceled = Sentinel ''context canceled''"

datatype 'h reopened = Waiting | Failed go_error | Reopened 'h "cevent list"

text \<open>The attempts that are left, the delay before the next one, the attempts made and the time waited so far.\<close>

fun reconnect_loop ::
  "('c, 'h, 't) amqp_api \<Rightarrow> string \<Rightarrow> nat \<Rightarrow> int \<Rightarrow> cevent list \<Rightarrow> ('c, 'h) RabbitMQ \<Rightarrow> 't \<Rightarrow> nat \<Rightarrow> int \<Rightarrow>
   'h reopened \<times> ('c, 'h) RabbitMQ \<times> 't \<times> nat \<times> int" where
  "reconnect_loop api queueName 0 delay evs q t tries waited =
     (Failed (ErrText (''rabbitmq: reconnect exhausted after '' @ itoa (op_MaxReconnectTries (rq_opts q)) @ '' attempts'')), q, t, tries, waited)"
| "reconnect_loop api queueName (Suc n) delay evs q t tries waited =
     (case await evs of
        None \<Rightarrow> (Waiting, q, t, tries, waited)
      | Some (False, _) \<Rightarrow> (Failed context_canceled, q, t, tries, waited)
      | Some (True, evs') \<Rightarrow>
          (let waited' = waited + max 0 delay;
               dead = (case rq_conn q of None \<Rightarrow> True | Some c \<Rightarrow> am_IsClosed api c t);
               (dialErr, q1, t1) = (if dead then redial api q t else (None, q, t));
               delay' = nextBackoff delay (op_ReconnectMaxDelay (rq_opts q1))
           in if dialErr \<noteq> None then reconnect_loop api queueName n delay' evs' q1 t1 (Suc tries) waited'
              else (case openConsumer api q1 queueName t1 of
                 (Inr ch, t2) \<Rightarrow> (Reopened ch evs', q1, t2, Suc tries, waited')
               | (Inl err, t2) \<Rightarrow> reconnect_loop api queueName n delay' evs' q1 t2 (Suc tries) waited')))"

definition reconnectConsumer ::
  "('c, 'h, 't) amqp_api \<Rightarrow> string \<Rightarrow> cevent list \<Rightarrow> ('c, 'h) RabbitMQ \<Rightarrow> 't \<Rightarrow> 'h reopened \<times> ('c, 'h) RabbitMQ \<times> 't \<times> nat \<times> int" where
  "reconnectConsumer api queueName evs q t =
     reconnect_loop api queueName (nat (op_MaxReconnectTries (rq_opts q))) (op_ReconnectBaseDelay (rq_opts q)) evs q t 0 0"

datatype cstatus = Running | Stopped | Halted go_error

lemma drain_shorter: "drainDeliveries api handler evs s = (Some (stop, evs'), s') \<Longrightarrow> length evs' < length evs"
  by (induction api handler evs s rule: drainDeliveries.induct) auto

lemma await_shorter: "await evs = Some (b, evs') \<Longrightarrow> length evs' < length evs"
  by (induction evs rule: await.induct) auto

lemma reconnect_shorter:
  "reconnect_loop api name n delay evs q t k w = (Reopened ch evs', r) \<Longrightarrow> length evs' < length evs"
proof (induction n arbitrary: delay evs q t k w)
  case (Suc n)
  then show ?case
    by (fastforce simp: Let_def split: option.splits bool.splits prod.splits sum.splits if_splits dest: await_shorter)
qed simp

function runConsumer ::
  "('c, 'h, 't) amqp_api \<Rightarrow> string \<Rightarrow> 'w message_handler \<Rightarrow> 'h \<Rightarrow> cevent list \<Rightarrow> ('c, 'h) RabbitMQ \<Rightarrow> 'w \<times> 't \<Rightarrow>
   cstatus \<times> ('c, 'h) RabbitMQ \<times> 'w \<times> 't" where
  "runConsumer api queueName handler ch evs q s =
     (case drainDeliveries api handler evs s of
        (None, s1) \<Rightarrow> (Running, q, s1)
      | (Some (stopped, evs1), (w1, t1)) \<Rightarrow>
          (let t2 = snd (am_ChanClose api ch t1) in
           if stopped then (Stopped, q, w1, t2)
           else (case reconnectConsumer api queueName evs1 q t2 of
              (Waiting, q1, t3, _) \<Rightarrow> (Running, q1, w1, t3)
            | (Failed err, q1, t3, _) \<Rightarrow> (Halted err, q1, w1, t3)
            | (Reopened ch1 evs2, q1, t3, _) \<Rightarrow> runConsumer api queueName handler ch1 evs2 q1 (w1, t3))))"
  by pat_completeness auto
termination
proof (relation "measure (\<lambda>(api, name, handler, ch, evs, q, s). length evs)", goal_cases)
  case 1
  then show ?case by simp
next
  case prems: 2
  then show ?case
    by (auto simp: reconnectConsumer_def dest!: drain_shorter [OF sym] reconnect_shorter [OF sym])
qed

declare runConsumer.simps [simp del]

section \<open>Acknowledgements\<close>

text \<open>
  A message that a run removed was delivered, and the handler accepted it in a state that the run reached:
  \<open>ds\<close> are the deliveries handled before it.
\<close>

abbreviation handle_all :: "'w message_handler \<Rightarrow> amqp_delivery list \<Rightarrow> 'w \<Rightarrow> 'w" where
  "handle_all handler ds w \<equiv> fold (\<lambda>d w. snd (handler (dl_Body d) w)) ds w"

definition delivered :: "cevent list \<Rightarrow> amqp_delivery set" where
  "delivered evs = {d. Delivered d \<in> set evs}"

definition accepted :: "'w message_handler \<Rightarrow> cevent list \<Rightarrow> 'w \<Rightarrow> amqp_delivery \<Rightarrow> bool" where
  "accepted handler evs w m \<longleftrightarrow>
     m \<in> delivered evs \<and> (\<exists>ds. set ds \<subseteq> delivered evs \<and> fst (handler (dl_Body m) (handle_all handler ds w)) = None)"

lemma accepted_later:
  assumes "accepted handler evs' (handle_all handler ds w) m" and "set evs' \<subseteq> set evs" and "set ds \<subseteq> delivered evs"
  shows "accepted handler evs w m"
proof -
  obtain ds' where "m \<in> delivered evs'" "set ds' \<subseteq> delivered evs'"
      "fst (handler (dl_Body m) (handle_all handler (ds @ ds') w)) = None"
    using assms(1) by (auto simp: accepted_def)
  moreover have "delivered evs' \<subseteq> delivered evs" using assms(2) by (auto simp: delivered_def)
  ultimately show ?thesis using assms(3) unfolding accepted_def by (intro conjI exI [of _ "ds @ ds'"]) auto
qed

lemma drain_trace:
  assumes "drainDeliveries api handler evs (w, t) = (r, w', t')"
  shows "(\<exists>ds. set ds \<subseteq> delivered evs \<and> w' = handle_all handler ds w) \<and> (\<forall>stop evs'. r = Some (stop, evs') \<longrightarrow> set evs' \<subseteq> set evs)"
  using assms
proof (induction evs arbitrary: w t)
  case Nil
  then show ?case by (auto intro: exI [of _ "[]"])
next
  case (Cons ev evs)
  have mono: "delivered evs \<subseteq> delivered (ev # evs)" by (auto simp: delivered_def)
  have step: ?case if run: "drainDeliveries api handler evs (handle_all handler ds w, t1) = (r, w', t')" and sub: "set ds \<subseteq> delivered (ev # evs)" for ds t1
  proof -
    obtain ds' where "set ds' \<subseteq> delivered evs" "w' = handle_all handler (ds @ ds') w" "\<forall>stop evs'. r = Some (stop, evs') \<longrightarrow> set evs' \<subseteq> set evs"
      using Cons.IH [OF run] by auto
    then show ?thesis using mono sub by (intro conjI exI [of _ "ds @ ds'"]) auto
  qed
  show ?case
  proof (cases ev)
    case (Delivered d)
    obtain w1 t1 where s: "settle api handler d (w, t) = (w1, t1)" by (metis prod.exhaust)
    then have "w1 = handle_all handler [d] w" by (auto simp: settle_def split: prod.splits option.splits)
    with Cons.prems Delivered s show ?thesis by (intro step [of "[d]" t1]) (auto simp: delivered_def)
  next
    case TimerFired
    with Cons.prems show ?thesis by (intro step [of "[]" t]) auto
  qed (use Cons.prems in \<open>auto intro!: exI [of _ "[]"]\<close>)
qed

lemma reconnect_events:
  "reconnect_loop api name n delay evs q t k w = (Reopened ch evs', r) \<Longrightarrow> set evs' \<subseteq> set evs"
proof (induction n arbitrary: delay evs q t k w)
  case (Suc n)
  have aw: "await evs = Some (b, es) \<Longrightarrow> set es \<subseteq> set evs" for b es by (induction evs rule: await.induct) auto
  from Suc show ?case
    by (fastforce simp: Let_def split: option.splits bool.splits prod.splits sum.splits if_splits dest: aw)
qed simp

text \<open>
  What the broker promises: \<open>held\<close> are the messages that it keeps, delivered or not. Only an acknowledgement removes a
  message, and only that one; a message that was rejected or whose channel closed goes back to its queue.
\<close>

locale amqp_broker =
  fixes api :: "('c, 'h, 't) amqp_api" and held :: "'t \<Rightarrow> amqp_delivery set"
  assumes ack: "held t - {msg} \<subseteq> held (snd (am_Ack api msg t))"
    and nack: "held t \<subseteq> held (snd (am_Nack api msg t))"
    and dial: "held t \<subseteq> held (snd (am_Dial api url t))"
    and channel: "held t \<subseteq> held (snd (am_Channel api c t))"
    and conn_close: "held t \<subseteq> held (snd (am_ConnClose api c t))"
    and chan_close: "held t \<subseteq> held (snd (am_ChanClose api h t))"
    and qos: "held t \<subseteq> held (snd (am_Qos api h n t))"
    and consume: "held t \<subseteq> held (snd (am_Consume api h name t))"
begin

lemma held_step:
  "am_Dial api url t = (r1, t') \<Longrightarrow> m \<in> held t \<Longrightarrow> m \<in> held t'"
  "am_Channel api c t = (r2, t') \<Longrightarrow> m \<in> held t \<Longrightarrow> m \<in> held t'"
  "am_Qos api h n t = (r3, t') \<Longrightarrow> m \<in> held t \<Longrightarrow> m \<in> held t'"
  "am_Consume api h name t = (r3, t') \<Longrightarrow> m \<in> held t \<Longrightarrow> m \<in> held t'"
  "m \<in> held t \<Longrightarrow> m \<in> held (snd (am_ConnClose api c t))"
  "m \<in> held t \<Longrightarrow> m \<in> held (snd (am_ChanClose api h t))"
  using dial [of t url] channel [of t c] qos [of t h n] consume [of t h name] conn_close [of t c] chan_close [of t h] by auto

lemma redial_held: "m \<in> held t \<Longrightarrow> m \<in> held (snd (snd (redial api q t)))"
  by (auto simp: redial_def Let_def held_step split: prod.split sum.split option.split)

lemma open_held: "m \<in> held t \<Longrightarrow> m \<in> held (snd (openConsumer api q name t))"
  by (auto simp: openConsumer_def held_step split: prod.split sum.split option.split)

lemma reconnect_held:
  "m \<in> held t \<Longrightarrow> reconnect_loop api name n delay evs q t k w = (r, q', t', k', w') \<Longrightarrow> m \<in> held t'"
proof (induction n arbitrary: delay evs q t k w)
  case (Suc n)
  obtain e1 q1 t1 where r: "(if case rq_conn q of None \<Rightarrow> True | Some c \<Rightarrow> am_IsClosed api c t then redial api q t else (None, q, t)) = (e1, q1, t1)"
    by (metis prod_cases3)
  have m1: "m \<in> held t1" using redial_held [OF Suc.prems(1), of q] Suc.prems(1) r by (auto split: if_splits)
  obtain o2 t2 where o: "openConsumer api q1 name t1 = (o2, t2)" by (metis prod.exhaust)
  have m2: "m \<in> held t2" using open_held [OF m1, of q1 name] o by simp
  show ?case
  proof (cases "await evs")
    case None
    with Suc.prems show ?thesis by simp
  next
    case (Some x)
    with Suc.prems Suc.IH [OF m1] Suc.IH [OF m2] m2 o show ?thesis
      by (cases x) (auto simp: Let_def r simp del: split_paired_All split: bool.splits sum.splits if_splits)
  qed
qed simp

lemma settle_held:
  assumes "m \<in> held t" and "settle api handler d (w, t) = (w', t')"
  shows "m \<in> held t' \<or> d = m \<and> fst (handler (dl_Body m) w) = None"
  using assms ack [of t d] nack [of t d] by (auto simp: settle_def split: prod.splits option.splits)

lemma drain_held:
  assumes "m \<in> held t" and "drainDeliveries api handler evs (w, t) = (r, w', t')"
  shows "m \<in> held t' \<or> accepted handler evs w m"
  using assms
proof (induction evs arbitrary: w t)
  case (Cons ev evs)
  have skip: ?case if "drainDeliveries api handler evs (handle_all handler ds w, t1) = (r, w', t')" "m \<in> held t1" "set ds \<subseteq> delivered (ev # evs)" for ds t1
    using Cons.IH [OF that(2,1)] accepted_later [of handler evs ds w m "ev # evs", OF _ _ that(3)] by (meson set_subset_Cons)
  show ?case
  proof (cases ev)
    case (Delivered d)
    obtain w1 t1 where s: "settle api handler d (w, t) = (w1, t1)" by (metis prod.exhaust)
    then have w1: "w1 = handle_all handler [d] w" by (auto simp: settle_def split: prod.splits option.splits)
    from settle_held [OF Cons.prems(1) s] show ?thesis
    proof
      assume "m \<in> held t1"
      with Cons.prems Delivered s w1 show ?thesis by (intro skip [of "[d]" t1]) (auto simp: delivered_def)
    next
      assume "d = m \<and> fst (handler (dl_Body m) w) = None"
      then show ?thesis using Delivered by (auto simp: accepted_def delivered_def intro!: exI [of _ "[]"])
    qed
  next
    case TimerFired
    with Cons.prems show ?thesis by (intro skip [of "[]" t]) auto
  qed (use Cons.prems in auto)
qed simp

lemma run_held:
  assumes "m \<in> held t" and "runConsumer api name handler ch evs q (w, t) = (st, q', w', t')"
  shows "m \<in> held t' \<or> accepted handler evs w m"
  using assms
proof (induction evs arbitrary: ch q w t rule: measure_induct_rule [of length])
  case (less evs)
  obtain r w1 t1 where d: "drainDeliveries api handler evs (w, t) = (r, w1, t1)" by (metis prod_cases3)
  obtain ds where ds: "set ds \<subseteq> delivered evs" "w1 = handle_all handler ds w" "\<forall>stop evs'. r = Some (stop, evs') \<longrightarrow> set evs' \<subseteq> set evs"
    using drain_trace [OF d] by auto
  show ?case
  proof (cases "m \<in> held t1")
    case False
    with drain_held [OF less.prems(1) d] show ?thesis by blast
  next
    case True
    then have m2: "m \<in> held (snd (am_ChanClose api ch t1))" by (rule held_step(6))
    show ?thesis
    proof (cases r)
      case None
      with less.prems(2) d True show ?thesis by (simp add: runConsumer.simps)
    next
      case (Some p)
      obtain stop evs1 where p: "p = (stop, evs1)" by fastforce
      obtain r2 q2 t3 k2 where rc: "reconnectConsumer api name evs1 q (snd (am_ChanClose api ch t1)) = (r2, q2, t3, k2)" by (metis prod_cases4)
      have m3: "m \<in> held t3"
        using reconnect_held [OF m2] rc unfolding reconnectConsumer_def by (metis prod.exhaust)
      show ?thesis
      proof (cases "\<exists>ch2 evs2. r2 = Reopened ch2 evs2 \<and> \<not> stop")
        case True
        then obtain ch2 evs2 where r2: "r2 = Reopened ch2 evs2" "\<not> stop" by auto
        note rc' = rc [unfolded reconnectConsumer_def r2]
        note sub = reconnect_events [OF rc'] reconnect_shorter [OF rc']
        have sub1: "set evs1 \<subseteq> set evs" "length evs1 < length evs"
          using ds(3) drain_shorter [OF d [unfolded Some p]] by (simp_all add: Some p)
        have run: "runConsumer api name handler ch2 evs2 q2 (w1, t3) = (st, q', w', t')"
          using less.prems(2) d Some p rc r2 by (simp add: runConsumer.simps [of api name handler ch])
        have "m \<in> held t' \<or> accepted handler evs2 w1 m" using less.IH [OF _ m3 run] sub sub1 by linarith
        then show ?thesis using accepted_later ds(1,2) sub(1) sub1(1) by (metis subset_trans)
      next
        case False
        then show ?thesis using less.prems(2) d Some p rc m2 m3
          by (cases r2) (auto simp: runConsumer.simps [of api name handler ch] Let_def split: if_splits)
      qed
    qed
  qed
qed

end

section \<open>A broker\<close>

text \<open>
  A broker in memory: named queues, a counter for fresh names, the open connections, and whether it answers. A
  message is published to the queue that its routing key names.
\<close>

record broker =
  bk_queues :: "(string \<times> amqp_delivery list) list"
  bk_next :: nat
  bk_open :: "nat list"
  bk_up :: bool

definition bk_refused :: go_error where "bk_refused = ErrText ''connection refused''"
definition bk_not_found :: go_error where "bk_not_found = Sentinel ''NOT_FOUND''"

definition bk_call :: "(broker \<Rightarrow> go_error option \<times> broker) \<Rightarrow> broker \<Rightarrow> go_error option \<times> broker" where
  "bk_call f t = (if bk_up t then f t else (Some bk_refused, t))"

definition bk_fresh :: "broker \<Rightarrow> (go_error + nat) \<times> broker" where
  "bk_fresh t = (Inr (bk_next t), t\<lparr>bk_next := Suc (bk_next t)\<rparr>)"

definition bk_Dial :: "string \<Rightarrow> broker \<Rightarrow> (go_error + nat) \<times> broker" where
  "bk_Dial url t =
     (if bk_up t then (Inr (bk_next t), t\<lparr>bk_next := Suc (bk_next t), bk_open := bk_next t # bk_open t\<rparr>) else (Inl bk_refused, t))"

definition bk_Publish :: "nat \<Rightarrow> go_error option \<Rightarrow> string \<Rightarrow> string \<Rightarrow> amqp_publishing \<Rightarrow> broker \<Rightarrow> go_error option \<times> broker" where
  "bk_Publish ch ctx exchange key msg =
     bk_call (\<lambda>t. (None, case map_of (bk_queues t) key of
        None \<Rightarrow> t
      | Some ms \<Rightarrow> t\<lparr>bk_next := Suc (bk_next t), bk_queues := AList.update key (ms @ [\<lparr>dl_Msg = bk_next t, dl_Body = pb_Body msg\<rparr>]) (bk_queues t)\<rparr>))"

definition bk_Declare :: "nat \<Rightarrow> string \<Rightarrow> bool \<Rightarrow> broker \<Rightarrow> go_error option \<times> broker" where
  "bk_Declare ch name durable =
     bk_call (\<lambda>t. (None, if map_of (bk_queues t) name = None then t\<lparr>bk_queues := (name, []) # bk_queues t\<rparr> else t))"

definition bk_exists :: "string \<Rightarrow> broker \<Rightarrow> go_error option \<times> broker" where
  "bk_exists name = bk_call (\<lambda>t. (if map_of (bk_queues t) name = None then Some bk_not_found else None, t))"

definition bk_Ack :: "amqp_delivery \<Rightarrow> broker \<Rightarrow> go_error option \<times> broker" where
  "bk_Ack msg = bk_call (\<lambda>t. (None, t\<lparr>bk_queues := map (\<lambda>(n, ms). (n, filter (\<lambda>m. m \<noteq> msg) ms)) (bk_queues t)\<rparr>))"

definition broker_api :: "(nat, nat, broker) amqp_api" where
  "broker_api = \<lparr>
     am_Dial = bk_Dial,
     am_Channel = (\<lambda>c t. if bk_up t \<and> c \<in> set (bk_open t) then bk_fresh t else (Inl bk_refused, t)),
     am_ConnClose = (\<lambda>c t. (None, t\<lparr>bk_open := removeAll c (bk_open t)\<rparr>)),
     am_IsClosed = (\<lambda>c t. c \<notin> set (bk_open t)),
     am_Publish = bk_Publish,
     am_Consume = (\<lambda>h name. bk_exists name),
     am_QueueDeclare = bk_Declare,
     am_QueueDeclarePassive = (\<lambda>h name durable. bk_exists name),
     am_ExchangeDeclare = (\<lambda>h name kind durable. bk_call (Pair None)),
     am_QueueBind = (\<lambda>h name key ex. bk_call (Pair None)),
     am_Qos = (\<lambda>h n. bk_call (Pair None)),
     am_ChanClose = (\<lambda>h t. (None, t)),
     am_Ack = bk_Ack,
     am_Nack = (\<lambda>msg. bk_call (Pair None)),
     am_Code = (\<lambda>err. if err = bk_not_found then Some 404 else None)\<rparr>"

definition broker_held :: "broker \<Rightarrow> amqp_delivery set" where
  "broker_held t = (\<Union>q \<in> set (bk_queues t). set (snd q))"

interpretation mem: amqp_broker broker_api broker_held
proof unfold_locales
  show "broker_held t - {msg} \<subseteq> broker_held (snd (am_Ack broker_api msg t))" for t msg
  proof
    fix d
    assume "d \<in> broker_held t - {msg}"
    then obtain n ms where d: "(n, ms) \<in> set (bk_queues t)" "d \<in> set ms" "d \<noteq> msg" by (auto simp: broker_held_def)
    show "d \<in> broker_held (snd (am_Ack broker_api msg t))"
    proof (cases "bk_up t")
      case True
      then have "bk_queues (snd (am_Ack broker_api msg t)) = map (\<lambda>(n, ms). (n, filter (\<lambda>m. m \<noteq> msg) ms)) (bk_queues t)"
        by (simp add: broker_api_def bk_Ack_def bk_call_def)
      then show ?thesis using d unfolding broker_held_def by (intro UN_I [of "(n, filter (\<lambda>m. m \<noteq> msg) ms)"]) force+
    next
      case False
      then show ?thesis using d by (force simp: broker_held_def broker_api_def bk_Ack_def bk_call_def)
    qed
  qed
qed (auto simp: broker_api_def broker_held_def bk_Dial_def bk_fresh_def bk_exists_def bk_call_def)

section \<open>Reconnecting\<close>

lemma nextBackoff_bounds:
  assumes "0 < cur" "cur \<le> B" "0 < ceiling" "ceiling \<le> B" "B < 2 ^ 62"
  shows "0 < nextBackoff cur ceiling \<and> nextBackoff cur ceiling \<le> B"
proof -
  have "int64 (cur * 2) = cur * 2" using assms by (intro int64_id) auto
  then show ?thesis using assms by (simp add: nextBackoff_def Let_def)
qed

lemma redial_opts: "redial api q t = (e, q', t') \<Longrightarrow> rq_opts q' = rq_opts q \<and> rq_closed q' = rq_closed q"
  by (auto simp: redial_def Let_def split: prod.splits sum.splits)

lemma reconnect_loop_bounds:
  assumes "reconnect_loop api name n delay evs q t k w = (r, q', t', k', w')"
    and "0 < delay" and "delay \<le> B" and "0 < op_ReconnectMaxDelay (rq_opts q)" and "op_ReconnectMaxDelay (rq_opts q) \<le> B" and "B < 2 ^ 62"
  shows "k \<le> k' \<and> k' \<le> k + n \<and> w' - w \<le> int (k' - k) * B \<and> (\<forall>err. r = Failed err \<longrightarrow> err = context_canceled \<or> k' = k + n) \<and>
    (\<forall>ch evs'. r = Reopened ch evs' \<longrightarrow> (\<exists>t1. openConsumer api q' name t1 = (Inr ch, t')))"
  using assms
proof (induction n arbitrary: delay evs q t k w)
  case (Suc n)
  obtain e1 q1 t1 where rd: "(if case rq_conn q of None \<Rightarrow> True | Some c \<Rightarrow> am_IsClosed api c t then redial api q t else (None, q, t)) = (e1, q1, t1)"
    by (metis prod_cases3)
  have opts: "rq_opts q1 = rq_opts q" using rd redial_opts by (fastforce split: if_splits)
  note nb = nextBackoff_bounds [OF Suc.prems(2,3,4,5,6)]
  have step: ?case if "reconnect_loop api name n (nextBackoff delay (op_ReconnectMaxDelay (rq_opts q1))) evs1 q1 t2 (Suc k) (w + delay) = (r, q', t', k', w')" for evs1 t2
  proof -
    note ih = Suc.IH [OF that, unfolded opts, OF conjunct1 [OF nb] conjunct2 [OF nb] Suc.prems(4-6)]
    have "w' - w \<le> int (k' - Suc k) * B + B" using ih Suc.prems(2,3) by linarith
    also have "\<dots> = int (k' - k) * B" using ih by (simp add: algebra_simps of_nat_diff)
    finally show ?thesis using ih by auto
  qed
  obtain o2 t2 where o: "openConsumer api q1 name t1 = (o2, t2)" by (metis prod.exhaust)
  show ?case
  proof (cases "await evs")
    case None
    with Suc.prems(1) show ?thesis by auto
  next
    case (Some x)
    obtain fired evs1 where x: "x = (fired, evs1)" by fastforce
    have mx: "max 0 delay = delay" using Suc.prems(2) by simp
    show ?thesis
    proof (cases "fired \<and> (e1 \<noteq> None \<or> (\<exists>err. o2 = Inl err))")
      case True
      then have "\<exists>t3. reconnect_loop api name n (nextBackoff delay (op_ReconnectMaxDelay (rq_opts q1))) evs1 q1 t3 (Suc k) (w + delay) = (r, q', t', k', w')"
        using Suc.prems(1) Some x o by (cases "e1 = None") (auto simp: Let_def rd mx)
      then show ?thesis using step by blast
    next
      case False
      then show ?thesis using Suc.prems(1-3) Some x o
        by (cases fired; cases o2) (auto simp: Let_def rd mx)
    qed
  qed
qed auto

text \<open>
  A consumer that reconnects after the adapter was closed dials again: the adapter stays closed for publishing while
  the new connection stays open.
\<close>

lemma redial_after_close:
  "am_Dial api (rq_url q) t = (Inr c, t1) \<Longrightarrow> am_Channel api c t1 = (Inr h, t2) \<Longrightarrow>
   \<exists>t3. redial api (q\<lparr>rq_closed := True\<rparr>) t = (None, q\<lparr>rq_closed := True, rq_conn := Some c, rq_pubCh := Some h\<rparr>, t3)"
  by (simp add: redial_def Let_def)

section \<open>Properties\<close>

text \<open>
  C25. The consumer drops no message. For every broker that removes messages only when they are acknowledged, every
  message handler and every order of deliveries, channel failures, reconnects and cancellation: a message that the
  broker held before is still held after, or it was delivered and the handler returned without an error for it, in a
  state that handling earlier deliveries led to.
\<close>

theorem consumer_drops_nothing:
  assumes "amqp_broker api held" and "m \<in> held t" and "runConsumer api queueName handler ch evs q (w, t) = (st, q', w', t')"
  shows "m \<in> held t' \<or> accepted handler evs w m"
  using amqp_broker.run_held [OF assms] .

definition demo_message :: "nat \<Rightarrow> string \<Rightarrow> amqp_delivery" where
  "demo_message n body = \<lparr>dl_Msg = n, dl_Body = body\<rparr>"

definition demo_broker :: broker where
  "demo_broker = \<lparr>bk_queues = [(''jobs'', [demo_message 1 ''a'', demo_message 2 ''b''])], bk_next = 5, bk_open = [3], bk_up = True\<rparr>"

definition demo_rabbit :: "(nat, nat) RabbitMQ" where
  "demo_rabbit = \<lparr>rq_url = ''amqp://mq'', rq_opts = \<lparr>op_PrefetchCount = 10, op_MaxReconnectTries = 5, op_ReconnectBaseDelay = second,
     op_ReconnectMaxDelay = 30 * second\<rparr>, rq_conn = Some 3, rq_pubCh = Some 4, rq_closed = False\<rparr>"

text \<open>A handler that counts its calls and fails on the message \<^verbatim>\<open>b\<close>.\<close>

definition picky :: "nat message_handler" where
  "picky body n = (if body = ''b'' then Some (ErrText ''no'') else None, Suc n)"

lemma consumer_drops_nothing_witness:
  "runConsumer broker_api ''jobs'' picky 4 [Delivered (demo_message 1 ''a''), ChannelClosed, TimerFired, Delivered (demo_message 2 ''b''), CtxDone]
     demo_rabbit (0, demo_broker) = (Stopped, demo_rabbit, 2, demo_broker\<lparr>bk_queues := [(''jobs'', [demo_message 2 ''b''])], bk_next := 6\<rparr>) \<and>
   accepted picky [Delivered (demo_message 1 ''a''), ChannelClosed, TimerFired, Delivered (demo_message 2 ''b''), CtxDone] 0 (demo_message 1 ''a'')"
proof -
  let ?evs = "[Delivered (demo_message 1 ''a''), ChannelClosed, TimerFired, Delivered (demo_message 2 ''b''), CtxDone]"
  let ?t = "demo_broker\<lparr>bk_queues := [(''jobs'', [demo_message 2 ''b''])], bk_next := 6\<rparr>"
  have run: "runConsumer broker_api ''jobs'' picky 4 ?evs demo_rabbit (0, demo_broker) = (Stopped, demo_rabbit, 2, ?t)"
    by code_simp
  have "demo_message 1 ''a'' \<in> broker_held demo_broker" by (simp add: broker_held_def demo_broker_def)
  moreover have "demo_message 1 ''a'' \<notin> broker_held ?t" by (simp add: broker_held_def demo_message_def)
  ultimately show ?thesis using consumer_drops_nothing [OF mem.amqp_broker_axioms _ run] run by blast
qed

text \<open>
  Reconnecting is bounded. With delays below half the range of a duration, a consumer that lost its channel makes
  at most the configured number of attempts and waits at most that many times the longer of the two delays. It gives
  up only when the context is cancelled or all attempts are used up.
\<close>

theorem reconnect_bounded:
  assumes "reconnectConsumer api queueName evs q t = (r, q', t', tries, waited)"
    and "0 < op_ReconnectBaseDelay (rq_opts q)" and "op_ReconnectBaseDelay (rq_opts q) < 2 ^ 62"
    and "0 < op_ReconnectMaxDelay (rq_opts q)" and "op_ReconnectMaxDelay (rq_opts q) < 2 ^ 62"
  shows "int tries \<le> max 0 (op_MaxReconnectTries (rq_opts q)) \<and>
    waited \<le> int tries * max (op_ReconnectBaseDelay (rq_opts q)) (op_ReconnectMaxDelay (rq_opts q)) \<and>
    (\<forall>err. r = Failed err \<longrightarrow> err = context_canceled \<or> int tries = max 0 (op_MaxReconnectTries (rq_opts q)))"
proof -
  let ?B = "max (op_ReconnectBaseDelay (rq_opts q)) (op_ReconnectMaxDelay (rq_opts q))"
  have "?B < 2 ^ 62" using assms(3,5) by simp
  from reconnect_loop_bounds [OF assms(1) [unfolded reconnectConsumer_def] assms(2) _ assms(4) _ this]
  have "tries \<le> nat (op_MaxReconnectTries (rq_opts q)) \<and> waited \<le> int tries * ?B \<and>
      (\<forall>err. r = Failed err \<longrightarrow> err = context_canceled \<or> tries = nat (op_MaxReconnectTries (rq_opts q)))" by simp
  then show ?thesis by (auto simp: int_nat_eq max_def split: if_splits)
qed

lemma reconnect_bounded_witness:
  "\<exists>err q' t'. reconnectConsumer broker_api ''jobs'' (replicate 5 TimerFired) demo_rabbit (demo_broker\<lparr>bk_up := False\<rparr>)
     = (Failed err, q', t', 5, 31 * second) \<and> 31 * second \<le> int 5 * (30 * second)"
proof -
  let ?r = "reconnectConsumer broker_api ''jobs'' (replicate 5 TimerFired) demo_rabbit (demo_broker\<lparr>bk_up := False\<rparr>)"
  have "case ?r of (Failed _, _, _, tries, waited) \<Rightarrow> tries = 5 \<and> waited = 31 * second | _ \<Rightarrow> False" by code_simp
  then obtain err q' t' where r: "?r = (Failed err, q', t', 5, 31 * second)" by (cases ?r) (auto split: reopened.splits)
  from reconnect_bounded [OF r] show ?thesis using r by (simp add: demo_rabbit_def)
qed

end
