(* ===== verification/Worker.thy ===== *)
theory Worker
  imports Go_Time Queue Config
begin

text \<open>
  Background jobs: \<^verbatim>\<open>src/internal/worker/job.go\<close>, \<^verbatim>\<open>publisher.go\<close> and \<^verbatim>\<open>worker.go\<close>. A message is the JSON text of a job. The worker
  decodes it, runs the handler of its type and, when that fails and attempts are left, starts a goroutine that
  publishes the job again after a delay.

  \<open>handleMessage\<close> is a function on the state \<^typ>\<open>'h\<close> of the handlers; its outcome is what the worker logs. The
  goroutines interleave: \<open>wstep\<close> is the step relation of deliveries, retries and shutdown on the state \<open>wsystem\<close>, which
  holds the messages of the queue, the retries that wait and the log. The two main facts are that every job of a
  running worker is tried until it succeeds or its attempts are used up, within a bounded number of steps, and that
  nothing but a shutdown or a failed publish loses a job.
\<close>

section \<open>Jobs\<close>

text \<open>A \<^verbatim>\<open>json.RawMessage\<close> is represented by the value that it denotes, nil by \<open>None\<close>.\<close>

record Job =
  jb_ID :: string
  jb_Type :: string
  jb_Payload :: "json option"
  jb_Attempts :: int
  jb_MaxRetry :: int
  jb_CreatedAt :: go_time

text \<open>The zero \<^verbatim>\<open>time.Time\<close> is the first instant of the year 1.\<close>

definition zero_time :: go_time where
  "zero_time = - 62135596800 * second"

definition zero_Job :: Job where
  "zero_Job = \<lparr>jb_ID = '''', jb_Type = '''', jb_Payload = None, jb_Attempts = 0, jb_MaxRetry = 0, jb_CreatedAt = zero_time\<rparr>"

text \<open>The payload is the outcome of encoding it.\<close>

definition NewJob :: "string \<Rightarrow> go_time \<Rightarrow> string \<Rightarrow> go_error + json \<Rightarrow> go_error + Job" where
  "NewJob new_uuid now jobType payload =
     (case payload of
        Inl err \<Rightarrow> Inl err
      | Inr data \<Rightarrow>
          Inr \<lparr>jb_ID = new_uuid, jb_Type = jobType, jb_Payload = Some data, jb_Attempts = 0, jb_MaxRetry = 3, jb_CreatedAt = now\<rparr>)"

definition NewJobWithRetry :: "string \<Rightarrow> go_time \<Rightarrow> string \<Rightarrow> go_error + json \<Rightarrow> int \<Rightarrow> go_error + Job" where
  "NewJobWithRetry new_uuid now jobType payload maxRetry =
     (case NewJob new_uuid now jobType payload of
        Inl err \<Rightarrow> Inl err
      | Inr job \<Rightarrow> Inr (job\<lparr>jb_MaxRetry := maxRetry\<rparr>))"

definition job_json :: "Job \<Rightarrow> json" where
  "job_json j =
     JObj [(''id'', JStr (jb_ID j)), (''type'', JStr (jb_Type j)), (''payload'', case jb_Payload j of None \<Rightarrow> JNull | Some v \<Rightarrow> v),
       (''attempts'', JNum (itoa (jb_Attempts j))), (''max_retry'', JNum (itoa (jb_MaxRetry j))),
       (''created_at'', JStr (rfc3339_nano (jb_CreatedAt j)))]"

text \<open>A time can be encoded when four digits write its year.\<close>

definition job_Encode :: "Job \<Rightarrow> go_error + string" where
  "job_Encode j =
     (if 0 \<le> year_of (jb_CreatedAt j) \<and> year_of (jb_CreatedAt j) \<le> 9999 then Inr (print_json (job_json j))
      else Inl (ErrText ''Time.MarshalJSON: year outside of range [0,9999]''))"

definition assign_time :: "json \<Rightarrow> go_time option \<Rightarrow> go_time option" where
  "assign_time v acc = (case v of JStr s \<Rightarrow> Option.bind acc (\<lambda>_. parse_rfc3339 s) | JNull \<Rightarrow> acc | _ \<Rightarrow> None)"

definition unmarshal_job :: "json \<Rightarrow> Job option" where
  "unmarshal_job v =
     (case v of
        JObj kvs \<Rightarrow>
          (case (dec_string kvs ''id'', dec_string kvs ''type'', set_int kvs ''attempts'' 0, set_int kvs ''max_retry'' 0,
                 fold assign_time (field_values kvs ''created_at'') (Some zero_time)) of
             (Some i, Some ty, Some a, Some mr, Some ca) \<Rightarrow>
               Some \<lparr>jb_ID = i, jb_Type = ty, jb_Payload = fold (\<lambda>p _. Some p) (field_values kvs ''payload'') None,
                 jb_Attempts = a, jb_MaxRetry = mr, jb_CreatedAt = ca\<rparr>
           | _ \<Rightarrow> None)
      | JNull \<Rightarrow> Some zero_Job
      | _ \<Rightarrow> None)"

definition DecodeJob :: "string \<Rightarrow> go_error + Job" where
  "DecodeJob data =
     (case Option.bind (parse_json data) unmarshal_job of None \<Rightarrow> Inl (ErrText ''invalid job'') | Some j \<Rightarrow> Inr j)"

definition CanRetry :: "Job \<Rightarrow> bool" where
  "CanRetry j \<longleftrightarrow> jb_Attempts j < jb_MaxRetry j"

definition IncrementAttempts :: "Job \<Rightarrow> Job" where
  "IncrementAttempts j = j\<lparr>jb_Attempts := int64 (jb_Attempts j + 1)\<rparr>"

definition JobTypeEmailSend :: string where "JobTypeEmailSend = ''email.send''"
definition JobTypeAuditCleanup :: string where "JobTypeAuditCleanup = ''audit.cleanup''"
definition JobTypeNotification :: string where "JobTypeNotification = ''notification.send''"

section \<open>Publisher\<close>

record 'q Publisher =
  pu_queue :: "'q queue"
  pu_queueName :: string
  pu_exchange :: string

definition NewPublisher :: "'q queue \<Rightarrow> string \<Rightarrow> string \<Rightarrow> 'q Publisher" where
  "NewPublisher queue queueName exchange =
     \<lparr>pu_queue = queue, pu_queueName = (if queueName = '''' then ''jobs'' else queueName), pu_exchange = exchange\<rparr>"

definition PublishRaw :: "'q Publisher \<Rightarrow> go_time \<Rightarrow> go_error option \<Rightarrow> Job \<Rightarrow> 'q \<Rightarrow> go_error option \<times> 'q" where
  "PublishRaw p now ctx job q =
     (case job_Encode job of
        Inl err \<Rightarrow> (Some (errorf_w ''failed to encode job'' err), q)
      | Inr data \<Rightarrow>
          (case q_Publish (pu_queue p) now ctx (pu_exchange p) (pu_queueName p) data q of
             (Some err, q') \<Rightarrow> (Some (errorf_w ''failed to publish job'' err), q')
           | (None, q') \<Rightarrow> (None, q')))"

text \<open>\<^verbatim>\<open>Publish\<close> and \<^verbatim>\<open>PublishWithRetry\<close> differ in how they make the job; what follows is what \<^verbatim>\<open>PublishRaw\<close> does.\<close>

definition publisher_Publish ::
  "'q Publisher \<Rightarrow> string \<Rightarrow> go_time \<Rightarrow> go_error option \<Rightarrow> string \<Rightarrow> go_error + json \<Rightarrow> 'q \<Rightarrow> go_error option \<times> 'q" where
  "publisher_Publish p new_uuid now ctx jobType payload q =
     (case NewJob new_uuid now jobType payload of
        Inl err \<Rightarrow> (Some (errorf_w ''failed to create job'' err), q)
      | Inr job \<Rightarrow> PublishRaw p now ctx job q)"

definition PublishWithRetry ::
  "'q Publisher \<Rightarrow> string \<Rightarrow> go_time \<Rightarrow> go_error option \<Rightarrow> string \<Rightarrow> go_error + json \<Rightarrow> int \<Rightarrow> 'q \<Rightarrow> go_error option \<times> 'q" where
  "PublishWithRetry p new_uuid now ctx jobType payload maxRetry q =
     (case NewJobWithRetry new_uuid now jobType payload maxRetry of
        Inl err \<Rightarrow> (Some (errorf_w ''failed to create job'' err), q)
      | Inr job \<Rightarrow> PublishRaw p now ctx job q)"

section \<open>Worker\<close>

text \<open>A handler sees the error of its context, the job and the state of the handlers.\<close>

type_synonym 'h job_handler = "go_error option \<Rightarrow> Job \<Rightarrow> 'h \<Rightarrow> go_error option \<times> 'h"

record ('q, 'h) Worker =
  wk_queue :: "'q queue"
  wk_handlers :: "string \<Rightarrow> 'h job_handler option"
  wk_concurrency :: int
  wk_queueName :: string
  wk_exchange :: string

record worker_config =
  wc_QueueName :: string
  wc_Exchange :: string
  wc_Concurrency :: int

definition worker_New :: "'q queue \<Rightarrow> worker_config \<Rightarrow> ('q, 'h) Worker" where
  "worker_New queue cfg =
     \<lparr>wk_queue = queue, wk_handlers = (\<lambda>_. None),
      wk_concurrency = (if wc_Concurrency cfg \<le> 0 then 1 else wc_Concurrency cfg),
      wk_queueName = (if wc_QueueName cfg = '''' then ''jobs'' else wc_QueueName cfg), wk_exchange = wc_Exchange cfg\<rparr>"

definition RegisterHandler :: "string \<Rightarrow> 'h job_handler \<Rightarrow> ('q, 'h) Worker \<Rightarrow> ('q, 'h) Worker" where
  "RegisterHandler ty handler w = w\<lparr>wk_handlers := (wk_handlers w)(ty \<mapsto> handler)\<rparr>"

text \<open>
  \<^verbatim>\<open>Start\<close> declares the queue, ignoring an error, and starts the goroutines; one whose \<^verbatim>\<open>Consume\<close> fails ends at once. The
  result is the number of consumers that were registered.
\<close>

fun start_consumers :: "('q, 'h) Worker \<Rightarrow> go_error option \<Rightarrow> nat \<Rightarrow> 'q \<Rightarrow> nat \<times> 'q" where
  "start_consumers w ctx 0 q = (0, q)"
| "start_consumers w ctx (Suc n) q =
     (case q_Consume (wk_queue w) ctx (wk_queueName w) q of
        (Some err, q') \<Rightarrow> start_consumers w ctx n q'
      | (None, q') \<Rightarrow> map_prod Suc id (start_consumers w ctx n q'))"

definition worker_Start :: "('q, 'h) Worker \<Rightarrow> go_error option \<Rightarrow> 'q \<Rightarrow> nat \<times> 'q" where
  "worker_Start w ctx q =
     start_consumers w ctx (nat (wk_concurrency w)) (snd (q_DeclareQueue (wk_queue w) ctx (wk_queueName w) True q))"

text \<open>Both products of a delay wrap around.\<close>

definition retry_delay :: "Job \<Rightarrow> int" where
  "retry_delay job = int64 (int64 (jb_Attempts job * jb_Attempts job) * second)"

datatype outcome =
    Malformed
  | Unhandled Job
  | Completed Job
  | Exhausted Job
  | Unencodable Job
  | Retrying Job int string

definition retryJob :: "Job \<Rightarrow> outcome" where
  "retryJob job = (case job_Encode job of Inl err \<Rightarrow> Unencodable job | Inr data \<Rightarrow> Retrying job (retry_delay job) data)"

text \<open>The error is what the queue adapter sees: \<open>None\<close> acknowledges the message.\<close>

definition handleMessage :: "('q, 'h) Worker \<Rightarrow> go_error option \<Rightarrow> string \<Rightarrow> 'h \<Rightarrow> (go_error option \<times> outcome) \<times> 'h" where
  "handleMessage w ctx msg h =
     (case DecodeJob msg of
        Inl err \<Rightarrow> ((None, Malformed), h)
      | Inr job0 \<Rightarrow>
          (let job = IncrementAttempts job0 in
           case wk_handlers w (jb_Type job) of
             None \<Rightarrow> ((None, Unhandled job), h)
           | Some handler \<Rightarrow>
               (case handler ctx job h of
                  (Some err, h') \<Rightarrow> ((None, if CanRetry job then retryJob job else Exhausted job), h')
                | (None, h') \<Rightarrow> ((None, Completed job), h'))))"

text \<open>
  A retry goroutine whose timer fired or whose context is done: it publishes the job unless the context is cancelled. An
  error of the publish call is logged and the job is gone.
\<close>

definition retry_wakes :: "('q, 'h) Worker \<Rightarrow> go_time \<Rightarrow> go_error option \<Rightarrow> string \<Rightarrow> 'q \<Rightarrow> bool \<times> 'q" where
  "retry_wakes w now ctx data q =
     (case ctx of
        Some err \<Rightarrow> (False, q)
      | None \<Rightarrow>
          (case q_Publish (wk_queue w) now ctx (wk_exchange w) (wk_queueName w) data q of
             (Some err, q') \<Rightarrow> (False, q')
           | (None, q') \<Rightarrow> (True, q')))"

section \<open>Interleaving\<close>

text \<open>
  The messages of the queue, the retries that wait, the consume goroutines that the wait group counts, the delivery
  goroutines of the adapter, whether the context is cancelled, and, for the statements, the log and the jobs of
  retries that were not published.
\<close>

record ('q, 'h) wsystem =
  sy_q :: 'q
  sy_h :: 'h
  sy_msgs :: "string list"
  sy_retries :: "string list"
  sy_waiting :: nat
  sy_delivering :: nat
  sy_cancelled :: bool
  sy_log :: "outcome list"
  sy_lost :: "string list"

definition worker_ctx :: "('q, 'h) wsystem \<Rightarrow> go_error option" where
  "worker_ctx s = (if sy_cancelled s then Some context_canceled else None)"

fun retry_of :: "outcome \<Rightarrow> string list" where
  "retry_of (Retrying job delay data) = [data]"
| "retry_of _ = []"

datatype wlabel = Arrive | Deliver | Republish | Drop | Cancel | ConsumerDone | DeliveryDone

inductive wstep :: "('q, 'h) Worker \<Rightarrow> wlabel \<Rightarrow> ('q, 'h) wsystem \<Rightarrow> ('q, 'h) wsystem \<Rightarrow> bool" for w where
  arrive: "wstep w Arrive s (s\<lparr>sy_msgs := sy_msgs s @ [m]\<rparr>)"
| deliver: "0 < sy_delivering s \<Longrightarrow> sy_msgs s = xs @ m # ys \<Longrightarrow> handleMessage w (worker_ctx s) m (sy_h s) = ((err, out), h') \<Longrightarrow>
    wstep w Deliver s (s\<lparr>sy_msgs := (if err = None then xs @ ys else xs @ ys @ [m]), sy_h := h', sy_log := sy_log s @ [out],
      sy_retries := sy_retries s @ retry_of out\<rparr>)"
| republish: "sy_retries s = xs @ d # ys \<Longrightarrow> retry_wakes w now (worker_ctx s) d (sy_q s) = (True, q') \<Longrightarrow>
    wstep w Republish s (s\<lparr>sy_q := q', sy_retries := xs @ ys, sy_msgs := sy_msgs s @ [d]\<rparr>)"
| drop: "sy_retries s = xs @ d # ys \<Longrightarrow> retry_wakes w now (worker_ctx s) d (sy_q s) = (False, q') \<Longrightarrow>
    wstep w Drop s (s\<lparr>sy_q := q', sy_retries := xs @ ys, sy_lost := sy_lost s @ [d]\<rparr>)"
| cancel: "wstep w Cancel s (s\<lparr>sy_cancelled := True\<rparr>)"
| consumer_done: "sy_cancelled s \<Longrightarrow> sy_waiting s = Suc n \<Longrightarrow> wstep w ConsumerDone s (s\<lparr>sy_waiting := n\<rparr>)"
| delivery_done: "sy_cancelled s \<Longrightarrow> sy_delivering s = Suc n \<Longrightarrow> wstep w DeliveryDone s (s\<lparr>sy_delivering := n\<rparr>)"

inductive wrun :: "('q, 'h) Worker \<Rightarrow> ('q, 'h) wsystem \<Rightarrow> wlabel list \<Rightarrow> ('q, 'h) wsystem \<Rightarrow> bool" for w where
  start: "wrun w s [] s"
| snoc: "wrun w s ls s1 \<Longrightarrow> wstep w l s1 s2 \<Longrightarrow> wrun w s (ls @ [l]) s2"

text \<open>
  \<^verbatim>\<open>Shutdown\<close> cancels and waits for the wait group or its own context: the values that it can return in a state, where
  \<open>ctx\<close> is the error of that context when it is done.
\<close>

definition wait_group :: "('q, 'h) wsystem \<Rightarrow> nat" where
  "wait_group s = sy_waiting s + length (sy_retries s)"

definition Shutdown_returns :: "go_error option \<Rightarrow> ('q, 'h) wsystem \<Rightarrow> go_error option set" where
  "Shutdown_returns ctx s = (if sy_cancelled s \<and> wait_group s = 0 then {None} else {}) \<union> (if ctx = None then {} else {ctx})"

section \<open>Jobs survive their encoding\<close>

definition job_ok :: "Job \<Rightarrow> bool" where
  "job_ok j \<longleftrightarrow> valid_utf8 (jb_ID j) \<and> valid_utf8 (jb_Type j) \<and> (case jb_Payload j of None \<Rightarrow> False | Some v \<Rightarrow> wf_json v) \<and>
     - (2 ^ 63) \<le> jb_Attempts j \<and> jb_Attempts j < 2 ^ 63 - 1 \<and> - (2 ^ 63) \<le> jb_MaxRetry j \<and> jb_MaxRetry j < 2 ^ 63 \<and>
     0 \<le> year_of (jb_CreatedAt j) \<and> year_of (jb_CreatedAt j) \<le> 9999"

lemma digit_ascii: "is_dec c \<Longrightarrow> byte_in 0 127 c"
  by (auto simp: is_dec_def digit_val_def byte_in_def Let_def split: if_splits)

lemma time_text_valid: "valid_utf8 (rfc3339_nano t)"
proof (rule valid_utf8_ascii, rule ballI)
  fix c
  assume "c \<in> set (rfc3339_nano t)"
  then have "(\<exists>w n. c \<in> set (pad w n)) \<or> c \<in> set ''-T:.Z''"
    by (auto simp: rfc3339_nano_def date_text_def clock_text_def frac_text_def Let_def split: prod.splits if_splits dest: set_dropWhileD)
  then show "byte_in 0 127 c" using pad_chars digit_ascii by (auto simp: byte_in_def)
qed

lemma job_field_names:
  "list_all valid_utf8 [''id'', ''type'', ''payload'', ''attempts'', ''max_retry'', ''created_at'']"
  "to_lower ''id'' = ''id''" "to_lower ''type'' = ''type''" "to_lower ''payload'' = ''payload''" "to_lower ''attempts'' = ''attempts''"
  "to_lower ''max_retry'' = ''max_retry''" "to_lower ''created_at'' = ''created_at''"
  by (simp_all add: valid_utf8_ascii byte_in_def to_lower_def byte_lower_def)

lemma decode_encode_job:
  assumes "job_ok j"
  shows "\<exists>data. job_Encode j = Inr data \<and> DecodeJob data = Inr j"
proof -
  obtain v where v: "jb_Payload j = Some v" "wf_json v" using assms by (auto simp: job_ok_def split: option.splits)
  have "wf_json (job_json j)"
    using assms v job_field_names(1) by (auto simp: job_json_def job_ok_def scan_num_itoa time_text_valid)
  then have p: "parse_json (print_json (job_json j)) = Some (job_json j)" by (rule parse_json_print_json)
  have n: "atoi (itoa (jb_Attempts j)) = Some (jb_Attempts j)" "atoi (itoa (jb_MaxRetry j)) = Some (jb_MaxRetry j)"
    using assms by (simp_all add: job_ok_def atoi_itoa)
  have t: "parse_rfc3339 (rfc3339_nano (jb_CreatedAt j)) = Some (jb_CreatedAt j)"
    using assms by (simp add: job_ok_def rfc3339_roundtrip)
  have "unmarshal_job (job_json j) = Some j"
    using v n t
    by (simp add: unmarshal_job_def job_json_def dec_string_def set_int_def field_values_def job_field_names(2-) assign_string_def assign_int_def
        assign_time_def)
  with p assms show ?thesis by (auto simp: job_Encode_def DecodeJob_def job_ok_def)
qed

section \<open>What happens to a job\<close>

definition attempt :: "Job \<Rightarrow> nat \<Rightarrow> Job" where
  "attempt j i = j\<lparr>jb_Attempts := jb_Attempts j + int i\<rparr>"

text \<open>The first \<open>i\<close> attempts failed and were followed by a retry; the job has come to an end at some attempt.\<close>

definition retried :: "outcome list \<Rightarrow> Job \<Rightarrow> nat \<Rightarrow> bool" where
  "retried log j i \<longleftrightarrow> (\<forall>k \<in> {1..i}. \<exists>delay data. Retrying (attempt j k) delay data \<in> set log)"

definition settled :: "outcome list \<Rightarrow> Job \<Rightarrow> bool" where
  "settled log j \<longleftrightarrow> (\<exists>i. retried log j i \<and>
     (Completed (attempt j (Suc i)) \<in> set log \<or>
      Exhausted (attempt j (Suc i)) \<in> set log \<and> jb_MaxRetry j \<le> jb_Attempts j + int (Suc i)))"

definition carried :: "string list \<Rightarrow> outcome list \<Rightarrow> Job \<Rightarrow> bool" where
  "carried ms log j \<longleftrightarrow> (\<exists>i. retried log j i \<and> job_ok (attempt j i) \<and> (\<exists>m \<in> set ms. DecodeJob m = Inr (attempt j i)))"

definition msgs_ok :: "string list \<Rightarrow> bool" where
  "msgs_ok ms \<longleftrightarrow> (\<forall>m \<in> set ms. \<forall>j. DecodeJob m = Inr j \<longrightarrow> job_ok j)"

text \<open>The number of steps that a message can still cause.\<close>

definition weight :: "string \<Rightarrow> nat" where
  "weight m = (case DecodeJob m of Inl _ \<Rightarrow> 1 | Inr j \<Rightarrow> 2 * nat (jb_MaxRetry j - jb_Attempts j) + 1)"

definition potential :: "('q, 'h) wsystem \<Rightarrow> nat" where
  "potential s = sum_list (map weight (sy_msgs s)) + sum_list (map (\<lambda>m. weight m + 1) (sy_retries s))"

lemma attempt_simps [simp]:
  "attempt j 0 = j" "attempt (attempt j i) k = attempt j (i + k)" "jb_Type (attempt j i) = jb_Type j"
  "jb_MaxRetry (attempt j i) = jb_MaxRetry j" "jb_Attempts (attempt j i) = jb_Attempts j + int i"
  by (simp_all add: attempt_def)

lemma increment_attempt: "job_ok j \<Longrightarrow> IncrementAttempts j = attempt j 1"
  by (simp add: job_ok_def IncrementAttempts_def attempt_def int64_id)

lemma job_ok_attempt: "job_ok j \<Longrightarrow> CanRetry (attempt j 1) \<Longrightarrow> job_ok (attempt j 1)"
  by (simp add: job_ok_def CanRetry_def attempt_def)

lemma retried_mono: "retried log j i \<Longrightarrow> set log \<subseteq> set log' \<Longrightarrow> retried log' j i"
  unfolding retried_def by (meson subsetD)

lemma settled_mono: "settled log j \<Longrightarrow> set log \<subseteq> set log' \<Longrightarrow> settled log' j"
  unfolding settled_def using retried_mono by (meson subsetD)

lemma carried_mono: "carried ms log j \<Longrightarrow> set ms \<subseteq> set ms' \<Longrightarrow> set log \<subseteq> set log' \<Longrightarrow> carried ms' log' j"
  unfolding carried_def using retried_mono by (meson subsetD)

text \<open>The outcomes of a message that carries a job with a handler.\<close>

lemma handle_job:
  assumes "handleMessage w ctx m h = ((err, out), h')" and "DecodeJob m = Inr j" and "job_ok j" and "wk_handlers w (jb_Type j) = Some hnd"
  shows "err = None \<and> (out = Completed (attempt j 1) \<or> out = Exhausted (attempt j 1) \<and> jb_MaxRetry j \<le> jb_Attempts j + 1 \<or>
    (\<exists>delay data. out = Retrying (attempt j 1) delay data \<and> DecodeJob data = Inr (attempt j 1) \<and> job_ok (attempt j 1) \<and>
       jb_Attempts j + 1 < jb_MaxRetry j))"
proof -
  have "job_ok (attempt j 1) \<and> (\<exists>data. job_Encode (attempt j 1) = Inr data \<and> DecodeJob data = Inr (attempt j 1))"
    if "CanRetry (attempt j 1)"
    using job_ok_attempt [OF assms(3) that] decode_encode_job by blast
  with assms show ?thesis
    by (auto simp: handleMessage_def Let_def increment_attempt retryJob_def CanRetry_def
        split: prod.splits option.splits if_splits)
qed

lemma handle_acks: "handleMessage w ctx m h = ((err, out), h') \<Longrightarrow> err = None"
  by (auto simp: handleMessage_def Let_def split: sum.splits option.splits prod.splits)

lemma handle_any:
  assumes "handleMessage w ctx m h = ((err, out), h')" and "\<And>j. DecodeJob m = Inr j \<Longrightarrow> job_ok j"
  shows "err = None \<and> msgs_ok (retry_of out) \<and> sum_list (map (\<lambda>m. weight m + 1) (retry_of out)) < weight m"
proof (cases "\<exists>j hnd. DecodeJob m = Inr j \<and> wk_handlers w (jb_Type j) = Some hnd")
  case True
  then obtain j hnd where j: "DecodeJob m = Inr j" "wk_handlers w (jb_Type j) = Some hnd" by blast
  from handle_job [OF assms(1) j(1) assms(2) [OF j(1)] j(2)] show ?thesis
    using j(1) by (auto simp: msgs_ok_def weight_def)
next
  case False
  have "1 \<le> weight m" by (auto simp: weight_def split: sum.split)
  with False assms show ?thesis
    by (auto simp: handleMessage_def Let_def IncrementAttempts_def msgs_ok_def split: sum.splits option.splits prod.splits)
qed

lemma handle_carried:
  assumes "handleMessage w ctx m h = ((err, out), h')" and "DecodeJob m = Inr (attempt j i)" and "job_ok (attempt j i)"
    and "wk_handlers w (jb_Type j) = Some hnd" and "retried log j i"
  shows "carried (retry_of out) (log @ [out]) j \<or> settled (log @ [out]) j"
proof -
  have r: "retried (log @ [out]) j i" using assms(5) by (rule retried_mono) auto
  have next_try: "retried (log @ [out]) j (Suc i)" if "out = Retrying (attempt j (Suc i)) delay data" for delay data
    using r that unfolding retried_def by (auto simp: atLeastAtMostSuc_conv)
  from handle_job [OF assms(1-3)] assms(4) consider "out = Completed (attempt j (Suc i))"
    | "out = Exhausted (attempt j (Suc i))" "jb_MaxRetry j \<le> jb_Attempts j + int (Suc i)"
    | delay data where "out = Retrying (attempt j (Suc i)) delay data" "DecodeJob data = Inr (attempt j (Suc i))" "job_ok (attempt j (Suc i))"
    by (force simp: algebra_simps)
  then show ?thesis
  proof cases
    case (3 delay data)
    then have "carried (retry_of out) (log @ [out]) j" using next_try by (auto simp: carried_def)
    then show ?thesis ..
  qed (use r in \<open>auto simp: settled_def intro!: exI [of _ i]\<close>)
qed

section \<open>Every step keeps every job\<close>

definition accounted :: "Job \<Rightarrow> ('q, 'h) wsystem \<Rightarrow> bool" where
  "accounted j s \<longleftrightarrow> carried (sy_msgs s @ sy_retries s @ sy_lost s) (sy_log s) j \<or> settled (sy_log s) j"

lemma deliver_accounted:
  assumes "accounted j s" and "sy_msgs s = xs @ m # ys" and "handleMessage w ctx m h = ((err, out), h')"
    and "wk_handlers w (jb_Type j) = Some hnd"
  shows "carried ((xs @ ys) @ (sy_retries s @ retry_of out) @ sy_lost s) (sy_log s @ [out]) j \<or> settled (sy_log s @ [out]) j"
proof -
  let ?log = "sy_log s @ [out]" and ?ms = "(xs @ ys) @ (sy_retries s @ retry_of out) @ sy_lost s"
  have sub: "set (sy_log s) \<subseteq> set ?log" by auto
  have "carried ?ms ?log j \<or> settled ?log j" if c: "carried (sy_msgs s @ sy_retries s @ sy_lost s) (sy_log s) j"
  proof -
    from c obtain i m1 where m1: "retried (sy_log s) j i" "m1 \<in> set (sy_msgs s @ sy_retries s @ sy_lost s)"
        "DecodeJob m1 = Inr (attempt j i)" "job_ok (attempt j i)"
      unfolding carried_def by blast
    show ?thesis
    proof (cases "m1 = m")
      case True
      then have "carried (retry_of out) ?log j \<or> settled ?log j"
        using handle_carried [OF assms(3) _ m1(4) assms(4) m1(1)] m1(3) by simp
      moreover have "set (retry_of out) \<subseteq> set ?ms" by auto
      ultimately show ?thesis using carried_mono [of "retry_of out" ?log j ?ms ?log] by blast
    next
      case False
      then have "m1 \<in> set ?ms" using m1(2) assms(2) by auto
      then show ?thesis using m1 retried_mono [OF m1(1) sub] unfolding carried_def by blast
    qed
  qed
  moreover have "settled (sy_log s) j \<Longrightarrow> settled ?log j" using settled_mono sub by blast
  ultimately show ?thesis using assms(1) unfolding accounted_def by blast
qed

lemma accounted_sub:
  assumes "accounted j s" and "set (sy_msgs s @ sy_retries s @ sy_lost s) \<subseteq> set (sy_msgs s' @ sy_retries s' @ sy_lost s')"
    and "sy_log s' = sy_log s"
  shows "accounted j s'"
  using assms carried_mono [OF _ assms(2), of "sy_log s" j] by (auto simp: accounted_def)

lemma wstep_accounted:
  assumes "wstep w l s s'" and "accounted j s" and "wk_handlers w (jb_Type j) = Some hnd"
  shows "accounted j s'"
  using assms(1)
proof cases
  case (deliver xs m ys err out h')
  from deliver_accounted [OF assms(2) deliver(4,5) assms(3)] handle_acks [OF deliver(5)] deliver show ?thesis
    by (simp add: accounted_def)
qed (auto intro!: accounted_sub [OF assms(2)])

lemma wrun_accounted:
  "wrun w s ls s' \<Longrightarrow> accounted j s \<Longrightarrow> wk_handlers w (jb_Type j) = Some hnd \<Longrightarrow> accounted j s'"
  by (induction rule: wrun.induct) (auto intro: wstep_accounted)

section \<open>Cancellation\<close>

lemma wstep_cancelled: "wstep w l s s' \<Longrightarrow> sy_cancelled s' \<longleftrightarrow> sy_cancelled s \<or> l = Cancel"
  by (auto elim: wstep.cases)

lemma wrun_cancelled: "wrun w s ls s' \<Longrightarrow> \<not> sy_cancelled s \<Longrightarrow> sy_cancelled s' \<longleftrightarrow> Cancel \<in> set ls"
  by (induction rule: wrun.induct) (auto dest: wstep_cancelled)

lemma retry_wakes_open:
  assumes "\<And>now d q. fst (q_Publish (wk_queue w) now None (wk_exchange w) (wk_queueName w) d q) = None" and "\<not> sy_cancelled s"
  shows "\<exists>q'. retry_wakes w now (worker_ctx s) d (sy_q s) = (True, q')"
  using assms(2) assms(1) [of now d "sy_q s"]
  by (cases "q_Publish (wk_queue w) now None (wk_exchange w) (wk_queueName w) d (sy_q s)") (simp add: retry_wakes_def worker_ctx_def)

lemma wstep_lost:
  assumes "wstep w l s s'" and "\<not> sy_cancelled s"
    and "\<And>now d q. fst (q_Publish (wk_queue w) now None (wk_exchange w) (wk_queueName w) d q) = None"
  shows "sy_lost s' = sy_lost s"
  using assms(1)
proof cases
  case (drop xs d ys now q')
  with retry_wakes_open [OF assms(3,2), of now d] show ?thesis by simp
qed auto

lemma wrun_lost:
  "wrun w s ls s' \<Longrightarrow> sy_lost s = [] \<Longrightarrow> \<not> sy_cancelled s \<Longrightarrow>
   (\<And>now d q. fst (q_Publish (wk_queue w) now None (wk_exchange w) (wk_queueName w) d q) = None) \<Longrightarrow> \<not> sy_cancelled s' \<Longrightarrow> sy_lost s' = []"
proof (induction rule: wrun.induct)
  case (snoc s ls s1 l s2)
  have "\<not> sy_cancelled s1" using wstep_cancelled [OF snoc(2)] snoc.prems(4) by simp
  then show ?case using snoc.IH [OF snoc.prems(1-3)] wstep_lost [OF snoc(2) _ snoc.prems(3)] by simp
qed simp

lemma wrun_no_republish:
  "wrun w s ls s' \<Longrightarrow> \<not> sy_cancelled s \<Longrightarrow> ls = before @ Cancel # after \<Longrightarrow> Republish \<notin> set after"
proof (induction arbitrary: after rule: wrun.induct)
  case (snoc s ls s1 l s2)
  show ?case
  proof (cases after rule: rev_cases)
    case (snoc after' l')
    with snoc.prems(2) have ls: "ls = before @ Cancel # after'" "l' = l" by auto
    then have "sy_cancelled s1" using wrun_cancelled [OF \<open>wrun w s ls s1\<close> snoc.prems(1)] by simp
    then have "l \<noteq> Republish" using \<open>wstep w l s1 s2\<close> by (auto elim!: wstep.cases simp: retry_wakes_def worker_ctx_def)
    then show ?thesis using snoc.IH [OF snoc.prems(1) ls(1)] ls snoc by auto
  qed simp
qed simp

section \<open>Every step of a running worker counts\<close>

abbreviation live :: "wlabel set" where "live \<equiv> {Deliver, Republish}"

lemma wstep_live:
  assumes "wstep w l s s'" and "l \<in> live" and "msgs_ok (sy_msgs s @ sy_retries s)"
  shows "msgs_ok (sy_msgs s' @ sy_retries s') \<and> potential s' < potential s \<and> sy_lost s' = sy_lost s \<and>
    sy_cancelled s' = sy_cancelled s \<and> sy_delivering s' = sy_delivering s"
  using assms(1)
proof cases
  case (deliver xs m ys err out h')
  have "err = None \<and> msgs_ok (retry_of out) \<and> sum_list (map (\<lambda>m. weight m + 1) (retry_of out)) < weight m"
    using deliver assms(3) by (intro handle_any [OF deliver(5)]) (simp add: msgs_ok_def)
  with deliver assms(3) show ?thesis by (auto simp: msgs_ok_def potential_def)
next
  case (republish xs d ys now q')
  with assms(3) show ?thesis by (auto simp: msgs_ok_def potential_def)
qed (use assms(2) in auto)

lemma wrun_live:
  "wrun w s ls s' \<Longrightarrow> set ls \<subseteq> live \<Longrightarrow> msgs_ok (sy_msgs s @ sy_retries s) \<Longrightarrow>
   msgs_ok (sy_msgs s' @ sy_retries s') \<and> length ls + potential s' \<le> potential s \<and> sy_lost s' = sy_lost s \<and>
   sy_cancelled s' = sy_cancelled s \<and> sy_delivering s' = sy_delivering s"
proof (induction rule: wrun.induct)
  case (snoc s ls s1 l s2)
  then show ?case using wstep_live [of w l s1 s2] by auto
qed simp

lemma live_progress:
  assumes "0 < sy_delivering s" and "\<not> sy_cancelled s" and "sy_msgs s \<noteq> [] \<or> sy_retries s \<noteq> []"
    and "\<And>now d q. fst (q_Publish (wk_queue w) now None (wk_exchange w) (wk_queueName w) d q) = None"
  shows "\<exists>l s'. l \<in> live \<and> wstep w l s s'"
proof (cases "sy_msgs s")
  case (Cons m ms)
  obtain err out h' where "handleMessage w (worker_ctx s) m (sy_h s) = ((err, out), h')" by (metis prod.exhaust)
  with deliver [of s "[]" m ms w err out h'] assms(1) Cons show ?thesis by auto
next
  case Nil
  then obtain d ds where d: "sy_retries s = d # ds" using assms(3) by (cases "sy_retries s") auto
  obtain q' where "retry_wakes w 0 (worker_ctx s) d (sy_q s) = (True, q')" using retry_wakes_open [OF assms(4,2)] by blast
  with republish [of s "[]" d ds w 0 q'] d show ?thesis by auto
qed

lemma carried_start: "m \<in> set (sy_msgs s) \<Longrightarrow> DecodeJob m = Inr j \<Longrightarrow> job_ok j \<Longrightarrow> accounted j s"
  by (auto simp: accounted_def carried_def retried_def intro!: exI [of _ 0])

text \<open>A handler that fails once, a worker over the no-op queue, and a job that may be tried three times.\<close>

definition flaky :: "nat job_handler" where
  "flaky ctx job n = (if n = 0 then Some (ErrText ''not yet'') else None, Suc n)"

definition flaky_worker :: "(unit, nat) Worker" where
  "flaky_worker = RegisterHandler ''t'' flaky (worker_New NoOpQueue \<lparr>wc_QueueName = '''', wc_Exchange = '''', wc_Concurrency = 1\<rparr>)"

definition flaky_job :: Job where
  "flaky_job = \<lparr>jb_ID = ''7'', jb_Type = ''t'', jb_Payload = Some JNull, jb_Attempts = 0, jb_MaxRetry = 3, jb_CreatedAt = 0\<rparr>"

definition flaky_system :: "string \<Rightarrow> (unit, nat) wsystem" where
  "flaky_system m = \<lparr>sy_q = (), sy_h = 0, sy_msgs = [m], sy_retries = [], sy_waiting = 1, sy_delivering = 1, sy_cancelled = False,
     sy_log = [], sy_lost = []\<rparr>"

lemma flaky_ok: "job_ok flaky_job" "job_ok (attempt flaky_job 1)"
proof -
  have "year_of 0 = 1970" by code_simp
  then show "job_ok flaky_job" "job_ok (attempt flaky_job 1)"
    by (simp_all add: job_ok_def flaky_job_def attempt_def valid_utf8_ascii byte_in_def)
qed

lemma flaky_publishes: "fst (q_Publish (wk_queue flaky_worker) now None (wk_exchange flaky_worker) (wk_queueName flaky_worker) d q) = None"
  by (simp add: flaky_worker_def RegisterHandler_def worker_New_def NoOpQueue_def)

lemma flaky_runs:
  obtains m d s1 s3 where "DecodeJob m = Inr flaky_job" and "DecodeJob d = Inr (attempt flaky_job 1)"
    and "wrun flaky_worker (flaky_system m) [Deliver] s1" and "sy_retries s1 = [d]" and "\<not> sy_cancelled s1" and "sy_waiting s1 = 1"
    and "wrun flaky_worker (flaky_system m) [Deliver, Republish, Deliver] s3" and "sy_msgs s3 = []" and "sy_retries s3 = []"
proof -
  obtain m where m: "DecodeJob m = Inr flaky_job" using decode_encode_job [OF flaky_ok(1)] by blast
  obtain d where d: "job_Encode (attempt flaky_job 1) = Inr d" "DecodeJob d = Inr (attempt flaky_job 1)"
    using decode_encode_job [OF flaky_ok(2)] by blast
  have h: "wk_handlers flaky_worker (jb_Type flaky_job) = Some flaky"
    by (simp add: flaky_worker_def RegisterHandler_def flaky_job_def)
  have retry: "CanRetry (attempt flaky_job 1)" by (simp add: CanRetry_def flaky_job_def)
  let ?out = "Retrying (attempt flaky_job 1) (retry_delay (attempt flaky_job 1)) d"
  have h1: "handleMessage flaky_worker None m 0 = ((None, ?out), 1)"
    using m d(1) h retry by (simp add: handleMessage_def Let_def increment_attempt [OF flaky_ok(1)] flaky_def retryJob_def)
  have h2: "handleMessage flaky_worker None d 1 = ((None, Completed (attempt flaky_job 2)), 2)"
    using d(2) h by (simp add: handleMessage_def Let_def increment_attempt [OF flaky_ok(2), simplified] flaky_def numeral_2_eq_2)
  let ?s0 = "flaky_system m"
  let ?s1 = "?s0\<lparr>sy_msgs := [], sy_h := 1, sy_log := [?out], sy_retries := [d]\<rparr>"
  let ?s2 = "?s1\<lparr>sy_retries := [], sy_msgs := [d]\<rparr>"
  let ?s3 = "?s2\<lparr>sy_msgs := [], sy_h := 2, sy_log := [?out, Completed (attempt flaky_job 2)]\<rparr>"
  have st1: "wstep flaky_worker Deliver ?s0 ?s1"
    using deliver [of ?s0 "[]" m "[]" flaky_worker None ?out 1] h1 by (simp add: flaky_system_def worker_ctx_def)
  have "retry_wakes flaky_worker 0 None d () = (True, ())" by (simp add: retry_wakes_def flaky_worker_def RegisterHandler_def worker_New_def NoOpQueue_def)
  then have st2: "wstep flaky_worker Republish ?s1 ?s2"
    using republish [of ?s1 "[]" d "[]" flaky_worker 0 "()"] by (simp add: flaky_system_def worker_ctx_def)
  have st3: "wstep flaky_worker Deliver ?s2 ?s3"
    using deliver [of ?s2 "[]" d "[]" flaky_worker None "Completed (attempt flaky_job 2)" 2] h2 by (simp add: flaky_system_def worker_ctx_def)
  have r1: "wrun flaky_worker ?s0 [Deliver] ?s1" using snoc [OF start st1] by simp
  have "wrun flaky_worker ?s0 [Deliver, Republish, Deliver] ?s3" using snoc [OF snoc [OF r1 st2] st3] by simp
  with that [of m d ?s1 ?s3] m d r1 show thesis by (simp add: flaky_system_def)
qed

section \<open>Properties\<close>

text \<open>
  C26. A running worker brings every job to an end. Let the messages of the queue be well-formed jobs or garbage, let
  publishing succeed and let nobody shut the worker down. Then every run of deliveries and retries, in any order, takes
  at most a number of steps that the remaining attempts bound. When no such step is possible any more, the queue is
  empty and no retry waits, and every job with a handler was tried again and again until it succeeded or was given
  up after its last attempt.
\<close>

theorem jobs_come_to_an_end:
  assumes "msgs_ok (sy_msgs s)" and "sy_retries s = []" and "0 < sy_delivering s" and "\<not> sy_cancelled s" and "sy_lost s = []"
    and "\<And>now d q. fst (q_Publish (wk_queue w) now None (wk_exchange w) (wk_queueName w) d q) = None"
    and "wrun w s ls s'" and "set ls \<subseteq> {Deliver, Republish}"
  shows "length ls \<le> sum_list (map weight (sy_msgs s)) \<and>
    ((\<forall>l s''. l \<in> {Deliver, Republish} \<longrightarrow> \<not> wstep w l s' s'') \<longrightarrow> sy_msgs s' = [] \<and> sy_retries s' = [] \<and>
       (\<forall>m \<in> set (sy_msgs s). \<forall>j hnd. DecodeJob m = Inr j \<and> wk_handlers w (jb_Type j) = Some hnd \<longrightarrow> settled (sy_log s') j))"
proof (intro conjI impI)
  note run = wrun_live [OF assms(7,8)]
  have ok: "msgs_ok (sy_msgs s @ sy_retries s)" using assms(1,2) by (simp add: msgs_ok_def)
  show "length ls \<le> sum_list (map weight (sy_msgs s))" using run [OF ok] assms(2) by (simp add: potential_def)
  assume "\<forall>l s''. l \<in> {Deliver, Republish} \<longrightarrow> \<not> wstep w l s' s''"
  then show empty: "sy_msgs s' = []" "sy_retries s' = []" using live_progress [OF _ _ _ assms(6), of s'] run [OF ok] assms(3,4) by auto
  show "\<forall>m \<in> set (sy_msgs s). \<forall>j hnd. DecodeJob m = Inr j \<and> wk_handlers w (jb_Type j) = Some hnd \<longrightarrow> settled (sy_log s') j"
  proof (intro ballI allI impI, elim conjE)
    fix m j hnd
    assume m: "m \<in> set (sy_msgs s)" "DecodeJob m = Inr j" "wk_handlers w (jb_Type j) = Some hnd"
    then have "accounted j s" using assms(1) by (intro carried_start [OF m(1,2)]) (simp add: msgs_ok_def)
    then have "accounted j s'" using wrun_accounted assms(7) m(3) by blast
    then show "settled (sy_log s') j" using empty run [OF ok] assms(5) by (simp add: accounted_def carried_def)
  qed
qed

lemma jobs_come_to_an_end_witness:
  "\<exists>m s'. DecodeJob m = Inr flaky_job \<and> wrun flaky_worker (flaky_system m) [Deliver, Republish, Deliver] s' \<and>
     length [Deliver, Republish, Deliver] \<le> weight m \<and> settled (sy_log s') flaky_job"
proof -
  obtain m d s1 s3 where m: "DecodeJob m = Inr flaky_job" and run: "wrun flaky_worker (flaky_system m) [Deliver, Republish, Deliver] s3"
    and s3: "sy_msgs s3 = []" "sy_retries s3 = []" by (rule flaky_runs)
  have pre: "msgs_ok (sy_msgs (flaky_system m))" "sy_retries (flaky_system m) = []" "0 < sy_delivering (flaky_system m)"
    "\<not> sy_cancelled (flaky_system m)" "sy_lost (flaky_system m) = []" "set [Deliver, Republish, Deliver] \<subseteq> {Deliver, Republish}"
    using m flaky_ok(1) by (simp_all add: flaky_system_def msgs_ok_def)
  have stuck: "\<forall>l s''. l \<in> {Deliver, Republish} \<longrightarrow> \<not> wstep flaky_worker l s3 s''" using s3 by (auto elim: wstep.cases)
  have h: "wk_handlers flaky_worker (jb_Type flaky_job) = Some flaky" by (simp add: flaky_worker_def RegisterHandler_def flaky_job_def)
  from jobs_come_to_an_end [OF pre(1-5) flaky_publishes run pre(6)] stuck h m run show ?thesis
    by (intro exI [of _ m] exI [of _ s3]) (auto simp: flaky_system_def)
qed

text \<open>
  C27. Only a shutdown loses a job. Let publishing succeed, and let other messages arrive at any time. In every run from
  a worker that is not shut down, a job with a handler is in the queue, waits for its retry, has come to an end, or its
  retry was dropped, and the last happens only after the context was cancelled. After the cancellation no retry is
  published, and the shutdown reports success only when no retry waits and all consumers have stopped.
\<close>

theorem jobs_lost_only_by_shutdown:
  assumes "m \<in> set (sy_msgs s)" and "DecodeJob m = Inr j" and "job_ok j" and "wk_handlers w (jb_Type j) = Some hnd"
    and "sy_lost s = []" and "\<not> sy_cancelled s" and "wrun w s ls s'"
    and "\<And>now d q. fst (q_Publish (wk_queue w) now None (wk_exchange w) (wk_queueName w) d q) = None"
  shows "(carried (sy_msgs s' @ sy_retries s') (sy_log s') j \<or> settled (sy_log s') j \<or>
      Cancel \<in> set ls \<and> carried (sy_lost s') (sy_log s') j) \<and>
    (\<forall>before after. ls = before @ Cancel # after \<longrightarrow> Republish \<notin> set after) \<and>
    (None \<in> Shutdown_returns ctx s' \<longrightarrow> sy_retries s' = [] \<and> sy_waiting s' = 0)"
proof (intro conjI)
  have "accounted j s'" using wrun_accounted [OF assms(7) carried_start [OF assms(1-3)] assms(4)] .
  moreover have "sy_lost s' \<noteq> [] \<longrightarrow> Cancel \<in> set ls" using wrun_cancelled [OF assms(7,6)] wrun_lost [OF assms(7,5,6,8)] by blast
  ultimately show "carried (sy_msgs s' @ sy_retries s') (sy_log s') j \<or> settled (sy_log s') j \<or>
      Cancel \<in> set ls \<and> carried (sy_lost s') (sy_log s') j"
    by (auto simp: accounted_def carried_def)
  show "\<forall>before after. ls = before @ Cancel # after \<longrightarrow> Republish \<notin> set after"
    using wrun_no_republish [OF assms(7,6)] by blast
  show "None \<in> Shutdown_returns ctx s' \<longrightarrow> sy_retries s' = [] \<and> sy_waiting s' = 0"
    by (auto simp: Shutdown_returns_def wait_group_def split: if_splits)
qed

lemma jobs_lost_only_by_shutdown_witness:
  "\<exists>m s'. DecodeJob m = Inr flaky_job \<and> wrun flaky_worker (flaky_system m) [Deliver, Cancel, ConsumerDone, Drop] s' \<and>
     None \<in> Shutdown_returns None s' \<and> sy_retries s' = [] \<and> sy_lost s' \<noteq> []"
proof -
  obtain m d s1 where m: "DecodeJob m = Inr flaky_job" and run: "wrun flaky_worker (flaky_system m) [Deliver] s1"
    and s1: "sy_retries s1 = [d]" "sy_waiting s1 = 1" by (rule flaky_runs)
  let ?s2 = "s1\<lparr>sy_cancelled := True\<rparr>"
  let ?s3 = "?s2\<lparr>sy_waiting := 0\<rparr>"
  let ?s4 = "?s3\<lparr>sy_q := (), sy_retries := [], sy_lost := sy_lost s1 @ [d]\<rparr>"
  have "wstep flaky_worker ConsumerDone ?s2 ?s3" using consumer_done [of ?s2 0 flaky_worker] s1 by simp
  moreover have "wstep flaky_worker Drop ?s3 ?s4"
    using wstep.drop [of ?s3 "[]" d "[]" flaky_worker 0 "()"] s1 by (simp add: retry_wakes_def worker_ctx_def)
  ultimately have run4: "wrun flaky_worker (flaky_system m) [Deliver, Cancel, ConsumerDone, Drop] ?s4"
    using snoc [OF snoc [OF snoc [OF run cancel]]] by simp
  have pre: "m \<in> set (sy_msgs (flaky_system m))" "sy_lost (flaky_system m) = []" "\<not> sy_cancelled (flaky_system m)"
    by (simp_all add: flaky_system_def)
  have h: "wk_handlers flaky_worker (jb_Type flaky_job) = Some flaky" by (simp add: flaky_worker_def RegisterHandler_def flaky_job_def)
  have "None \<in> Shutdown_returns None ?s4" by (simp add: Shutdown_returns_def wait_group_def)
  moreover from jobs_lost_only_by_shutdown [OF pre(1) m flaky_ok(1) h pre(2,3) run4 flaky_publishes, of None] this
  have "sy_retries ?s4 = []" by blast
  ultimately show ?thesis using m run4 by (intro exI [of _ m] exI [of _ ?s4]) simp
qed

end
