(* ===== verification/Jobs.thy ===== *)
theory Jobs
  imports Worker Audit_Log Validator Middleware_Auth
begin

text \<open>
  The jobs of the service: the mail port \<^verbatim>\<open>src/internal/port/email.go\<close> with its senders \<^verbatim>\<open>src/internal/adapter/email/smtp.go\<close> and
  \<^verbatim>\<open>noop.go\<close>, the handlers of \<^verbatim>\<open>src/internal/worker/handlers\<close>, the wiring in \<^verbatim>\<open>src/cmd/worker/main.go\<close>, and the module
  \<^verbatim>\<open>src/internal/module/job\<close> through which administrators dispatch jobs. The SMTP server is a parameter: the record
  \<open>smtp_client\<close> has the calls of \<^verbatim>\<open>net/smtp\<close> on the state \<^typ>\<open>'s\<close> of a connection. Log output is not modelled.
\<close>

section \<open>Mail\<close>

record EmailMessage =
  em_To :: "string list"
  em_CC :: "string list"
  em_BCC :: "string list"
  em_Subject :: string
  em_Body :: string
  em_IsHTML :: bool

type_synonym 's email_sender = "go_error option \<Rightarrow> EmailMessage \<Rightarrow> 's \<Rightarrow> go_error option \<times> 's"

definition NoOpSender_Send :: "'s email_sender" where
  "NoOpSender_Send ctx msg s = (None, s)"

record SMTPConfig =
  sp_Host :: string
  sp_Port :: int
  sp_Username :: string
  sp_Password :: string
  sp_From :: string

text \<open>\<open>sm_CtxErr\<close> is the error of the context, with its deadline, after the exchange.\<close>

record 's smtp_client =
  sm_Dial :: "string \<Rightarrow> 's \<Rightarrow> go_error option \<times> 's"
  sm_NewClient :: "string \<Rightarrow> 's \<Rightarrow> go_error option \<times> 's"
  sm_Hello :: "string \<Rightarrow> 's \<Rightarrow> go_error option \<times> 's"
  sm_Extension :: "string \<Rightarrow> 's \<Rightarrow> bool"
  sm_StartTLS :: "string \<Rightarrow> 's \<Rightarrow> go_error option \<times> 's"
  sm_Auth :: "string \<times> string \<times> string \<Rightarrow> 's \<Rightarrow> go_error option \<times> 's"
  sm_Mail :: "string \<Rightarrow> 's \<Rightarrow> go_error option \<times> 's"
  sm_Rcpt :: "string \<Rightarrow> 's \<Rightarrow> go_error option \<times> 's"
  sm_Data :: "'s \<Rightarrow> go_error option \<times> 's"
  sm_Write :: "string \<Rightarrow> 's \<Rightarrow> go_error option \<times> 's"
  sm_CloseData :: "'s \<Rightarrow> go_error option \<times> 's"
  sm_Quit :: "'s \<Rightarrow> go_error option \<times> 's"
  sm_Close :: "'s \<Rightarrow> go_error option \<times> 's"
  sm_CtxErr :: "'s \<Rightarrow> go_error option"

abbreviation CRLF :: string where "CRLF \<equiv> [CHR 0x0D, CHR 0x0A]"

definition mail_text :: "SMTPConfig \<Rightarrow> EmailMessage \<Rightarrow> string" where
  "mail_text cfg msg =
     ''From: '' @ sp_From cfg @ CRLF @
     ''To: '' @ join '', '' (em_To msg) @ CRLF @
     (if em_CC msg \<noteq> [] then ''Cc: '' @ join '', '' (em_CC msg) @ CRLF else '''') @
     ''Subject: '' @ em_Subject msg @ CRLF @
     (if em_IsHTML msg
      then ''MIME-Version: 1.0'' @ CRLF @ ''Content-Type: text/html; charset='' @ [CHR 0x22] @ ''UTF-8'' @ [CHR 0x22] @ CRLF
      else ''Content-Type: text/plain; charset='' @ [CHR 0x22] @ ''UTF-8'' @ [CHR 0x22] @ CRLF) @
     CRLF @ em_Body msg"

text \<open>A call, its error with a prefix, and what follows when it succeeds.\<close>

definition smtp_do :: "string \<Rightarrow> ('s \<Rightarrow> go_error option \<times> 's) \<Rightarrow> ('s \<Rightarrow> go_error option \<times> 's) \<Rightarrow> 's \<Rightarrow> go_error option \<times> 's" where
  "smtp_do pre call rest s = (case call s of (Some err, s') \<Rightarrow> (Some (errorf_w pre err), s') | (None, s') \<Rightarrow> rest s')"

fun rcpt_all :: "'s smtp_client \<Rightarrow> string list \<Rightarrow> ('s \<Rightarrow> go_error option \<times> 's) \<Rightarrow> 's \<Rightarrow> go_error option \<times> 's" where
  "rcpt_all cl [] rest s = rest s"
| "rcpt_all cl (rcpt # rcpts) rest s = smtp_do (''rcpt to '' @ quote rcpt) (sm_Rcpt cl rcpt) (rcpt_all cl rcpts rest) s"

definition smtp_body :: "'s smtp_client \<Rightarrow> string \<Rightarrow> 's \<Rightarrow> go_error option \<times> 's" where
  "smtp_body cl body =
     smtp_do ''data'' (sm_Data cl) (\<lambda>s.
       case sm_Write cl body s of
         (Some err, s1) \<Rightarrow> (Some (errorf_w ''write body'' err), snd (sm_CloseData cl s1))
       | (None, s1) \<Rightarrow> smtp_do ''close data'' (sm_CloseData cl) (\<lambda>s2. (sm_CtxErr cl s2, s2)) s1)"

definition smtp_exchange ::
  "'s smtp_client \<Rightarrow> string \<Rightarrow> (string \<times> string \<times> string) option \<Rightarrow> string \<Rightarrow> string list \<Rightarrow> string \<Rightarrow> 's \<Rightarrow> go_error option \<times> 's" where
  "smtp_exchange cl host auth from_addr rcpts body =
     smtp_do ''hello'' (sm_Hello cl ''localhost'') (\<lambda>s1.
     smtp_do ''starttls'' (if sm_Extension cl ''STARTTLS'' s1 then sm_StartTLS cl host else Pair None) (\<lambda>s2.
     smtp_do ''auth'' (case auth of None \<Rightarrow> Pair None | Some a \<Rightarrow> if sm_Extension cl ''AUTH'' s2 then sm_Auth cl a else Pair None) (\<lambda>s3.
     smtp_do ''mail from'' (sm_Mail cl from_addr) (rcpt_all cl rcpts (smtp_body cl body)) s3) s2) s1)"

text \<open>The client ends the session however the exchange went.\<close>

definition smtp_quit :: "'s smtp_client \<Rightarrow> 's \<Rightarrow> 's" where
  "smtp_quit cl s = (case sm_Quit cl s of (Some err, s') \<Rightarrow> snd (sm_Close cl s') | (None, s') \<Rightarrow> s')"

definition sendMailContext ::
  "'s smtp_client \<Rightarrow> string \<Rightarrow> string \<Rightarrow> (string \<times> string \<times> string) option \<Rightarrow> string \<Rightarrow> string list \<Rightarrow> string \<Rightarrow> 's \<Rightarrow> go_error option \<times> 's" where
  "sendMailContext cl host addr auth from_addr rcpts body =
     smtp_do ''dial'' (sm_Dial cl addr) (\<lambda>s.
       case sm_NewClient cl host s of
         (Some err, s1) \<Rightarrow> (Some (errorf_w ''smtp client'' err), snd (sm_Close cl s1))
       | (None, s1) \<Rightarrow> map_prod id (smtp_quit cl) (smtp_exchange cl host auth from_addr rcpts body s1))"

definition SMTPSender_Send :: "'s smtp_client \<Rightarrow> SMTPConfig \<Rightarrow> 's email_sender" where
  "SMTPSender_Send cl cfg ctx msg s =
     (if em_To msg = [] then (Some (ErrText ''email recipient is required''), s)
      else
        (let addr = sp_Host cfg @ '':'' @ itoa (sp_Port cfg);
             recipients = em_To msg @ em_CC msg @ em_BCC msg;
             auth = (if sp_Username cfg \<noteq> '''' then Some (sp_Username cfg, sp_Password cfg, sp_Host cfg) else None)
         in case sendMailContext cl (sp_Host cfg) addr auth (sp_From cfg) recipients (mail_text cfg msg) s of
              (Some err, s') \<Rightarrow> (Some (errorf_w ''failed to send email via SMTP'' err), s')
            | (None, s') \<Rightarrow> (None, s')))"

section \<open>Handlers\<close>

text \<open>\<^verbatim>\<open>UnmarshalPayload\<close>: a nil payload is an error, a JSON null leaves the struct as it is.\<close>

definition UnmarshalPayload :: "((string \<times> json) list \<Rightarrow> 'p \<Rightarrow> 'p option) \<Rightarrow> 'p \<Rightarrow> Job \<Rightarrow> go_error + 'p" where
  "UnmarshalPayload dec zero job =
     (case jb_Payload job of
        None \<Rightarrow> Inl (ErrText ''unexpected end of JSON input'')
      | Some v \<Rightarrow> (case assign_struct dec v (Some zero) of None \<Rightarrow> Inl (ErrText ''json: cannot unmarshal'') | Some p \<Rightarrow> Inr p))"

record EmailPayload =
  ep_To :: string
  ep_Subject :: string
  ep_Body :: string
  ep_HTML :: bool

definition dec_EmailPayload :: "(string \<times> json) list \<Rightarrow> EmailPayload \<Rightarrow> EmailPayload option" where
  "dec_EmailPayload kvs p =
     Option.bind (set_string kvs ''to'' (ep_To p)) (\<lambda>t.
     Option.bind (set_string kvs ''subject'' (ep_Subject p)) (\<lambda>s.
     Option.bind (set_string kvs ''body'' (ep_Body p)) (\<lambda>b.
     Option.bind (set_bool kvs ''html'' (ep_HTML p)) (\<lambda>h.
     Some \<lparr>ep_To = t, ep_Subject = s, ep_Body = b, ep_HTML = h\<rparr>))))"

definition EmailHandler_Handle :: "'s email_sender \<Rightarrow> 's job_handler" where
  "EmailHandler_Handle send ctx job s =
     (case UnmarshalPayload dec_EmailPayload \<lparr>ep_To = '''', ep_Subject = '''', ep_Body = '''', ep_HTML = False\<rparr> job of
        Inl err \<Rightarrow> (Some (errorf_w ''failed to unmarshal email payload'' err), s)
      | Inr payload \<Rightarrow>
          if ep_To payload = '''' then (Some (ErrText ''email recipient is required''), s)
          else if ep_Subject payload = '''' then (Some (ErrText ''email subject is required''), s)
          else
            (let msg = \<lparr>em_To = [ep_To payload], em_CC = [], em_BCC = [], em_Subject = ep_Subject payload, em_Body = ep_Body payload,
                        em_IsHTML = ep_HTML payload\<rparr>
             in case send ctx msg s of
                  (Some err, s') \<Rightarrow> (Some (errorf_w ''failed to send email'' err), s')
                | (None, s') \<Rightarrow> (None, s')))"

text \<open>
  \<^verbatim>\<open>AddDate\<close> in UTC: the seconds of the instant are a 64-bit number. The statement deletes the rows whose identifier is
  among the first thousand that the subquery finds; the order of the rows in the table is arbitrary.
\<close>

definition cleanup_cutoff :: "go_time \<Rightarrow> int \<Rightarrow> go_time" where
  "cleanup_cutoff now retentionDays = int64 (now div second - 86400 * retentionDays) * second + now mod second"

definition delete_batch :: "go_time \<Rightarrow> audit_db \<Rightarrow> int \<times> audit_db" where
  "delete_batch cutoff d =
     (let ids = map ar_ID (take 1000 (filter (\<lambda>r. ar_CreatedAt r < cutoff) (ad_rows d)));
          rows = filter (\<lambda>r. ar_ID r \<notin> set ids) (ad_rows d)
      in (int (length (ad_rows d)) - int (length rows), d\<lparr>ad_rows := rows\<rparr>))"

lemma delete_batch_shrinks:
  assumes "delete_batch cutoff d = (n, d')" and "n \<noteq> 0"
  shows "length (ad_rows d') < length (ad_rows d)"
proof -
  obtain P where "ad_rows d' = filter P (ad_rows d)" "n = int (length (ad_rows d)) - int (length (filter P (ad_rows d)))"
    using assms(1) by (auto simp: delete_batch_def Let_def)
  then show ?thesis using assms(2) length_filter_le [of P "ad_rows d"] by (simp add: le_less)
qed

lemma audit_fault_rows: "audit_fault d = (e, d') \<Longrightarrow> ad_rows d' = ad_rows d"
  by (auto simp: audit_fault_def split: list.splits)

function cleanup_loop :: "go_time \<Rightarrow> int \<Rightarrow> audit_db \<Rightarrow> go_error option \<times> int \<times> audit_db" where
  "cleanup_loop cutoff totalDeleted d =
     (case audit_fault d of
        (Some err, d1) \<Rightarrow> (Some (errorf_w ''failed to delete old audit logs'' err), totalDeleted, d1)
      | (None, d1) \<Rightarrow>
          (case delete_batch cutoff d1 of (deletedInBatch, d2) \<Rightarrow>
             if deletedInBatch = 0 then (None, totalDeleted, d2)
             else cleanup_loop cutoff (totalDeleted + deletedInBatch) d2))"
  by pat_completeness auto
termination
  by (relation "measure (\<lambda>(cutoff, n, d). length (ad_rows d))") (auto dest!: delete_batch_shrinks [OF sym] audit_fault_rows [OF sym])

declare cleanup_loop.simps [simp del]

definition AuditCleanupHandler_Handle :: "go_time \<Rightarrow> audit_db job_handler" where
  "AuditCleanupHandler_Handle now ctx job d =
     (case UnmarshalPayload (\<lambda>kvs. set_int kvs ''retention_days'') 0 job of
        Inl err \<Rightarrow> (Some (errorf_w ''failed to unmarshal audit cleanup payload'' err), d)
      | Inr payload \<Rightarrow>
          (let retentionDays = (if payload \<le> 0 then 90 else payload) in
           case cleanup_loop (cleanup_cutoff now retentionDays) 0 d of (err, _, d') \<Rightarrow> (err, d')))"

section \<open>The worker process\<close>

definition on_mail :: "'s job_handler \<Rightarrow> ('s \<times> audit_db) job_handler" where
  "on_mail h ctx job w = (case h ctx job (fst w) of (err, s) \<Rightarrow> (err, s, snd w))"

definition on_audit :: "audit_db job_handler \<Rightarrow> ('s \<times> audit_db) job_handler" where
  "on_audit h ctx job w = (case h ctx job (snd w) of (err, d) \<Rightarrow> (err, fst w, d))"

text \<open>The outcomes of connecting to the database and to the queue, in this order, and the worker that is started.\<close>

definition worker_run ::
  "Config \<Rightarrow> go_error option \<Rightarrow> (Options \<Rightarrow> go_error + 'q queue) \<Rightarrow> 's smtp_client \<Rightarrow> go_time \<Rightarrow> go_error + ('q, 's \<times> audit_db) Worker" where
  "worker_run cfg pool_err connect cl now =
     (if \<not> rmq_Enabled (cfg_RabbitMQ cfg)
      then Inl (ErrText ''RabbitMQ must be enabled to run the worker. Set rabbitmq.enabled=true in config'')
      else (case pool_err of
        Some err \<Rightarrow> Inl (errorf_w ''failed to connect to database'' err)
      | None \<Rightarrow>
          (case connect \<lparr>op_PrefetchCount = rmq_PrefetchCount (cfg_RabbitMQ cfg), op_MaxReconnectTries = 0, op_ReconnectBaseDelay = 0,
                op_ReconnectMaxDelay = 0\<rparr> of
             Inl err \<Rightarrow> Inl (errorf_w ''failed to connect to RabbitMQ'' err)
           | Inr queue \<Rightarrow>
               (let queueName = (if wkc_QueueName (cfg_Worker cfg) = '''' then ''jobs'' else wkc_QueueName (cfg_Worker cfg));
                    concurrency = (if wkc_Concurrency (cfg_Worker cfg) \<le> 0 then 2 else wkc_Concurrency (cfg_Worker cfg));
                    w = worker_New queue \<lparr>wc_QueueName = queueName, wc_Exchange = wkc_Exchange (cfg_Worker cfg), wc_Concurrency = concurrency\<rparr>;
                    em = cfg_Email cfg;
                    emailSender = (if eml_Enabled em
                      then SMTPSender_Send cl \<lparr>sp_Host = eml_Host em, sp_Port = eml_Port em, sp_Username = eml_Username em,
                             sp_Password = eml_Password em, sp_From = eml_From em\<rparr>
                      else NoOpSender_Send)
                in Inr (RegisterHandler JobTypeAuditCleanup (on_audit (AuditCleanupHandler_Handle now))
                     (RegisterHandler JobTypeEmailSend (on_mail (EmailHandler_Handle emailSender)) w))))))"

section \<open>The job module\<close>

definition validJobTypes :: "(string \<times> string) list" where
  "validJobTypes = [(JobTypeEmailSend, ''Send an email to a recipient''), (JobTypeAuditCleanup, ''Clean up old audit log entries''),
     (JobTypeNotification, ''Send a notification to a user'')]"

record JobResponse =
  jr_ID :: string
  jr_Type :: string
  jr_Status :: string
  jr_CreatedAt :: string

record DispatchJobRequest =
  dj_Type :: string
  dj_Payload :: "json option"
  dj_MaxRetry :: "int option"

definition job_response_json :: "JobResponse \<Rightarrow> json" where
  "job_response_json r = JObj [(''id'', JStr (jr_ID r)), (''type'', JStr (jr_Type r)), (''status'', JStr (jr_Status r)),
     (''created_at'', JStr (jr_CreatedAt r))]"

text \<open>Two identifiers are generated: the one of the job and the one of the response.\<close>

definition uc_Dispatch ::
  "'q Publisher \<Rightarrow> go_time \<Rightarrow> string \<Rightarrow> string \<Rightarrow> go_error option \<Rightarrow> string \<Rightarrow> json option \<Rightarrow> int \<Rightarrow> 'q \<Rightarrow> (go_error + JobResponse) \<times> 'q" where
  "uc_Dispatch p now job_uuid resp_uuid ctx jobType payload maxRetry q =
     (if map_of validJobTypes jobType = None then (Inl (BadRequestf (''invalid job type: '' @ jobType)), q)
      else (case PublishWithRetry p job_uuid now ctx jobType (Inr (case payload of None \<Rightarrow> JNull | Some v \<Rightarrow> v)) maxRetry q of
              (Some err, q') \<Rightarrow> (Inl (Internalf (''failed to dispatch job: '' @ error_text err)), q')
            | (None, q') \<Rightarrow> (Inr \<lparr>jr_ID = resp_uuid, jr_Type = jobType, jr_Status = ''queued'', jr_CreatedAt = rfc3339 now\<rparr>, q')))"

definition uc_ListJobTypes :: json where
  "uc_ListJobTypes = JObj [(''types'', JArr (map (\<lambda>(t, desc). JObj [(''type'', JStr t), (''description'', JStr desc)]) validJobTypes))]"

text \<open>The module wires the decorator only when there is an auditor.\<close>

definition audited_Dispatch ::
  "'q Publisher \<Rightarrow> 'a auditor option \<Rightarrow> go_time \<Rightarrow> string \<Rightarrow> string \<Rightarrow> go_error option \<Rightarrow> go_context \<Rightarrow> string \<Rightarrow> json option \<Rightarrow> int \<Rightarrow> 'q \<times> 'a \<Rightarrow>
   (go_error + JobResponse) \<times> 'q \<times> 'a" where
  "audited_Dispatch p auo now job_uuid resp_uuid ctx uctx jobType payload maxRetry w =
     (case w of (q, a) \<Rightarrow>
      case uc_Dispatch p now job_uuid resp_uuid ctx jobType payload maxRetry q of
        (Inl err, q') \<Rightarrow> (Inl err, q', a)
      | (Inr resp, q') \<Rightarrow>
          (case auo of
             None \<Rightarrow> (Inr resp, q', a)
           | Some au \<Rightarrow>
               (let entry = (NewAuditEntry now uctx AuditActionCreate ''job'' (jr_ID resp))
                      \<lparr>ae_Metadata := [(''job_type'', JStr jobType), (''max_retry'', JNum (itoa maxRetry))]\<rparr>
                in (Inr resp, q', snd (au_Log au entry a)))))"

record ('q, 'a) job_module =
  jm_publisher :: "'q Publisher"
  jm_auditor :: "'a auditor option"
  jm_policy :: "string \<Rightarrow> string"
  jm_dispatch :: "DispatchJobRequest binding"

definition jh_Dispatch :: "('q, 'a) job_module \<Rightarrow> go_time \<Rightarrow> string \<Rightarrow> string \<Rightarrow> ('q \<times> 'a) handler" where
  "jh_Dispatch m now job_uuid resp_uuid w c =
     bound (ValidateAndBind (jm_policy m) (jm_dispatch m) c)
       (\<lambda>req w c.
          (let maxRetry = (case dj_MaxRetry req of None \<Rightarrow> 3 | Some n \<Rightarrow> n) in
           case audited_Dispatch (jm_publisher m) (jm_auditor m) now job_uuid resp_uuid None (user_ctx c) (dj_Type req) (dj_Payload req) maxRetry w of
             (Inl err, w') \<Rightarrow> with_state w' (Fail c err)
           | (Inr job, w') \<Rightarrow> with_state w' (Created c (job_response_json job)))) w c"

definition jh_ListTypes :: "('q \<times> 'a) handler" where
  "jh_ListTypes w c = with_state w (Success c uc_ListJobTypes)"

datatype job_route = PostDispatch | GetTypes

definition job_routes ::
  "jwt_api \<Rightarrow> string \<Rightarrow> 'z authorizer \<Rightarrow> ('q, 'a) job_module \<Rightarrow> go_time \<Rightarrow> string \<Rightarrow> string \<Rightarrow> job_route \<Rightarrow> ('z \<times> 'q \<times> 'a) handler" where
  "job_routes jwt jwtSecret az m now job_uuid resp_uuid r =
     Auth jwt now (DefaultAuthConfig jwtSecret)
       (RequireRole az ''admin''
          (behind (case r of PostDispatch \<Rightarrow> jh_Dispatch m now job_uuid resp_uuid | GetTypes \<Rightarrow> jh_ListTypes)))"

section \<open>Cleaning up\<close>

lemma filter_ids_distinct:
  assumes "distinct (map f rows)" and "set sel \<subseteq> set rows"
  shows "filter (\<lambda>r. f r \<notin> set (map f sel)) rows = filter (\<lambda>r. r \<notin> set sel) rows"
proof (rule filter_cong [OF refl])
  fix r
  assume "r \<in> set rows"
  then show "f r \<notin> set (map f sel) \<longleftrightarrow> r \<notin> set sel"
    using assms by (auto simp: distinct_map inj_on_def)
qed

lemma delete_batch_rows:
  assumes "distinct (map ar_ID (ad_rows d))" and "delete_batch cutoff d = (n, d')"
  shows "ad_rows d' = filter (\<lambda>r. r \<notin> set (take 1000 (filter (\<lambda>r. ar_CreatedAt r < cutoff) (ad_rows d)))) (ad_rows d)"
    and "n = int (length (ad_rows d)) - int (length (ad_rows d'))" and "ad_faults d' = ad_faults d"
proof -
  let ?sel = "take 1000 (filter (\<lambda>r. ar_CreatedAt r < cutoff) (ad_rows d))"
  have "set ?sel \<subseteq> set (ad_rows d)" by (auto dest: in_set_takeD)
  note sel = filter_ids_distinct [OF assms(1) this]
  show "ad_rows d' = filter (\<lambda>r. r \<notin> set ?sel) (ad_rows d)" "n = int (length (ad_rows d)) - int (length (ad_rows d'))" "ad_faults d' = ad_faults d"
    using assms(2) unfolding delete_batch_def Let_def sel by auto
qed

lemma delete_batch_keeps:
  assumes "distinct (map ar_ID (ad_rows d))" and "delete_batch cutoff d = (n, d')"
  shows "distinct (map ar_ID (ad_rows d'))"
    and "filter (\<lambda>r. cutoff \<le> ar_CreatedAt r) (ad_rows d') = filter (\<lambda>r. cutoff \<le> ar_CreatedAt r) (ad_rows d)"
    and "subseq (ad_rows d') (ad_rows d)"
    and "n = 0 \<Longrightarrow> ad_rows d' = filter (\<lambda>r. cutoff \<le> ar_CreatedAt r) (ad_rows d)"
proof -
  let ?old = "filter (\<lambda>r. ar_CreatedAt r < cutoff) (ad_rows d)"
  note rows = delete_batch_rows [OF assms]
  show "distinct (map ar_ID (ad_rows d'))" using assms(1) rows(1) distinct_map_filter by auto
  show "filter (\<lambda>r. cutoff \<le> ar_CreatedAt r) (ad_rows d') = filter (\<lambda>r. cutoff \<le> ar_CreatedAt r) (ad_rows d)"
    unfolding rows(1) filter_filter by (rule filter_cong) (auto dest: in_set_takeD)
  show "subseq (ad_rows d') (ad_rows d)" unfolding rows(1) by simp
  assume "n = 0"
  then have same: "ad_rows d' = ad_rows d" using rows(1,2) by (metis filter_id_conv length_filter_less less_irrefl of_nat_eq_iff right_minus_eq)
  then have "\<forall>r \<in> set (ad_rows d). r \<notin> set (take 1000 ?old)" using rows(1) by (metis filter_id_conv)
  then have "take 1000 ?old = []" by (metis filter_is_subset in_set_takeD in_mono list.set_intros(1) neq_Nil_conv)
  then have "?old = []" by simp
  then have "\<forall>r \<in> set (ad_rows d). cutoff \<le> ar_CreatedAt r" by (simp add: filter_empty_conv not_less)
  then show "ad_rows d' = filter (\<lambda>r. cutoff \<le> ar_CreatedAt r) (ad_rows d)" using same by simp
qed

lemma cleanup_loop_rows:
  assumes "distinct (map ar_ID (ad_rows d))" and "cleanup_loop cutoff total0 d = (err, n, d')"
  shows "subseq (ad_rows d') (ad_rows d) \<and>
    filter (\<lambda>r. cutoff \<le> ar_CreatedAt r) (ad_rows d') = filter (\<lambda>r. cutoff \<le> ar_CreatedAt r) (ad_rows d) \<and>
    (err = None \<longrightarrow> ad_rows d' = filter (\<lambda>r. cutoff \<le> ar_CreatedAt r) (ad_rows d)) \<and> (ad_faults d = [] \<longrightarrow> err = None)"
  using assms
proof (induction cutoff total0 d rule: cleanup_loop.induct)
  case (1 cutoff total0 d)
  obtain f d1 where f: "audit_fault d = (f, d1)" by (metis prod.exhaust)
  have d1: "ad_rows d1 = ad_rows d" using audit_fault_rows [OF f] .
  have nf: "ad_faults d = [] \<longrightarrow> f = None \<and> ad_faults d1 = []" using f by (auto simp: audit_fault_def)
  show ?case
  proof (cases f)
    case (Some e)
    with 1(3) f d1 nf show ?thesis by (auto simp: cleanup_loop.simps [of cutoff total0 d])
  next
    case None
    obtain k d2 where k: "delete_batch cutoff d1 = (k, d2)" by (metis prod.exhaust)
    note keep = delete_batch_keeps [OF _ k, unfolded d1, OF 1(2)]
    have fl: "ad_faults d2 = ad_faults d1" using delete_batch_rows(3) [OF _ k] 1(2) d1 by simp
    show ?thesis
    proof (cases "k = 0")
      case True
      with 1(3) f None k keep nf fl show ?thesis by (simp add: cleanup_loop.simps [of cutoff total0 d])
    next
      case False
      have run: "cleanup_loop cutoff (total0 + k) d2 = (err, n, d')"
        using 1(3) f None k False by (simp add: cleanup_loop.simps [of cutoff total0 d])
      from 1(1) [OF f [symmetric] None k [symmetric] False keep(1) run] keep nf fl None show ?thesis
        by (auto intro: subseq_order.order_trans)
    qed
  qed
qed

section \<open>Headers of a mail\<close>

text \<open>How a reader takes a mail apart: lines end with CRLF, and the first empty line ends the header.\<close>

fun cut_line :: "string \<Rightarrow> string \<times> string" where
  "cut_line [] = ([], [])"
| "cut_line (c # s) = (if has_prefix (c # s) CRLF then ([], drop 2 (c # s)) else map_prod ((#) c) id (cut_line s))"

fun read_mail :: "nat \<Rightarrow> string \<Rightarrow> string list \<times> string" where
  "read_mail 0 s = ([], s)"
| "read_mail (Suc n) s = (case cut_line s of (l, r) \<Rightarrow> if l = [] then ([], r) else map_prod ((#) l) id (read_mail n r))"

definition one_line :: "string \<Rightarrow> bool" where
  "one_line s \<longleftrightarrow> CHR 0x0D \<notin> set s \<and> CHR 0x0A \<notin> set s"

lemma cut_line_CRLF: "one_line l \<Longrightarrow> cut_line (l @ CRLF @ r) = (l, r)"
  by (induction l) (auto simp: one_line_def has_prefix_def)

lemma one_line_join: "list_all one_line ss \<Longrightarrow> one_line sep \<Longrightarrow> one_line (join sep ss)"
  by (induction sep ss rule: join.induct) (auto simp: one_line_def)

definition mail_headers :: "SMTPConfig \<Rightarrow> EmailMessage \<Rightarrow> string list" where
  "mail_headers cfg msg =
     [''From: '' @ sp_From cfg, ''To: '' @ join '', '' (em_To msg)] @
     (if em_CC msg \<noteq> [] then [''Cc: '' @ join '', '' (em_CC msg)] else []) @
     [''Subject: '' @ em_Subject msg] @
     (if em_IsHTML msg then [''MIME-Version: 1.0'', ''Content-Type: text/html; charset='' @ [CHR 0x22] @ ''UTF-8'' @ [CHR 0x22]]
      else [''Content-Type: text/plain; charset='' @ [CHR 0x22] @ ''UTF-8'' @ [CHR 0x22]])"

lemma mail_text_lines: "mail_text cfg msg = concat (map (\<lambda>l. l @ CRLF) (mail_headers cfg msg)) @ CRLF @ em_Body msg"
  by (simp add: mail_text_def mail_headers_def)

lemma read_lines:
  "list_all (\<lambda>l. one_line l \<and> l \<noteq> []) ls \<Longrightarrow> length ls < n \<Longrightarrow> read_mail n (concat (map (\<lambda>l. l @ CRLF) ls) @ CRLF @ body) = (ls, body)"
proof (induction ls arbitrary: n)
  case Nil
  then obtain k where "n = Suc k" by (cases n) auto
  then show ?case using cut_line_CRLF [of "[]" body] by (simp add: one_line_def)
next
  case (Cons l ls)
  then obtain k where k: "n = Suc k" "length ls < k" by (cases n) auto
  have "cut_line ((l @ CRLF) @ concat (map (\<lambda>l. l @ CRLF) ls) @ CRLF @ body) = (l, concat (map (\<lambda>l. l @ CRLF) ls) @ CRLF @ body)"
    using cut_line_CRLF [of l "concat (map (\<lambda>l. l @ CRLF) ls) @ CRLF @ body"] Cons.prems(1) by simp
  then show ?case using Cons k by simp
qed

lemma mail_headers_lines:
  assumes "one_line (sp_From cfg)" and "list_all one_line (em_To msg @ em_CC msg)" and "one_line (em_Subject msg)"
  shows "list_all (\<lambda>l. one_line l \<and> l \<noteq> []) (mail_headers cfg msg)" and "length (mail_headers cfg msg) \<le> 6"
proof -
  have "one_line (join '', '' (em_To msg))" "one_line (join '', '' (em_CC msg))"
    using assms(2) by (auto intro!: one_line_join simp: one_line_def [of "'', ''"])
  then show "list_all (\<lambda>l. one_line l \<and> l \<noteq> []) (mail_headers cfg msg)" and "length (mail_headers cfg msg) \<le> 6"
    using assms(1,3) by (auto simp: mail_headers_def one_line_def)
qed

lemma clock_seconds:
  assumes "0 \<le> now" and "now < 2 ^ 63"
  obtains q r where "now = q * second + r" and "0 \<le> r" and "r < second" and "0 \<le> q" and "q < 2 ^ 34"
    and "now div second = q" and "now mod second = r"
proof -
  define q r where "q = now div second" and "r = now mod second"
  have now: "now = q * second + r" "0 \<le> r" "r < second" by (simp_all add: q_def r_def)
  have lim: "now < 9223372036854775808" using assms(2) by simp
  have "0 \<le> q" "q < 17179869184" using now assms(1) lim by linarith+
  then have "0 \<le> q" "q < 2 ^ 34" by simp_all
  then show thesis using q_def [symmetric] r_def [symmetric] by (rule that [OF now])
qed

lemma cleanup_cutoff_eq:
  assumes "0 \<le> now" and "now < 2 ^ 63" and "0 \<le> days" and "days \<le> 10 ^ 13"
  shows "cleanup_cutoff now days = now - 86400 * days * second"
proof -
  obtain q r where c: "now = q * second + r" "0 \<le> q" "q < 2 ^ 34" "now div second = q" "now mod second = r"
    by (rule clock_seconds [OF assms(1,2)])
  have "int64 (q - 86400 * days) = q - 86400 * days" using assms(3,4) c by (intro int64_id) auto
  then have "cleanup_cutoff now days = (q - 86400 * days) * second + r" by (simp add: cleanup_cutoff_def c(4,5))
  then show ?thesis using c(1) by simp
qed

lemma cleanup_cutoff_wraps:
  assumes "0 \<le> now" and "now < 2 ^ 63"
  shows "now < cleanup_cutoff now 107000000000000"
proof -
  obtain q r where c: "now = q * second + r" "0 \<le> r" "r < second" "0 \<le> q" "q < 2 ^ 34" "now div second = q" "now mod second = r"
    by (rule clock_seconds [OF assms])
  define x where "x = q - 86400 * 107000000000000"
  have "(x + 2 ^ 63) mod 2 ^ 64 = (x + 2 ^ 63 + 2 ^ 64) mod 2 ^ 64" by (rule mod_add_self2 [symmetric])
  also have "\<dots> = x + 2 ^ 63 + 2 ^ 64" using c unfolding x_def by (intro mod_pos_pos_trivial) auto
  finally have "int64 x = x + 2 ^ 64" by (simp add: int64_def)
  then have "cleanup_cutoff now 107000000000000 = (x + 2 ^ 64) * second + r" by (simp add: cleanup_cutoff_def x_def c(6,7))
  then show ?thesis using c(1,2,3) unfolding x_def by simp
qed

section \<open>Who dispatches\<close>

lemma require_role_cases:
  "az_HasRoleForUser az (GetUserID c) role z = Inr True \<and> (\<forall>h. RequireRole az role h (z, w) c = h (z, w) c) \<or>
   (\<exists>c'. (\<forall>h. RequireRole az role h (z, w) c = (None, (z, w), c')) \<and> res_status c' \<in> {401, 403, 500})"
  by (cases "GetUserID c = []"; cases "az_HasRoleForUser az (GetUserID c) role z") (auto simp: RequireRole_def Let_def http_simps go_errors)

lemma admin_cases:
  assumes "jwt_lib jwt signed_by"
  shows "(\<exists>tok cl c'. extractToken c ''header:Authorization'' = Inr tok \<and> signed_by secret cl tok \<and>
      claims_valid now ''goscratch'' ''goscratch-api'' cl \<and> az_HasRoleForUser az (jc_UserID cl) role z = Inr True \<and>
      (\<forall>h. Auth jwt now (DefaultAuthConfig secret) (RequireRole az role h) (z, w) c = h (z, w) c')) \<or>
    (\<exists>c'. \<forall>h. Auth jwt now (DefaultAuthConfig secret) (RequireRole az role h) (z, w) c = (None, (z, w), c'))"
proof -
  let ?cfg = "DefaultAuthConfig secret"
  have cfg: "TokenLookup ?cfg = ''header:Authorization''" "JWTSecret ?cfg = secret" "JWTIssuer ?cfg = ''goscratch''"
    "JWTAudience ?cfg = ''goscratch-api''" by (simp_all add: DefaultAuthConfig_def)
  from auth_mediation [OF assms, of c ?cfg now "(z, w)", unfolded cfg]
  show ?thesis
  proof
    assume "\<exists>tok cl. extractToken c ''header:Authorization'' = Inr tok \<and> signed_by secret cl tok \<and>
      claims_valid now ''goscratch'' ''goscratch-api'' cl \<and>
      (\<exists>c'. (\<forall>rest. Auth jwt now ?cfg rest (z, w) c = rest (z, w) c') \<and> GetUserID c' = jc_UserID cl \<and> user_ctx c' key_user_id = Some (jc_UserID cl))"
    then obtain tok cl c1 where "extractToken c ''header:Authorization'' = Inr tok" "signed_by secret cl tok"
      "claims_valid now ''goscratch'' ''goscratch-api'' cl" "\<forall>rest. Auth jwt now ?cfg rest (z, w) c = rest (z, w) c1" "GetUserID c1 = jc_UserID cl" by blast
    then show ?thesis using require_role_cases [of az c1 role z w] by metis
  qed blast
qed

lemma dispatch_publishes:
  assumes "uc_Dispatch p now job_uuid resp_uuid ctx ty (Some v) maxRetry q = (res, q')" and "q' \<noteq> q \<or> (\<exists>resp. res = Inr resp)"
    and "wf_json v" and "valid_utf8 job_uuid" and "- (2 ^ 63) \<le> maxRetry" and "maxRetry < 2 ^ 63" and "0 \<le> year_of now" and "year_of now \<le> 9999"
  shows "\<exists>data job err. q_Publish (pu_queue p) now ctx (pu_exchange p) (pu_queueName p) data q = (err, q') \<and>
    DecodeJob data = Inr job \<and> jb_ID job = job_uuid \<and> jb_Type job = ty \<and> jb_Attempts job = 0 \<and> jb_MaxRetry job = maxRetry \<and>
    ty \<in> fst ` set validJobTypes"
proof -
  let ?job = "\<lparr>jb_ID = job_uuid, jb_Type = ty, jb_Payload = Some v, jb_Attempts = 0, jb_MaxRetry = maxRetry, jb_CreatedAt = now\<rparr>"
  have "map_of validJobTypes ty \<noteq> None" using assms(1,2) by (auto simp: uc_Dispatch_def split: if_splits)
  then have ty: "ty \<in> fst ` set validJobTypes" by (auto simp: map_of_eq_None_iff)
  have "\<forall>t \<in> fst ` set validJobTypes. valid_utf8 t"
    by (simp add: validJobTypes_def JobTypeEmailSend_def JobTypeAuditCleanup_def JobTypeNotification_def valid_utf8_ascii byte_in_def)
  with ty have "job_ok ?job" using assms(3-8) by (auto simp: job_ok_def)
  then obtain data where data: "job_Encode ?job = Inr data" "DecodeJob data = Inr ?job" using decode_encode_job by blast
  obtain err q1 where pub: "q_Publish (pu_queue p) now ctx (pu_exchange p) (pu_queueName p) data q = (err, q1)" by (metis prod.exhaust)
  then have "q1 = q'" using assms(1) data \<open>map_of validJobTypes ty \<noteq> None\<close>
    by (auto simp: uc_Dispatch_def PublishWithRetry_def NewJobWithRetry_def NewJob_def PublishRaw_def split: option.splits)
  with pub data(2) ty show ?thesis by (intro exI [of _ data] exI [of _ ?job] exI [of _ err]) simp
qed

section \<open>Properties\<close>

lemma in_filter_eq:
  assumes "filter P ys = filter P xs" and "x \<in> set xs" and "P x"
  shows "x \<in> set ys"
proof -
  have "x \<in> set (filter P xs)" using assms(2,3) by simp
  then have "x \<in> set (filter P ys)" using assms(1) by simp
  then show ?thesis by simp
qed


definition demo_row :: "string \<Rightarrow> go_time \<Rightarrow> audit_row" where
  "demo_row i t = \<lparr>ar_ID = i, ar_UserID = None, ar_Action = ''READ'', ar_Resource = ''user'', ar_ResourceID = ''1'', ar_OldValue = None,
     ar_NewValue = None, ar_IPAddress = None, ar_UserAgent = None, ar_CreatedAt = t\<rparr>"

definition demo_audit :: audit_db where
  "demo_audit = \<lparr>ad_rows = [demo_row ''a'' 5, demo_row ''b'' (86400 * second * 40)], ad_faults = [], ad_store = Inr, ad_fresh = (\<lambda>_. ''z''), ad_reject = (\<lambda>_. None)\<rparr>"

definition cleanup_job :: Job where
  "cleanup_job = \<lparr>jb_ID = ''7'', jb_Type = JobTypeAuditCleanup, jb_Payload = Some (JObj [(''retention_days'', JNum ''30'')]), jb_Attempts = 1,
     jb_MaxRetry = 3, jb_CreatedAt = 0\<rparr>"


text \<open>
  C28. Only administrators dispatch jobs, and what they dispatch is what the worker reads. For every JWT library with the
  laws and every authorizer: if a request to a route of the module changes the queue or the audit log, then it went to
  the dispatch route with a valid token, and the authorizer has the role of an administrator for the signed user. The
  body that was published decodes to a job of a valid type with no attempts made and the generated identifier.
\<close>

theorem jobs_dispatched_by_admins:
  assumes "jwt_lib jwt signed_by" and "job_routes jwt secret az m now job_uuid resp_uuid r (z, q, a) c = (e, (z', q', a'), c')"
    and "(q', a') \<noteq> (q, a)" and "0 \<le> year_of now" and "year_of now \<le> 9999" and "valid_utf8 job_uuid"
    and "\<And>req. bd_rules (jm_dispatch m) req = [] \<Longrightarrow> \<exists>v. dj_Payload req = Some v \<and> wf_json v \<and>
      (\<forall>n. dj_MaxRetry req = Some n \<longrightarrow> - (2 ^ 63) \<le> n \<and> n < 2 ^ 63)"
  shows "r = PostDispatch \<and>
    (\<exists>tok cl. extractToken c ''header:Authorization'' = Inr tok \<and> signed_by secret cl tok \<and>
       claims_valid now ''goscratch'' ''goscratch-api'' cl \<and> az_HasRoleForUser az (jc_UserID cl) ''admin'' z = Inr True) \<and>
    (\<exists>data job err. q_Publish (pu_queue (jm_publisher m)) now None (pu_exchange (jm_publisher m)) (pu_queueName (jm_publisher m)) data q = (err, q') \<and>
       DecodeJob data = Inr job \<and> jb_ID job = job_uuid \<and> jb_Attempts job = 0 \<and> jb_Type job \<in> fst ` set validJobTypes)"
proof -
  have "\<exists>tok cl c1. extractToken c ''header:Authorization'' = Inr tok \<and> signed_by secret cl tok \<and>
      claims_valid now ''goscratch'' ''goscratch-api'' cl \<and> az_HasRoleForUser az (jc_UserID cl) ''admin'' z = Inr True \<and>
      behind (case r of PostDispatch \<Rightarrow> jh_Dispatch m now job_uuid resp_uuid | GetTypes \<Rightarrow> jh_ListTypes) (z, q, a) c1 = (e, (z', q', a'), c')"
    using admin_cases [OF assms(1), of c secret now az "''admin''" z "(q, a)"] assms(2,3) unfolding job_routes_def by force
  then obtain tok cl c1 where tok: "extractToken c ''header:Authorization'' = Inr tok" "signed_by secret cl tok"
      "claims_valid now ''goscratch'' ''goscratch-api'' cl" "az_HasRoleForUser az (jc_UserID cl) ''admin'' z = Inr True"
    and h: "(case r of PostDispatch \<Rightarrow> jh_Dispatch m now job_uuid resp_uuid | GetTypes \<Rightarrow> jh_ListTypes) (q, a) c1 = (e, (q', a'), c')"
    by (auto simp: behind_def split: prod.splits) (metis prod.exhaust)
  have r: "r = PostDispatch" using h assms(3) by (cases r) (auto simp: jh_ListTypes_def with_state_def)
  with h assms(3) obtain req where req: "ValidateAndBind (jm_policy m) (jm_dispatch m) c1 = Inr req"
    by (cases "ValidateAndBind (jm_policy m) (jm_dispatch m) c1") (auto simp: jh_Dispatch_def bound_def with_state_def)
  then have "bd_rules (jm_dispatch m) req = []" using ValidateAndBind_Inr by meson
  then obtain v where v: "dj_Payload req = Some v" "wf_json v" and n: "\<And>n. dj_MaxRetry req = Some n \<Longrightarrow> - (2 ^ 63) \<le> n \<and> n < 2 ^ 63"
    using assms(7) by blast
  let ?n = "case dj_MaxRetry req of None \<Rightarrow> 3 | Some n \<Rightarrow> n"
  have range: "- (2 ^ 63) \<le> ?n" "?n < 2 ^ 63" using n by (auto split: option.split)
  obtain res q1 where d: "uc_Dispatch (jm_publisher m) now job_uuid resp_uuid None (dj_Type req) (Some v) ?n q = (res, q1)" by (metis prod.exhaust)
  have "q1 = q' \<and> (q' \<noteq> q \<or> (\<exists>resp. res = Inr resp))"
    using h r req d v(1) assms(3)
    by (cases res) (auto simp: jh_Dispatch_def bound_def with_state_def audited_Dispatch_def Let_def split: option.splits)
  then have d': "uc_Dispatch (jm_publisher m) now job_uuid resp_uuid None (dj_Type req) (Some v) ?n q = (res, q')" "q' \<noteq> q \<or> (\<exists>resp. res = Inr resp)"
    using d by simp_all
  from dispatch_publishes [OF d' v(2) assms(6) range assms(4,5)] r tok show ?thesis by metis
qed

text \<open>A queue that keeps what is published, and an administrator's request.\<close>

definition list_queue :: "string list queue" where
  "list_queue = \<lparr>
     q_Publish = (\<lambda>now ctx ex key body q. (None, q @ [body])),
     q_PublishJSON = (\<lambda>now ctx ex key m q. (None, q)),
     q_Consume = (\<lambda>ctx name q. (None, q)), q_Ping = (\<lambda>ctx q. (None, q)),
     q_DeclareQueue = (\<lambda>ctx name durable q. (None, q)), q_DeclareExchange = (\<lambda>ctx name kind durable q. (None, q)),
     q_BindQueue = (\<lambda>ctx name ex key q. (None, q)), q_Close = (\<lambda>q. (None, q))\<rparr>"

definition demo_dispatch :: DispatchJobRequest where
  "demo_dispatch = \<lparr>dj_Type = JobTypeAuditCleanup, dj_Payload = Some JNull, dj_MaxRetry = None\<rparr>"

definition demo_jobs :: "(string list, unit) job_module" where
  "demo_jobs = \<lparr>jm_publisher = NewPublisher list_queue '''' '''', jm_auditor = None, jm_policy = id,
     jm_dispatch = \<lparr>bd_parse = (\<lambda>c. Inr demo_dispatch), bd_value = (\<lambda>_. RStruct []), bd_back = (\<lambda>_. demo_dispatch),
       bd_rules = (\<lambda>req. if req = demo_dispatch then [] else [\<lparr>fe_Field = ''payload'', fe_Tag = ''required'', fe_Param = ''''\<rparr>])\<rparr>\<rparr>"

definition admin_claims :: jwt_claims where
  "admin_claims = \<lparr>jc_Subject = ''u-7'', jc_Issuer = ''goscratch'', jc_Audience = [''goscratch-api''], jc_ExpiresAt = Some 9, jc_IssuedAt = Some 0,
     jc_NotBefore = Some 0, jc_UserID = ''u-7'', jc_Email = '''', jc_Name = ''''\<rparr>"

definition admin_ctx :: fiber_ctx where
  "admin_ctx = example_ctx\<lparr>req_headers := [(''Authorization'', ''Bearer '' @ enc_claims admin_claims @ ''k'')]\<rparr>"

lemma jobs_dispatched_by_admins_witness:
  "\<exists>e z' q' a' c' data. job_routes demo_jwt ''k'' NoOpAdapter demo_jobs 5 ''j-1'' ''r-1'' PostDispatch ((), [], ()) admin_ctx = (e, (z', q', a'), c') \<and>
     q' = [data] \<and> (\<exists>job. DecodeJob data = Inr job \<and> jb_ID job = ''j-1'')"
proof -
  have ext: "extractToken admin_ctx ''header:Authorization'' = Inr (enc_claims admin_claims @ ''k'')"
    by (simp add: extractToken_def admin_ctx_def ctx_Get_def assoc_str_def has_prefix_def trim_prefix_def)
  have "claims_valid 5 ''goscratch'' ''goscratch-api'' admin_claims" by (simp add: claims_valid_def admin_claims_def)
  then have parse: "parseToken demo_jwt 5 (enc_claims admin_claims @ ''k'') ''k'' ''goscratch'' ''goscratch-api'' = Inr admin_claims"
    using demo.parse_valid by (simp add: parseToken_def)
  let ?c = "store_claims (DefaultAuthConfig ''k'') (toDomainClaims admin_claims) admin_ctx"
  have uid: "GetUserID ?c = ''u-7''" by (simp add: toDomainClaims_def admin_claims_def)
  have auth: "Auth demo_jwt 5 (DefaultAuthConfig ''k'') h ((), [], ()) admin_ctx = h ((), [], ()) ?c" for h :: "(unit \<times> string list \<times> unit) handler"
    using ext parse by (simp add: Auth_def DefaultAuthConfig_def)
  have year: "year_of 5 = 1970" by code_simp
  have ty: "map_of validJobTypes JobTypeAuditCleanup \<noteq> None" by code_simp
  obtain e z' q' a' c' where run: "job_routes demo_jwt ''k'' NoOpAdapter demo_jobs 5 ''j-1'' ''r-1'' PostDispatch ((), [], ()) admin_ctx = (e, (z', q', a'), c')"
    by (metis prod.exhaust)
  have "length q' = 1" using run year ty uid
    by (auto simp: job_routes_def auth RequireRole_def NoOpAdapter_def behind_def jh_Dispatch_def bound_def ValidateAndBind_def demo_jobs_def Let_def
        Validate_def ValidateStruct_def audited_Dispatch_def uc_Dispatch_def demo_dispatch_def PublishWithRetry_def NewJobWithRetry_def NewJob_def
        PublishRaw_def job_Encode_def NewPublisher_def list_queue_def http_simps simp del: GetUserID_store)
  then obtain data where q': "q' = [data]" by (cases q') auto
  have rules: "\<exists>v. dj_Payload req = Some v \<and> wf_json v \<and> (\<forall>n. dj_MaxRetry req = Some n \<longrightarrow> - (2 ^ 63) \<le> n \<and> n < 2 ^ 63)"
    if "bd_rules (jm_dispatch demo_jobs) req = []" for req
    using that by (simp add: demo_jobs_def demo_dispatch_def split: if_splits)
  have ch: "(q', a') \<noteq> ([], ())" using q' by simp
  from jobs_dispatched_by_admins [OF demo.jwt_lib_axioms run ch _ _ _ rules] year q' obtain data' err job
    where "q_Publish (pu_queue (jm_publisher demo_jobs)) 5 None (pu_exchange (jm_publisher demo_jobs)) (pu_queueName (jm_publisher demo_jobs)) data' [] = (err, [data])"
      "DecodeJob data' = Inr job" "jb_ID job = ''j-1''"
    by (auto simp: valid_utf8_ascii byte_in_def)
  then have "data' = data" by (simp add: demo_jobs_def NewPublisher_def list_queue_def)
  with run q' \<open>DecodeJob data' = Inr job\<close> \<open>jb_ID job = ''j-1''\<close> show ?thesis by blast
qed

text \<open>
  A mail has exactly the headers that its fields give. When sender, recipients and subject contain no line break,
  reading the text that the SMTP sender writes gives back the header lines and the body. A line break in the subject is
  not removed: what follows it is read as a header line of its own.
\<close>

theorem mail_reads_back:
  assumes "one_line (sp_From cfg)" and "list_all one_line (em_To msg @ em_CC msg)" and "one_line (em_Subject msg)"
    and "one_line x" and "x \<noteq> []"
  shows "read_mail 8 (mail_text cfg msg) = (mail_headers cfg msg, em_Body msg) \<and>
    (\<exists>pre post. mail_headers cfg msg = pre @ post \<and>
       read_mail 8 (mail_text cfg (msg\<lparr>em_Subject := em_Subject msg @ CRLF @ x\<rparr>)) = (pre @ x # post, em_Body msg))"
proof -
  note ok = mail_headers_lines [OF assms(1-3)]
  define pre where "pre = [''From: '' @ sp_From cfg, ''To: '' @ join '', '' (em_To msg)] @
    (if em_CC msg \<noteq> [] then [''Cc: '' @ join '', '' (em_CC msg)] else []) @ [''Subject: '' @ em_Subject msg]"
  define post where "post = (if em_IsHTML msg then [''MIME-Version: 1.0'', ''Content-Type: text/html; charset='' @ [CHR 0x22] @ ''UTF-8'' @ [CHR 0x22]]
    else [''Content-Type: text/plain; charset='' @ [CHR 0x22] @ ''UTF-8'' @ [CHR 0x22]])"
  have split: "mail_headers cfg msg = pre @ post" by (simp add: mail_headers_def pre_def post_def)
  have "mail_text cfg (msg\<lparr>em_Subject := em_Subject msg @ CRLF @ x\<rparr>) = concat (map (\<lambda>l. l @ CRLF) (pre @ x # post)) @ CRLF @ em_Body msg"
    by (simp add: mail_text_def pre_def post_def)
  moreover have "list_all (\<lambda>l. one_line l \<and> l \<noteq> []) (pre @ x # post)" "length (pre @ x # post) < 8"
    using ok assms(4,5) by (simp_all add: split)
  ultimately have "read_mail 8 (mail_text cfg (msg\<lparr>em_Subject := em_Subject msg @ CRLF @ x\<rparr>)) = (pre @ x # post, em_Body msg)"
    by (simp only: read_lines)
  moreover have "read_mail 8 (mail_text cfg msg) = (mail_headers cfg msg, em_Body msg)"
    unfolding mail_text_lines using ok by (intro read_lines) simp_all
  ultimately show ?thesis using split by blast
qed

definition demo_smtp :: SMTPConfig where
  "demo_smtp = \<lparr>sp_Host = ''mail.example'', sp_Port = 25, sp_Username = '''', sp_Password = '''', sp_From = ''no-reply@example.com''\<rparr>"

definition demo_mail :: EmailMessage where
  "demo_mail = \<lparr>em_To = [''a@b.c'', ''d@e.f''], em_CC = [], em_BCC = [], em_Subject = ''Hello'', em_Body = ''Hi'', em_IsHTML = False\<rparr>"

lemma mail_reads_back_witness:
  "\<exists>pre post. mail_headers demo_smtp demo_mail = pre @ post \<and>
     read_mail 8 (mail_text demo_smtp (demo_mail\<lparr>em_Subject := ''Hello'' @ CRLF @ ''Bcc: eve''\<rparr>)) = (pre @ ''Bcc: eve'' # post, ''Hi'')"
  using mail_reads_back [of demo_smtp demo_mail "''Bcc: eve''"] by (simp add: demo_smtp_def demo_mail_def one_line_def)

end
