(* ===== verification/Roles.thy ===== *)
theory Roles
  imports Validator Middleware_Auth
begin

text \<open>
  Role management: \<^verbatim>\<open>src/internal/module/role\<close> (domain, data transfer objects, use case, handlers and routes). The use
  case works on any authorizer of the port. The interface \<open>authorizer_sim\<close> relates two authorizers whose calls agree; the
  routes of the module cannot tell them apart. It is interpreted on the Casbin adapter with and without its decision
  cache.
\<close>

section \<open>Domain\<close>

record Role =
  rl_Name :: string
  rl_Description :: string

definition RoleSuperAdmin :: string where "RoleSuperAdmin = ''superadmin''"
definition RoleAdmin :: string where "RoleAdmin = ''admin''"
definition RoleEditor :: string where "RoleEditor = ''editor''"
definition RoleViewer :: string where "RoleViewer = ''viewer''"

lemmas role_names = RoleSuperAdmin_def RoleAdmin_def RoleEditor_def RoleViewer_def

definition PredefinedRoles :: "Role list" where
  "PredefinedRoles =
     [\<lparr>rl_Name = RoleSuperAdmin, rl_Description = ''Full system access with all permissions''\<rparr>,
      \<lparr>rl_Name = RoleAdmin, rl_Description = ''Administrative access with most permissions''\<rparr>,
      \<lparr>rl_Name = RoleEditor, rl_Description = ''Can create and edit content''\<rparr>,
      \<lparr>rl_Name = RoleViewer, rl_Description = ''Read-only access''\<rparr>]"

definition IsValidRole :: "string \<Rightarrow> bool" where
  "IsValidRole name \<longleftrightarrow> list_ex (\<lambda>r. rl_Name r = name) PredefinedRoles"

section \<open>Requests and responses\<close>

record AssignRoleRequest =
  asr_UserID :: string
  asr_Role :: string

record RemoveRoleRequest =
  rrr_UserID :: string
  rrr_Role :: string

record AddPermissionRequest =
  apr_Role :: string
  apr_Object :: string
  apr_Action :: string

record RemovePermissionRequest =
  rpr_Role :: string
  rpr_Object :: string
  rpr_Action :: string

record AddUserPermissionRequest =
  aup_Object :: string
  aup_Action :: string

record RemoveUserPermissionRequest =
  rup_Object :: string
  rup_Action :: string

record CheckPermissionRequest =
  cpr_Object :: string
  cpr_Action :: string

record PermissionResponse =
  pr_Object :: string
  pr_Action :: string

text \<open>The lists that an authorizer returns are slices that are not nil.\<close>

definition role_json :: "Role \<Rightarrow> json" where
  "role_json r = JObj [(''name'', JStr (rl_Name r)), (''description'', JStr (rl_Description r))]"

definition permission_json :: "PermissionResponse \<Rightarrow> json" where
  "permission_json p = JObj [(''object'', JStr (pr_Object p)), (''action'', JStr (pr_Action p))]"

definition user_roles_json :: "string \<Rightarrow> string list \<Rightarrow> json" where
  "user_roles_json userID roles = JObj [(''user_id'', JStr userID), (''roles'', JArr (map JStr roles))]"

definition role_users_json :: "string \<Rightarrow> string list \<Rightarrow> json" where
  "role_users_json role userIDs = JObj [(''role'', JStr role), (''user_ids'', JArr (map JStr userIDs))]"

definition user_permissions_json :: "string \<Rightarrow> PermissionResponse list \<Rightarrow> json" where
  "user_permissions_json userID ps = JObj [(''user_id'', JStr userID), (''permissions'', JArr (map permission_json ps))]"

definition check_json :: "string \<Rightarrow> string \<Rightarrow> string \<Rightarrow> bool \<Rightarrow> json" where
  "check_json userID object action allowed =
     JObj [(''user_id'', JStr userID), (''object'', JStr object), (''action'', JStr action), (''allowed'', JBool allowed)]"

definition all_permissions_json :: "(string \<times> PermissionResponse list) list \<Rightarrow> json" where
  "all_permissions_json entries =
     JObj [(''roles'', JArr (map (\<lambda>(role, ps). JObj [(''role'', JStr role), (''permissions'', JArr (map permission_json ps))]) entries))]"

section \<open>Use case\<close>

definition internal :: "go_error option \<times> 'z \<Rightarrow> go_error option \<times> 'z" where
  "internal r = map_prod (map_option (WithError ErrInternal)) id r"

definition read_or_internal :: "go_error + 'r \<Rightarrow> go_error + 'r" where
  "read_or_internal r = map_sum (WithError ErrInternal) id r"

definition invalid_role :: "string \<Rightarrow> go_error" where
  "invalid_role role = BadRequestf (''invalid role: '' @ role)"

definition uc_AssignRole :: "'z authorizer \<Rightarrow> string \<Rightarrow> string \<Rightarrow> 'z \<Rightarrow> go_error option \<times> 'z" where
  "uc_AssignRole az userID role z =
     (if \<not> IsValidRole role then (Some (invalid_role role), z)
      else (case az_HasRoleForUser az userID role z of
        Inl err \<Rightarrow> (Some (WithError ErrInternal err), z)
      | Inr hasRole \<Rightarrow>
          if hasRole then (Some (Conflictf (''user already has role '' @ role)), z)
          else internal (az_AddRoleForUser az userID role z)))"

definition uc_RemoveRole :: "'z authorizer \<Rightarrow> string \<Rightarrow> string \<Rightarrow> 'z \<Rightarrow> go_error option \<times> 'z" where
  "uc_RemoveRole az userID role z =
     (if \<not> IsValidRole role then (Some (invalid_role role), z)
      else (case az_HasRoleForUser az userID role z of
        Inl err \<Rightarrow> (Some (WithError ErrInternal err), z)
      | Inr hasRole \<Rightarrow>
          if \<not> hasRole then (Some (NotFoundf (''user does not have role '' @ role)), z)
          else internal (az_RemoveRoleForUser az userID role z)))"

definition uc_GetUserRoles :: "'z authorizer \<Rightarrow> string \<Rightarrow> 'z \<Rightarrow> go_error + json" where
  "uc_GetUserRoles az userID z = map_sum id (user_roles_json userID) (read_or_internal (az_GetRolesForUser az userID z))"

definition uc_GetRoleUsers :: "'z authorizer \<Rightarrow> string \<Rightarrow> 'z \<Rightarrow> go_error + json" where
  "uc_GetRoleUsers az role z =
     (if \<not> IsValidRole role then Inl (invalid_role role)
      else map_sum id (role_users_json role) (read_or_internal (az_GetUsersForRole az role z)))"

definition uc_ListRoles :: "Role list" where
  "uc_ListRoles = PredefinedRoles"

definition uc_AddPermissionToRole :: "'z authorizer \<Rightarrow> string \<Rightarrow> string \<Rightarrow> string \<Rightarrow> 'z \<Rightarrow> go_error option \<times> 'z" where
  "uc_AddPermissionToRole az role object action z =
     (if \<not> IsValidRole role then (Some (invalid_role role), z)
      else internal (az_AddPermissionForRole az role object action z))"

definition uc_RemovePermissionFromRole :: "'z authorizer \<Rightarrow> string \<Rightarrow> string \<Rightarrow> string \<Rightarrow> 'z \<Rightarrow> go_error option \<times> 'z" where
  "uc_RemovePermissionFromRole az role object action z =
     (if \<not> IsValidRole role then (Some (invalid_role role), z)
      else internal (az_RemovePermissionForRole az role object action z))"

text \<open>Rules with fewer than three fields are skipped.\<close>

definition toPermissionResponses :: "string list list \<Rightarrow> PermissionResponse list" where
  "toPermissionResponses perms =
     map (\<lambda>p. \<lparr>pr_Object = p ! 1, pr_Action = p ! 2\<rparr>) (filter (\<lambda>p. 3 \<le> length p) perms)"

definition uc_GetRolePermissions :: "'z authorizer \<Rightarrow> string \<Rightarrow> 'z \<Rightarrow> go_error + PermissionResponse list" where
  "uc_GetRolePermissions az role z =
     (if \<not> IsValidRole role then Inl (invalid_role role)
      else map_sum id toPermissionResponses (read_or_internal (az_GetPermissionsForRole az role z)))"

definition uc_GetUserPermissions :: "'z authorizer \<Rightarrow> string \<Rightarrow> 'z \<Rightarrow> go_error + json" where
  "uc_GetUserPermissions az userID z =
     map_sum id (\<lambda>perms. user_permissions_json userID (toPermissionResponses perms))
       (read_or_internal (az_GetImplicitPermissionsForUser az userID z))"

definition uc_CheckPermission :: "'z authorizer \<Rightarrow> go_error option \<Rightarrow> string \<Rightarrow> string \<Rightarrow> string \<Rightarrow> 'z \<Rightarrow> (go_error + bool) \<times> 'z" where
  "uc_CheckPermission az ctx userID object action z =
     (case az_EnforceWithContext az ctx userID object action z of
        ((allowed, Some err), z') \<Rightarrow> (Inl (WithError ErrInternal err), z')
      | ((allowed, None), z') \<Rightarrow> (Inr allowed, z'))"

fun list_all_permissions :: "'z authorizer \<Rightarrow> Role list \<Rightarrow> 'z \<Rightarrow> go_error + (string \<times> PermissionResponse list) list" where
  "list_all_permissions az [] z = Inr []"
| "list_all_permissions az (r # rs) z =
     (case az_GetPermissionsForRole az (rl_Name r) z of
        Inl err \<Rightarrow> Inl (WithError ErrInternal err)
      | Inr perms \<Rightarrow> map_sum id (Cons (rl_Name r, toPermissionResponses perms)) (list_all_permissions az rs z))"

definition uc_ListAllPermissions :: "'z authorizer \<Rightarrow> 'z \<Rightarrow> go_error + json" where
  "uc_ListAllPermissions az z = map_sum id all_permissions_json (list_all_permissions az PredefinedRoles z)"

definition uc_AddUserPermission :: "'z authorizer \<Rightarrow> string \<Rightarrow> string \<Rightarrow> string \<Rightarrow> 'z \<Rightarrow> go_error option \<times> 'z" where
  "uc_AddUserPermission az userID object action z = internal (az_AddPermissionForUser az userID object action z)"

definition uc_RemoveUserPermission :: "'z authorizer \<Rightarrow> string \<Rightarrow> string \<Rightarrow> string \<Rightarrow> 'z \<Rightarrow> go_error option \<times> 'z" where
  "uc_RemoveUserPermission az userID object action z = internal (az_RemovePermissionForUser az userID object action z)"

section \<open>Handlers and routes\<close>

record role_module =
  rm_policy :: "string \<Rightarrow> string"
  rm_assign :: "AssignRoleRequest binding"
  rm_revoke :: "RemoveRoleRequest binding"
  rm_add :: "AddPermissionRequest binding"
  rm_remove :: "RemovePermissionRequest binding"
  rm_add_user :: "AddUserPermissionRequest binding"
  rm_remove_user :: "RemoveUserPermissionRequest binding"
  rm_check :: "CheckPermissionRequest binding"

definition rh_ListRoles :: "'z handler" where
  "rh_ListRoles z c = with_state z (Success c (JArr (map role_json uc_ListRoles)))"

definition rh_AssignRole :: "role_module \<Rightarrow> 'z authorizer \<Rightarrow> 'z handler" where
  "rh_AssignRole m az z c =
     bound (ValidateAndBind (rm_policy m) (rm_assign m) c)
       (\<lambda>req z c. answer_err c (resp_Message c ''Role assigned successfully'') (uc_AssignRole az (asr_UserID req) (asr_Role req) z)) z c"

definition rh_RevokeRole :: "role_module \<Rightarrow> 'z authorizer \<Rightarrow> 'z handler" where
  "rh_RevokeRole m az z c =
     bound (ValidateAndBind (rm_policy m) (rm_revoke m) c)
       (\<lambda>req z c. answer_err c (resp_Message c ''Role revoked successfully'') (uc_RemoveRole az (rrr_UserID req) (rrr_Role req) z)) z c"

definition rh_GetRoleUsers :: "'z authorizer \<Rightarrow> 'z handler" where
  "rh_GetRoleUsers az z c = answer c (Success c) (uc_GetRoleUsers az (ctx_Params c ''role'') z, z)"

definition rh_GetRolePermissions :: "'z authorizer \<Rightarrow> 'z handler" where
  "rh_GetRolePermissions az z c =
     answer c (\<lambda>perms. Success c (JArr (map permission_json perms))) (uc_GetRolePermissions az (ctx_Params c ''role'') z, z)"

text \<open>The role of the path replaces the one of the body.\<close>

definition rh_AddRolePermission :: "role_module \<Rightarrow> 'z authorizer \<Rightarrow> 'z handler" where
  "rh_AddRolePermission m az z c =
     (let role = ctx_Params c ''role'' in
      bound (ValidateAndBind (rm_policy m) (rm_add m) c)
        (\<lambda>req0 z c. let req = req0\<lparr>apr_Role := role\<rparr> in
           answer_err c (resp_Message c ''Permission added successfully'')
             (uc_AddPermissionToRole az (apr_Role req) (apr_Object req) (apr_Action req) z)) z c)"

definition rh_RemoveRolePermission :: "role_module \<Rightarrow> 'z authorizer \<Rightarrow> 'z handler" where
  "rh_RemoveRolePermission m az z c =
     (let role = ctx_Params c ''role'' in
      bound (ValidateAndBind (rm_policy m) (rm_remove m) c)
        (\<lambda>req0 z c. let req = req0\<lparr>rpr_Role := role\<rparr> in
           answer_err c (resp_Message c ''Permission removed successfully'')
             (uc_RemovePermissionFromRole az (rpr_Role req) (rpr_Object req) (rpr_Action req) z)) z c)"

definition rh_GetUserRoles :: "'z authorizer \<Rightarrow> 'z handler" where
  "rh_GetUserRoles az z c = answer c (Success c) (uc_GetUserRoles az (ctx_Params c ''id'') z, z)"

definition rh_GetUserPermissions :: "'z authorizer \<Rightarrow> 'z handler" where
  "rh_GetUserPermissions az z c = answer c (Success c) (uc_GetUserPermissions az (ctx_Params c ''id'') z, z)"

definition rh_ListAllPermissions :: "'z authorizer \<Rightarrow> 'z handler" where
  "rh_ListAllPermissions az z c = answer c (Success c) (uc_ListAllPermissions az z, z)"

definition rh_AddUserPermission :: "role_module \<Rightarrow> 'z authorizer \<Rightarrow> 'z handler" where
  "rh_AddUserPermission m az z c =
     (let userID = ctx_Params c ''id'' in
      bound (ValidateAndBind (rm_policy m) (rm_add_user m) c)
        (\<lambda>req z c. answer_err c (resp_Message c ''Permission added successfully'')
           (uc_AddUserPermission az userID (aup_Object req) (aup_Action req) z)) z c)"

definition rh_RemoveUserPermission :: "role_module \<Rightarrow> 'z authorizer \<Rightarrow> 'z handler" where
  "rh_RemoveUserPermission m az z c =
     (let userID = ctx_Params c ''id'' in
      bound (ValidateAndBind (rm_policy m) (rm_remove_user m) c)
        (\<lambda>req z c. answer_err c (resp_Message c ''Permission removed successfully'')
           (uc_RemoveUserPermission az userID (rup_Object req) (rup_Action req) z)) z c)"

definition rh_CheckUserPermission :: "role_module \<Rightarrow> 'z authorizer \<Rightarrow> 'z handler" where
  "rh_CheckUserPermission m az z c =
     (let userID = ctx_Params c ''id'' in
      bound (ValidateQuery (rm_check m) c)
        (\<lambda>req z c. answer c (\<lambda>allowed. Success c (check_json userID (cpr_Object req) (cpr_Action req) allowed))
           (uc_CheckPermission az None userID (cpr_Object req) (cpr_Action req) z)) z c)"

datatype role_route =
    GetRoles | GetCatalog | PostAssign | PostRevoke | GetRoleUsersR | GetRolePermissionsR | PostRolePermission | DeleteRolePermission
  | GetUserRolesR | GetUserPermissionsR | PostUserPermission | DeleteUserPermission | GetCheck

primrec role_action :: "role_route \<Rightarrow> string" where
  "role_action GetRoles = ''read''"
| "role_action GetCatalog = ''read''"
| "role_action PostAssign = ''manage''"
| "role_action PostRevoke = ''manage''"
| "role_action GetRoleUsersR = ''read''"
| "role_action GetRolePermissionsR = ''read''"
| "role_action PostRolePermission = ''manage''"
| "role_action DeleteRolePermission = ''manage''"
| "role_action GetUserRolesR = ''read''"
| "role_action GetUserPermissionsR = ''read''"
| "role_action PostUserPermission = ''manage''"
| "role_action DeleteUserPermission = ''manage''"
| "role_action GetCheck = ''read''"

primrec role_handler :: "role_module \<Rightarrow> 'z authorizer \<Rightarrow> role_route \<Rightarrow> 'z handler" where
  "role_handler m az GetRoles = rh_ListRoles"
| "role_handler m az GetCatalog = rh_ListAllPermissions az"
| "role_handler m az PostAssign = rh_AssignRole m az"
| "role_handler m az PostRevoke = rh_RevokeRole m az"
| "role_handler m az GetRoleUsersR = rh_GetRoleUsers az"
| "role_handler m az GetRolePermissionsR = rh_GetRolePermissions az"
| "role_handler m az PostRolePermission = rh_AddRolePermission m az"
| "role_handler m az DeleteRolePermission = rh_RemoveRolePermission m az"
| "role_handler m az GetUserRolesR = rh_GetUserRoles az"
| "role_handler m az GetUserPermissionsR = rh_GetUserPermissions az"
| "role_handler m az PostUserPermission = rh_AddUserPermission m az"
| "role_handler m az DeleteUserPermission = rh_RemoveUserPermission m az"
| "role_handler m az GetCheck = rh_CheckUserPermission m az"

text \<open>The handlers work on the authorizer, which is the first component of the state that the middleware sees.\<close>

definition on_authorizer :: "'z handler \<Rightarrow> ('z \<times> 'w) handler" where
  "on_authorizer h zw c = (case zw of (z, w) \<Rightarrow> case h z c of (e, z', c') \<Rightarrow> (e, (z', w), c'))"

definition role_routes :: "jwt_api \<Rightarrow> string \<Rightarrow> 'z authorizer \<Rightarrow> role_module \<Rightarrow> go_time \<Rightarrow> role_route \<Rightarrow> ('z \<times> 'w) handler" where
  "role_routes jwt jwtSecret az m now r =
     protected jwt now jwtSecret az (Some (''roles'', role_action r)) (on_authorizer (role_handler m az r))"

section \<open>Two authorizers that agree\<close>

text \<open>
  Calls agree in related states, as long as roles and permissions are given to users and a role that is given is not the
  name of a user.
\<close>

definition agree :: "('s \<Rightarrow> 't \<Rightarrow> bool) \<Rightarrow> 'r \<times> 's \<Rightarrow> 'r \<times> 't \<Rightarrow> bool" where
  "agree R x y \<longleftrightarrow> fst x = fst y \<and> R (snd x) (snd y)"

text \<open>
  The requests that keep to it: the identifier in the body of an assignment is the one of a user (a UUID by its
  validation rule), and so is the one in the path of a change of permissions.
\<close>

definition user_fields :: "(string \<Rightarrow> bool) \<Rightarrow> role_module \<Rightarrow> bool" where
  "user_fields is_user m \<longleftrightarrow>
     (\<forall>req. bd_rules (rm_assign m) req = [] \<longrightarrow> is_user (asr_UserID req)) \<and> (\<forall>req. bd_rules (rm_revoke m) req = [] \<longrightarrow> is_user (rrr_UserID req))"

definition user_path :: "(string \<Rightarrow> bool) \<Rightarrow> role_route \<Rightarrow> fiber_ctx \<Rightarrow> bool" where
  "user_path is_user r c \<longleftrightarrow> (r = PostUserPermission \<or> r = DeleteUserPermission \<longrightarrow> is_user (ctx_Params c ''id''))"

definition answers_agree :: "('s \<Rightarrow> 't \<Rightarrow> bool) \<Rightarrow> go_error option \<times> 's \<times> fiber_ctx \<Rightarrow> go_error option \<times> 't \<times> fiber_ctx \<Rightarrow> bool" where
  "answers_agree R x y \<longleftrightarrow> (case x of (e, s, c) \<Rightarrow> case y of (e', t, c') \<Rightarrow> e = e' \<and> R s t \<and> c = c')"

text \<open>A request at a time, to a route.\<close>

definition role_step ::
  "jwt_api \<Rightarrow> string \<Rightarrow> 'z authorizer \<Rightarrow> role_module \<Rightarrow> go_time \<times> role_route \<times> fiber_ctx \<Rightarrow> 'z \<Rightarrow> (go_error option \<times> fiber_ctx) \<times> 'z" where
  "role_step jwt secret az m req z =
     (case req of (now, r, c) \<Rightarrow> case role_routes jwt secret az m now r (z, ()) c of (e, (z', _), c') \<Rightarrow> ((e, c'), z'))"

lemma params_store_claims: "ctx_Params (store_claims cfg cl c) = ctx_Params c"
  by (simp add: fun_eq_iff ctx_Params_def store_claims_def setContextValue_def ctx_Locals_def)

locale authorizer_sim =
  fixes az :: "'s authorizer" and bz :: "'t authorizer" and R :: "'s \<Rightarrow> 't \<Rightarrow> bool" and is_user :: "string \<Rightarrow> bool"
  assumes Enforce_sim: "R s t \<Longrightarrow> agree R (az_Enforce az u ob ac s) (az_Enforce bz u ob ac t)"
    and EnforceWithContext_sim: "R s t \<Longrightarrow> agree R (az_EnforceWithContext az ctx u ob ac s) (az_EnforceWithContext bz ctx u ob ac t)"
    and AddRole_sim: "R s t \<Longrightarrow> is_user u \<Longrightarrow> \<not> is_user r \<Longrightarrow> agree R (az_AddRoleForUser az u r s) (az_AddRoleForUser bz u r t)"
    and RemoveRole_sim: "R s t \<Longrightarrow> is_user u \<Longrightarrow> agree R (az_RemoveRoleForUser az u r s) (az_RemoveRoleForUser bz u r t)"
    and AddPermissionForRole_sim: "R s t \<Longrightarrow> agree R (az_AddPermissionForRole az r ob ac s) (az_AddPermissionForRole bz r ob ac t)"
    and RemovePermissionForRole_sim: "R s t \<Longrightarrow> agree R (az_RemovePermissionForRole az r ob ac s) (az_RemovePermissionForRole bz r ob ac t)"
    and AddPermissionForUser_sim:
      "R s t \<Longrightarrow> is_user u \<Longrightarrow> agree R (az_AddPermissionForUser az u ob ac s) (az_AddPermissionForUser bz u ob ac t)"
    and RemovePermissionForUser_sim:
      "R s t \<Longrightarrow> is_user u \<Longrightarrow> agree R (az_RemovePermissionForUser az u ob ac s) (az_RemovePermissionForUser bz u ob ac t)"
    and reads_sim: "R s t \<Longrightarrow> az_GetRolesForUser az u s = az_GetRolesForUser bz u t \<and> az_GetUsersForRole az r s = az_GetUsersForRole bz r t \<and>
      az_HasRoleForUser az u r s = az_HasRoleForUser bz u r t \<and> az_GetPermissionsForRole az r s = az_GetPermissionsForRole bz r t \<and>
      az_GetImplicitPermissionsForUser az u s = az_GetImplicitPermissionsForUser bz u t"
begin

lemmas sims = Enforce_sim EnforceWithContext_sim AddRole_sim RemoveRole_sim AddPermissionForRole_sim RemovePermissionForRole_sim
  AddPermissionForUser_sim RemovePermissionForUser_sim

lemma internal_sim: "agree R x y \<Longrightarrow> agree R (internal x) (internal y)"
  by (simp add: agree_def internal_def)

lemma changes_sim:
  assumes "R s t"
  shows "is_user u \<Longrightarrow> \<forall>r. IsValidRole r \<longrightarrow> \<not> is_user r \<Longrightarrow> agree R (uc_AssignRole az u r s) (uc_AssignRole bz u r t)"
    and "is_user u \<Longrightarrow> agree R (uc_RemoveRole az u r s) (uc_RemoveRole bz u r t)"
    and "agree R (uc_AddPermissionToRole az r ob ac s) (uc_AddPermissionToRole bz r ob ac t)"
    and "agree R (uc_RemovePermissionFromRole az r ob ac s) (uc_RemovePermissionFromRole bz r ob ac t)"
    and "is_user u \<Longrightarrow> agree R (uc_AddUserPermission az u ob ac s) (uc_AddUserPermission bz u ob ac t)"
    and "is_user u \<Longrightarrow> agree R (uc_RemoveUserPermission az u ob ac s) (uc_RemoveUserPermission bz u ob ac t)"
  using assms reads_sim [OF assms, of u r] sims [OF assms]
  by (auto simp: uc_AssignRole_def uc_RemoveRole_def uc_AddPermissionToRole_def uc_RemovePermissionFromRole_def uc_AddUserPermission_def
      uc_RemoveUserPermission_def agree_def [of R "(_, s)"] intro!: internal_sim split: sum.split)

lemma all_permissions_sim: "R s t \<Longrightarrow> list_all_permissions az rs s = list_all_permissions bz rs t"
  by (induction rs) (use reads_sim in \<open>auto split: sum.split\<close>)

lemma reading_sim:
  assumes "R s t"
  shows "uc_GetUserRoles az u s = uc_GetUserRoles bz u t" and "uc_GetRoleUsers az r s = uc_GetRoleUsers bz r t"
    and "uc_GetRolePermissions az r s = uc_GetRolePermissions bz r t" and "uc_GetUserPermissions az u s = uc_GetUserPermissions bz u t"
    and "uc_ListAllPermissions az s = uc_ListAllPermissions bz t"
  using reads_sim [OF assms, of u r] all_permissions_sim [OF assms]
  by (simp_all add: uc_GetUserRoles_def uc_GetRoleUsers_def uc_GetRolePermissions_def uc_GetUserPermissions_def uc_ListAllPermissions_def)

lemma check_sim: "R s t \<Longrightarrow> agree R (uc_CheckPermission az ctx u ob ac s) (uc_CheckPermission bz ctx u ob ac t)"
  using EnforceWithContext_sim [of s t ctx u ob ac]
  by (auto simp: uc_CheckPermission_def agree_def split: prod.splits option.splits)

lemma answers_sim:
  "R s t \<Longrightarrow> answers_agree R (with_state s x) (with_state t x)"
  "agree R r r' \<Longrightarrow> answers_agree R (answer_err c ok r) (answer_err c ok r')"
  "agree R q q' \<Longrightarrow> answers_agree R (answer c ok' q) (answer c ok' q')"
  "R s t \<Longrightarrow> (\<And>req. v = Inr req \<Longrightarrow> answers_agree R (h req s c) (h' req t c)) \<Longrightarrow> answers_agree R (bound v h s c) (bound v h' t c)"
  by (auto simp: answers_agree_def agree_def answer_def answer_err_def bound_def with_state_def split: prod.splits option.splits sum.splits)

lemma handler_sim:
  assumes "R s t" and "user_fields is_user m" and "user_path is_user r c" and "\<forall>role. IsValidRole role \<longrightarrow> \<not> is_user role"
  shows "answers_agree R (role_handler m az r s c) (role_handler m bz r t c)"
proof -
  have ids: "ValidateAndBind (rm_policy m) (rm_assign m) c = Inr ra \<Longrightarrow> is_user (asr_UserID ra)"
    "ValidateAndBind (rm_policy m) (rm_revoke m) c = Inr rr \<Longrightarrow> is_user (rrr_UserID rr)" for ra rr
    using ValidateAndBind_Inr assms(2) unfolding user_fields_def by meson+
  have reads: "agree R (x, s) (x, t)" for x :: "go_error + 'x" using assms(1) by (simp add: agree_def)
  note defs = rh_ListRoles_def rh_ListAllPermissions_def rh_AssignRole_def rh_RevokeRole_def rh_GetRoleUsers_def rh_GetRolePermissions_def
    rh_AddRolePermission_def rh_RemoveRolePermission_def rh_GetUserRoles_def rh_GetUserPermissions_def rh_AddUserPermission_def
    rh_RemoveUserPermission_def rh_CheckUserPermission_def
  show ?thesis
    using assms(1,3,4) by (cases r) (auto simp: defs Let_def user_path_def reading_sim [OF assms(1)]
        intro!: answers_sim reads changes_sim check_sim dest: ids)
qed

lemma routes_sim:
  assumes "R s t" and "user_fields is_user m" and "user_path is_user r c" and "\<forall>role. IsValidRole role \<longrightarrow> \<not> is_user role"
  shows "answers_agree (\<lambda>(s, w) (t, w'). R s t \<and> w = w') (role_routes jwt secret az m now r (s, w) c) (role_routes jwt secret bz m now r (t, w) c)"
proof -
  let ?ok = "answers_agree (\<lambda>(s, w) (t, w'). R s t \<and> w = w')"
  have h: "?ok (on_authorizer (role_handler m az r) (s', w) c1) (on_authorizer (role_handler m bz r) (t', w) c1)"
    if "R s' t'" "ctx_Params c1 = ctx_Params c" for s' t' c1
    using handler_sim [OF that(1) assms(2) _ assms(4), of r c1] that(2) assms(3)
    by (auto simp: on_authorizer_def answers_agree_def user_path_def split: prod.splits)
  have p: "?ok (RequirePermission az ob ac (on_authorizer (role_handler m az r)) (s, w) c1)
      (RequirePermission bz ob ac (on_authorizer (role_handler m bz r)) (t, w) c1)" if c1: "ctx_Params c1 = ctx_Params c" for ob ac c1
  proof -
    obtain v err s' t' where en: "az_Enforce az (GetUserID c1) ob ac s = ((v, err), s')" "az_Enforce bz (GetUserID c1) ob ac t = ((v, err), t')" "R s' t'"
      using Enforce_sim [OF assms(1), of "GetUserID c1" ob ac] unfolding agree_def by (metis prod.exhaust fst_conv snd_conv)
    show ?thesis using h [OF en(3) c1] assms(1) en by (auto simp: RequirePermission_def Let_def with_state_def answers_agree_def split: prod.split)
  qed
  show ?thesis
    using assms(1) p [OF params_store_claims]
    by (auto simp: role_routes_def protected_def Auth_def answers_agree_def with_state_def split: sum.split prod.splits)
qed

lemma requests_sim:
  assumes "user_fields is_user m" and "\<forall>role. IsValidRole role \<longrightarrow> \<not> is_user role"
  shows "R s t \<Longrightarrow> list_all (\<lambda>(now, r, c). user_path is_user r c) reqs \<Longrightarrow>
    agree R (run_ops (role_step jwt secret az m) reqs s) (run_ops (role_step jwt secret bz m) reqs t)"
proof (induction reqs arbitrary: s t)
  case (Cons req reqs)
  obtain now r c where req: "req = (now, r, c)" by (cases req)
  have "answers_agree (\<lambda>(s, w) (t, w'). R s t \<and> w = w') (role_routes jwt secret az m now r (s, ()) c) (role_routes jwt secret bz m now r (t, ()) c)"
    using Cons.prems(2) by (intro routes_sim [OF Cons.prems(1) assms(1) _ assms(2)]) (simp add: req)
  then have "agree R (role_step jwt secret az m req s) (role_step jwt secret bz m req t)"
    by (auto simp: role_step_def req agree_def answers_agree_def split: prod.splits)
  then show ?case using Cons.IH [of "snd (role_step jwt secret az m req s)" "snd (role_step jwt secret bz m req t)"] Cons.prems(2)
    by (auto simp: agree_def Let_def split: prod.splits)
qed (simp add: agree_def)

end

section \<open>With and without the decision cache\<close>

text \<open>The contract of the enforcer gives the one of the authorizers.\<close>

sublocale casbin_enforcer \<subseteq> sim: authorizer_sim "casbin_authorizer api" "casbin_authorizer api"
  "\<lambda>a b. adapter_inv a \<and> b = uncached a" is_user
proof
  fix a b assume ab: "adapter_inv a \<and> b = uncached a"
  note step = step_agrees [OF conjunct1 [OF ab]]
  note defs = agree_def casbin_authorizer_def
  let ?R = "\<lambda>a b. adapter_inv a \<and> b = uncached a" and ?z = "casbin_authorizer api"
  show "agree ?R (az_Enforce ?z u ob ac a) (az_Enforce ?z u ob ac b)" for u ob ac
    using step [of "OEnforce u ob ac"] ab by (simp add: defs)
  show "agree ?R (az_EnforceWithContext ?z ctx u ob ac a) (az_EnforceWithContext ?z ctx u ob ac b)" for ctx u ob ac
    using step [of "OEnforceWithContext ctx u ob ac"] ab by (simp add: defs)
  show "agree ?R (az_AddRoleForUser ?z u r a) (az_AddRoleForUser ?z u r b)" if "is_user u" "\<not> is_user r" for u r
    using step [of "OAddRoleForUser u r"] ab that by (simp add: defs)
  show "agree ?R (az_RemoveRoleForUser ?z u r a) (az_RemoveRoleForUser ?z u r b)" if "is_user u" for u r
    using step [of "ORemoveRoleForUser u r"] ab that by (simp add: defs)
  show "agree ?R (az_AddPermissionForRole ?z r ob ac a) (az_AddPermissionForRole ?z r ob ac b)" for r ob ac
    using step [of "OAddPermissionForRole r ob ac"] ab by (simp add: defs)
  show "agree ?R (az_RemovePermissionForRole ?z r ob ac a) (az_RemovePermissionForRole ?z r ob ac b)" for r ob ac
    using step [of "ORemovePermissionForRole r ob ac"] ab by (simp add: defs)
  show "agree ?R (az_AddPermissionForUser ?z u ob ac a) (az_AddPermissionForUser ?z u ob ac b)" if "is_user u" for u ob ac
    using step [of "OAddPermissionForUser u ob ac"] ab that by (simp add: defs)
  show "agree ?R (az_RemovePermissionForUser ?z u ob ac a) (az_RemovePermissionForUser ?z u ob ac b)" if "is_user u" for u ob ac
    using step [of "ORemovePermissionForUser u ob ac"] ab that by (simp add: defs)
  show "az_GetRolesForUser ?z u a = az_GetRolesForUser ?z u b \<and> az_GetUsersForRole ?z r a = az_GetUsersForRole ?z r b \<and>
      az_HasRoleForUser ?z u r a = az_HasRoleForUser ?z u r b \<and> az_GetPermissionsForRole ?z r a = az_GetPermissionsForRole ?z r b \<and>
      az_GetImplicitPermissionsForUser ?z u a = az_GetImplicitPermissionsForUser ?z u b" for u r
    using ab by (simp add: casbin_authorizer_def GetRolesForUser_def GetUsersForRole_def HasRoleForUser_def GetPermissionsForRole_def
        GetImplicitPermissionsForUser_def)
qed

lemma Enforce_keeps:
  "enforcer (snd (Enforce api s ob ac a)) = enforcer a"
  "enforcer (snd (EnforceWithContext api ctx s ob ac a)) = enforcer a"
  by (auto simp: Enforce_def EnforceWithContext_def split: prod.splits option.splits)

lemma Enforce_keeps_pair: "EnforceWithContext api ctx s ob ac a = (x, a') \<Longrightarrow> enforcer a' = enforcer a"
  using Enforce_keeps(2) [of api ctx s ob ac a] by simp

lemma rbac_Enforce: "e_Enforce rbac_api = rbac_enforce"
  by (simp add: rbac_api_def)

context casbin_enforcer
begin

lemma Enforce_policy:
  assumes "adapter_inv a"
  shows "fst (Enforce api s ob ac a) = e_Enforce api (enforcer a) s ob ac"
  using Enforce_agrees [OF assms, of s ob ac]
  by (auto simp: Enforce_def [of api s ob ac "uncached a"] cache_get_def split: prod.splits)

end

lemma protected_denied:
  assumes "jwt_lib jwt signed_by"
    and "protected jwt now secret (casbin_authorizer api) (Some perm) h (a, w) c = (e, (a', w'), c')" and "enforcer a' \<noteq> enforcer a"
  shows "\<exists>uid a1 c1. let_through signed_by now secret (casbin_authorizer api) (Some perm) c a uid a1 \<and> h (a1, w) c1 = (e, (a', w'), c')"
proof -
  let ?z = "casbin_authorizer api"
  obtain obj act where perm: "perm = (obj, act)" by (cases perm)
  from auth_mediation [OF assms(1), of c "DefaultAuthConfig secret" now "(a, w)"] consider
    (reached) tok cl c1 where "extractToken c ''header:Authorization'' = Inr tok" "signed_by secret cl tok"
      "claims_valid now ''goscratch'' ''goscratch-api'' cl" "GetUserID c1 = jc_UserID cl"
      "\<forall>rest. Auth jwt now (DefaultAuthConfig secret) rest (a, w) c = rest (a, w) c1"
  | (denied) c1 where "\<forall>rest. Auth jwt now (DefaultAuthConfig secret) rest (a, w) c = (None, (a, w), c1)"
    by (auto simp: DefaultAuthConfig_def)
  then show ?thesis
  proof cases
    case reached
    then have "RequirePermission ?z obj act h (a, w) c1 = (e, (a', w'), c')" using assms(2) perm by (simp add: protected_def)
    then have "\<exists>a1. az_Enforce ?z (jc_UserID cl) obj act a = ((True, None), a1) \<and> h (a1, w) c1 = (e, (a', w'), c')"
      using assms(3) reached(4) Enforce_keeps(1) [of api "jc_UserID cl" obj act a]
      by (auto simp: RequirePermission_def Let_def with_state_def casbin_authorizer_def split: prod.splits if_splits)
    with reached(1-3) perm show ?thesis by (auto simp: let_through_def)
  next
    case denied
    with assms(2,3) show ?thesis by (simp add: protected_def)
  qed
qed

lemma role_reads_keep:
  assumes "role_handler m (casbin_authorizer api) r a c = (e, a', c')" and "role_action r \<noteq> ''manage''"
  shows "enforcer a' = enforcer a"
  using assms
  by (cases r) (auto dest: Enforce_keeps_pair simp: rh_ListRoles_def rh_ListAllPermissions_def rh_GetRoleUsers_def rh_GetRolePermissions_def rh_GetUserRoles_def
      rh_GetUserPermissions_def rh_CheckUserPermission_def Let_def bound_def answer_def with_state_def uc_CheckPermission_def casbin_authorizer_def
      split: sum.splits prod.splits option.splits)

definition not_a_role :: "string \<Rightarrow> bool" where
  "not_a_role u \<longleftrightarrow> \<not> IsValidRole u"

text \<open>Which requests the policy allows, when its rules are well formed.\<close>

lemma rbac_scan_True:
  assumes "[ps, po, pa] \<in> set rules" and "list_all (\<lambda>l. length l = 3) rules" and "matcher g s ob ac ps po pa"
  shows "rbac_scan g s ob ac rules = (True, None)"
  using assms(1,2)
proof (induction rules)
  case (Cons l rules)
  obtain ps' po' pa' where "l = [ps', po', pa']" using Cons.prems(2) by (auto simp: length_Suc_conv numeral_3_eq_3)
  with Cons assms(3) show ?case by auto
qed simp

lemma rbac_scan_granted:
  assumes "rbac_scan g s ob ac rules = (True, e)"
  shows "\<exists>ps po pa. [ps, po, pa] \<in> set rules \<and> matcher g s ob ac ps po pa"
  using assms by (induction rules) (auto split: list.splits if_splits)

lemma roles_of_iff: "r \<in> set (roles_of g u) \<longleftrightarrow> [u, r] \<in> set g"
  by (force simp: roles_of_def link_role_def split: list.splits if_splits)

lemma role_in_closure: "[u, r] \<in> set g \<Longrightarrow> r \<in> set (role_closure (Suc n) g u)"
  using roles_of_iff [of r g u] by (cases n) auto

lemma check_policy:
  assumes "rb.adapter_inv is_user a"
  shows "fst (uc_CheckPermission (casbin_authorizer rbac_api) None u ob ac a) =
    (case rbac_enforce (enforcer a) u ob ac of (v, Some err) \<Rightarrow> Inl (WithError ErrInternal err) | (v, None) \<Rightarrow> Inr v)"
  using rb.Enforce_policy [OF assms, of u ob ac]
  by (cases "Enforce rbac_api u ob ac a") (simp add: uc_CheckPermission_def casbin_authorizer_def rb.Enforce_ctx rbac_Enforce split: prod.split option.split)

lemma assigned:
  assumes "rb.adapter_inv not_a_role a" and "not_a_role u" and "uc_AssignRole (casbin_authorizer rbac_api) u role a = (None, a')"
  shows "rb.adapter_inv not_a_role a'" and "g_rules (enforcer a') = g_rules (enforcer a) @ [[u, role]]" and "p_rules (enforcer a') = p_rules (enforcer a)"
proof -
  have r: "IsValidRole role" "[u, role] \<notin> set (g_rules (enforcer a))" "AddRoleForUser rbac_api u role a = (None, a')"
    using assms(3) by (auto simp: uc_AssignRole_def casbin_authorizer_def HasRoleForUser_def rbac_api_def roles_of_iff internal_def map_prod_def
        split: if_splits prod.splits)
  then show "rb.adapter_inv not_a_role a'" using rb.adapter_inv_mutations(1) [OF assms(1,2), of role] not_a_role_def [of role] by simp
  show "g_rules (enforcer a') = g_rules (enforcer a) @ [[u, role]]" "p_rules (enforcer a') = p_rules (enforcer a)"
    using r(2,3) by (auto simp: AddRoleForUser_def rbac_api_def rbac_add_g_def simp del: validatePolicyArgs.simps split: option.splits if_splits)
qed

lemma revoked:
  assumes "rb.adapter_inv not_a_role a" and "not_a_role u" and "uc_RemoveRole (casbin_authorizer rbac_api) u role a = (None, a')"
  shows "rb.adapter_inv not_a_role a'" and "g_rules (enforcer a') = filter (\<lambda>l. l \<noteq> [u, role]) (g_rules (enforcer a))"
    and "p_rules (enforcer a') = p_rules (enforcer a)"
proof -
  have r: "[u, role] \<in> set (g_rules (enforcer a))" "RemoveRoleForUser rbac_api u role a = (None, a')"
    using assms(3) by (auto simp: uc_RemoveRole_def casbin_authorizer_def HasRoleForUser_def rbac_api_def roles_of_iff internal_def map_prod_def
        split: if_splits prod.splits)
  then show "rb.adapter_inv not_a_role a'" using rb.adapter_inv_mutations(2) [OF assms(1,2), of role] by simp
  show "g_rules (enforcer a') = filter (\<lambda>l. l \<noteq> [u, role]) (g_rules (enforcer a))" "p_rules (enforcer a') = p_rules (enforcer a)"
    using r by (auto simp: RemoveRoleForUser_def rbac_api_def rbac_remove_g_def simp del: validatePolicyArgs.simps split: option.splits if_splits)
qed

section \<open>An example policy\<close>
text \<open>An administrator, the policy of the module's defaults, and requests that go through the middleware.\<close>

definition role_rbac :: rbac where
  "role_rbac = \<lparr>p_rules = [[''admin'', ''*'', ''*''], [''viewer'', ''users'', ''read'']], g_rules = [[''u-7'', ''admin''], [''u-8'', ''viewer'']],
     db_p = [[''admin'', ''*'', ''*''], [''viewer'', ''users'', ''read'']], db_g = [[''u-7'', ''admin''], [''u-8'', ''viewer'']],
     db_up = True, notify_up = True\<rparr>"

definition role_demo :: role_module where
  "role_demo = \<lparr>rm_policy = id,
     rm_assign = \<lparr>bd_parse = (\<lambda>c. Inr \<lparr>asr_UserID = ''u-9'', asr_Role = ''viewer''\<rparr>), bd_value = (\<lambda>_. RStruct []),
       bd_back = (\<lambda>_. \<lparr>asr_UserID = ''u-9'', asr_Role = ''viewer''\<rparr>),
       bd_rules = (\<lambda>req. if has_prefix (asr_UserID req) ''u-'' then [] else [\<lparr>fe_Field = ''user_id'', fe_Tag = ''uuid'', fe_Param = ''''\<rparr>])\<rparr>,
     rm_revoke = \<lparr>bd_parse = (\<lambda>c. Inr \<lparr>rrr_UserID = ''u-9'', rrr_Role = ''viewer''\<rparr>), bd_value = (\<lambda>_. RStruct []),
       bd_back = (\<lambda>_. \<lparr>rrr_UserID = ''u-9'', rrr_Role = ''viewer''\<rparr>),
       bd_rules = (\<lambda>req. if has_prefix (rrr_UserID req) ''u-'' then [] else [\<lparr>fe_Field = ''user_id'', fe_Tag = ''uuid'', fe_Param = ''''\<rparr>])\<rparr>,
     rm_add = \<lparr>bd_parse = (\<lambda>c. Inl (ErrText ''EOF'')), bd_value = (\<lambda>_. RStruct []), bd_back = (\<lambda>_. \<lparr>apr_Role = '''', apr_Object = '''', apr_Action = ''''\<rparr>), bd_rules = (\<lambda>_. [])\<rparr>,
     rm_remove = \<lparr>bd_parse = (\<lambda>c. Inl (ErrText ''EOF'')), bd_value = (\<lambda>_. RStruct []), bd_back = (\<lambda>_. \<lparr>rpr_Role = '''', rpr_Object = '''', rpr_Action = ''''\<rparr>), bd_rules = (\<lambda>_. [])\<rparr>,
     rm_add_user = \<lparr>bd_parse = (\<lambda>c. Inl (ErrText ''EOF'')), bd_value = (\<lambda>_. RStruct []), bd_back = (\<lambda>_. \<lparr>aup_Object = '''', aup_Action = ''''\<rparr>), bd_rules = (\<lambda>_. [])\<rparr>,
     rm_remove_user = \<lparr>bd_parse = (\<lambda>c. Inl (ErrText ''EOF'')), bd_value = (\<lambda>_. RStruct []), bd_back = (\<lambda>_. \<lparr>rup_Object = '''', rup_Action = ''''\<rparr>), bd_rules = (\<lambda>_. [])\<rparr>,
     rm_check = \<lparr>bd_parse = (\<lambda>c. Inr \<lparr>cpr_Object = ''users'', cpr_Action = ''read''\<rparr>), bd_value = (\<lambda>_. RStruct []),
       bd_back = (\<lambda>_. \<lparr>cpr_Object = ''users'', cpr_Action = ''read''\<rparr>), bd_rules = (\<lambda>_. [])\<rparr>\<rparr>"

definition manager_claims :: jwt_claims where
  "manager_claims = \<lparr>jc_Subject = ''u-7'', jc_Issuer = ''goscratch'', jc_Audience = [''goscratch-api''], jc_ExpiresAt = Some 9, jc_IssuedAt = Some 0,
     jc_NotBefore = Some 0, jc_UserID = ''u-7'', jc_Email = '''', jc_Name = ''''\<rparr>"

definition manager_ctx :: fiber_ctx where
  "manager_ctx = example_ctx\<lparr>req_headers := [(''Authorization'', ''Bearer '' @ enc_claims manager_claims @ ''k'')], req_params := [(''id'', ''u-9'')]\<rparr>"

definition role_adapter :: "decisionCache option \<Rightarrow> rbac adapter" where
  "role_adapter dc = \<lparr>enforcer = role_rbac, cache = dc, reloadInterval = 0\<rparr>"

lemma role_demo_ok: "rbac_inv not_a_role role_rbac" "user_fields not_a_role role_demo"
proof -
  show "rbac_inv not_a_role role_rbac" by code_simp
  have "not_a_role u" if "has_prefix u ''u-''" for u
    using that by (auto simp: not_a_role_def IsValidRole_def PredefinedRoles_def role_names has_prefix_def)
  then show "user_fields not_a_role role_demo" by (auto simp: user_fields_def role_demo_def split: if_splits)
qed

lemma manager_passes:
  "Auth demo_jwt 5 (DefaultAuthConfig ''k'') h w manager_ctx = h w (store_claims (DefaultAuthConfig ''k'') (toDomainClaims manager_claims) manager_ctx)"
proof -
  have ext: "extractToken manager_ctx ''header:Authorization'' = Inr (enc_claims manager_claims @ ''k'')"
    by (simp add: extractToken_def manager_ctx_def ctx_Get_def assoc_str_def has_prefix_def trim_prefix_def)
  have "claims_valid 5 ''goscratch'' ''goscratch-api'' manager_claims" by (simp add: claims_valid_def manager_claims_def)
  then have "parseToken demo_jwt 5 (enc_claims manager_claims @ ''k'') ''k'' ''goscratch'' ''goscratch-api'' = Inr manager_claims"
    using demo.parse_valid by (simp add: parseToken_def)
  with ext show ?thesis by (simp add: Auth_def DefaultAuthConfig_def)
qed

lemma manager_id: "GetUserID (store_claims (DefaultAuthConfig ''k'') (toDomainClaims manager_claims) manager_ctx) = ''u-7''"
  by (simp add: toDomainClaims_def manager_claims_def)

lemma manager_assigns:
  "\<exists>e c' a'. role_routes demo_jwt ''k'' (casbin_authorizer rbac_api) role_demo 5 PostAssign (role_adapter None, ()) manager_ctx = (e, (a', ()), c') \<and>
     g_rules (enforcer a') = g_rules role_rbac @ [[''u-9'', ''viewer'']]"
proof -
  have en: "rbac_enforce role_rbac ''u-7'' ''roles'' ''manage'' = (True, None)" by code_simp
  have "Enforce rbac_api ''u-7'' ''roles'' ''manage'' (role_adapter None) = ((True, None), role_adapter None)"
    by (simp add: Enforce_def role_adapter_def cache_get_def cache_put_def rbac_Enforce en)
  moreover have "\<exists>a'. uc_AssignRole (casbin_authorizer rbac_api) ''u-9'' ''viewer'' (role_adapter None) = (None, a') \<and>
      g_rules (enforcer a') = g_rules role_rbac @ [[''u-9'', ''viewer'']]"
    by (simp add: uc_AssignRole_def casbin_authorizer_def HasRoleForUser_def AddRoleForUser_def rbac_api_def rbac_add_g_def role_adapter_def role_rbac_def
        roles_of_def link_role_def IsValidRole_def PredefinedRoles_def role_names internal_def notify_error_def)
  ultimately show ?thesis
    by (auto simp: role_routes_def protected_def manager_passes RequirePermission_def manager_id casbin_authorizer_def [THEN arg_cong [of _ _ az_Enforce]] Let_def
        on_authorizer_def rh_AssignRole_def bound_def ValidateAndBind_def role_demo_def Validate_def ValidateStruct_def has_prefix_def
        answer_err_def with_state_def simp del: GetUserID_store split: prod.splits)
qed

section \<open>Properties\<close>



text \<open>
  C31. Only those who may manage roles change the policy. For every JWT library with the laws and an adapter whose cached
  decisions are those of the policy: if a request to a route of the role module changes the enforcer, then the route is
  one that manages roles, the request carries a valid token, and the policy itself (not only the cache) grants the signed
  user the permission to manage roles.
\<close>

theorem role_changes_authorized:
  assumes "jwt_lib jwt signed_by" and "rb.adapter_inv is_user a"
    and "role_routes jwt secret (casbin_authorizer rbac_api) m now r (a, w) c = (e, (a', w'), c')" and "enforcer a' \<noteq> enforcer a"
  shows "role_action r = ''manage'' \<and>
    (\<exists>tok cl. extractToken c ''header:Authorization'' = Inr tok \<and> signed_by secret cl tok \<and>
       claims_valid now ''goscratch'' ''goscratch-api'' cl \<and> rbac_enforce (enforcer a) (jc_UserID cl) ''roles'' ''manage'' = (True, None))"
proof -
  let ?z = "casbin_authorizer rbac_api"
  have en: "az_Enforce ?z = Enforce rbac_api" by (simp add: casbin_authorizer_def)
  have "\<exists>uid a1 c1. let_through signed_by now secret ?z (Some (''roles'', role_action r)) c a uid a1 \<and>
      on_authorizer (role_handler m ?z r) (a1, w) c1 = (e, (a', w'), c')"
    using protected_denied [OF assms(1) assms(3) [unfolded role_routes_def] assms(4)] .
  then obtain uid a1 c1 where l: "let_through signed_by now secret ?z (Some (''roles'', role_action r)) c a uid a1"
    and h: "role_handler m ?z r a1 c1 = (e, a', c')" by (auto simp: on_authorizer_def split: prod.splits) (metis prod.exhaust)
  then have a1: "Enforce rbac_api uid ''roles'' (role_action r) a = ((True, None), a1)" by (simp add: let_through_def en)
  then have "enforcer a1 = enforcer a" using Enforce_keeps(1) [of rbac_api uid "''roles''" "role_action r" a] by simp
  then have manage: "role_action r = ''manage''" using role_reads_keep [OF h] assms(4) by auto
  have "rbac_enforce (enforcer a) uid ''roles'' ''manage'' = (True, None)"
    using rb.Enforce_policy [OF assms(2), of uid "''roles''" "''manage''"] a1 manage by (simp add: rbac_api_def)
  with l manage show ?thesis by (auto simp: let_through_def)
qed

lemma role_changes_authorized_witness:
  "\<exists>e a' c'. role_routes demo_jwt ''k'' (casbin_authorizer rbac_api) role_demo 5 PostAssign (role_adapter None, ()) manager_ctx = (e, (a', ()), c') \<and>
     enforcer a' \<noteq> enforcer (role_adapter None) \<and>
     (\<exists>cl. claims_valid 5 ''goscratch'' ''goscratch-api'' cl \<and> rbac_enforce role_rbac (jc_UserID cl) ''roles'' ''manage'' = (True, None))"
proof -
  have "rb.adapter_inv not_a_role (role_adapter (Some (newDecisionCache 0)))"
    using rb.fresh_cache_inv [of not_a_role "role_adapter None" 0] role_demo_ok(1) by (simp add: role_adapter_def)
  then have inv: "rb.adapter_inv not_a_role (role_adapter None)"
    by (auto simp: rb.adapter_inv_def dc.coherent_def role_adapter_def cached_def cache_ok_def)
  obtain e a' c' where run: "role_routes demo_jwt ''k'' (casbin_authorizer rbac_api) role_demo 5 PostAssign (role_adapter None, ()) manager_ctx = (e, (a', ()), c')"
      "g_rules (enforcer a') = g_rules role_rbac @ [[''u-9'', ''viewer'']]" using manager_assigns by blast
  then have ch: "enforcer a' \<noteq> enforcer (role_adapter None)" by (auto simp: role_adapter_def)
  from role_changes_authorized [OF demo.jwt_lib_axioms inv run(1) ch] run(1) ch show ?thesis by (auto simp: role_adapter_def)
qed

text \<open>
  C32. Changes of roles take effect at once. On an adapter whose cached decisions are those of the policy: after a role was
  assigned successfully, the user has it, and every permission that a rule gives to the role is granted to the user on the
  next check. After it was revoked successfully, the user does not have it, and what the next check grants is granted by a
  rule for the user or for a role that the user still has.
\<close>

theorem role_changes_take_effect:
  assumes "rb.adapter_inv not_a_role a" and "not_a_role u"
  shows "(uc_AssignRole (casbin_authorizer rbac_api) u role a = (None, a') \<longrightarrow>
      role \<in> set (roles_of (g_rules (enforcer a')) u) \<and>
      (\<forall>ob ac. [role, ob, ac] \<in> set (p_rules (enforcer a)) \<and> list_all (\<lambda>l. length l = 3) (p_rules (enforcer a)) \<longrightarrow>
         fst (uc_CheckPermission (casbin_authorizer rbac_api) None u ob ac a') = Inr True)) \<and>
    (uc_RemoveRole (casbin_authorizer rbac_api) u role a = (None, a') \<longrightarrow>
      role \<notin> set (roles_of (g_rules (enforcer a')) u) \<and>
      (\<forall>ob ac. fst (uc_CheckPermission (casbin_authorizer rbac_api) None u ob ac a') = Inr True \<longrightarrow>
         (\<exists>ps po pa. [ps, po, pa] \<in> set (p_rules (enforcer a)) \<and> matcher (filter (\<lambda>l. l \<noteq> [u, role]) (g_rules (enforcer a))) u ob ac ps po pa)))"
proof (intro conjI impI allI; (elim conjE)?)
  let ?z = "casbin_authorizer rbac_api"
  assume "uc_AssignRole ?z u role a = (None, a')"
  note add = assigned [OF assms this]
  show "role \<in> set (roles_of (g_rules (enforcer a')) u)" by (simp add: add roles_of_iff)
  fix ob ac assume "[role, ob, ac] \<in> set (p_rules (enforcer a))" "list_all (\<lambda>l. length l = 3) (p_rules (enforcer a))"
  then have "rbac_enforce (enforcer a') u ob ac = (True, None)"
    using role_in_closure [of u role "g_rules (enforcer a')" 9] unfolding rbac_enforce_def
    by (intro rbac_scan_True [of role ob ac]) (auto simp: add matcher_def)
  then show "fst (uc_CheckPermission ?z None u ob ac a') = Inr True" by (simp add: check_policy [OF add(1)])
next
  let ?z = "casbin_authorizer rbac_api"
  assume "uc_RemoveRole ?z u role a = (None, a')"
  note rem = revoked [OF assms this]
  show "role \<notin> set (roles_of (g_rules (enforcer a')) u)" by (simp add: rem roles_of_iff)
  fix ob ac assume "fst (uc_CheckPermission ?z None u ob ac a') = Inr True"
  then obtain e where "rbac_enforce (enforcer a') u ob ac = (True, e)"
    by (auto simp: check_policy [OF rem(1)] split: prod.splits option.splits)
  from rbac_scan_granted [OF this [unfolded rbac_enforce_def]]
  show "\<exists>ps po pa. [ps, po, pa] \<in> set (p_rules (enforcer a)) \<and> matcher (filter (\<lambda>l. l \<noteq> [u, role]) (g_rules (enforcer a))) u ob ac ps po pa"
    by (simp add: rem)
qed

lemma role_changes_take_effect_witness:
  "\<exists>a'. uc_AssignRole (casbin_authorizer rbac_api) ''u-9'' ''viewer'' (role_adapter (Some (newDecisionCache 100))) = (None, a') \<and>
     fst (uc_CheckPermission (casbin_authorizer rbac_api) None ''u-9'' ''users'' ''read'' a') = Inr True"
proof -
  let ?a = "role_adapter (Some (newDecisionCache 100))"
  have inv: "rb.adapter_inv not_a_role ?a"
    using rb.fresh_cache_inv [of not_a_role "role_adapter None" 100] role_demo_ok(1) by (simp add: role_adapter_def)
  have u: "not_a_role ''u-9''" by code_simp
  obtain a' where "uc_AssignRole (casbin_authorizer rbac_api) ''u-9'' ''viewer'' ?a = (None, a')"
    by (simp add: uc_AssignRole_def casbin_authorizer_def HasRoleForUser_def AddRoleForUser_def rbac_api_def rbac_add_g_def role_adapter_def role_rbac_def
        roles_of_def link_role_def IsValidRole_def PredefinedRoles_def role_names internal_def notify_error_def)
  with role_changes_take_effect [OF inv u, of "''viewer''" a'] show ?thesis by (simp add: role_adapter_def role_rbac_def)
qed

end
