(* ===== verification/Sse.thy ===== *)
theory Sse
  imports Validator Middleware_Auth "HOL-Library.AList" "HOL-Library.Sublist"
begin

text \<open>
  Server-sent events: the port \<^verbatim>\<open>src/internal/port/sse.go\<close>, the broker and the no-op broker \<^verbatim>\<open>src/internal/adapter/sse\<close> and the
  module \<^verbatim>\<open>src/internal/module/sse\<close>. Channels live in an explicit store, because the broker and the stream writers share
  them. Sending on a closed channel and closing one twice panic; a panic is a left value. The mutex of the broker makes
  its operations atomic, so the goroutines of the streams interleave as a sequence of labelled steps.
\<close>

section \<open>Events and channels\<close>

record Event =
  ev_ID :: string
  ev_Event :: string
  ev_Data :: string
  ev_Retry :: int

definition NewEvent :: "string \<Rightarrow> string \<Rightarrow> Event" where
  "NewEvent eventType data = \<lparr>ev_ID = '''', ev_Event = eventType, ev_Data = data, ev_Retry = 0\<rparr>"

definition NewEventWithID :: "string \<Rightarrow> string \<Rightarrow> string \<Rightarrow> Event" where
  "NewEventWithID i eventType data = \<lparr>ev_ID = i, ev_Event = eventType, ev_Data = data, ev_Retry = 0\<rparr>"

record event_chan =
  ch_buf :: "Event list"
  ch_cap :: nat
  ch_closed :: bool

type_synonym heap = "event_chan list"

definition make_chan :: "nat \<Rightarrow> event_chan" where
  "make_chan n = \<lparr>ch_buf = [], ch_cap = n, ch_closed = False\<rparr>"

definition close_chan :: "nat \<Rightarrow> heap \<Rightarrow> string + heap" where
  "close_chan a h = (if ch_closed (h ! a) then Inl ''close of closed channel'' else Inr (h[a := (h ! a)\<lparr>ch_closed := True\<rparr>]))"

text \<open>A send in a \<^verbatim>\<open>select\<close> with a default case.\<close>

definition try_send :: "Event \<Rightarrow> nat \<Rightarrow> heap \<Rightarrow> string + heap" where
  "try_send ev a h =
     (if ch_closed (h ! a) then Inl ''send on closed channel''
      else if length (ch_buf (h ! a)) < ch_cap (h ! a) then Inr (h[a := (h ! a)\<lparr>ch_buf := ch_buf (h ! a) @ [ev]\<rparr>])
      else Inr h)"

fun each :: "('a \<Rightarrow> 's \<Rightarrow> string + 's) \<Rightarrow> 'a list \<Rightarrow> 's \<Rightarrow> string + 's" where
  "each f [] s = Inr s"
| "each f (x # xs) s = (case f x s of Inl p \<Rightarrow> Inl p | Inr s' \<Rightarrow> each f xs s')"

section \<open>The broker\<close>

record clientInfo =
  ci_channel :: nat
  ci_topics :: "string list"

record Broker =
  sb_clients :: "(string \<times> clientInfo) list"
  sb_bufferSize :: int

definition NewBroker :: "int \<Rightarrow> Broker" where
  "NewBroker bufferSize = \<lparr>sb_clients = [], sb_bufferSize = (if bufferSize \<le> 0 then 100 else bufferSize)\<rparr>"

definition broker_Subscribe :: "string \<Rightarrow> string list \<Rightarrow> Broker \<times> heap \<Rightarrow> string + nat \<times> Broker \<times> heap" where
  "broker_Subscribe clientID topics bh =
     (case bh of (b, h) \<Rightarrow>
      case (case map_of (sb_clients b) clientID of Some prior \<Rightarrow> close_chan (ci_channel prior) h | None \<Rightarrow> Inr h) of
        Inl p \<Rightarrow> Inl p
      | Inr h1 \<Rightarrow>
          (let ch = length h1 in
           Inr (ch, b\<lparr>sb_clients := AList.update clientID \<lparr>ci_channel = ch, ci_topics = topics\<rparr> (sb_clients b)\<rparr>,
                h1 @ [make_chan (nat (sb_bufferSize b))])))"

definition broker_Unsubscribe :: "string \<Rightarrow> Broker \<times> heap \<Rightarrow> string + Broker \<times> heap" where
  "broker_Unsubscribe clientID bh =
     (case bh of (b, h) \<Rightarrow>
      case map_of (sb_clients b) clientID of
        None \<Rightarrow> Inr (b, h)
      | Some info \<Rightarrow>
          map_sum id (Pair (b\<lparr>sb_clients := AList.delete clientID (sb_clients b)\<rparr>)) (close_chan (ci_channel info) h))"

text \<open>The order in which the clients are visited is arbitrary; their channels differ, so it does not matter.\<close>

definition send_each :: "(clientInfo \<Rightarrow> bool) \<Rightarrow> Event \<Rightarrow> Broker \<times> heap \<Rightarrow> string + Broker \<times> heap" where
  "send_each P ev bh =
     (case bh of (b, h) \<Rightarrow>
      map_sum id (Pair b) (each (try_send ev) (map ci_channel (filter P (map snd (sb_clients b)))) h))"

definition broker_Broadcast :: "Event \<Rightarrow> Broker \<times> heap \<Rightarrow> string + Broker \<times> heap" where
  "broker_Broadcast ev = send_each (\<lambda>info. True) ev"

text \<open>A client that named no topics gets the events of all topics.\<close>

definition wants :: "string \<Rightarrow> string list \<Rightarrow> bool" where
  "wants topic topics \<longleftrightarrow> topic \<in> set topics \<or> topics = []"

definition broker_BroadcastToTopic :: "string \<Rightarrow> Event \<Rightarrow> Broker \<times> heap \<Rightarrow> string + Broker \<times> heap" where
  "broker_BroadcastToTopic topic ev = send_each (\<lambda>info. wants topic (ci_topics info)) ev"

definition broker_SendTo :: "string \<Rightarrow> Event \<Rightarrow> Broker \<times> heap \<Rightarrow> string + Broker \<times> heap" where
  "broker_SendTo clientID ev bh =
     (case bh of (b, h) \<Rightarrow>
      case map_of (sb_clients b) clientID of
        None \<Rightarrow> Inr (b, h)
      | Some info \<Rightarrow> map_sum id (Pair b) (try_send ev (ci_channel info) h))"

definition broker_ClientCount :: "Broker \<times> heap \<Rightarrow> int" where
  "broker_ClientCount bh = int (length (sb_clients (fst bh)))"

definition broker_Close :: "Broker \<times> heap \<Rightarrow> string + Broker \<times> heap" where
  "broker_Close bh =
     (case bh of (b, h) \<Rightarrow>
      map_sum id (Pair (b\<lparr>sb_clients := []\<rparr>)) (each close_chan (map (ci_channel \<circ> snd) (sb_clients b)) h))"

text \<open>The port and its two implementations.\<close>

record 's sse_broker =
  sk_Subscribe :: "string \<Rightarrow> string list \<Rightarrow> 's \<Rightarrow> string + nat \<times> 's"
  sk_Unsubscribe :: "string \<Rightarrow> 's \<Rightarrow> string + 's"
  sk_Broadcast :: "Event \<Rightarrow> 's \<Rightarrow> string + 's"
  sk_BroadcastToTopic :: "string \<Rightarrow> Event \<Rightarrow> 's \<Rightarrow> string + 's"
  sk_SendTo :: "string \<Rightarrow> Event \<Rightarrow> 's \<Rightarrow> string + 's"
  sk_ClientCount :: "'s \<Rightarrow> int"
  sk_Close :: "'s \<Rightarrow> string + 's"

definition sse_port :: "(Broker \<times> heap) sse_broker" where
  "sse_port = \<lparr>sk_Subscribe = broker_Subscribe, sk_Unsubscribe = broker_Unsubscribe, sk_Broadcast = broker_Broadcast,
     sk_BroadcastToTopic = broker_BroadcastToTopic, sk_SendTo = broker_SendTo, sk_ClientCount = broker_ClientCount, sk_Close = broker_Close\<rparr>"

definition NoOpBroker :: "heap sse_broker" where
  "NoOpBroker = \<lparr>sk_Subscribe = (\<lambda>clientID topics h. Inr (length h, h @ [(make_chan 0)\<lparr>ch_closed := True\<rparr>])),
     sk_Unsubscribe = (\<lambda>clientID h. Inr h), sk_Broadcast = (\<lambda>ev h. Inr h), sk_BroadcastToTopic = (\<lambda>topic ev h. Inr h),
     sk_SendTo = (\<lambda>clientID ev h. Inr h), sk_ClientCount = (\<lambda>h. 0), sk_Close = (\<lambda>h. Inr h)\<rparr>"

section \<open>Handlers and routes\<close>

abbreviation LF :: string where "LF \<equiv> [CHR 0x0A]"

definition event_text :: "Event \<Rightarrow> string" where
  "event_text ev =
     (if ev_ID ev \<noteq> '''' then ''id: '' @ ev_ID ev @ LF else '''') @
     (if ev_Event ev \<noteq> '''' then ''event: '' @ ev_Event ev @ LF else '''') @
     (if ev_Data ev \<noteq> '''' then ''data: '' @ ev_Data ev @ LF else '''') @
     (if 0 < ev_Retry ev then ''retry: '' @ itoa (ev_Retry ev) @ LF else '''') @ LF"

text \<open>
  A stream: the connection, its channel, the events that reached the client, whether the client is still there, and
  whether the writer has returned.
\<close>

record stream =
  st_conn :: string
  st_chan :: nat
  st_out :: "Event list"
  st_up :: bool
  st_done :: bool

definition sent_bytes :: "stream \<Rightarrow> string" where
  "sent_bytes st = concat (map event_text (st_out st))"

definition new_stream :: "string \<Rightarrow> nat \<Rightarrow> stream" where
  "new_stream connID ch = \<lparr>st_conn = connID, st_chan = ch, st_out = [], st_up = True, st_done = False\<rparr>"

record BroadcastRequest =
  br_Event :: string
  br_Data :: string
  br_Topic :: string

definition query_topics :: "fiber_ctx \<Rightarrow> string list" where
  "query_topics c =
     (if ctx_Query c ''topics'' \<noteq> ''''
      then filter (\<lambda>t. t \<noteq> '''') (map trim_space (split_on (CHR '','') (ctx_Query c ''topics''))) else [])"

text \<open>The recover middleware turns a panic into an error.\<close>

definition sse_Subscribe :: "'s sse_broker \<Rightarrow> string \<Rightarrow> ('s \<times> stream list) handler" where
  "sse_Subscribe sk connID w c =
     (if GetUserID c = '''' then with_state w (Unauthorized c ''Authentication required'')
      else (case w of (s, streams) \<Rightarrow>
        case sk_Subscribe sk connID (query_topics c) s of
          Inl p \<Rightarrow> (Some (ErrText p), w, c)
        | Inr (ch, s') \<Rightarrow>
            (None, (s', streams @ [new_stream connID ch]),
             ctx_Set ''Connection'' ''keep-alive'' (ctx_Set ''Cache-Control'' ''no-cache'' (ctx_Set ''Content-Type'' ''text/event-stream'' c)))))"

definition sse_Broadcast :: "'s sse_broker \<Rightarrow> (fiber_ctx \<Rightarrow> go_error + BroadcastRequest) \<Rightarrow> ('s \<times> stream list) handler" where
  "sse_Broadcast sk BodyParser w c =
     (case BodyParser c of
        Inl err \<Rightarrow> with_state w (Fail c (BadRequestf ''Invalid request body''))
      | Inr req \<Rightarrow>
          if br_Event req = '''' then with_state w (Fail c (BadRequestf ''Event type is required''))
          else (let event = NewEvent (br_Event req) (br_Data req) in
            case (if br_Topic req \<noteq> '''' then sk_BroadcastToTopic sk (br_Topic req) event (fst w) else sk_Broadcast sk event (fst w)) of
              Inl p \<Rightarrow> (Some (ErrText p), w, c)
            | Inr s' \<Rightarrow> with_state (s', snd w) (resp_Message c ''Event broadcast successfully'')))"

definition sse_ClientCount :: "'s sse_broker \<Rightarrow> ('s \<times> stream list) handler" where
  "sse_ClientCount sk w c = with_state w (Success c (JObj [(''count'', JNum (itoa (sk_ClientCount sk (fst w))))]))"

datatype sse_route = GetSubscribe | PostBroadcast | GetClients

definition sse_routes ::
  "jwt_api \<Rightarrow> string \<Rightarrow> 'z authorizer \<Rightarrow> 's sse_broker \<Rightarrow> (fiber_ctx \<Rightarrow> go_error + BroadcastRequest) \<Rightarrow> go_time \<Rightarrow> string \<Rightarrow> sse_route \<Rightarrow>
    ('z \<times> 's \<times> stream list) handler" where
  "sse_routes jwt jwtSecret az sk BodyParser now connID r =
     (case r of
        GetSubscribe \<Rightarrow> protected jwt now jwtSecret az None (behind (sse_Subscribe sk connID))
      | PostBroadcast \<Rightarrow> protected jwt now jwtSecret az (Some (''sse'', ''broadcast'')) (behind (sse_Broadcast sk BodyParser))
      | GetClients \<Rightarrow> protected jwt now jwtSecret az (Some (''sse'', ''read'')) (behind (sse_ClientCount sk)))"

section \<open>Streams and broker together\<close>

record sse_system =
  ss_broker :: Broker
  ss_heap :: heap
  ss_streams :: "stream list"

datatype slabel =
    SSubscribe string "string list"
  | SBroadcast Event
  | STopic string Event
  | SSend string Event
  | SWrite nat
  | SEnd nat
  | SHangup nat
  | SClose

definition with_broker :: "sse_system \<Rightarrow> string + Broker \<times> heap \<Rightarrow> string + sse_system" where
  "with_broker s r = map_sum id (\<lambda>(b, h). s\<lparr>ss_broker := b, ss_heap := h\<rparr>) r"

text \<open>
  The stream writer: \<open>SWrite\<close> takes an event from the channel and writes it; when the client is gone the flush fails, the loop
  ends, and the writer unsubscribes. \<open>SEnd\<close> is the end of the loop when the channel is closed and empty. A step that is
  not possible is \<^term>\<open>None\<close>.
\<close>

definition stream_returns :: "nat \<Rightarrow> sse_system \<Rightarrow> string + sse_system" where
  "stream_returns i s =
     (let st = ss_streams s ! i in
      with_broker (s\<lparr>ss_streams := (ss_streams s)[i := st\<lparr>st_done := True\<rparr>]\<rparr>) (broker_Unsubscribe (st_conn st) (ss_broker s, ss_heap s)))"

definition live :: "nat \<Rightarrow> sse_system \<Rightarrow> bool" where
  "live i s \<longleftrightarrow> i < length (ss_streams s) \<and> \<not> st_done (ss_streams s ! i)"

abbreviation chan_of :: "nat \<Rightarrow> sse_system \<Rightarrow> event_chan" where
  "chan_of i s \<equiv> ss_heap s ! st_chan (ss_streams s ! i)"

definition stream_writes :: "nat \<Rightarrow> sse_system \<Rightarrow> (string + sse_system) option" where
  "stream_writes i s =
     (if live i s then
        (case ch_buf (chan_of i s) of
           [] \<Rightarrow> None
         | ev # evs \<Rightarrow>
             (let st = ss_streams s ! i;
                  s1 = s\<lparr>ss_heap := (ss_heap s)[st_chan st := (chan_of i s)\<lparr>ch_buf := evs\<rparr>]\<rparr>
              in if st_up st then Some (Inr (s1\<lparr>ss_streams := (ss_streams s)[i := st\<lparr>st_out := st_out st @ [ev]\<rparr>]\<rparr>))
                 else Some (stream_returns i s1)))
      else None)"

definition stream_ends :: "nat \<Rightarrow> sse_system \<Rightarrow> (string + sse_system) option" where
  "stream_ends i s = (if live i s \<and> ch_buf (chan_of i s) = [] \<and> ch_closed (chan_of i s) then Some (stream_returns i s) else None)"

primrec sse_step :: "slabel \<Rightarrow> sse_system \<Rightarrow> (string + sse_system) option" where
  "sse_step (SSubscribe connID topics) s =
     Some (map_sum id (\<lambda>(ch, b, h). \<lparr>ss_broker = b, ss_heap = h, ss_streams = ss_streams s @ [new_stream connID ch]\<rparr>)
       (broker_Subscribe connID topics (ss_broker s, ss_heap s)))"
| "sse_step (SBroadcast ev) s = Some (with_broker s (broker_Broadcast ev (ss_broker s, ss_heap s)))"
| "sse_step (STopic topic ev) s = Some (with_broker s (broker_BroadcastToTopic topic ev (ss_broker s, ss_heap s)))"
| "sse_step (SSend clientID ev) s = Some (with_broker s (broker_SendTo clientID ev (ss_broker s, ss_heap s)))"
| "sse_step (SWrite i) s = stream_writes i s"
| "sse_step (SEnd i) s = stream_ends i s"
| "sse_step (SHangup i) s =
     (if i < length (ss_streams s) then Some (Inr (s\<lparr>ss_streams := (ss_streams s)[i := (ss_streams s ! i)\<lparr>st_up := False\<rparr>]\<rparr>)) else None)"
| "sse_step SClose s = Some (with_broker s (broker_Close (ss_broker s, ss_heap s)))"

text \<open>A schedule: labels whose step is not possible are skipped.\<close>

fun sse_run :: "slabel list \<Rightarrow> sse_system \<Rightarrow> string + sse_system" where
  "sse_run [] s = Inr s"
| "sse_run (l # ls) s = (case sse_step l s of None \<Rightarrow> sse_run ls s | Some (Inl p) \<Rightarrow> Inl p | Some (Inr s') \<Rightarrow> sse_run ls s')"

definition sse_init :: "int \<Rightarrow> sse_system" where
  "sse_init n = \<lparr>ss_broker = NewBroker n, ss_heap = [], ss_streams = []\<rparr>"

section \<open>Well-formed systems\<close>

text \<open>
  The open channels are exactly those of the clients, and no two clients share one. Buffers respect their capacity, and
  the channels of the streams exist.
\<close>

abbreviation clients :: "Broker \<Rightarrow> string \<Rightarrow> clientInfo option" where
  "clients b \<equiv> map_of (sb_clients b)"

definition owns :: "(string \<Rightarrow> clientInfo option) \<Rightarrow> heap \<Rightarrow> bool" where
  "owns m h \<longleftrightarrow> (\<forall>k k' i i'. m k = Some i \<and> m k' = Some i' \<and> ci_channel i = ci_channel i' \<longrightarrow> k = k') \<and>
     (\<forall>a. a < length h \<and> \<not> ch_closed (h ! a) \<longleftrightarrow> (\<exists>k i. m k = Some i \<and> ci_channel i = a))"

definition bounded :: "heap \<Rightarrow> bool" where
  "bounded h \<longleftrightarrow> (\<forall>a < length h. length (ch_buf (h ! a)) \<le> ch_cap (h ! a))"

definition chans_ok :: "Broker \<Rightarrow> heap \<Rightarrow> bool" where
  "chans_ok b h \<longleftrightarrow> distinct (map fst (sb_clients b)) \<and> owns (clients b) h \<and> 0 < sb_bufferSize b \<and> bounded h"

definition sse_ok :: "sse_system \<Rightarrow> bool" where
  "sse_ok s \<longleftrightarrow> chans_ok (ss_broker s) (ss_heap s) \<and> list_all (\<lambda>st. st_chan st < length (ss_heap s)) (ss_streams s)"

lemma owns_open: "owns m h \<Longrightarrow> m k = Some i \<Longrightarrow> ci_channel i < length h \<and> \<not> ch_closed (h ! ci_channel i)"
  unfolding owns_def by blast

lemma owns_owner: "owns m h \<Longrightarrow> a < length h \<Longrightarrow> \<not> ch_closed (h ! a) \<Longrightarrow> \<exists>k i. m k = Some i \<and> ci_channel i = a"
  unfolding owns_def by blast

lemma owns_inj: "owns m h \<Longrightarrow> m k = Some i \<Longrightarrow> m k' = Some i' \<Longrightarrow> ci_channel i = ci_channel i' \<Longrightarrow> k = k'"
  unfolding owns_def by blast

lemma owns_same:
  "owns m h \<Longrightarrow> length h' = length h \<Longrightarrow> (\<And>a. a < length h \<Longrightarrow> ch_closed (h' ! a) = ch_closed (h ! a)) \<Longrightarrow> owns m h'"
  unfolding owns_def by metis

text \<open>A client leaves and its channel is closed; a client comes with a new channel.\<close>

lemma owns_remove:
  assumes "owns m h" and "length h' = length h"
    and "\<And>a. a < length h \<Longrightarrow> ch_closed (h' ! a) \<longleftrightarrow> ch_closed (h ! a) \<or> a \<in> ci_channel ` {i. m k = Some i}"
  shows "owns (m(k := None)) h'"
proof -
  have "a < length h' \<and> \<not> ch_closed (h' ! a) \<longleftrightarrow> (\<exists>x i. (m(k := None)) x = Some i \<and> ci_channel i = a)" for a
  proof -
    have "a < length h' \<and> \<not> ch_closed (h' ! a) \<longleftrightarrow> (\<exists>x i. m x = Some i \<and> ci_channel i = a) \<and> a \<notin> ci_channel ` {i. m k = Some i}"
      using assms unfolding owns_def by metis
    also have "\<dots> \<longleftrightarrow> (\<exists>x i. x \<noteq> k \<and> m x = Some i \<and> ci_channel i = a)" using owns_inj [OF assms(1)] by (simp add: image_iff) metis
    also have "\<dots> \<longleftrightarrow> (\<exists>x i. (m(k := None)) x = Some i \<and> ci_channel i = a)" by (metis fun_upd_apply option.distinct(1))
    finally show ?thesis .
  qed
  moreover have "x = x'" if "(m(k := None)) x = Some i" "(m(k := None)) x' = Some i'" "ci_channel i = ci_channel i'" for x x' i i'
    using that owns_inj [OF assms(1)] by (metis fun_upd_apply option.distinct(1))
  ultimately show ?thesis unfolding owns_def by blast
qed

lemma owns_add:
  assumes "owns m h" and "m k = None" and "ci_channel v = length h" and "\<not> ch_closed c"
  shows "owns (m(k \<mapsto> v)) (h @ [c])"
proof -
  have old: "m x = Some i \<Longrightarrow> ci_channel i < length h" for x i using owns_open [OF assms(1)] by blast
  have "a < length (h @ [c]) \<and> \<not> ch_closed ((h @ [c]) ! a) \<longleftrightarrow> (\<exists>x i. (m(k \<mapsto> v)) x = Some i \<and> ci_channel i = a)" for a
  proof -
    have "a < length (h @ [c]) \<and> \<not> ch_closed ((h @ [c]) ! a) \<longleftrightarrow> a < length h \<and> \<not> ch_closed (h ! a) \<or> a = length h"
      using assms(4) by (auto simp: nth_append less_Suc_eq)
    also have "\<dots> \<longleftrightarrow> (\<exists>x i. m x = Some i \<and> ci_channel i = a) \<or> a = ci_channel v" using assms(1,3) unfolding owns_def by metis
    also have "\<dots> \<longleftrightarrow> (\<exists>x i. (m(k \<mapsto> v)) x = Some i \<and> ci_channel i = a)" using assms(2) by (metis fun_upd_apply option.inject option.distinct(1))
    finally show ?thesis .
  qed
  moreover have "x = x'" if "(m(k \<mapsto> v)) x = Some i" "(m(k \<mapsto> v)) x' = Some i'" "ci_channel i = ci_channel i'" for x x' i i'
    using that owns_inj [OF assms(1)] old assms(3) by (metis fun_upd_apply less_irrefl option.inject)
  ultimately show ?thesis unfolding owns_def by blast
qed

lemma owns_none: "(\<And>a. a < length h \<Longrightarrow> ch_closed (h ! a)) \<Longrightarrow> owns Map.empty h"
  unfolding owns_def by simp

lemma client_open:
  assumes "chans_ok b h" and "clients b k = Some info"
  shows "ci_channel info < length h" and "\<not> ch_closed (h ! ci_channel info)"
  using assms(1) owns_open [of "clients b" h k info] assms(2) unfolding chans_ok_def by blast+

lemma clients_set: "chans_ok b h \<Longrightarrow> (k, i) \<in> set (sb_clients b) \<longleftrightarrow> clients b k = Some i"
  by (simp add: chans_ok_def)

lemma chans_distinct:
  assumes "chans_ok b h"
  shows "distinct (map (ci_channel \<circ> snd) (sb_clients b))"
proof -
  have "x = y" if xy: "x \<in> set (sb_clients b)" "y \<in> set (sb_clients b)" "ci_channel (snd x) = ci_channel (snd y)" for x y
  proof -
    have m: "clients b (fst x) = Some (snd x)" "clients b (fst y) = Some (snd y)"
      using xy(1,2) clients_set [OF assms, of "fst x" "snd x"] clients_set [OF assms, of "fst y" "snd y"] by auto
    then have "fst x = fst y" using owns_inj [OF _ m xy(3)] assms unfolding chans_ok_def by blast
    with m show ?thesis by (simp add: prod_eq_iff)
  qed
  moreover have "distinct (sb_clients b)" using assms by (simp add: chans_ok_def distinct_map)
  ultimately show ?thesis by (auto simp: distinct_map inj_on_def)
qed

text \<open>What a round of sends does to the store: the buffers of the addressed channels grow when they have room.\<close>

definition offered :: "Event \<Rightarrow> event_chan \<Rightarrow> event_chan" where
  "offered ev c = (if length (ch_buf c) < ch_cap c then c\<lparr>ch_buf := ch_buf c @ [ev]\<rparr> else c)"

lemma try_send_open: "\<not> ch_closed (h ! a) \<Longrightarrow> try_send ev a h = Inr (h[a := offered ev (h ! a)])"
  by (simp add: try_send_def offered_def)

lemma offered_closed [simp]: "ch_closed (offered ev c) = ch_closed c" "ch_cap (offered ev c) = ch_cap c"
  by (simp_all add: offered_def)

lemma close_open: "\<not> ch_closed (h ! a) \<Longrightarrow> close_chan a h = Inr (h[a := (h ! a)\<lparr>ch_closed := True\<rparr>])"
  by (simp add: close_chan_def)

lemma each_update:
  assumes "\<And>a h. \<not> ch_closed (h ! a) \<Longrightarrow> f a h = Inr (h[a := g (h ! a)])"
    and "distinct as" and "\<forall>a \<in> set as. a < length h \<and> \<not> ch_closed (h ! a)"
  shows "\<exists>h'. each f as h = Inr h' \<and> length h' = length h \<and> (\<forall>a < length h. h' ! a = (if a \<in> set as then g (h ! a) else h ! a))"
  using assms(2,3)
proof (induction as arbitrary: h)
  case (Cons a as)
  let ?h = "h[a := g (h ! a)]"
  have "\<forall>x \<in> set as. x < length ?h \<and> \<not> ch_closed (?h ! x)" using Cons.prems by (auto simp: nth_list_update)
  with Cons.IH [of ?h] Cons.prems(1) obtain h' where "each f as ?h = Inr h'" "length h' = length h"
    "\<forall>x < length h. h' ! x = (if x \<in> set as then g (?h ! x) else ?h ! x)" by auto
  then show ?case using Cons.prems by (auto simp: assms(1) nth_list_update)
qed simp

lemmas each_send = each_update [of "try_send ev" "offered ev" for ev, OF try_send_open, simplified]
lemmas each_close = each_update [of close_chan "ch_closed_update (\<lambda>_. True)", OF close_open, simplified]

lemma chans_ok_heap:
  assumes "chans_ok b h" and "length h' = length h" and "\<And>a. a < length h \<Longrightarrow> ch_closed (h' ! a) = ch_closed (h ! a)" and "bounded h'"
  shows "chans_ok b h'"
  using assms owns_same [OF _ assms(2,3)] unfolding chans_ok_def by blast

lemma chans_ok_bound: "chans_ok b h \<Longrightarrow> a < length h \<Longrightarrow> length (ch_buf (h ! a)) \<le> ch_cap (h ! a)"
  by (simp add: chans_ok_def bounded_def)

lemma offered_bound: "length (ch_buf c) \<le> ch_cap c \<Longrightarrow> length (ch_buf (offered ev c)) \<le> ch_cap c"
  by (simp add: offered_def)

lemma send_each_ok:
  assumes "chans_ok b h"
  shows "\<exists>h'. send_each P ev (b, h) = Inr (b, h') \<and> chans_ok b h' \<and> length h' = length h \<and>
    (\<forall>a < length h. h' ! a = (if a \<in> ci_channel ` {info \<in> ran (clients b). P info} then offered ev (h ! a) else h ! a))"
proof -
  let ?as = "map ci_channel (filter P (map snd (sb_clients b)))"
  have "distinct ?as" using distinct_map_filter [of ci_channel "map snd (sb_clients b)" P] chans_distinct [OF assms] by simp
  moreover have "\<forall>a \<in> set ?as. a < length h \<and> \<not> ch_closed (h ! a)" using client_open [OF assms] clients_set [OF assms] by auto
  ultimately obtain h' where h': "each (try_send ev) ?as h = Inr h'" "length h' = length h"
    "\<forall>a < length h. h' ! a = (if a \<in> set ?as then offered ev (h ! a) else h ! a)" using each_send [of ?as h ev] by blast
  then have "chans_ok b h'" using chans_ok_bound [OF assms] by (intro chans_ok_heap [OF assms]) (auto simp: offered_bound bounded_def)
  moreover have "set ?as = ci_channel ` {info \<in> ran (clients b). P info}" using clients_set [OF assms] by (force simp: ran_def)
  ultimately show ?thesis using h' by (auto simp: send_each_def)
qed

lemma SendTo_ok:
  assumes "chans_ok b h"
  shows "\<exists>h'. broker_SendTo k ev (b, h) = Inr (b, h') \<and> chans_ok b h' \<and> length h' = length h \<and>
    (\<forall>a < length h. h' ! a = (if a \<in> ci_channel ` {info. clients b k = Some info} then offered ev (h ! a) else h ! a))"
proof (cases "map_of (sb_clients b) k")
  case (Some info)
  let ?h = "h[ci_channel info := offered ev (h ! ci_channel info)]"
  note open_k = client_open [OF assms Some]
  have "chans_ok b ?h" using chans_ok_bound [OF assms] open_k
    by (intro chans_ok_heap [OF assms]) (auto simp: offered_bound nth_list_update bounded_def)
  with open_k Some show ?thesis by (auto simp: broker_SendTo_def try_send_open nth_list_update)
qed (use assms in \<open>simp add: broker_SendTo_def\<close>)

text \<open>A client's channel is closed.\<close>

abbreviation closed_for :: "string \<Rightarrow> Broker \<Rightarrow> heap \<Rightarrow> heap \<Rightarrow> bool" where
  "closed_for k b h h' \<equiv> length h' = length h \<and>
     (\<forall>a < length h. h' ! a = (if a \<in> ci_channel ` {info. clients b k = Some info} then (h ! a)\<lparr>ch_closed := True\<rparr> else h ! a))"

lemma close_client:
  assumes "chans_ok b h"
  shows "\<exists>h'. (case clients b k of Some info \<Rightarrow> close_chan (ci_channel info) h | None \<Rightarrow> Inr h) = Inr h' \<and> closed_for k b h h' \<and>
    owns ((clients b)(k := None)) h' \<and> bounded h'"
proof -
  have "\<exists>h'. (case clients b k of Some info \<Rightarrow> close_chan (ci_channel info) h | None \<Rightarrow> Inr h) = Inr h' \<and> closed_for k b h h'"
    using client_open [OF assms] by (cases "clients b k") (auto simp: close_open nth_list_update)
  then obtain h' where h': "(case clients b k of Some info \<Rightarrow> close_chan (ci_channel info) h | None \<Rightarrow> Inr h) = Inr h'" "closed_for k b h h'" by blast
  moreover have "owns ((clients b)(k := None)) h'" using h'(2) assms unfolding chans_ok_def by (intro owns_remove [of _ h]) auto
  moreover have "bounded h'" using h'(2) chans_ok_bound [OF assms] unfolding bounded_def by simp
  ultimately show ?thesis by blast
qed

lemma Subscribe_ok:
  assumes "chans_ok b h"
  shows "\<exists>b' h'. broker_Subscribe k topics (b, h) = Inr (length h, b', h' @ [make_chan (nat (sb_bufferSize b))]) \<and>
    chans_ok b' (h' @ [make_chan (nat (sb_bufferSize b))]) \<and> closed_for k b h h' \<and> sb_bufferSize b' = sb_bufferSize b \<and>
    clients b' = (clients b)(k \<mapsto> \<lparr>ci_channel = length h, ci_topics = topics\<rparr>)"
proof -
  let ?m = "make_chan (nat (sb_bufferSize b))" and ?v = "\<lparr>ci_channel = length h, ci_topics = topics\<rparr>"
  let ?b = "b\<lparr>sb_clients := AList.update k ?v (sb_clients b)\<rparr>"
  obtain h' where h': "(case clients b k of Some info \<Rightarrow> close_chan (ci_channel info) h | None \<Rightarrow> Inr h) = Inr h'" "closed_for k b h h'"
    "owns ((clients b)(k := None)) h'" "bounded h'" using close_client [OF assms] by blast
  have cl: "clients ?b = (clients b)(k \<mapsto> ?v)" by (simp add: update_conv')
  have "owns (((clients b)(k := None))(k \<mapsto> ?v)) (h' @ [?m])" using h'(2) by (intro owns_add [OF h'(3)]) (auto simp: make_chan_def)
  then have "owns (clients ?b) (h' @ [?m])" unfolding cl fun_upd_upd .
  moreover have "bounded (h' @ [?m])" using h'(4) by (auto simp: bounded_def nth_append make_chan_def less_Suc_eq)
  moreover have "distinct (map fst (sb_clients ?b))" "0 < sb_bufferSize ?b" using assms by (simp_all add: chans_ok_def distinct_update)
  ultimately have "chans_ok ?b (h' @ [?m])" unfolding chans_ok_def by blast
  moreover have "broker_Subscribe k topics (b, h) = Inr (length h, ?b, h' @ [?m])" using h'(1,2) by (simp add: broker_Subscribe_def Let_def)
  ultimately show ?thesis using cl h'(2) by (intro exI [of _ ?b] exI [of _ h']) simp
qed

lemma Unsubscribe_ok:
  assumes "chans_ok b h"
  shows "\<exists>b' h'. broker_Unsubscribe k (b, h) = Inr (b', h') \<and> chans_ok b' h' \<and> closed_for k b h h' \<and>
    sb_bufferSize b' = sb_bufferSize b \<and> clients b' = (clients b)(k := None)"
proof (cases "clients b k")
  case None
  then have "clients b = (clients b)(k := None)" by auto
  with None assms show ?thesis by (intro exI [of _ b] exI [of _ h]) (simp add: broker_Unsubscribe_def)
next
  case (Some info)
  let ?b = "b\<lparr>sb_clients := AList.delete k (sb_clients b)\<rparr>"
  obtain h' where h': "close_chan (ci_channel info) h = Inr h'" "closed_for k b h h'" "owns ((clients b)(k := None)) h'" "bounded h'"
    using close_client [OF assms, of k] Some by auto
  have cl: "clients ?b = (clients b)(k := None)" by (simp add: delete_conv')
  then have "chans_ok ?b h'" using h'(3,4) assms by (simp add: chans_ok_def distinct_delete)
  with h' cl Some show ?thesis by (intro exI [of _ ?b] exI [of _ h']) (simp add: broker_Unsubscribe_def)
qed

lemma Close_ok:
  assumes "chans_ok b h"
  shows "\<exists>h'. broker_Close (b, h) = Inr (b\<lparr>sb_clients := []\<rparr>, h') \<and> chans_ok (b\<lparr>sb_clients := []\<rparr>) h' \<and> length h' = length h \<and>
    (\<forall>a < length h. ch_closed (h' ! a) \<and> ch_buf (h' ! a) = ch_buf (h ! a))"
proof -
  let ?as = "map (ci_channel \<circ> snd) (sb_clients b)"
  have "\<forall>a \<in> set ?as. a < length h \<and> \<not> ch_closed (h ! a)" using client_open [OF assms] clients_set [OF assms] by auto
  from each_close [OF chans_distinct [OF assms] this] obtain h' where h': "each close_chan ?as h = Inr h'" "length h' = length h"
    "\<forall>a < length h. h' ! a = (if a \<in> set ?as then (h ! a)\<lparr>ch_closed := True\<rparr> else h ! a)" by blast
  have "ch_closed (h ! a)" if lt: "a < length h" and notin: "a \<notin> set ?as" for a
  proof (rule ccontr)
    assume "\<not> ch_closed (h ! a)"
    then obtain k i where "clients b k = Some i" "ci_channel i = a" using assms lt owns_owner [of "clients b" h a] unfolding chans_ok_def by blast
    then show False using notin clients_set [OF assms, of k i] by force
  qed
  then have c: "\<forall>a < length h. ch_closed (h' ! a) \<and> ch_buf (h' ! a) = ch_buf (h ! a)" using h'(3) by simp
  then have "chans_ok (b\<lparr>sb_clients := []\<rparr>) h'"
    using assms h' owns_none [of h'] by (auto simp: chans_ok_def bounded_def)
  with h' c show ?thesis by (auto simp: broker_Close_def)
qed

section \<open>Steps\<close>

text \<open>What each step does to a well-formed system.\<close>

lemma sse_ok_parts: "sse_ok s \<Longrightarrow> chans_ok (ss_broker s) (ss_heap s)" "sse_ok s \<Longrightarrow> i < length (ss_streams s) \<Longrightarrow> st_chan (ss_streams s ! i) < length (ss_heap s)"
  by (simp_all add: sse_ok_def list_all_length)

lemma sse_ok_update:
  assumes "sse_ok s" and "chans_ok b h" and "length h = length (ss_heap s)"
  shows "sse_ok (s\<lparr>ss_broker := b, ss_heap := h\<rparr>)"
  using assms by (simp add: sse_ok_def)

lemma send_steps:
  assumes "sse_ok s"
  shows "\<exists>h. sse_step (SBroadcast ev) s = Some (Inr (s\<lparr>ss_heap := h\<rparr>)) \<and> sse_ok (s\<lparr>ss_heap := h\<rparr>) \<and>
      (\<forall>a < length (ss_heap s). h ! a = (if a \<in> ci_channel ` ran (clients (ss_broker s)) then offered ev (ss_heap s ! a) else ss_heap s ! a))"
    and "\<exists>h. sse_step (STopic topic ev) s = Some (Inr (s\<lparr>ss_heap := h\<rparr>)) \<and> sse_ok (s\<lparr>ss_heap := h\<rparr>) \<and>
      (\<forall>a < length (ss_heap s). h ! a =
        (if a \<in> ci_channel ` {i \<in> ran (clients (ss_broker s)). wants topic (ci_topics i)} then offered ev (ss_heap s ! a) else ss_heap s ! a))"
    and "\<exists>h. sse_step (SSend k ev) s = Some (Inr (s\<lparr>ss_heap := h\<rparr>)) \<and> sse_ok (s\<lparr>ss_heap := h\<rparr>) \<and>
      (\<forall>a < length (ss_heap s). h ! a = (if a \<in> ci_channel ` {i. clients (ss_broker s) k = Some i} then offered ev (ss_heap s ! a) else ss_heap s ! a))"
proof -
  note ok = sse_ok_parts(1) [OF assms]
  have same: "s\<lparr>ss_broker := ss_broker s, ss_heap := h\<rparr> = s\<lparr>ss_heap := h\<rparr>" for h by simp
  have upd: "chans_ok (ss_broker s) h \<Longrightarrow> length h = length (ss_heap s) \<Longrightarrow> sse_ok (s\<lparr>ss_heap := h\<rparr>)" for h
    using assms by (simp add: sse_ok_def)
  show "\<exists>h. sse_step (SBroadcast ev) s = Some (Inr (s\<lparr>ss_heap := h\<rparr>)) \<and> sse_ok (s\<lparr>ss_heap := h\<rparr>) \<and>
      (\<forall>a < length (ss_heap s). h ! a = (if a \<in> ci_channel ` ran (clients (ss_broker s)) then offered ev (ss_heap s ! a) else ss_heap s ! a))"
    using send_each_ok [OF ok, of "\<lambda>_. True" ev] upd by (auto simp: broker_Broadcast_def with_broker_def same)
  show "\<exists>h. sse_step (STopic topic ev) s = Some (Inr (s\<lparr>ss_heap := h\<rparr>)) \<and> sse_ok (s\<lparr>ss_heap := h\<rparr>) \<and>
      (\<forall>a < length (ss_heap s). h ! a =
        (if a \<in> ci_channel ` {i \<in> ran (clients (ss_broker s)). wants topic (ci_topics i)} then offered ev (ss_heap s ! a) else ss_heap s ! a))"
    using send_each_ok [OF ok, of "\<lambda>i. wants topic (ci_topics i)" ev] upd by (auto simp: broker_BroadcastToTopic_def with_broker_def same)
  show "\<exists>h. sse_step (SSend k ev) s = Some (Inr (s\<lparr>ss_heap := h\<rparr>)) \<and> sse_ok (s\<lparr>ss_heap := h\<rparr>) \<and>
      (\<forall>a < length (ss_heap s). h ! a = (if a \<in> ci_channel ` {i. clients (ss_broker s) k = Some i} then offered ev (ss_heap s ! a) else ss_heap s ! a))"
    using SendTo_ok [OF ok, of k ev] upd by (auto simp: with_broker_def same)
qed

lemma subscribe_step:
  assumes "sse_ok s"
  shows "\<exists>b h. sse_step (SSubscribe k topics) s = Some (Inr \<lparr>ss_broker = b, ss_heap = h @ [make_chan (nat (sb_bufferSize (ss_broker s)))],
      ss_streams = ss_streams s @ [new_stream k (length (ss_heap s))]\<rparr>) \<and>
    sse_ok \<lparr>ss_broker = b, ss_heap = h @ [make_chan (nat (sb_bufferSize (ss_broker s)))], ss_streams = ss_streams s @ [new_stream k (length (ss_heap s))]\<rparr> \<and>
    closed_for k (ss_broker s) (ss_heap s) h \<and> sb_bufferSize b = sb_bufferSize (ss_broker s) \<and>
    clients b = (clients (ss_broker s))(k \<mapsto> \<lparr>ci_channel = length (ss_heap s), ci_topics = topics\<rparr>)"
proof -
  obtain b h where bh: "broker_Subscribe k topics (ss_broker s, ss_heap s) = Inr (length (ss_heap s), b, h @ [make_chan (nat (sb_bufferSize (ss_broker s)))])"
    "chans_ok b (h @ [make_chan (nat (sb_bufferSize (ss_broker s)))])" "closed_for k (ss_broker s) (ss_heap s) h"
    "sb_bufferSize b = sb_bufferSize (ss_broker s)" "clients b = (clients (ss_broker s))(k \<mapsto> \<lparr>ci_channel = length (ss_heap s), ci_topics = topics\<rparr>)"
    using Subscribe_ok [OF sse_ok_parts(1) [OF assms], of k topics] by blast
  then have "list_all (\<lambda>st. st_chan st < length (h @ [make_chan (nat (sb_bufferSize (ss_broker s)))])) (ss_streams s @ [new_stream k (length (ss_heap s))])"
    using assms by (auto simp: sse_ok_def new_stream_def list_all_iff)
  with bh show ?thesis by (intro exI [of _ b] exI [of _ h]) (simp add: sse_ok_def)
qed

lemma returns_step:
  assumes "sse_ok s" and "i < length (ss_streams s)"
  shows "\<exists>b h. stream_returns i s =
      Inr (s\<lparr>ss_streams := (ss_streams s)[i := (ss_streams s ! i)\<lparr>st_done := True\<rparr>], ss_broker := b, ss_heap := h\<rparr>) \<and>
    sse_ok (s\<lparr>ss_streams := (ss_streams s)[i := (ss_streams s ! i)\<lparr>st_done := True\<rparr>], ss_broker := b, ss_heap := h\<rparr>) \<and>
    closed_for (st_conn (ss_streams s ! i)) (ss_broker s) (ss_heap s) h \<and> sb_bufferSize b = sb_bufferSize (ss_broker s) \<and>
    clients b = (clients (ss_broker s))(st_conn (ss_streams s ! i) := None)"
proof -
  obtain b h where "broker_Unsubscribe (st_conn (ss_streams s ! i)) (ss_broker s, ss_heap s) = Inr (b, h)" "chans_ok b h"
      "closed_for (st_conn (ss_streams s ! i)) (ss_broker s) (ss_heap s) h" "sb_bufferSize b = sb_bufferSize (ss_broker s)"
      "clients b = (clients (ss_broker s))(st_conn (ss_streams s ! i) := None)"
    using Unsubscribe_ok [OF sse_ok_parts(1) [OF assms(1)]] by blast
  moreover from this have "sse_ok (s\<lparr>ss_streams := (ss_streams s)[i := (ss_streams s ! i)\<lparr>st_done := True\<rparr>], ss_broker := b, ss_heap := h\<rparr>)"
    using assms by (auto simp: sse_ok_def list_all_length nth_list_update)
  ultimately show ?thesis by (intro exI [of _ b] exI [of _ h]) (simp add: stream_returns_def with_broker_def Let_def)
qed

lemma received_ok:
  assumes "sse_ok s" and "i < length (ss_streams s)" and "ch_buf (chan_of i s) = ev # evs"
  shows "sse_ok (s\<lparr>ss_heap := (ss_heap s)[st_chan (ss_streams s ! i) := (chan_of i s)\<lparr>ch_buf := evs\<rparr>]\<rparr>)"
proof -
  note ok = sse_ok_parts(1) [OF assms(1)] and lt = sse_ok_parts(2) [OF assms(1,2)]
  have "length evs \<le> ch_cap (chan_of i s)" using chans_ok_bound [OF ok lt] assms(3) by simp
  then have "chans_ok (ss_broker s) ((ss_heap s)[st_chan (ss_streams s ! i) := (chan_of i s)\<lparr>ch_buf := evs\<rparr>])"
    using chans_ok_bound [OF ok] lt by (intro chans_ok_heap [OF ok]) (auto simp: nth_list_update bounded_def)
  then show ?thesis using assms(1) by (simp add: sse_ok_def)
qed

lemma sse_step_ok:
  assumes "sse_ok s"
  shows "sse_step l s \<noteq> Some (Inl p)" and "sse_step l s = Some (Inr s') \<Longrightarrow> sse_ok s'"
proof -
  have "sse_step l s = None \<or> (\<exists>s'. sse_step l s = Some (Inr s') \<and> sse_ok s')"
  proof (cases l)
    case (SSubscribe k topics)
    then show ?thesis using subscribe_step [OF assms, of k topics] by metis
  next
    case (SBroadcast ev)
    then show ?thesis using send_steps(1) [OF assms, of ev] by metis
  next
    case (STopic topic ev)
    then show ?thesis using send_steps(2) [OF assms, of topic ev] by metis
  next
    case (SSend k ev)
    then show ?thesis using send_steps(3) [OF assms, of k ev] by metis
  next
    case (SWrite i)
    show ?thesis
    proof (cases "live i s \<and> ch_buf (chan_of i s) \<noteq> []")
      case True
      then obtain ev evs where ev: "ch_buf (chan_of i s) = ev # evs" by (auto simp: neq_Nil_conv)
      have i: "i < length (ss_streams s)" using True by (simp add: live_def)
      let ?s1 = "s\<lparr>ss_heap := (ss_heap s)[st_chan (ss_streams s ! i) := (chan_of i s)\<lparr>ch_buf := evs\<rparr>]\<rparr>"
      note ok1 = received_ok [OF assms i ev]
      show ?thesis
      proof (cases "st_up (ss_streams s ! i)")
        case True
        have "sse_ok (?s1\<lparr>ss_streams := (ss_streams s)[i := (ss_streams s ! i)\<lparr>st_out := st_out (ss_streams s ! i) @ [ev]\<rparr>]\<rparr>)"
          using ok1 i by (auto simp: sse_ok_def list_all_length nth_list_update)
        with True \<open>live i s \<and> _\<close> ev SWrite show ?thesis by (simp add: stream_writes_def Let_def)
      next
        case False
        then have "sse_step l s = Some (stream_returns i ?s1)" using \<open>live i s \<and> _\<close> ev SWrite by (simp add: stream_writes_def Let_def)
        then show ?thesis using returns_step [OF ok1, of i] i by force
      qed
    qed (use SWrite in \<open>auto simp: stream_writes_def split: list.split\<close>)
  next
    case (SEnd i)
    then show ?thesis using returns_step [OF assms, of i] by (auto simp: stream_ends_def live_def)
  next
    case (SHangup i)
    then show ?thesis using assms by (auto simp: sse_ok_def list_all_length nth_list_update)
  next
    case SClose
    then show ?thesis using Close_ok [OF sse_ok_parts(1) [OF assms]] sse_ok_update [OF assms] by (force simp: with_broker_def)
  qed
  then show "sse_step l s \<noteq> Some (Inl p)" and "sse_step l s = Some (Inr s') \<Longrightarrow> sse_ok s'" by auto
qed

lemma sse_run_ok: "sse_ok s \<Longrightarrow> \<exists>s'. sse_run ls s = Inr s' \<and> sse_ok s'"
proof (induction ls arbitrary: s)
  case (Cons l ls)
  show ?case
  proof (cases "sse_step l s")
    case (Some r)
    then obtain s1 where "r = Inr s1" using sse_step_ok(1) [OF Cons.prems, of l] by (cases r) auto
    with Some Cons.IH [of s1] sse_step_ok(2) [OF Cons.prems, of l s1] show ?thesis by simp
  qed (use Cons in simp)
qed simp

lemma sse_init_ok: "sse_ok (sse_init n)"
  by (simp add: sse_ok_def sse_init_def chans_ok_def owns_def bounded_def NewBroker_def)

section \<open>What reaches a stream\<close>

text \<open>The events that a label publishes for a client.\<close>

primrec addressed :: "string \<Rightarrow> string list \<Rightarrow> slabel \<Rightarrow> Event list" where
  "addressed k topics (SSubscribe k' ts) = []"
| "addressed k topics (SBroadcast ev) = [ev]"
| "addressed k topics (STopic topic ev) = (if wants topic topics then [ev] else [])"
| "addressed k topics (SSend k' ev) = (if k' = k then [ev] else [])"
| "addressed k topics (SWrite i) = []"
| "addressed k topics (SEnd i) = []"
| "addressed k topics (SHangup i) = []"
| "addressed k topics SClose = []"

text \<open>Stream \<open>i\<close> is connected and registered as \<open>k\<close>; nobody else uses its identifier or its channel. \<open>X\<close> are the events it was given.\<close>

definition tracks :: "nat \<Rightarrow> string \<Rightarrow> string list \<Rightarrow> nat \<Rightarrow> Event list \<Rightarrow> sse_system \<Rightarrow> bool" where
  "tracks i k topics n X s \<longleftrightarrow> sse_ok s \<and> live i s \<and> st_up (ss_streams s ! i) \<and>
     clients (ss_broker s) k = Some \<lparr>ci_channel = st_chan (ss_streams s ! i), ci_topics = topics\<rparr> \<and>
     (\<forall>j < length (ss_streams s). j \<noteq> i \<longrightarrow> st_conn (ss_streams s ! j) \<noteq> k \<and> st_chan (ss_streams s ! j) \<noteq> st_chan (ss_streams s ! i)) \<and>
     st_out (ss_streams s ! i) @ ch_buf (chan_of i s) = X \<and> ch_cap (chan_of i s) = n"

lemma tracks_channel:
  assumes "tracks i k topics n X s"
  shows "st_chan (ss_streams s ! i) < length (ss_heap s)" and "\<not> ch_closed (chan_of i s)"
    and "st_chan (ss_streams s ! i) \<in> ci_channel ` {info. clients (ss_broker s) k' = Some info} \<longleftrightarrow> k' = k"
    and "st_chan (ss_streams s ! i) \<in> ci_channel ` {info \<in> ran (clients (ss_broker s)). P info} \<longleftrightarrow>
      P \<lparr>ci_channel = st_chan (ss_streams s ! i), ci_topics = topics\<rparr>"
proof -
  have ok: "chans_ok (ss_broker s) (ss_heap s)" and k: "clients (ss_broker s) k = Some \<lparr>ci_channel = st_chan (ss_streams s ! i), ci_topics = topics\<rparr>"
    using assms sse_ok_parts(1) by (auto simp: tracks_def)
  show "st_chan (ss_streams s ! i) < length (ss_heap s)" "\<not> ch_closed (chan_of i s)" using client_open [OF ok k] by simp_all
  have "owns (clients (ss_broker s)) (ss_heap s)" using ok by (simp add: chans_ok_def)
  from owns_inj [OF this _ k] have inj: "k' = k \<and> info = \<lparr>ci_channel = st_chan (ss_streams s ! i), ci_topics = topics\<rparr>"
    if "clients (ss_broker s) k' = Some info" "ci_channel info = st_chan (ss_streams s ! i)" for k' info
    using that k by (metis clientInfo.select_convs(1) option.inject)
  show "st_chan (ss_streams s ! i) \<in> ci_channel ` {info. clients (ss_broker s) k' = Some info} \<longleftrightarrow> k' = k"
    using k inj [of k'] by force
  show "st_chan (ss_streams s ! i) \<in> ci_channel ` {info \<in> ran (clients (ss_broker s)). P info} \<longleftrightarrow>
      P \<lparr>ci_channel = st_chan (ss_streams s ! i), ci_topics = topics\<rparr>"
    using k inj unfolding ran_def by (smt (verit, best) clientInfo.select_convs(1) image_iff mem_Collect_eq)
qed

lemma tracks_heap:
  assumes "tracks i k topics n X s" and "sse_ok (s\<lparr>ss_heap := h\<rparr>)" and "h ! st_chan (ss_streams s ! i) = c" and "ch_cap c = n"
  shows "tracks i k topics n (st_out (ss_streams s ! i) @ ch_buf c) (s\<lparr>ss_heap := h\<rparr>)"
  using assms by (simp add: tracks_def live_def)

lemma tracks_offer:
  assumes "tracks i k topics n X s" and "sse_ok (s\<lparr>ss_heap := h\<rparr>)" and "h ! st_chan (ss_streams s ! i) = (if P then offered ev (chan_of i s) else chan_of i s)"
  shows "\<exists>X'. tracks i k topics n X' (s\<lparr>ss_heap := h\<rparr>) \<and> (X' = X @ (if P then [ev] else []) \<or> X' = X \<and> n \<le> length X)"
proof -
  have X: "X = st_out (ss_streams s ! i) @ ch_buf (chan_of i s)" "ch_cap (chan_of i s) = n" using assms(1) by (simp_all add: tracks_def)
  let ?X = "st_out (ss_streams s ! i) @ ch_buf (if P then offered ev (chan_of i s) else chan_of i s)"
  have "tracks i k topics n ?X (s\<lparr>ss_heap := h\<rparr>)" using tracks_heap [OF assms] X(2) by simp
  moreover have "?X = X @ (if P then [ev] else []) \<or> ?X = X \<and> n \<le> length X" using X by (auto simp: offered_def)
  ultimately show ?thesis by blast
qed

lemma tracks_returns:
  assumes "tracks i k topics n X s" and "j < length (ss_streams s)" and "j \<noteq> i" and "stream_returns j s = Inr s'"
  shows "tracks i k topics n X s'"
proof -
  have ok: "sse_ok s" and j: "st_conn (ss_streams s ! j) \<noteq> k" "st_chan (ss_streams s ! j) \<noteq> st_chan (ss_streams s ! i)"
    using assms(1-3) by (auto simp: tracks_def)
  obtain b h where s': "s' = s\<lparr>ss_streams := (ss_streams s)[j := (ss_streams s ! j)\<lparr>st_done := True\<rparr>], ss_broker := b, ss_heap := h\<rparr>"
    "sse_ok s'" "closed_for (st_conn (ss_streams s ! j)) (ss_broker s) (ss_heap s) h"
    "clients b = (clients (ss_broker s))(st_conn (ss_streams s ! j) := None)"
    using returns_step [OF ok assms(2)] assms(4) by auto
  have "h ! st_chan (ss_streams s ! i) = chan_of i s" using s'(3) tracks_channel [OF assms(1)] j(1) by simp
  then show ?thesis using assms(1,2,3) s' j by (auto simp: tracks_def live_def nth_list_update)
qed

lemma tracks_write:
  assumes "tracks i k topics n X s" and "stream_writes j s = Some (Inr s')"
  shows "tracks i k topics n X s'"
proof -
  have ok: "sse_ok s" and i: "live i s" "st_up (ss_streams s ! i)" using assms(1) by (auto simp: tracks_def)
  obtain ev evs where j: "live j s" "ch_buf (chan_of j s) = ev # evs" using assms(2) by (auto simp: stream_writes_def split: if_splits list.splits)
  let ?h = "(ss_heap s)[st_chan (ss_streams s ! j) := (chan_of j s)\<lparr>ch_buf := evs\<rparr>]"
  have lt: "j < length (ss_streams s)" using j(1) by (simp add: live_def)
  note ok1 = received_ok [OF ok lt j(2)] and lt1 = sse_ok_parts(2) [OF ok lt]
  have run: "Inr s' = (if st_up (ss_streams s ! j)
      then Inr (s\<lparr>ss_heap := ?h, ss_streams := (ss_streams s)[j := (ss_streams s ! j)\<lparr>st_out := st_out (ss_streams s ! j) @ [ev]\<rparr>]\<rparr>)
      else stream_returns j (s\<lparr>ss_heap := ?h\<rparr>))" using assms(2) j by (simp add: stream_writes_def Let_def split: if_splits)
  have ok': "sse_ok s'" using sse_step_ok(2) [OF ok, of "SWrite j" s'] assms(2) by simp
  show ?thesis
  proof (cases "j = i")
    case True
    then have "s' = s\<lparr>ss_heap := ?h, ss_streams := (ss_streams s)[i := (ss_streams s ! i)\<lparr>st_out := st_out (ss_streams s ! i) @ [ev]\<rparr>]\<rparr>"
      using run i(2) by simp
    then show ?thesis using assms(1) ok' lt lt1 j(2) True by (auto simp: tracks_def live_def nth_list_update)
  next
    case False
    then have other: "?h ! st_chan (ss_streams s ! i) = chan_of i s" using assms(1) lt by (auto simp: tracks_def)
    have "tracks i k topics n (st_out (ss_streams s ! i) @ ch_buf (chan_of i s)) (s\<lparr>ss_heap := ?h\<rparr>)"
      using assms(1) by (intro tracks_heap [OF assms(1) ok1 other]) (simp add: tracks_def)
    then have t: "tracks i k topics n X (s\<lparr>ss_heap := ?h\<rparr>)" using assms(1) by (simp add: tracks_def)
    show ?thesis
    proof (cases "st_up (ss_streams s ! j)")
      case True
      then show ?thesis using run t ok' lt False by (auto simp: tracks_def live_def nth_list_update)
    next
      case down: False
      then show ?thesis using tracks_returns [OF t _ False] run lt by simp
    qed
  qed
qed

lemma tracks_step:
  assumes "tracks i k topics n X s" and "\<forall>ts. l \<noteq> SSubscribe k ts" and "l \<noteq> SClose" and "l \<noteq> SHangup i" and "sse_step l s = Some (Inr s')"
  shows "\<exists>X'. tracks i k topics n X' s' \<and> (X' = X @ addressed k topics l \<or> X' = X \<and> n \<le> length X)"
proof -
  have ok: "sse_ok s" and i: "i < length (ss_streams s)" "live i s" "st_up (ss_streams s ! i)"
    and k: "clients (ss_broker s) k = Some \<lparr>ci_channel = st_chan (ss_streams s ! i), ci_topics = topics\<rparr>"
    using assms(1) by (auto simp: tracks_def live_def)
  note ch = tracks_channel [OF assms(1)]
  show ?thesis
  proof (cases l)
    case (SSubscribe k' ts)
    then have k': "k' \<noteq> k" using assms(2) by blast
    let ?c = "make_chan (nat (sb_bufferSize (ss_broker s)))"
    obtain b h where s': "s' = \<lparr>ss_broker = b, ss_heap = h @ [?c], ss_streams = ss_streams s @ [new_stream k' (length (ss_heap s))]\<rparr>" "sse_ok s'"
      "closed_for k' (ss_broker s) (ss_heap s) h" "clients b = (clients (ss_broker s))(k' \<mapsto> \<lparr>ci_channel = length (ss_heap s), ci_topics = ts\<rparr>)"
      using subscribe_step [OF ok, of k' ts] assms(5) SSubscribe by auto
    have "h ! st_chan (ss_streams s ! i) = chan_of i s" using s'(3) ch k' by simp
    moreover have "length h = length (ss_heap s)" using s'(3) by blast
    ultimately have "tracks i k topics n X s'"
      using assms(1) s'(1,2,4) ch(1) k' i(1) unfolding tracks_def live_def
      by (auto simp: nth_append new_stream_def less_Suc_eq)
    with SSubscribe show ?thesis by auto
  next
    case (SBroadcast ev)
    obtain h where h: "s' = s\<lparr>ss_heap := h\<rparr>" "sse_ok (s\<lparr>ss_heap := h\<rparr>)"
      "\<forall>a < length (ss_heap s). h ! a = (if a \<in> ci_channel ` ran (clients (ss_broker s)) then offered ev (ss_heap s ! a) else ss_heap s ! a)"
      using send_steps(1) [OF ok, of ev] assms(5) SBroadcast by auto
    have "st_chan (ss_streams s ! i) \<in> ci_channel ` ran (clients (ss_broker s))" using ch(4) [of "\<lambda>_. True"] by simp
    then show ?thesis using tracks_offer [OF assms(1) h(2), of True ev] h ch(1) SBroadcast by simp
  next
    case (STopic topic ev)
    obtain h where h: "s' = s\<lparr>ss_heap := h\<rparr>" "sse_ok (s\<lparr>ss_heap := h\<rparr>)"
      "\<forall>a < length (ss_heap s). h ! a =
        (if a \<in> ci_channel ` {i \<in> ran (clients (ss_broker s)). wants topic (ci_topics i)} then offered ev (ss_heap s ! a) else ss_heap s ! a)"
      using send_steps(2) [OF ok, of topic ev] assms(5) STopic by auto
    have "st_chan (ss_streams s ! i) \<in> ci_channel ` {i \<in> ran (clients (ss_broker s)). wants topic (ci_topics i)} \<longleftrightarrow> wants topic topics"
      using ch(4) by simp
    then show ?thesis using tracks_offer [OF assms(1) h(2), of "wants topic topics" ev] h ch(1) STopic by simp
  next
    case (SSend k' ev)
    obtain h where h: "s' = s\<lparr>ss_heap := h\<rparr>" "sse_ok (s\<lparr>ss_heap := h\<rparr>)"
      "\<forall>a < length (ss_heap s). h ! a = (if a \<in> ci_channel ` {i. clients (ss_broker s) k' = Some i} then offered ev (ss_heap s ! a) else ss_heap s ! a)"
      using send_steps(3) [OF ok, of k' ev] assms(5) SSend by auto
    have "st_chan (ss_streams s ! i) \<in> ci_channel ` {i. clients (ss_broker s) k' = Some i} \<longleftrightarrow> k' = k"
      using ch(3) .
    then show ?thesis using tracks_offer [OF assms(1) h(2), of "k' = k" ev] h ch(1) SSend by simp
  next
    case (SWrite j)
    then have "tracks i k topics n X s'" using tracks_write [OF assms(1)] assms(5) by simp
    with SWrite show ?thesis by auto
  next
    case (SEnd j)
    then have e: "live j s" "ch_closed (chan_of j s)" "stream_returns j s = Inr s'" using assms(5) by (auto simp: stream_ends_def split: if_splits)
    then have "j \<noteq> i" using ch(2) by auto
    then show ?thesis using tracks_returns [OF assms(1) _ _ e(3)] e(1) SEnd by (auto simp: live_def)
  next
    case (SHangup j)
    then have "j \<noteq> i" using assms(4) by auto
    moreover have "sse_ok s'" using sse_step_ok(2) [OF ok assms(5)] .
    ultimately have "tracks i k topics n X s'" using assms(1,5) SHangup by (auto simp: tracks_def live_def nth_list_update split: if_splits)
    with SHangup show ?thesis by auto
  qed (use assms(3) in simp)
qed

lemma tracks_run:
  assumes "tracks i k topics n X s" and "list_all (\<lambda>l. (\<forall>ts. l \<noteq> SSubscribe k ts) \<and> l \<noteq> SClose \<and> l \<noteq> SHangup i) ls" and "sse_run ls s = Inr s'"
  shows "\<exists>X'. tracks i k topics n X' s' \<and> subseq X' (X @ concat (map (addressed k topics) ls)) \<and>
    (length (X @ concat (map (addressed k topics) ls)) \<le> n \<longrightarrow> X' = X @ concat (map (addressed k topics) ls))"
  using assms
proof (induction ls arbitrary: X s)
  case Nil
  then show ?case by auto
next
  case (Cons l ls)
  have l: "\<forall>ts. l \<noteq> SSubscribe k ts" "l \<noteq> SClose" "l \<noteq> SHangup i" using Cons.prems(2) by simp_all
  show ?case
  proof (cases "sse_step l s")
    case None
    then have "addressed k topics l = []" by (cases l) simp_all
    with None Cons show ?thesis by simp
  next
    case (Some r)
    then obtain s1 where s1: "sse_step l s = Some (Inr s1)" using Cons.prems(3) by (cases r) auto
    let ?A = "concat (map (addressed k topics) ls)" and ?e = "addressed k topics l"
    obtain X1 where X1: "tracks i k topics n X1 s1" "X1 = X @ ?e \<or> X1 = X \<and> n \<le> length X"
      using tracks_step [OF Cons.prems(1) l s1] by blast
    obtain X' where X': "tracks i k topics n X' s'" "subseq X' (X1 @ ?A)" "length (X1 @ ?A) \<le> n \<longrightarrow> X' = X1 @ ?A"
      using Cons.IH [OF X1(1)] Cons.prems(2,3) s1 by auto
    have "subseq (X1 @ ?A) (X @ ?e @ ?A)" using X1(2) by (elim disjE conjE) (simp_all add: list_emb_append_mono list_emb_append2)
    then have "subseq X' (X @ ?e @ ?A)" using X'(2) subseq_order.order_trans by blast
    moreover have "X' = X @ ?e @ ?A" if "length (X @ ?e @ ?A) \<le> n"
    proof -
      have "X1 = X @ ?e" using X1(2) that by (cases ?e) auto
      with X'(3) that show ?thesis by simp
    qed
    ultimately show ?thesis using X'(1) by auto
  qed
qed

lemma tracks_start:
  assumes "sse_ok s" and "k \<notin> st_conn ` set (ss_streams s)" and "sse_step (SSubscribe k topics) s = Some (Inr s1)"
  shows "tracks (length (ss_streams s)) k topics (nat (sb_bufferSize (ss_broker s))) [] s1"
proof -
  let ?c = "make_chan (nat (sb_bufferSize (ss_broker s)))"
  obtain b h where s1: "s1 = \<lparr>ss_broker = b, ss_heap = h @ [?c], ss_streams = ss_streams s @ [new_stream k (length (ss_heap s))]\<rparr>" "sse_ok s1"
    "length h = length (ss_heap s)" "clients b = (clients (ss_broker s))(k \<mapsto> \<lparr>ci_channel = length (ss_heap s), ci_topics = topics\<rparr>)"
    using subscribe_step [OF assms(1), of k topics] assms(3) by auto
  have "st_conn (ss_streams s ! j) \<noteq> k" if "j < length (ss_streams s)" for j using assms(2) that by auto
  moreover have "st_chan (ss_streams s ! j) \<noteq> length (ss_heap s)" if "j < length (ss_streams s)" for j
    using sse_ok_parts(2) [OF assms(1) that] by simp
  ultimately show ?thesis using s1 unfolding tracks_def live_def by (auto simp: nth_append new_stream_def make_chan_def less_Suc_eq)
qed

section \<open>Shutting down\<close>

text \<open>The steps that the writers of the streams still have to take, and how many labels of a schedule are steps.\<close>

definition pending :: "sse_system \<Rightarrow> nat" where
  "pending s = (\<Sum>i < length (ss_streams s). if st_done (ss_streams s ! i) then 0 else Suc (length (ch_buf (chan_of i s))))"

fun taken :: "slabel list \<Rightarrow> sse_system \<Rightarrow> nat" where
  "taken [] s = 0"
| "taken (l # ls) s = (case sse_step l s of None \<Rightarrow> taken ls s | Some (Inl p) \<Rightarrow> 1 | Some (Inr s') \<Rightarrow> Suc (taken ls s'))"

lemma pending_less:
  assumes "length (ss_streams s') = length (ss_streams s)" and "i < length (ss_streams s)" and "\<not> st_done (ss_streams s ! i)"
    and "\<And>j. j < length (ss_streams s) \<Longrightarrow> st_done (ss_streams s ! j) \<Longrightarrow> st_done (ss_streams s' ! j)"
    and "\<And>j. j < length (ss_streams s) \<Longrightarrow> length (ch_buf (chan_of j s')) \<le> length (ch_buf (chan_of j s))"
    and "st_done (ss_streams s' ! i) \<or> length (ch_buf (chan_of i s')) < length (ch_buf (chan_of i s))"
  shows "pending s' < pending s"
  unfolding pending_def assms(1)
proof (intro sum_strict_mono_ex1 ballI bexI [of _ i])
  show "(if st_done (ss_streams s' ! j) then 0 else Suc (length (ch_buf (chan_of j s'))))
      \<le> (if st_done (ss_streams s ! j) then 0 else Suc (length (ch_buf (chan_of j s))))" if "j \<in> {..< length (ss_streams s)}" for j
    using assms(4,5) [of j] that by auto
qed (use assms(2,3,6) in auto)

lemma returns_pending:
  assumes "sse_ok s" and "live i s" and "stream_returns i s = Inr s'"
  shows "pending s' < pending s" and "clients (ss_broker s) = Map.empty \<Longrightarrow> clients (ss_broker s') = Map.empty"
proof -
  have i: "i < length (ss_streams s)" "\<not> st_done (ss_streams s ! i)" using assms(2) by (simp_all add: live_def)
  obtain b h where s': "s' = s\<lparr>ss_streams := (ss_streams s)[i := (ss_streams s ! i)\<lparr>st_done := True\<rparr>], ss_broker := b, ss_heap := h\<rparr>"
    "closed_for (st_conn (ss_streams s ! i)) (ss_broker s) (ss_heap s) h" "clients b = (clients (ss_broker s))(st_conn (ss_streams s ! i) := None)"
    using returns_step [OF assms(1) i(1)] assms(3) by auto
  have "ch_buf (h ! a) = ch_buf (ss_heap s ! a)" if "a < length (ss_heap s)" for a using s'(2) that by simp
  then show "pending s' < pending s"
    using i s'(1) sse_ok_parts(2) [OF assms(1)] by (intro pending_less [of s' s i]) (auto simp: nth_list_update)
  show "clients (ss_broker s') = Map.empty" if "clients (ss_broker s) = Map.empty" using s'(1,3) that by simp
qed

lemma stream_step_pending:
  assumes "sse_ok s" and "l = SWrite i \<or> l = SEnd i" and "sse_step l s = Some (Inr s')"
  shows "pending s' < pending s" and "clients (ss_broker s) = Map.empty \<Longrightarrow> clients (ss_broker s') = Map.empty"
proof -
  have "pending s' < pending s \<and> (clients (ss_broker s) = Map.empty \<longrightarrow> clients (ss_broker s') = Map.empty)"
  proof (cases "l = SEnd i")
    case True
    then have "live i s" "stream_returns i s = Inr s'" using assms(3) by (auto simp: stream_ends_def split: if_splits)
    then show ?thesis using returns_pending [OF assms(1)] by blast
  next
    case False
    then have w: "stream_writes i s = Some (Inr s')" using assms(2,3) by auto
    then obtain ev evs where ev: "live i s" "ch_buf (chan_of i s) = ev # evs" by (auto simp: stream_writes_def split: if_splits list.splits)
    let ?s1 = "s\<lparr>ss_heap := (ss_heap s)[st_chan (ss_streams s ! i) := (chan_of i s)\<lparr>ch_buf := evs\<rparr>]\<rparr>"
    have i: "i < length (ss_streams s)" "\<not> st_done (ss_streams s ! i)" using ev(1) by (simp_all add: live_def)
    note lt = sse_ok_parts(2) [OF assms(1)]
    have p1: "pending ?s1 < pending s" using i lt ev(2) by (intro pending_less [of ?s1 s i]) (auto simp: nth_list_update)
    show ?thesis
    proof (cases "st_up (ss_streams s ! i)")
      case True
      then have s': "s' = ?s1\<lparr>ss_streams := (ss_streams s)[i := (ss_streams s ! i)\<lparr>st_out := st_out (ss_streams s ! i) @ [ev]\<rparr>]\<rparr>"
        using w ev by (simp add: stream_writes_def Let_def)
      have "pending s' < pending s" using i lt ev(2) by (intro pending_less [of s' s i]) (auto simp: s' nth_list_update)
      then show ?thesis using s' by simp
    next
      case False
      then have "stream_returns i ?s1 = Inr s'" using w ev by (simp add: stream_writes_def Let_def)
      then show ?thesis using returns_pending [OF received_ok [OF assms(1) i(1) ev(2)], of i s'] ev(1) p1 by (auto simp: live_def)
    qed
  qed
  then show "pending s' < pending s" and "clients (ss_broker s) = Map.empty \<Longrightarrow> clients (ss_broker s') = Map.empty" by blast+
qed

lemma drain_run:
  assumes "sse_ok s" and "clients (ss_broker s) = Map.empty" and "list_all (\<lambda>l. \<exists>i. l = SWrite i \<or> l = SEnd i) ls" and "sse_run ls s = Inr s'"
  shows "taken ls s + pending s' \<le> pending s \<and> sse_ok s' \<and> clients (ss_broker s') = Map.empty"
  using assms
proof (induction ls arbitrary: s)
  case (Cons l ls)
  show ?case
  proof (cases "sse_step l s")
    case None
    with Cons show ?thesis by simp
  next
    case (Some r)
    then obtain s1 where s1: "sse_step l s = Some (Inr s1)" using Cons.prems(4) by (cases r) auto
    obtain i where "l = SWrite i \<or> l = SEnd i" using Cons.prems(3) by auto
    note p = stream_step_pending [OF Cons.prems(1) this s1]
    have "taken ls s1 + pending s' \<le> pending s1 \<and> sse_ok s' \<and> clients (ss_broker s') = Map.empty"
      using Cons.IH [OF sse_step_ok(2) [OF Cons.prems(1) s1] p(2) [OF Cons.prems(2)]] Cons.prems(3,4) s1 by simp
    with p(1) s1 show ?thesis by simp
  qed
qed simp

lemma drained:
  assumes "sse_ok s" and "clients (ss_broker s) = Map.empty" and "\<And>i. sse_step (SWrite i) s = None" and "\<And>i. sse_step (SEnd i) s = None"
  shows "list_all st_done (ss_streams s)"
proof (rule ccontr)
  assume "\<not> list_all st_done (ss_streams s)"
  then obtain i where i: "i < length (ss_streams s)" "\<not> st_done (ss_streams s ! i)" by (auto simp: list_all_length)
  have "owns Map.empty (ss_heap s)" using sse_ok_parts(1) [OF assms(1)] assms(2) by (simp add: chans_ok_def)
  then have "ch_closed (chan_of i s)" using sse_ok_parts(2) [OF assms(1) i(1)] unfolding owns_def by blast
  then show False using i assms(3,4) [of i]
    by (cases "ch_buf (chan_of i s)") (simp_all add: stream_writes_def stream_ends_def live_def Let_def split: if_splits)
qed

section \<open>Reading a stream\<close>

text \<open>
  How a client reads the bytes: field lines up to a blank line make an event, several data lines are joined, lines with
  other contents are ignored, an event without data is not dispatched, and an unfinished last line is dropped.
\<close>

definition no_event :: Event where
  "no_event = \<lparr>ev_ID = '''', ev_Event = '''', ev_Data = '''', ev_Retry = 0\<rparr>"

definition read_field :: "string \<Rightarrow> Event \<Rightarrow> Event" where
  "read_field l e =
     (if has_prefix l ''id: '' then e\<lparr>ev_ID := drop 4 l\<rparr>
      else if has_prefix l ''event: '' then e\<lparr>ev_Event := drop 7 l\<rparr>
      else if has_prefix l ''data: '' then e\<lparr>ev_Data := (if ev_Data e = '''' then drop 6 l else ev_Data e @ LF @ drop 6 l)\<rparr>
      else if has_prefix l ''retry: '' then (case atoi (drop 7 l) of Some n \<Rightarrow> e\<lparr>ev_Retry := n\<rparr> | None \<Rightarrow> e)
      else e)"

fun read_lines_sse :: "string list \<Rightarrow> Event \<Rightarrow> Event list" where
  "read_lines_sse [] e = []"
| "read_lines_sse (l # ls) e =
     (if l = '''' then (if ev_Data e = '''' then read_lines_sse ls no_event else e # read_lines_sse ls no_event)
      else read_lines_sse ls (read_field l e))"

definition read_stream :: "string \<Rightarrow> Event list" where
  "read_stream s = read_lines_sse (butlast (split_on (CHR 0x0A) s)) no_event"

definition plain :: "string \<Rightarrow> bool" where
  "plain s \<longleftrightarrow> CHR 0x0A \<notin> set s"

definition event_lines :: "Event \<Rightarrow> string list" where
  "event_lines ev =
     (if ev_ID ev \<noteq> '''' then [''id: '' @ ev_ID ev] else []) @ (if ev_Event ev \<noteq> '''' then [''event: '' @ ev_Event ev] else []) @
     (if ev_Data ev \<noteq> '''' then [''data: '' @ ev_Data ev] else []) @
     (if 0 < ev_Retry ev then [''retry: '' @ itoa (ev_Retry ev)] else []) @ ['''']"

lemma event_text_lines: "event_text ev = concat (map (\<lambda>l. l @ LF) (event_lines ev))"
  by (simp add: event_text_def event_lines_def)

lemma split_lines: "list_all plain ls \<Longrightarrow> split_on (CHR 0x0A) (concat (map (\<lambda>l. l @ LF) ls)) = ls @ ['''']"
proof (induction ls)
  case (Cons l ls)
  then show ?case using split_on_append [of "CHR 0x0A" l "concat (map (\<lambda>l. l @ LF) ls)"] by (simp add: plain_def)
qed simp

lemma digits_val_digits: "digits_val a s = Some n \<Longrightarrow> c \<in> set s \<Longrightarrow> digit_val c \<noteq> None"
  by (induction s arbitrary: a) (auto split: option.splits)

lemma plain_itoa: "0 < i \<Longrightarrow> plain (itoa i)"
  using digits_val_digits [OF digits_val_nat_digits, of "CHR 0x0A" "nat i"] by (auto simp: plain_def itoa_def digit_val_def)

text \<open>The lines that data with a line feed produces.\<close>

definition broken_lines :: "Event \<Rightarrow> string \<Rightarrow> string list" where
  "broken_lines ev snd_line =
     (if ev_ID ev \<noteq> '''' then [''id: '' @ ev_ID ev] else []) @ (if ev_Event ev \<noteq> '''' then [''event: '' @ ev_Event ev] else []) @
     [''data: '' @ ev_Data ev, snd_line] @ (if 0 < ev_Retry ev then [''retry: '' @ itoa (ev_Retry ev)] else []) @ ['''']"

lemma broken_text: "event_text (ev\<lparr>ev_Data := ev_Data ev @ LF @ snd_line\<rparr>) = concat (map (\<lambda>l. l @ LF) (broken_lines ev snd_line))"
  by (simp add: event_text_def broken_lines_def)

definition readable :: "Event \<Rightarrow> bool" where
  "readable ev \<longleftrightarrow> plain (ev_ID ev) \<and> plain (ev_Event ev) \<and> plain (ev_Data ev) \<and> ev_Data ev \<noteq> '''' \<and> 0 \<le> ev_Retry ev \<and> ev_Retry ev < 2 ^ 63"

lemma readable_lines: "readable ev \<Longrightarrow> list_all plain (event_lines ev)"
  using plain_itoa [of "ev_Retry ev"] by (auto simp: event_lines_def readable_def plain_def)

lemma read_event: "readable ev \<Longrightarrow> read_lines_sse (event_lines ev @ ls) no_event = ev # read_lines_sse ls no_event"
  using atoi_itoa [of "ev_Retry ev"] by (auto simp: event_lines_def readable_def read_field_def has_prefix_def no_event_def)

lemma read_broken:
  assumes "readable ev" and "plain snd_line" and "snd_line \<noteq> ''''"
  shows "read_stream (event_text (ev\<lparr>ev_Data := ev_Data ev @ LF @ snd_line\<rparr>)) = read_lines_sse (broken_lines ev snd_line) no_event"
proof -
  have "list_all plain (broken_lines ev snd_line)"
    using assms plain_itoa [of "ev_Retry ev"] by (auto simp: broken_lines_def readable_def plain_def)
  then show ?thesis unfolding read_stream_def broken_text by (simp add: split_lines)
qed

lemma read_broken_junk:
  assumes "readable ev" and "\<not> list_ex (has_prefix junk) [''id: '', ''event: '', ''data: '', ''retry: '']" and "junk \<noteq> ''''"
  shows "read_lines_sse (broken_lines ev junk) no_event = [ev]"
proof -
  have "read_field junk e = e" for e using assms(2) by (simp add: read_field_def)
  then show ?thesis using assms atoi_itoa [of "ev_Retry ev"]
    by (auto simp: broken_lines_def readable_def read_field_def [of "_ # _"] has_prefix_def [of "_ # _"] no_event_def)
qed

lemma read_broken_event:
  assumes "readable ev"
  shows "read_lines_sse (broken_lines ev (''event: '' @ name)) no_event = [ev\<lparr>ev_Event := name\<rparr>]"
  using assms atoi_itoa [of "ev_Retry ev"] by (auto simp: broken_lines_def readable_def read_field_def has_prefix_def no_event_def)

text \<open>
  Two subscriptions with the same identifier: the channel of the first is closed, its writer returns and unsubscribes, and
  this closes the channel of the second as well.
\<close>

lemma collision_ends_both:
  "case sse_run [SSubscribe ''c'' [], SSubscribe ''c'' [], SEnd 0] (sse_init 10) of
     Inl p \<Rightarrow> False
   | Inr s \<Rightarrow> broker_ClientCount (ss_broker s, ss_heap s) = 0 \<and> ch_closed (ss_heap s ! st_chan (ss_streams s ! 1)) \<and> \<not> st_done (ss_streams s ! 1)"
  by code_simp

section \<open>Properties\<close>

text \<open>
  C34. The broker never panics. Take a new broker with any buffer size and any schedule of subscriptions (also twice with
  the same identifier), broadcasts, topic and direct sends, reads and endings of the streams, disconnections and shutdowns
  of the broker. No step sends on a closed channel or closes one twice. In the state that is reached the open channels
  are exactly those of the registered clients, no two clients share a channel, and no buffer exceeds its capacity.
\<close>

theorem sse_never_panics: "\<exists>s. sse_run ls (sse_init n) = Inr s \<and> sse_ok s"
  by (rule sse_run_ok [OF sse_init_ok])

text \<open>
  C33. A stream delivers what is addressed to it, in order. In any state that a schedule leads to, let a client subscribe
  with a fresh identifier, and let any schedule follow in which nobody subscribes with this identifier again, the client
  does not disconnect and the broker is not closed. What the client was sent, followed by what waits in its channel, is a
  subsequence of the events that were broadcast, sent to one of its topics (or to any topic, when it named none) or sent
  to it, in the order of publication. When these are not more than the buffer holds, nothing is missing.
\<close>

theorem sse_stream_exact:
  assumes "sse_run ls0 (sse_init n) = Inr s" and "k \<notin> st_conn ` set (ss_streams s)" and "sse_run (SSubscribe k topics # ls) s = Inr s'"
    and "list_all (\<lambda>l. (\<forall>ts. l \<noteq> SSubscribe k ts) \<and> l \<noteq> SClose \<and> l \<noteq> SHangup (length (ss_streams s))) ls"
    and "events = concat (map (addressed k topics) ls)" and "st = ss_streams s' ! length (ss_streams s)"
  shows "length (ss_streams s) < length (ss_streams s') \<and> \<not> st_done st \<and> subseq (st_out st @ ch_buf (ss_heap s' ! st_chan st)) events \<and>
    (length events \<le> nat (sb_bufferSize (ss_broker s)) \<longrightarrow> st_out st @ ch_buf (ss_heap s' ! st_chan st) = events)"
proof -
  have ok: "sse_ok s" using sse_run_ok [OF sse_init_ok, of ls0 n] assms(1) by auto
  then obtain s1 where s1: "sse_step (SSubscribe k topics) s = Some (Inr s1)" using subscribe_step by blast
  then have "sse_run ls s1 = Inr s'" using assms(3) by simp
  from tracks_run [OF tracks_start [OF ok assms(2) s1] assms(4) this] show ?thesis
    using assms(5,6) by (auto simp: tracks_def live_def)
qed

definition demo_event :: "string \<Rightarrow> Event" where
  "demo_event data = NewEvent ''tick'' data"

definition demo_schedule :: "slabel list" where
  "demo_schedule = [SBroadcast (demo_event ''1''), STopic ''sports'' (demo_event ''2''), STopic ''news'' (demo_event ''3''), SWrite 1, SWrite 0]"

lemma sse_stream_exact_witness:
  "\<exists>s s'. sse_run [SSubscribe ''c-1'' []] (sse_init 10) = Inr s \<and> sse_run (SSubscribe ''c-2'' [''news''] # demo_schedule) s = Inr s' \<and>
     st_out (ss_streams s' ! 1) @ ch_buf (ss_heap s' ! st_chan (ss_streams s' ! 1)) = [demo_event ''1'', demo_event ''3'']"
proof -
  obtain s where s: "sse_run [SSubscribe ''c-1'' []] (sse_init 10) = Inr s" and ok: "sse_ok s" using sse_run_ok [OF sse_init_ok] by blast
  obtain s' where s': "sse_run (SSubscribe ''c-2'' [''news''] # demo_schedule) s = Inr s'" using sse_run_ok [OF ok] by blast
  have "case sse_run [SSubscribe ''c-1'' []] (sse_init 10) of Inl p \<Rightarrow> False
    | Inr s \<Rightarrow> ''c-2'' \<notin> st_conn ` set (ss_streams s) \<and> length (ss_streams s) = 1 \<and> nat (sb_bufferSize (ss_broker s)) = 10" by code_simp
  then have f: "''c-2'' \<notin> st_conn ` set (ss_streams s)" "length (ss_streams s) = 1" "nat (sb_bufferSize (ss_broker s)) = 10" using s by simp_all
  have "concat (map (addressed ''c-2'' [''news'']) demo_schedule) = [demo_event ''1'', demo_event ''3'']" by (simp add: demo_schedule_def wants_def)
  with sse_stream_exact [OF s f(1) s', OF _ refl refl] f s s' show ?thesis by (auto simp: demo_schedule_def)
qed

text \<open>
  C35. Closing the broker ends every stream. In any state that a schedule leads to, close the broker, and let the writers of
  the streams run in any order. They take at most as many steps as there are events in the channels of their streams and
  streams. When none of them can take a step any more, every writer has returned, and no client is registered.
\<close>

theorem sse_close_drains:
  assumes "sse_run ls0 (sse_init n) = Inr s" and "sse_step SClose s = Some (Inr s1)"
    and "list_all (\<lambda>l. \<exists>i. l = SWrite i \<or> l = SEnd i) ls" and "sse_run ls s1 = Inr s'"
  shows "taken ls s1 \<le> pending s \<and> broker_ClientCount (ss_broker s', ss_heap s') = 0 \<and>
    ((\<forall>i. sse_step (SWrite i) s' = None \<and> sse_step (SEnd i) s' = None) \<longrightarrow> list_all st_done (ss_streams s'))"
proof -
  have ok: "sse_ok s" using sse_run_ok [OF sse_init_ok, of ls0 n] assms(1) by auto
  obtain h where h: "broker_Close (ss_broker s, ss_heap s) = Inr ((ss_broker s)\<lparr>sb_clients := []\<rparr>, h)" "length h = length (ss_heap s)"
    "\<forall>a < length (ss_heap s). ch_closed (h ! a) \<and> ch_buf (h ! a) = ch_buf (ss_heap s ! a)" using Close_ok [OF sse_ok_parts(1) [OF ok]] by blast
  then have s1: "s1 = s\<lparr>ss_broker := (ss_broker s)\<lparr>sb_clients := []\<rparr>, ss_heap := h\<rparr>" using assms(2) by (simp add: with_broker_def)
  have "pending s1 = pending s" unfolding pending_def s1 using h(3) sse_ok_parts(2) [OF ok] by (auto intro!: sum.cong)
  then show ?thesis
    using drain_run [OF sse_step_ok(2) [OF ok assms(2)] _ assms(3,4)] drained [of s'] s1 by (auto simp: broker_ClientCount_def)
qed

lemma sse_close_drains_witness:
  "\<exists>s s1 s'. sse_run [SSubscribe ''c-1'' [], SBroadcast (demo_event ''1'')] (sse_init 10) = Inr s \<and> sse_step SClose s = Some (Inr s1) \<and>
     sse_run [SEnd 0, SWrite 0, SEnd 0] s1 = Inr s' \<and> taken [SEnd 0, SWrite 0, SEnd 0] s1 \<le> pending s \<and> broker_ClientCount (ss_broker s', ss_heap s') = 0"
proof -
  obtain s where s: "sse_run [SSubscribe ''c-1'' [], SBroadcast (demo_event ''1'')] (sse_init 10) = Inr s" "sse_ok s" using sse_run_ok [OF sse_init_ok] by blast
  obtain s1 where s1: "sse_step SClose s = Some (Inr s1)" using Close_ok [OF sse_ok_parts(1) [OF s(2)]] by (auto simp: with_broker_def)
  obtain s' where s': "sse_run [SEnd 0, SWrite 0, SEnd 0] s1 = Inr s'" using sse_run_ok [OF sse_step_ok(2) [OF s(2) s1]] by blast
  from sse_close_drains [OF s(1) s1 _ s'] s s1 s' show ?thesis by auto
qed



end
