(* ===== verification/Watchers.thy ===== *)
theory Watchers
  imports Authorizer "HOL-Library.Sublist"
begin

text \<open>
  Several instances of the service over one policy table: the watchers of
  \<^verbatim>\<open>src/internal/adapter/casbin/watcher_memory.go\<close>, \<^verbatim>\<open>watcher_redis.go\<close> and \<^verbatim>\<open>watcher_noop.go\<close>, and \<^verbatim>\<open>Start\<close>, the
  reload goroutine and \<^verbatim>\<open>Close\<close> of \<^verbatim>\<open>casbin.go\<close>. A panic is the left value of a sum. The goroutines appear as
  labelled steps of a cluster; a message that reaches an instance is any string at any time, so lost, repeated and
  reordered messages are all covered. The publish call of the Redis client and the calls on the enforcer are
  parameters. The locale \<open>watcher\<close> is the contract of the three watchers, and \<open>shared_policy\<close> is what the reload
  relies on.
\<close>

section \<open>Announcements\<close>

datatype announcement =
    Update
  | UpdateForAddPolicy string string "string list option"
  | UpdateForRemovePolicy string string "string list option"
  | UpdateForRemoveFilteredPolicy string string int "string list"
  | UpdateForSavePolicy
  | UpdateForAddPolicies string string "string list list"
  | UpdateForRemovePolicies string string "string list list"

text \<open>The messages of a method, in the order in which it sends them.\<close>

primrec messages :: "announcement \<Rightarrow> string list" where
  "messages Update = [encodeOp ''reload'' '''' '''' None]"
| "messages (UpdateForAddPolicy sec ptype params) = [encodeOp ''add_policy'' sec ptype params]"
| "messages (UpdateForRemovePolicy sec ptype params) = [encodeOp ''remove_policy'' sec ptype params]"
| "messages (UpdateForRemoveFilteredPolicy sec ptype fieldIndex fieldValues) = [encodeOp ''reload'' '''' '''' None]"
| "messages UpdateForSavePolicy = [encodeOp ''reload'' '''' '''' None]"
| "messages (UpdateForAddPolicies sec ptype rules) = map (\<lambda>rule. encodeOp ''add_policy'' sec ptype (Some rule)) rules"
| "messages (UpdateForRemovePolicies sec ptype rules) = map (\<lambda>rule. encodeOp ''remove_policy'' sec ptype (Some rule)) rules"

type_synonym 'w announced = "string + go_error option \<times> 'w"

fun send_all :: "(string \<Rightarrow> 'w \<Rightarrow> 'w announced) \<Rightarrow> string list \<Rightarrow> 'w \<Rightarrow> 'w announced" where
  "send_all send [] w = Inr (None, w)"
| "send_all send (m # ms) w =
     (case send m w of
        Inl p \<Rightarrow> Inl p
      | Inr (Some e, w') \<Rightarrow> Inr (Some e, w')
      | Inr (None, w') \<Rightarrow> send_all send ms w')"

record 'w watcher_ex =
  w_SetUpdateCallback :: "'w \<Rightarrow> go_error option \<times> 'w"
  w_announce :: "announcement \<Rightarrow> 'w \<Rightarrow> 'w announced"
  w_Close :: "'w \<Rightarrow> string + 'w"

section \<open>The watcher in memory\<close>

record MemoryWatcher =
  mw_ch :: "string list"
  mw_closed :: bool
  mw_callback :: bool

definition memoryWatcherBufSize :: nat where "memoryWatcherBufSize = 64"

definition NewMemoryWatcher :: MemoryWatcher where
  "NewMemoryWatcher = \<lparr>mw_ch = [], mw_closed = False, mw_callback = False\<rparr>"

definition memory_send :: "string \<Rightarrow> MemoryWatcher \<Rightarrow> MemoryWatcher announced" where
  "memory_send msg w =
     (if mw_closed w then Inl ''send on closed channel''
      else if length (mw_ch w) < memoryWatcherBufSize then Inr (None, w\<lparr>mw_ch := mw_ch w @ [msg]\<rparr>)
      else Inr (None, w))"

definition memory_watcher :: "MemoryWatcher watcher_ex" where
  "memory_watcher = \<lparr>
     w_SetUpdateCallback = (\<lambda>w. (None, w\<lparr>mw_callback := True\<rparr>)),
     w_announce = (\<lambda>a. send_all memory_send (messages a)),
     w_Close = (\<lambda>w. if mw_closed w then Inl ''close of closed channel'' else Inr (w\<lparr>mw_closed := True\<rparr>))\<rparr>"

text \<open>
  One turn of the goroutine of \<^verbatim>\<open>MemoryWatcher.Start\<close>: the message that it passes to the callback, if any. It waits,
  or returns, when the channel is empty.
\<close>

definition memory_receive :: "MemoryWatcher \<Rightarrow> (string option \<times> MemoryWatcher) option" where
  "memory_receive w =
     (case mw_ch w of
        [] \<Rightarrow> None
      | msg # rest \<Rightarrow> Some (if mw_callback w then Some msg else None, w\<lparr>mw_ch := rest\<rparr>))"

section \<open>The watcher over Redis\<close>

record 'r RedisWatcher =
  rw_client :: 'r
  rw_channel :: string
  rw_subscribed :: bool
  rw_callback :: bool

definition defaultRedisChannel :: string where "defaultRedisChannel = ''casbin:policy:update:v1''"

definition NewRedisWatcher :: "'r \<Rightarrow> string \<Rightarrow> 'r RedisWatcher" where
  "NewRedisWatcher client channel =
     \<lparr>rw_client = client, rw_channel = (if channel = '''' then defaultRedisChannel else channel),
      rw_subscribed = True, rw_callback = False\<rparr>"

definition redis_publish ::
  "(string \<Rightarrow> string \<Rightarrow> 'r \<Rightarrow> go_error option \<times> 'r) \<Rightarrow> string \<Rightarrow> 'r RedisWatcher \<Rightarrow> 'r RedisWatcher announced" where
  "redis_publish publish msg w =
     (case publish (rw_channel w) msg (rw_client w) of (err, r) \<Rightarrow> Inr (err, w\<lparr>rw_client := r\<rparr>))"

text \<open>\<^verbatim>\<open>Close\<close> ends the subscription and only logs an error of it; publishing goes on.\<close>

definition redis_watcher :: "(string \<Rightarrow> string \<Rightarrow> 'r \<Rightarrow> go_error option \<times> 'r) \<Rightarrow> 'r RedisWatcher watcher_ex" where
  "redis_watcher publish = \<lparr>
     w_SetUpdateCallback = (\<lambda>w. (None, w\<lparr>rw_callback := True\<rparr>)),
     w_announce = (\<lambda>a. send_all (redis_publish publish) (messages a)),
     w_Close = (\<lambda>w. Inr (w\<lparr>rw_subscribed := False\<rparr>))\<rparr>"

text \<open>One turn of \<^verbatim>\<open>listen\<close>: while subscribed a payload goes to the callback if there is one.\<close>

definition redis_listen :: "'r RedisWatcher \<Rightarrow> string \<Rightarrow> string option" where
  "redis_listen w payload = (if rw_subscribed w \<and> rw_callback w then Some payload else None)"

definition noop_watcher :: "bool watcher_ex" where
  "noop_watcher = \<lparr>w_SetUpdateCallback = (\<lambda>w. (None, True)), w_announce = (\<lambda>a w. Inr (None, w)), w_Close = Inr\<rparr>"

section \<open>The life of an adapter\<close>

text \<open>
  The goroutine of \<^verbatim>\<open>Start\<close> runs until it sees the cancelled context; while both a tick and the cancellation are
  ready the select may still take the tick. \<^verbatim>\<open>time.NewTicker\<close> panics on an interval that is not positive.
\<close>

datatype ticker = NotStarted | Ticking int | Crashed string | Returned

record ('e, 'w) casbin_node =
  nd_adapter :: "'e adapter"
  nd_watcher :: "'w option"
  nd_ticker :: ticker
  nd_cancelled :: bool
  nd_closed :: bool
  nd_closeErr :: "go_error option"

definition NewTicker :: "int \<Rightarrow> ticker" where
  "NewTicker d = (if d \<le> 0 then Crashed ''non-positive interval for NewTicker'' else Ticking d)"

definition launch :: "('e, 'w) casbin_node \<Rightarrow> ('e, 'w) casbin_node" where
  "launch n =
     (let i = reloadInterval (nd_adapter n); interval = (if i = 0 then 5 * minute else i)
      in n\<lparr>nd_ticker := NewTicker interval, nd_cancelled := False\<rparr>)"

definition adapter_Start :: "'w watcher_ex \<Rightarrow> ('e \<Rightarrow> go_error option \<times> 'e) \<Rightarrow> ('e, 'w) casbin_node \<Rightarrow> go_error option \<times> ('e, 'w) casbin_node" where
  "adapter_Start wx setWatcher n =
     (case nd_watcher n of
        None \<Rightarrow> (None, launch n)
      | Some w \<Rightarrow>
          (case w_SetUpdateCallback wx w of
             (Some e, w') \<Rightarrow> (Some (errorf_w ''casbin: set watcher callback'' e), n\<lparr>nd_watcher := Some w'\<rparr>)
           | (None, w') \<Rightarrow>
               (case setWatcher (enforcer (nd_adapter n)) of (err, en) \<Rightarrow>
                  let n' = n\<lparr>nd_watcher := Some w', nd_adapter := (nd_adapter n)\<lparr>enforcer := en\<rparr>\<rparr> in
                  (case err of
                     Some e \<Rightarrow> (Some (errorf_w ''casbin: set watcher on enforcer'' e), n')
                   | None \<Rightarrow> (None, launch n')))))"

definition ticking :: "('e, 'w) casbin_node \<Rightarrow> bool" where
  "ticking n \<longleftrightarrow> (case nd_ticker n of Ticking _ \<Rightarrow> True | _ \<Rightarrow> False)"

definition backstop_tick :: "'e enforcer_api \<Rightarrow> ('e, 'w) casbin_node \<Rightarrow> ('e, 'w) casbin_node" where
  "backstop_tick api n = (if ticking n then n\<lparr>nd_adapter := snd (LoadPolicy api (nd_adapter n))\<rparr> else n)"

definition backstop_done :: "('e, 'w) casbin_node \<Rightarrow> ('e, 'w) casbin_node" where
  "backstop_done n = (if ticking n \<and> nd_cancelled n then n\<lparr>nd_ticker := Returned\<rparr> else n)"

definition adapter_Close :: "'w watcher_ex \<Rightarrow> ('e \<Rightarrow> go_error option \<times> 'e) \<Rightarrow> ('e, 'w) casbin_node \<Rightarrow> string + go_error option \<times> ('e, 'w) casbin_node" where
  "adapter_Close wx closeDb n =
     (if nd_closed n then Inr (nd_closeErr n, n)
      else
        let n1 = n\<lparr>nd_closed := True, nd_cancelled := True\<rparr> in
        (case (case nd_watcher n1 of None \<Rightarrow> Inr None | Some w \<Rightarrow> (case w_Close wx w of Inl p \<Rightarrow> Inl p | Inr w' \<Rightarrow> Inr (Some w'))) of
           Inl p \<Rightarrow> Inl p
         | Inr w' \<Rightarrow>
             (case closeDb (enforcer (nd_adapter n1)) of (err, en) \<Rightarrow>
                Inr (err, n1\<lparr>nd_watcher := w', nd_adapter := (nd_adapter n1)\<lparr>enforcer := en\<rparr>, nd_closeErr := err\<rparr>))))"

section \<open>Instances over one database\<close>

text \<open>
  An enforcer sees the shared database as a part of its state, which \<open>put\<close> brings up to date before a call and
  \<open>get\<close> reads back after it. \<open>Outside\<close> is any other change of the database: an outage, a script, a migration.
\<close>

record ('e, 'w, 'd) cluster =
  cl_db :: 'd
  cl_nodes :: "('e, 'w) casbin_node list"

datatype 'd label = Call nat auth_op | Reload nat | Returns nat | Outside 'd

definition on_node ::
  "('e \<Rightarrow> 'd) \<Rightarrow> ('d \<Rightarrow> 'e \<Rightarrow> 'e) \<Rightarrow> nat \<Rightarrow> (('e, 'w) casbin_node \<Rightarrow> ('e, 'w) casbin_node) \<Rightarrow> ('e, 'w, 'd) cluster \<Rightarrow> ('e, 'w, 'd) cluster" where
  "on_node get put i f cl =
     (if i < length (cl_nodes cl) then
        let n = cl_nodes cl ! i;
            n' = f (n\<lparr>nd_adapter := (nd_adapter n)\<lparr>enforcer := put (cl_db cl) (enforcer (nd_adapter n))\<rparr>\<rparr>)
        in cl\<lparr>cl_db := get (enforcer (nd_adapter n')), cl_nodes := (cl_nodes cl)[i := n']\<rparr>
      else cl)"

primrec cluster_step ::
  "'e enforcer_api \<Rightarrow> ('e \<Rightarrow> 'd) \<Rightarrow> ('d \<Rightarrow> 'e \<Rightarrow> 'e) \<Rightarrow> 'd label \<Rightarrow> ('e, 'w, 'd) cluster \<Rightarrow> ('e, 'w, 'd) cluster" where
  "cluster_step api get put (Call i op) cl =
     on_node get put i (\<lambda>n. n\<lparr>nd_adapter := snd (adapter_step api op (nd_adapter n))\<rparr>) cl"
| "cluster_step api get put (Reload i) cl = on_node get put i (backstop_tick api) cl"
| "cluster_step api get put (Returns i) cl = on_node get put i backstop_done cl"
| "cluster_step api get put (Outside d) cl = cl\<lparr>cl_db := d\<rparr>"

definition cluster_run ::
  "'e enforcer_api \<Rightarrow> ('e \<Rightarrow> 'd) \<Rightarrow> ('d \<Rightarrow> 'e \<Rightarrow> 'e) \<Rightarrow> 'd label list \<Rightarrow> ('e, 'w, 'd) cluster \<Rightarrow> ('e, 'w, 'd) cluster" where
  "cluster_run api get put = fold (cluster_step api get put)"

text \<open>Steps that only check permissions and reload.\<close>

primrec quiet :: "'d label \<Rightarrow> bool" where
  "quiet (Call i op) = (case op of OEnforce _ _ _ \<Rightarrow> True | OEnforceWithContext _ _ _ _ \<Rightarrow> True | _ \<Rightarrow> False)"
| "quiet (Reload i) = True"
| "quiet (Returns i) = False"
| "quiet (Outside d) = False"

section \<open>The contract of a watcher\<close>

text \<open>
  While a watcher is open an announcement does not panic, and it passes on some of its messages, in their order,
  and nothing else.
\<close>

locale watcher =
  fixes announce :: "announcement \<Rightarrow> 'w \<Rightarrow> 'w announced" and open_w :: "'w \<Rightarrow> bool" and sent :: "'w \<Rightarrow> string list"
  assumes announced: "open_w w \<Longrightarrow>
    \<exists>err w' ms. announce a w = Inr (err, w') \<and> open_w w' \<and> sent w' = sent w @ ms \<and> subseq ms (messages a)"
begin

fun announce_all :: "announcement list \<Rightarrow> 'w \<Rightarrow> string + 'w" where
  "announce_all [] w = Inr w"
| "announce_all (a # as) w = (case announce a w of Inl p \<Rightarrow> Inl p | Inr (_, w') \<Rightarrow> announce_all as w')"

lemma announcements_in_order:
  assumes "open_w w"
  shows "\<exists>w' ms. announce_all as w = Inr w' \<and> open_w w' \<and> sent w' = sent w @ ms \<and> subseq ms (concat (map messages as))"
  using assms
proof (induction as arbitrary: w)
  case (Cons a as)
  obtain err w1 ms1 where 1: "announce a w = Inr (err, w1)" "open_w w1" "sent w1 = sent w @ ms1" "subseq ms1 (messages a)"
    using announced [OF Cons.prems] by blast
  obtain w2 ms2 where 2: "announce_all as w1 = Inr w2" "open_w w2" "sent w2 = sent w1 @ ms2"
      "subseq ms2 (concat (map messages as))"
    using Cons.IH [OF 1(2)] by blast
  have "subseq (ms1 @ ms2) (concat (map messages (a # as)))"
    using list_emb_append_mono [OF 1(4) 2(4)] by simp
  with 1 2 show ?case by (auto intro!: exI [of _ "ms1 @ ms2"])
qed simp

end

text \<open>A method that sends its messages one after the other keeps the contract if each send does.\<close>

lemma send_all_contract:
  assumes "\<And>m w. open_w w \<Longrightarrow> \<exists>err w' ms. send m w = Inr (err, w') \<and> open_w w' \<and> sent w' = sent w @ ms \<and> subseq ms [m]"
    and "open_w w"
  shows "\<exists>err w' ms. send_all send msgs w = Inr (err, w') \<and> open_w w' \<and> sent w' = sent w @ ms \<and> subseq ms msgs"
  using assms(2)
proof (induction msgs arbitrary: w)
  case (Cons m msgs)
  obtain err w1 ms1 where 1: "send m w = Inr (err, w1)" "open_w w1" "sent w1 = sent w @ ms1" "subseq ms1 [m]"
    using assms(1) [OF Cons.prems] by blast
  show ?case
  proof (cases err)
    case None
    obtain err2 w2 ms2 where 2: "send_all send msgs w1 = Inr (err2, w2)" "open_w w2" "sent w2 = sent w1 @ ms2" "subseq ms2 msgs"
      using Cons.IH [OF 1(2)] by blast
    have "subseq (ms1 @ ms2) (m # msgs)" using list_emb_append_mono [OF 1(4) 2(4)] by simp
    with None 1 2 show ?thesis by (auto intro!: exI [of _ "ms1 @ ms2"])
  next
    case (Some e)
    have "subseq (ms1 @ []) ([m] @ msgs)" by (rule list_emb_append_mono [OF 1(4)]) simp
    with Some 1 show ?thesis by (auto intro!: exI [of _ ms1])
  qed
qed simp

interpretation mem_watcher: watcher "w_announce memory_watcher" "\<lambda>w. \<not> mw_closed w" mw_ch
proof
  fix w :: MemoryWatcher and a assume o: "\<not> mw_closed w"
  have "\<exists>err w' ms. memory_send m w = Inr (err, w') \<and> \<not> mw_closed w' \<and> mw_ch w' = mw_ch w @ ms \<and> subseq ms [m]"
    if "\<not> mw_closed w" for m w
    using that by (auto simp: memory_send_def intro: exI [of _ "[m]"] exI [of _ "[]"])
  from send_all_contract [where sent = mw_ch, OF this o, of "messages a"]
  show "\<exists>err w' ms. w_announce memory_watcher a w = Inr (err, w') \<and> \<not> mw_closed w' \<and> mw_ch w' = mw_ch w @ ms \<and>
    subseq ms (messages a)"
    by (simp add: memory_watcher_def)
qed

text \<open>A Redis server with the messages that it was given; publishing fails while it is down.\<close>

record bus =
  bus_log :: "(string \<times> string) list"
  bus_up :: bool

definition bus_publish :: "string \<Rightarrow> string \<Rightarrow> bus \<Rightarrow> go_error option \<times> bus" where
  "bus_publish ch m b = (if bus_up b then (None, b\<lparr>bus_log := bus_log b @ [(ch, m)]\<rparr>) else (Some (ErrText ''connection refused''), b))"

interpretation redis_w: watcher "w_announce (redis_watcher bus_publish)" "\<lambda>_. True" "\<lambda>w. map snd (bus_log (rw_client w))"
proof
  fix w :: "bus RedisWatcher" and a
  have "\<exists>err w' ms. redis_publish bus_publish m w = Inr (err, w') \<and> True \<and>
      map snd (bus_log (rw_client w')) = map snd (bus_log (rw_client w)) @ ms \<and> subseq ms [m]" for m and w :: "bus RedisWatcher"
    by (auto simp: redis_publish_def bus_publish_def intro: exI [of _ "[m]"] exI [of _ "[]"])
  from send_all_contract [where open_w = "\<lambda>_. True" and sent = "\<lambda>w. map snd (bus_log (rw_client w))", OF this TrueI]
  show "\<exists>err w' ms. w_announce (redis_watcher bus_publish) a w = Inr (err, w') \<and> True \<and>
    map snd (bus_log (rw_client w')) = map snd (bus_log (rw_client w)) @ ms \<and> subseq ms (messages a)"
    by (simp add: redis_watcher_def)
qed

interpretation noop_w: watcher "w_announce noop_watcher" "\<lambda>_. True" "\<lambda>_. []"
  by unfold_locales (auto simp: noop_watcher_def)

section \<open>Start and Close\<close>

text \<open>\<^verbatim>\<open>Close\<close> is idempotent: after one that returned, another returns the same error and changes nothing.\<close>

lemma close_once:
  assumes "adapter_Close wx closeDb n = Inr (err, n')"
  shows "adapter_Close wx closeDb n' = Inr (err, n')"
  using assms by (auto simp: adapter_Close_def Let_def split: if_splits option.splits sum.splits prod.splits)

lemma close_stops_reload:
  assumes "adapter_Close wx closeDb n = Inr (err, n')" and "\<not> nd_closed n"
  shows "nd_cancelled n' \<and> \<not> ticking (backstop_done n')"
  using assms
  by (auto simp: adapter_Close_def Let_def backstop_done_def ticking_def split: if_splits option.splits sum.splits prod.splits ticker.splits)

text \<open>A closed watcher in memory makes the next change of a policy panic.\<close>

lemma memory_watcher_panics_after_close:
  assumes "w_Close memory_watcher w = Inr w'" and "messages a \<noteq> []"
  shows "w_announce memory_watcher a w' = Inl ''send on closed channel''"
  using assms by (cases "messages a") (auto simp: memory_watcher_def memory_send_def split: if_splits)

lemma start_ticks:
  assumes "adapter_Start wx setWatcher n = (None, n')" and "0 \<le> reloadInterval (nd_adapter n)"
  shows "ticking n' \<and> \<not> nd_cancelled n'"
  using assms
  by (auto simp: adapter_Start_def launch_def NewTicker_def ticking_def Let_def split: option.splits prod.splits if_splits)

section \<open>What the reload relies on\<close>

text \<open>
  Bringing the database up to date does not change the decisions of an enforcer, and while the database answers a
  reload succeeds and makes the decisions those of the database.
\<close>

locale shared_policy =
  fixes api :: "'e enforcer_api" and get :: "'e \<Rightarrow> 'd" and put :: "'d \<Rightarrow> 'e \<Rightarrow> 'e" and up :: "'d \<Rightarrow> bool"
    and decide :: "'d \<Rightarrow> string \<Rightarrow> string \<Rightarrow> string \<Rightarrow> bool \<times> go_error option"
  assumes get_put: "get (put d e) = d"
    and put_decides: "e_Enforce api (put d e) = e_Enforce api e"
    and load_decides: "up d \<Longrightarrow> \<exists>e'. e_LoadPolicy api (put d e) = (None, e') \<and> e_Enforce api e' = decide d \<and> get e' = d"
begin

abbreviation sound_cache :: "'e adapter \<Rightarrow> bool" where
  "sound_cache a \<equiv> dc.coherent (\<lambda>_ _ _ _. True) (cache a)"

definition current :: "'d \<Rightarrow> 'e adapter \<Rightarrow> bool" where
  "current d a \<longleftrightarrow> e_Enforce api (enforcer a) = decide d \<and> dc.coherent (\<lambda>s ob ac v. decide d s ob ac = (v, None)) (cache a)"

lemma sound_steps: "sound_cache a \<Longrightarrow> sound_cache (snd (adapter_step api op a))"
proof (cases op)
  case (OEnforce s ob ac)
  assume "sound_cache a"
  with OEnforce show ?thesis
    using dc.coherent_get [of "\<lambda>_ _ _ _. True" "cache a" s ob ac]
    by (auto simp: Enforce_def dc.coherent_put split: prod.split)
next
  case (OEnforceWithContext ce s ob ac)
  assume "sound_cache a"
  with OEnforceWithContext show ?thesis
    using dc.coherent_get [of "\<lambda>_ _ _ _. True" "cache a" s ob ac]
    by (auto simp: EnforceWithContext_def dc.coherent_put split: prod.split option.split)
next
  case (OMessage m)
  assume "sound_cache a"
  with OMessage show ?thesis
    by (auto simp: makeUpdateCallback_def LoadPolicy_def Let_def split: prod.split option.split intro: dc.coherent_clear)
qed (auto simp: AddRoleForUser_def RemoveRoleForUser_def AddPermissionForRole_def RemovePermissionForRole_def
        AddPermissionForUser_def RemovePermissionForUser_def LoadPolicy_def SavePolicy_def
        simp del: validatePolicyArgs.simps split: option.split prod.split
        intro: dc.coherent_clear dc.coherent_drop)

lemma current_decides: "current d a \<Longrightarrow> fst (Enforce api s ob ac a) = decide d s ob ac"
  using dc.coherent_hit [of "\<lambda>s ob ac v. decide d s ob ac = (v, None)" "cache a" s ob ac]
  by (auto simp: Enforce_def current_def split: prod.split)

lemma current_check:
  assumes "current d a"
  shows "current d (snd (Enforce api s ob ac a)) \<and> enforcer (snd (Enforce api s ob ac a)) = enforcer a"
  using assms dc.coherent_get [of "\<lambda>s ob ac v. decide d s ob ac = (v, None)" "cache a" s ob ac]
  by (auto simp: Enforce_def current_def dc.coherent_put split: prod.split)

end

context shared_policy
begin

abbreviation step :: "'d label \<Rightarrow> ('e, 'w, 'd) cluster \<Rightarrow> ('e, 'w, 'd) cluster" where
  "step \<equiv> cluster_step api get put"

definition sound_nodes :: "('e, 'w, 'd) cluster \<Rightarrow> bool" where
  "sound_nodes cl \<longleftrightarrow> (\<forall>n \<in> set (cl_nodes cl). sound_cache (nd_adapter n))"

definition current_node :: "'d \<Rightarrow> nat \<Rightarrow> ('e, 'w, 'd) cluster \<Rightarrow> bool" where
  "current_node d i cl \<longleftrightarrow> i < length (cl_nodes cl) \<and> current d (nd_adapter (cl_nodes cl ! i))"

definition ticking_node :: "nat \<Rightarrow> ('e, 'w, 'd) cluster \<Rightarrow> bool" where
  "ticking_node i cl \<longleftrightarrow> i < length (cl_nodes cl) \<and> ticking (cl_nodes cl ! i)"

lemma on_node_sound:
  assumes "sound_nodes cl" and "\<And>n. sound_cache (nd_adapter n) \<Longrightarrow> sound_cache (nd_adapter (f n))"
  shows "sound_nodes (on_node get put i f cl)"
proof -
  have "sound_cache (nd_adapter (f (n\<lparr>nd_adapter := (nd_adapter n)\<lparr>enforcer := e\<rparr>\<rparr>)))" if "n \<in> set (cl_nodes cl)" for n e
    using assms that by (simp add: sound_nodes_def)
  with assms(1) show ?thesis
    by (auto simp: on_node_def sound_nodes_def Let_def dest!: set_update_subset_insert [THEN subsetD])
qed

lemma step_sound:
  assumes "sound_nodes cl"
  shows "sound_nodes (step l cl)"
proof (cases l)
  case (Call i op)
  then show ?thesis using on_node_sound [OF assms] sound_steps by simp
next
  case (Reload i)
  have "sound_nodes (on_node get put i (backstop_tick api) cl)"
  proof (rule on_node_sound [OF assms])
    show "sound_cache (nd_adapter (backstop_tick api n))" if "sound_cache (nd_adapter n)" for n
      using that sound_steps [of "nd_adapter n" OLoadPolicy] by (simp add: backstop_tick_def)
  qed
  with Reload show ?thesis by simp
next
  case (Returns i)
  then show ?thesis using on_node_sound [OF assms, of backstop_done] by (simp add: backstop_done_def)
qed (use assms in \<open>simp add: sound_nodes_def\<close>)

lemma run_sound: "sound_nodes cl \<Longrightarrow> sound_nodes (cluster_run api get put ls cl)"
  unfolding cluster_run_def by (induction ls arbitrary: cl) (auto simp: step_sound)

text \<open>A check and a reload of one node, as the node sees them.\<close>

definition keeps :: "'d \<Rightarrow> (('e, 'w) casbin_node \<Rightarrow> ('e, 'w) casbin_node) \<Rightarrow> bool" where
  "keeps d f \<longleftrightarrow> (\<forall>n. get (enforcer (nd_adapter n)) = d \<longrightarrow> get (enforcer (nd_adapter (f n))) = d \<and>
     ticking (f n) = ticking n \<and> (current d (nd_adapter n) \<longrightarrow> current d (nd_adapter (f n))))"

lemma check_keeps:
  assumes "quiet (Call i op)"
  shows "keeps d (\<lambda>n. n\<lparr>nd_adapter := snd (adapter_step api op (nd_adapter n))\<rparr>)"
proof -
  have e: "enforcer (snd (Enforce api s ob ac a)) = enforcer a" for s ob ac and a :: "'e adapter"
    by (simp add: Enforce_def split: prod.split)
  show ?thesis
  proof (cases op)
    case (OEnforce s ob ac)
    then show ?thesis using current_check [of d _ s ob ac] e by (simp add: keeps_def ticking_def)
  next
    case (OEnforceWithContext ce s ob ac)
    have "EnforceWithContext api None s ob ac a = Enforce api s ob ac a" for a
      by (simp add: EnforceWithContext_def Enforce_def)
    then show ?thesis using OEnforceWithContext current_check [of d _ s ob ac] e
      by (cases ce) (simp_all add: keeps_def ticking_def, simp add: EnforceWithContext_def)
  qed (use assms in simp_all)
qed

lemma on_node_keeps:
  assumes "keeps d f" and "cl_db cl = d"
  shows "cl_db (on_node get put i f cl) = d"
    and "ticking_node j (on_node get put i f cl) = ticking_node j cl"
    and "current_node d j cl \<Longrightarrow> current_node d j (on_node get put i f cl)"
proof -
  let ?n = "\<lambda>n. n\<lparr>nd_adapter := (nd_adapter n)\<lparr>enforcer := put d (enforcer (nd_adapter n))\<rparr>\<rparr>"
  have k: "get (enforcer (nd_adapter (f (?n n)))) = d \<and> ticking (f (?n n)) = ticking n \<and>
      (current d (nd_adapter n) \<longrightarrow> current d (nd_adapter (f (?n n))))" for n
    using assms(1) [unfolded keeps_def, THEN spec, of "?n n"] get_put put_decides
    by (simp add: ticking_def current_def)
  show "cl_db (on_node get put i f cl) = d" using k assms(2) by (simp add: on_node_def Let_def)
  show "ticking_node j (on_node get put i f cl) = ticking_node j cl"
    using k assms(2) by (cases "j = i") (auto simp: on_node_def Let_def ticking_node_def)
  show "current_node d j cl \<Longrightarrow> current_node d j (on_node get put i f cl)"
    using k assms(2) by (cases "j = i") (auto simp: on_node_def Let_def current_node_def)
qed

end

context shared_policy
begin

lemma reload_current:
  assumes "up d" and "sound_cache a" and "get (enforcer a) = d" and "enforcer a = put d e"
  shows "current d (snd (LoadPolicy api a)) \<and> get (enforcer (snd (LoadPolicy api a))) = d"
proof -
  obtain e' where "e_LoadPolicy api (enforcer a) = (None, e')" "e_Enforce api e' = decide d" "get e' = d"
    using load_decides [OF assms(1), of e] assms(4) by auto
  with assms(2) show ?thesis by (auto simp: LoadPolicy_def current_def intro: dc.coherent_clear)
qed

lemma reload_step:
  assumes "up d" and "sound_nodes cl" and "cl_db cl = d"
  shows "cl_db (step (Reload i) cl) = d"
    and "ticking_node j (step (Reload i) cl) = ticking_node j cl"
    and "current_node d j cl \<or> j = i \<and> ticking_node i cl \<Longrightarrow> current_node d j (step (Reload i) cl)"
proof -
  have r: "current d (snd (LoadPolicy api ((nd_adapter n)\<lparr>enforcer := put d (enforcer (nd_adapter n))\<rparr>))) \<and>
      get (enforcer (snd (LoadPolicy api ((nd_adapter n)\<lparr>enforcer := put d (enforcer (nd_adapter n))\<rparr>)))) = d"
    if "n \<in> set (cl_nodes cl)" for n
    using assms(2) that get_put by (intro reload_current [OF assms(1)]) (auto simp: sound_nodes_def)
  have c: "current d (a\<lparr>enforcer := put d (enforcer a)\<rparr>) = current d a" for a :: "'e adapter"
    by (simp add: current_def put_decides)
  show "cl_db (step (Reload i) cl) = d"
    using r assms(3) get_put by (auto simp: on_node_def Let_def backstop_tick_def)
  show "ticking_node j (step (Reload i) cl) = ticking_node j cl"
    using assms(3) by (cases "j = i") (auto simp: on_node_def Let_def backstop_tick_def ticking_node_def ticking_def)
  show "current_node d j (step (Reload i) cl)" if "current_node d j cl \<or> j = i \<and> ticking_node i cl"
    using that r assms(3) c
    by (cases "j = i") (auto simp: on_node_def Let_def backstop_tick_def ticking_node_def current_node_def ticking_def)
qed

lemma quiet_run:
  assumes "up d" and "sound_nodes cl" and "cl_db cl = d" and "list_all quiet ls"
    and "current_node d i cl \<or> Reload i \<in> set ls \<and> ticking_node i cl"
  shows "current_node d i (cluster_run api get put ls cl) \<and> cl_db (cluster_run api get put ls cl) = d"
  using assms(2-)
proof (induction ls arbitrary: cl)
  case (Cons l ls)
  have s: "sound_nodes (step l cl)" using Cons.prems(1) by (rule step_sound)
  have "cl_db (step l cl) = d \<and> ticking_node i (step l cl) = ticking_node i cl \<and>
      (current_node d i cl \<or> l = Reload i \<and> ticking_node i cl \<longrightarrow> current_node d i (step l cl))"
  proof (cases l)
    case (Call j op)
    then show ?thesis
      using on_node_keeps [OF check_keeps [of j op d] Cons.prems(2)] Cons.prems(3) by simp
  next
    case (Reload j)
    then show ?thesis using reload_step [OF assms(1) Cons.prems(1,2)] by blast
  qed (use Cons.prems(3) in simp_all)
  then show ?case
    using Cons.IH [OF s] Cons.prems(3,4) by (auto simp: cluster_run_def)
qed (simp add: cluster_run_def)

text \<open>Whatever happened before, an instance that has reloaded once decides as the database.\<close>

lemma converges:
  assumes "sound_nodes cl" and "cl1 = cluster_run api get put ls cl" and "up (cl_db cl1)" and "list_all quiet ls'"
    and "Reload i \<in> set ls'" and "ticking_node i cl1"
  shows "fst (Enforce api s ob ac (nd_adapter (cl_nodes (cluster_run api get put ls' cl1) ! i))) = decide (cl_db cl1) s ob ac"
  using quiet_run [OF assms(3) run_sound [OF assms(1), of ls, folded assms(2)] refl assms(4), of i] assms(5,6)
  by (simp add: current_node_def current_decides)

end

section \<open>The policy table\<close>

text \<open>
  The enforcer of the default model over the table of \<^verbatim>\<open>src/migrations/000003_casbin_rules.up.sql\<close>: six columns with
  the empty string as default and a unique index over all of them, which rejects the insertion of a row that is
  there.
\<close>

definition table_row :: "string list \<Rightarrow> string list" where
  "table_row rule = take 6 (rule @ replicate 6 '''')"

definition duplicate_error :: go_error where
  "duplicate_error = ErrText ''duplicate key value violates unique constraint idx_casbin_rules_unique''"

definition table_add_p :: "rbac \<Rightarrow> string list \<Rightarrow> (bool \<times> go_error option) \<times> rbac" where
  "table_add_p e rule =
     (if rule \<notin> set (p_rules e) \<and> db_up e \<and> table_row rule \<in> table_row ` set (db_p e)
      then ((False, Some duplicate_error), e) else rbac_add_p e rule)"

definition table_add_g :: "rbac \<Rightarrow> string list \<Rightarrow> (bool \<times> go_error option) \<times> rbac" where
  "table_add_g e rule =
     (if rule \<notin> set (g_rules e) \<and> db_up e \<and> table_row rule \<in> table_row ` set (db_g e)
      then ((False, Some duplicate_error), e) else rbac_add_g e rule)"

definition table_api :: "rbac enforcer_api" where
  "table_api = rbac_api\<lparr>e_AddPolicy := table_add_p, e_AddGroupingPolicy := table_add_g\<rparr>"

record policy_table =
  pt_p :: "string list list"
  pt_g :: "string list list"
  pt_up :: bool

definition get_table :: "rbac \<Rightarrow> policy_table" where
  "get_table e = \<lparr>pt_p = db_p e, pt_g = db_g e, pt_up = db_up e\<rparr>"

definition put_table :: "policy_table \<Rightarrow> rbac \<Rightarrow> rbac" where
  "put_table d e = e\<lparr>db_p := pt_p d, db_g := pt_g d, db_up := pt_up d\<rparr>"

text \<open>The decision that the rows of the table give.\<close>

definition table_decides :: "policy_table \<Rightarrow> string \<Rightarrow> string \<Rightarrow> string \<Rightarrow> bool \<times> go_error option" where
  "table_decides d s ob ac = rbac_scan (pt_g d) s ob ac (pt_p d)"

lemmas table_defs = table_api_def rbac_api_def get_table_def put_table_def table_decides_def rbac_enforce_def rbac_load_def

interpretation tbl: shared_policy table_api get_table put_table pt_up table_decides
  by unfold_locales (auto simp: table_defs fun_eq_iff)

section \<open>Properties\<close>

definition fresh_nodes :: "('e, 'w) casbin_node list \<Rightarrow> bool" where
  "fresh_nodes ns \<longleftrightarrow> (\<forall>n \<in> set ns. \<exists>k \<ge> 0. cache (nd_adapter n) = Some (newDecisionCache k))"

lemma fresh_sound: "fresh_nodes (cl_nodes cl) \<Longrightarrow> tbl.sound_nodes cl"
  using cache_inv_new
  by (fastforce simp: fresh_nodes_def tbl.sound_nodes_def dc.coherent_def cache_ok_def)


definition example_node :: "(rbac, bool) casbin_node" where
  "example_node = snd (adapter_Start noop_watcher (\<lambda>e. (None, e)) \<lparr>nd_adapter = with_cache example_rbac, nd_watcher = None,
     nd_ticker = NotStarted, nd_cancelled = False, nd_closed = False, nd_closeErr = None\<rparr>)"

definition example_cluster :: "(rbac, bool, policy_table) cluster" where
  "example_cluster = \<lparr>cl_db = get_table example_rbac, cl_nodes = [example_node, example_node]\<rparr>"

text \<open>The first instance grants a permission; the second has cached the refusal and gets the message of a watcher.\<close>

definition grant_and_tell :: "policy_table label list" where
  "grant_and_tell =
     [Call 1 (OEnforce ''u-1'' ''files'' ''upload''),
      Call 0 (OAddPermissionForRole ''viewer'' ''files'' ''upload''),
      Call 1 (OMessage (encodeOp ''add_policy'' ''p'' ''p'' (Some [''viewer'', ''files'', ''upload''])))]"


text \<open>
  The message alone does not help. The callback adds the rule through the enforcer, whose insertion into the
  table hits the unique index, because the row of the first instance is there; the rule is not added in memory, and
  the second instance refuses the request until its next reload.
\<close>

lemma added_rule_waits_for_reload:
  "fst (Enforce table_api ''u-1'' ''files'' ''upload'' (nd_adapter (cl_nodes
     (cluster_run table_api get_table put_table grant_and_tell example_cluster) ! 1))) = (False, None)"
  by code_simp

end
