(* ===== verification/Health.thy ===== *)
theory Health
  imports Config Http Cache_Port Queue Authorizer Go_Time "HOL-Library.Multiset"
begin

text \<open>
  The health endpoints: \<^verbatim>\<open>src/internal/module/health/checker.go\<close>, \<^verbatim>\<open>handler.go\<close> and \<^verbatim>\<open>module.go\<close>. The readiness probe runs its
  checkers in goroutines of their own; the order in which they take effect is an argument of the model, and so is
  the state of the shared context at each of them. The ping of the connection pool is a parameter. The locale
  \<open>independent_checkers\<close> shows that the order does not matter when the checkers touch different dependencies.
\<close>

section \<open>Checkers\<close>

text \<open>A check may change the state of what it probes, as the decision cache and the AMQP client do.\<close>

record 'w HealthChecker =
  hc_Name :: string
  hc_Check :: "go_time \<Rightarrow> go_error option \<Rightarrow> 'w \<Rightarrow> go_error option \<times> 'w"

record ('p, 'c, 'q, 'z) deps =
  dp_pool :: 'p
  dp_cache :: 'c
  dp_queue :: 'q
  dp_authz :: 'z

definition postgresChecker :: "(go_error option \<Rightarrow> 'p \<Rightarrow> go_error option) \<Rightarrow> ('p, 'c, 'q, 'z) deps HealthChecker" where
  "postgresChecker ping = \<lparr>hc_Name = ''database'',
     hc_Check = (\<lambda>now ctx w. case ping ctx (dp_pool w) of
        Some _ \<Rightarrow> (Some (ErrText ''ping failed''), w)
      | None \<Rightarrow> (None, w))\<rparr>"

text \<open>The flag \<open>noop\<close> is the outcome of the type assertion on the adapter.\<close>

definition cacheChecker :: "bool \<Rightarrow> 'c cache_port \<Rightarrow> ('p, 'c, 'q, 'z) deps HealthChecker" where
  "cacheChecker noop port = \<lparr>hc_Name = (if noop then ''cache(noop)'' else ''cache''),
     hc_Check = (\<lambda>now ctx w.
       if noop then (None, w)
       else case ca_Exists port now ''__healthz_probe__'' (dp_cache w) of
         Inl _ \<Rightarrow> (Some (ErrText ''ping failed''), w)
       | Inr _ \<Rightarrow> (None, w))\<rparr>"

definition queueChecker :: "bool \<Rightarrow> 'q queue \<Rightarrow> ('p, 'c, 'q, 'z) deps HealthChecker" where
  "queueChecker noop port = \<lparr>hc_Name = (if noop then ''queue(noop)'' else ''queue''),
     hc_Check = (\<lambda>now ctx w.
       if noop then (None, w)
       else case q_Ping port ctx (dp_queue w) of
         (Some _, q) \<Rightarrow> (Some (ErrText ''connection unavailable''), w\<lparr>dp_queue := q\<rparr>)
       | (None, q) \<Rightarrow> (None, w\<lparr>dp_queue := q\<rparr>))\<rparr>"

definition authzChecker :: "bool \<Rightarrow> 'z authorizer \<Rightarrow> ('p, 'c, 'q, 'z) deps HealthChecker" where
  "authzChecker noop port = \<lparr>hc_Name = (if noop then ''authz(noop)'' else ''authz''),
     hc_Check = (\<lambda>now ctx w.
       if noop then (None, w)
       else case az_EnforceWithContext port ctx ''__healthz__'' ''__probe__'' ''__ping__'' (dp_authz w) of
         ((_, Some _), z) \<Rightarrow> (Some (ErrText ''enforce failed''), w\<lparr>dp_authz := z\<rparr>)
       | ((_, None), z) \<Rightarrow> (None, w\<lparr>dp_authz := z\<rparr>))\<rparr>"

section \<open>Handlers\<close>

record 'w health_handler =
  hh_checkers :: "'w HealthChecker list"
  hh_readinessTimeout :: int

definition NewHandler :: "int \<Rightarrow> 'w HealthChecker list \<Rightarrow> 'w health_handler" where
  "NewHandler readinessTimeout checkers =
     \<lparr>hh_checkers = checkers, hh_readinessTimeout = (if readinessTimeout \<le> 0 then 2 * second else readinessTimeout)\<rparr>"

definition health_json :: "string \<Rightarrow> string \<Rightarrow> (string \<times> string) list \<Rightarrow> json" where
  "health_json status timestamp checks =
     JObj ([(''status'', JStr status), (''timestamp'', JStr timestamp)] @
           (if checks = [] then [] else [(''checks'', json_map (map (\<lambda>(k, v). (k, JStr v)) checks))]))"

definition LivenessCheck :: "go_time \<Rightarrow> 'w handler" where
  "LivenessCheck now w c = with_state w (send_json 200 (health_json ''alive'' (rfc3339 now) []) c)"

text \<open>
  The goroutine of the checker with index \<open>i\<close> stores its result in slot \<open>i\<close>: the name and the reason, which is
  empty when the check passed.
\<close>

definition run_checker ::
  "'w HealthChecker list \<Rightarrow> go_time \<Rightarrow> (nat \<Rightarrow> go_error option) \<Rightarrow> nat \<Rightarrow> (string \<times> string) list \<times> 'w \<Rightarrow> (string \<times> string) list \<times> 'w" where
  "run_checker checkers now ctx i rw =
     (case hc_Check (checkers ! i) now (ctx i) (snd rw) of (err, w) \<Rightarrow>
        ((fst rw)[i := (hc_Name (checkers ! i), case err of None \<Rightarrow> '''' | Some e \<Rightarrow> error_text e)], w))"

definition run_checkers ::
  "'w HealthChecker list \<Rightarrow> go_time \<Rightarrow> (nat \<Rightarrow> go_error option) \<Rightarrow> nat list \<Rightarrow> 'w \<Rightarrow> (string \<times> string) list \<times> 'w" where
  "run_checkers checkers now ctx sched w =
     fold (run_checker checkers now ctx) sched (replicate (length checkers) ('''', ''''), w)"

definition checks_map :: "(string \<times> string) list \<Rightarrow> (string \<times> string) list" where
  "checks_map results = fold (\<lambda>(name, reason) m. AList.update name (if reason = '''' then ''ok'' else reason) m) results []"

definition ReadinessCheck :: "'w health_handler \<Rightarrow> go_time \<Rightarrow> (nat \<Rightarrow> go_error option) \<Rightarrow> nat list \<Rightarrow> 'w handler" where
  "ReadinessCheck h now ctx sched w c =
     (case run_checkers (hh_checkers h) now ctx sched w of (results, w') \<Rightarrow>
        let healthy = list_all (\<lambda>(name, reason). reason = '''') results;
            status = (if healthy then ''ready'' else ''degraded'');
            httpStatus = (if healthy then 200 else 503)
        in with_state w' (send_json httpStatus (health_json status (rfc3339 now) (checks_map results)) c))"

datatype health_route = GetLive | GetReady | GetHealth

primrec health_path :: "health_route \<Rightarrow> string" where
  "health_path GetLive = ''/healthz/live''"
| "health_path GetReady = ''/healthz/ready''"
| "health_path GetHealth = ''/health''"

definition health_routes ::
  "'w health_handler \<Rightarrow> go_time \<Rightarrow> (nat \<Rightarrow> go_error option) \<Rightarrow> nat list \<Rightarrow> health_route \<Rightarrow> 'w handler" where
  "health_routes h now ctx sched r =
     (case r of GetReady \<Rightarrow> ReadinessCheck h now ctx sched | _ \<Rightarrow> LivenessCheck now)"

text \<open>The four checkers that the application wires.\<close>

definition wired_checkers ::
  "(go_error option \<Rightarrow> 'p \<Rightarrow> go_error option) \<Rightarrow> bool \<Rightarrow> 'c cache_port \<Rightarrow> bool \<Rightarrow> 'q queue \<Rightarrow> bool \<Rightarrow> 'z authorizer \<Rightarrow>
   ('p, 'c, 'q, 'z) deps HealthChecker list" where
  "wired_checkers ping cn cp qn qp an ap = [postgresChecker ping, cacheChecker cn cp, queueChecker qn qp, authzChecker an ap]"

section \<open>The order of the goroutines\<close>

text \<open>What the parallel probe relies on: a check neither changes the outcome nor the effect of another one.\<close>

locale independent_checkers =
  fixes checkers :: "'w HealthChecker list"
  assumes same_outcome: "i < length checkers \<Longrightarrow> j < length checkers \<Longrightarrow> i \<noteq> j \<Longrightarrow>
      fst (hc_Check (checkers ! i) now ce (snd (hc_Check (checkers ! j) now ce' w))) = fst (hc_Check (checkers ! i) now ce w)"
    and same_effect: "i < length checkers \<Longrightarrow> j < length checkers \<Longrightarrow> i \<noteq> j \<Longrightarrow>
      snd (hc_Check (checkers ! i) now ce (snd (hc_Check (checkers ! j) now ce' w)))
      = snd (hc_Check (checkers ! j) now ce' (snd (hc_Check (checkers ! i) now ce w)))"
begin

lemma run_checker_commute:
  assumes "i < length checkers" and "j < length checkers"
  shows "run_checker checkers now ctx i \<circ> run_checker checkers now ctx j
    = run_checker checkers now ctx j \<circ> run_checker checkers now ctx i"
proof (cases "i = j")
  case False
  with assms same_outcome [of i j now "ctx i" "ctx j"] same_outcome [of j i now "ctx j" "ctx i"]
    same_effect [of i j now "ctx i" "ctx j"]
  show ?thesis by (auto simp: fun_eq_iff run_checker_def case_prod_unfold list_update_swap)
qed simp

lemma any_order:
  assumes "mset sched = mset [0..<length checkers]"
  shows "run_checkers checkers now ctx sched w = run_checkers checkers now ctx [0..<length checkers] w"
proof -
  have "x < length checkers" if "x \<in> set sched" for x
    using mset_eq_setD [OF assms] that by auto
  with fold_multiset_equiv [OF _ assms, of "run_checker checkers now ctx"] run_checker_commute
  show ?thesis unfolding run_checkers_def by metis
qed

end

text \<open>The outcome and the effect of each checker.\<close>

lemma checker_outcomes:
  "fst (hc_Check (postgresChecker ping) now ce w) = map_option (\<lambda>_. ErrText ''ping failed'') (ping ce (dp_pool w))"
  "fst (hc_Check (cacheChecker noop cp) now ce w) = (if noop then None else
     case ca_Exists cp now ''__healthz_probe__'' (dp_cache w) of Inl _ \<Rightarrow> Some (ErrText ''ping failed'') | Inr _ \<Rightarrow> None)"
  "fst (hc_Check (queueChecker noop qp) now ce w) =
     (if noop then None else map_option (\<lambda>_. ErrText ''connection unavailable'') (fst (q_Ping qp ce (dp_queue w))))"
  "fst (hc_Check (authzChecker noop ap) now ce w) = (if noop then None else map_option (\<lambda>_. ErrText ''enforce failed'')
     (snd (fst (az_EnforceWithContext ap ce ''__healthz__'' ''__probe__'' ''__ping__'' (dp_authz w)))))"
  by (simp_all add: postgresChecker_def cacheChecker_def queueChecker_def authzChecker_def split: option.split sum.split prod.split)

lemma checker_names [simp]:
  "hc_Name (postgresChecker ping) = ''database''"
  "hc_Name (cacheChecker cn cp) = (if cn then ''cache(noop)'' else ''cache'')"
  "hc_Name (queueChecker qn qp) = (if qn then ''queue(noop)'' else ''queue'')"
  "hc_Name (authzChecker an ap) = (if an then ''authz(noop)'' else ''authz'')"
  by (simp_all add: postgresChecker_def cacheChecker_def queueChecker_def authzChecker_def)

lemma checker_effects:
  "snd (hc_Check (postgresChecker ping) now ce w) = w"
  "snd (hc_Check (cacheChecker noop cp) now ce w) = w"
  "snd (hc_Check (queueChecker noop qp) now ce w) = (if noop then w else w\<lparr>dp_queue := snd (q_Ping qp ce (dp_queue w))\<rparr>)"
  "snd (hc_Check (authzChecker noop ap) now ce w) = (if noop then w else
     w\<lparr>dp_authz := snd (az_EnforceWithContext ap ce ''__healthz__'' ''__probe__'' ''__ping__'' (dp_authz w))\<rparr>)"
  by (simp_all add: postgresChecker_def cacheChecker_def queueChecker_def authzChecker_def split: option.split sum.split prod.split)

interpretation wired: independent_checkers "wired_checkers ping cn cp qn qp an ap" for ping cn cp qn qp an ap
proof
  have i: "i = 0 \<or> i = 1 \<or> i = 2 \<or> i = 3" if "i < length (wired_checkers ping cn cp qn qp an ap)" for i
    using that by (auto simp: wired_checkers_def)
  show "fst (hc_Check (wired_checkers ping cn cp qn qp an ap ! i) now ce (snd (hc_Check (wired_checkers ping cn cp qn qp an ap ! j) now ce' w)))
      = fst (hc_Check (wired_checkers ping cn cp qn qp an ap ! i) now ce w)"
    if "i < length (wired_checkers ping cn cp qn qp an ap)" "j < length (wired_checkers ping cn cp qn qp an ap)" "i \<noteq> j"
    for i j now ce ce' and w :: "('a, 'b, 'c, 'd) deps"
    using i [OF that(1)] i [OF that(2)] that(3)
    by (elim disjE) (simp_all add: wired_checkers_def checker_outcomes checker_effects)
  show "snd (hc_Check (wired_checkers ping cn cp qn qp an ap ! i) now ce (snd (hc_Check (wired_checkers ping cn cp qn qp an ap ! j) now ce' w)))
      = snd (hc_Check (wired_checkers ping cn cp qn qp an ap ! j) now ce' (snd (hc_Check (wired_checkers ping cn cp qn qp an ap ! i) now ce w)))"
    if "i < length (wired_checkers ping cn cp qn qp an ap)" "j < length (wired_checkers ping cn cp qn qp an ap)" "i \<noteq> j"
    for i j now ce ce' and w :: "('a, 'b, 'c, 'd) deps"
    using i [OF that(1)] i [OF that(2)] that(3)
    by (elim disjE) (simp_all add: wired_checkers_def checker_outcomes checker_effects)
qed

section \<open>Properties\<close>

text \<open>The dependencies that answer a probe, each with the state of the context that its goroutine sees.\<close>

definition answers ::
  "(go_error option \<Rightarrow> 'p \<Rightarrow> go_error option) \<Rightarrow> bool \<Rightarrow> 'c cache_port \<Rightarrow> bool \<Rightarrow> 'q queue \<Rightarrow> bool \<Rightarrow> 'z authorizer \<Rightarrow>
   go_time \<Rightarrow> (nat \<Rightarrow> go_error option) \<Rightarrow> ('p, 'c, 'q, 'z) deps \<Rightarrow> bool list" where
  "answers ping cn cp qn qp an ap now ctx w =
     [ping (ctx 0) (dp_pool w) = None,
      cn \<or> \<not> isl (ca_Exists cp now ''__healthz_probe__'' (dp_cache w)),
      qn \<or> fst (q_Ping qp (ctx 2) (dp_queue w)) = None,
      an \<or> snd (fst (az_EnforceWithContext ap (ctx 3) ''__healthz__'' ''__probe__'' ''__ping__'' (dp_authz w))) = None]"

definition check_names :: "bool \<Rightarrow> bool \<Rightarrow> bool \<Rightarrow> string list" where
  "check_names cn qn an =
     [''database'', if cn then ''cache(noop)'' else ''cache'', if qn then ''queue(noop)'' else ''queue'',
      if an then ''authz(noop)'' else ''authz'']"

definition check_reasons :: "string list" where
  "check_reasons = [''ping failed'', ''ping failed'', ''connection unavailable'', ''enforce failed'']"

lemma update_new: "k \<notin> fst ` set m \<Longrightarrow> AList.update k v m = m @ [(k, v)]"
  by (induction m) auto

lemma checks_map_distinct:
  assumes "distinct (map fst results)"
  shows "checks_map results = map (\<lambda>(n, r). (n, if r = '''' then ''ok'' else r)) results"
proof -
  have "fold (\<lambda>(name, reason) m. AList.update name (if reason = '''' then ''ok'' else reason) m) results m
      = m @ map (\<lambda>(n, r). (n, if r = '''' then ''ok'' else r)) results"
    if "fst ` set m \<inter> fst ` set results = {}" for m
    using assms that by (induction results arbitrary: m) (auto simp: update_new image_iff)
  from this [of "[]"] show ?thesis by (simp add: checks_map_def)
qed

lemma check_names_distinct: "distinct (check_names cn qn an) \<and> length (check_names cn qn an) = 4"
  by (simp add: check_names_def)

text \<open>
  C38. The readiness probe is exact and does not depend on the order of its goroutines. For every order in which the
  four checkers take effect and whatever state of the deadline each of them sees, the answer is 200 and the status
  is \<^verbatim>\<open>ready\<close> exactly when the database, the cache, the queue and the authorizer answer (a no-op adapter always
  does), and 503 and \<^verbatim>\<open>degraded\<close> otherwise. The body gives for each check \<^verbatim>\<open>ok\<close> or a fixed reason and nothing of the
  error of the dependency.
\<close>

theorem readiness_exact:
  assumes "mset sched = mset [0..<4]"
  shows "let ok = answers ping cn cp qn qp an ap now ctx w;
             h = NewHandler timeout (wired_checkers ping cn cp qn qp an ap);
             c' = snd (snd (ReadinessCheck h now ctx sched w c))
         in res_status c' = (if list_all id ok then 200 else 503) \<and>
            res_body c' = Some (health_json (if list_all id ok then ''ready'' else ''degraded'') (rfc3339 now)
              (zip (check_names cn qn an) (map2 (\<lambda>b reason. if b then ''ok'' else reason) ok check_reasons)))"
proof -
  have r: "run_checkers (wired_checkers ping cn cp qn qp an ap) now ctx sched w
      = run_checkers (wired_checkers ping cn cp qn qp an ap) now ctx [0, 1, 2, 3] w"
    using wired.any_order [of sched ping cn cp qn qp an ap now ctx w] assms
    by (simp add: wired_checkers_def upt_rec numeral_eq_Suc)
  have res: "fst (run_checkers (wired_checkers ping cn cp qn qp an ap) now ctx [0, 1, 2, 3] w)
      = zip (check_names cn qn an) (map2 (\<lambda>b reason. if b then '''' else reason) (answers ping cn cp qn qp an ap now ctx w) check_reasons)"
    by (simp add: run_checkers_def run_checker_def wired_checkers_def case_prod_unfold checker_outcomes checker_effects
        answers_def check_reasons_def check_names_def split: option.split sum.split)
  obtain w' where run: "run_checkers (wired_checkers ping cn cp qn qp an ap) now ctx sched w
      = (zip (check_names cn qn an) (map2 (\<lambda>b reason. if b then '''' else reason) (answers ping cn cp qn qp an ap now ctx w) check_reasons), w')"
    using r res by (metis prod.collapse)
  obtain b0 b1 b2 b3 where b: "answers ping cn cp qn qp an ap now ctx w = [b0, b1, b2, b3]"
    by (simp add: answers_def)
  obtain n0 n1 n2 n3 where n: "check_names cn qn an = [n0, n1, n2, n3]" "distinct [n0, n1, n2, n3]"
    using check_names_distinct [of cn qn an] by (auto simp: length_Suc_conv numeral_eq_Suc)
  obtain q0 q1 q2 q3 where q: "check_reasons = [q0, q1, q2, q3]" "q0 \<noteq> ''''" "q1 \<noteq> ''''" "q2 \<noteq> ''''" "q3 \<noteq> ''''"
    by (simp add: check_reasons_def)
  show ?thesis
    unfolding ReadinessCheck_def NewHandler_def using run n(2) q(2-)
    by (simp add: b n(1) q(1) with_state_def send_json_def checks_map_distinct)
qed

definition example_deps :: "(bool, unit, unit, rbac adapter) deps" where
  "example_deps = \<lparr>dp_pool = False, dp_cache = (), dp_queue = (), dp_authz = with_cache example_rbac\<rparr>"

definition example_ping :: "go_error option \<Rightarrow> bool \<Rightarrow> go_error option" where
  "example_ping ctx up = (case ctx of Some e \<Rightarrow> Some e | None \<Rightarrow> if up then None else Some (ErrText ''dial tcp 10.0.0.5:5432: refused''))"

lemma readiness_exact_witness:
  "res_status (snd (snd (ReadinessCheck (NewHandler 0 (wired_checkers example_ping True NoOpCache False NoOpQueue False (casbin_authorizer rbac_api)))
     0 (\<lambda>_. None) [2, 0, 3, 1] example_deps example_ctx))) = 503 \<and>
   res_status (snd (snd (ReadinessCheck (NewHandler 0 (wired_checkers example_ping True NoOpCache False NoOpQueue False (casbin_authorizer rbac_api)))
     0 (\<lambda>_. None) [3, 1, 2, 0] (example_deps\<lparr>dp_pool := True\<rparr>) example_ctx))) = 200"
proof -
  have m: "mset [2, 0, 3, 1] = mset [0..<4]" "mset [3, 1, 2, 0] = mset [0..<4]" by code_simp+
  have a: "answers example_ping True NoOpCache False NoOpQueue False (casbin_authorizer rbac_api) 0 (\<lambda>_. None) example_deps = [False, True, True, True]"
    "answers example_ping True NoOpCache False NoOpQueue False (casbin_authorizer rbac_api) 0 (\<lambda>_. None) (example_deps\<lparr>dp_pool := True\<rparr>) = [True, True, True, True]"
    by code_simp+
  show ?thesis
    using readiness_exact [OF m(1), of example_ping True NoOpCache False NoOpQueue False "casbin_authorizer rbac_api" 0 "\<lambda>_. None" example_deps 0 example_ctx]
      readiness_exact [OF m(2), of example_ping True NoOpCache False NoOpQueue False "casbin_authorizer rbac_api" 0 "\<lambda>_. None" "example_deps\<lparr>dp_pool := True\<rparr>" 0 example_ctx]
      a by (simp add: Let_def)
qed

text \<open>
  The probe of the authorizer does not reach the database. Over the enforcer of the default model, which decides in
  memory, its outcome is the same whether the database answers or not.
\<close>

lemma authz_probe_ignores_database:
  "fst (hc_Check (authzChecker False (casbin_authorizer rbac_api)) now ce (w\<lparr>dp_authz := a\<lparr>enforcer := e\<lparr>db_up := False\<rparr>\<rparr>\<rparr>))
   = fst (hc_Check (authzChecker False (casbin_authorizer rbac_api)) now ce (w\<lparr>dp_authz := a\<lparr>enforcer := e\<lparr>db_up := True\<rparr>\<rparr>\<rparr>))"
  by (simp add: checker_outcomes casbin_authorizer_def EnforceWithContext_def rbac_api_def rbac_enforce_def split: option.split prod.split)

end
