(* ===== verification/Optional.thy ===== *)
theory Optional
  imports Config
begin

text \<open>
  The optional values of \<^verbatim>\<open>src/pkg/types/optional.go\<close> and the query decoders of \<^verbatim>\<open>fiber_decoder.go\<close>. Both types are
  generic: the record \<open>codec\<close> stands for the element type, with its zero value and its JSON coding, and has the
  three instances that the decoders use. The locale \<open>json_codec\<close> has the laws that the round trips need.
\<close>

section \<open>Element types\<close>

text \<open>\<^verbatim>\<open>json.Unmarshal\<close> into a zero value; \<^verbatim>\<open>null\<close> leaves it.\<close>

record 'a codec =
  co_zero :: 'a
  co_dec :: "json \<Rightarrow> 'a option"
  co_enc :: "'a \<Rightarrow> json"

definition string_codec :: "string codec" where
  "string_codec = \<lparr>co_zero = '''', co_dec = (\<lambda>v. assign_string v (Some '''')), co_enc = JStr\<rparr>"

definition int_codec :: "int codec" where
  "int_codec = \<lparr>co_zero = 0, co_dec = (\<lambda>v. assign_int v (Some 0)), co_enc = (\<lambda>i. JNum (itoa i))\<rparr>"

definition bool_codec :: "bool codec" where
  "bool_codec = \<lparr>co_zero = False, co_dec = (\<lambda>v. assign_bool v (Some False)), co_enc = JBool\<rparr>"

definition json_Unmarshal :: "'a codec \<Rightarrow> string \<Rightarrow> 'a option" where
  "json_Unmarshal co b = Option.bind (parse_json b) (co_dec co)"

definition decode_error :: go_error where "decode_error = ErrText ''cannot unmarshal''"

section \<open>Opt\<close>

record 'a Opt =
  opt_Set :: bool
  opt_Val :: 'a

definition Opt_UnmarshalJSON :: "'a codec \<Rightarrow> string \<Rightarrow> 'a Opt \<Rightarrow> go_error option \<times> 'a Opt" where
  "Opt_UnmarshalJSON co b o' =
     (case json_Unmarshal co b of
        None \<Rightarrow> (Some decode_error, o')
      | Some v \<Rightarrow> (None, o'\<lparr>opt_Set := True, opt_Val := v\<rparr>))"

definition Opt_MarshalJSON :: "'a codec \<Rightarrow> 'a Opt \<Rightarrow> string" where
  "Opt_MarshalJSON co o' = (if \<not> opt_Set o' then ''null'' else print_json (co_enc co (opt_Val o')))"

definition OSome :: "'a \<Rightarrow> 'a Opt" where "OSome val = \<lparr>opt_Set = True, opt_Val = val\<rparr>"
definition ONone :: "'a codec \<Rightarrow> 'a Opt" where "ONone co = \<lparr>opt_Set = False, opt_Val = co_zero co\<rparr>"
definition Opt_Get :: "'a Opt \<Rightarrow> 'a \<times> bool" where "Opt_Get o' = (opt_Val o', opt_Set o')"
definition Opt_GetOr :: "'a Opt \<Rightarrow> 'a \<Rightarrow> 'a" where "Opt_GetOr o' def = (if opt_Set o' then opt_Val o' else def)"

section \<open>NOpt\<close>

record 'a NOpt =
  no_Present :: bool
  no_Valid :: bool
  no_Val :: 'a

definition NOpt_UnmarshalJSON :: "'a codec \<Rightarrow> string \<Rightarrow> 'a NOpt \<Rightarrow> go_error option \<times> 'a NOpt" where
  "NOpt_UnmarshalJSON co b o0 =
     (let o' = o0\<lparr>no_Present := True\<rparr> in
      if b = ''null'' then (None, o'\<lparr>no_Valid := False, no_Val := co_zero co\<rparr>)
      else (case json_Unmarshal co b of
              None \<Rightarrow> (Some decode_error, o')
            | Some v \<Rightarrow> (None, o'\<lparr>no_Valid := True, no_Val := v\<rparr>)))"

definition NOpt_MarshalJSON :: "'a codec \<Rightarrow> 'a NOpt \<Rightarrow> string" where
  "NOpt_MarshalJSON co o' =
     (if \<not> no_Present o' \<or> \<not> no_Valid o' then ''null'' else print_json (co_enc co (no_Val o')))"

definition Null :: "'a codec \<Rightarrow> 'a NOpt" where "Null co = \<lparr>no_Present = True, no_Valid = False, no_Val = co_zero co\<rparr>"
definition NSome :: "'a \<Rightarrow> 'a NOpt" where "NSome v = \<lparr>no_Present = True, no_Valid = True, no_Val = v\<rparr>"
definition NNone :: "'a codec \<Rightarrow> 'a NOpt" where "NNone co = \<lparr>no_Present = False, no_Valid = False, no_Val = co_zero co\<rparr>"
definition NOpt_Get :: "'a NOpt \<Rightarrow> 'a \<times> bool" where "NOpt_Get o' = (no_Val o', no_Present o' \<and> no_Valid o')"
definition NOpt_GetOr :: "'a NOpt \<Rightarrow> 'a \<Rightarrow> 'a" where
  "NOpt_GetOr o' def = (if no_Present o' \<and> no_Valid o' then no_Val o' else def)"

section \<open>Query decoders\<close>

definition parse_flag :: "string \<Rightarrow> bool option" where
  "parse_flag v =
     (if v \<in> set [''true'', ''1'', ''yes'', ''on''] then Some True
      else if v \<in> set [''false'', ''0'', ''no'', ''off''] then Some False else None)"

definition optStringConverter :: "string \<Rightarrow> string Opt" where
  "optStringConverter v = (if v = '''' then ONone string_codec else OSome v)"

definition optIntConverter :: "string \<Rightarrow> int Opt" where
  "optIntConverter v =
     (if v = '''' then ONone int_codec
      else case atoi v of None \<Rightarrow> ONone int_codec | Some i \<Rightarrow> OSome i)"

definition optBoolConverter :: "string \<Rightarrow> bool Opt" where
  "optBoolConverter v =
     (if v = '''' then ONone bool_codec
      else case parse_flag v of None \<Rightarrow> ONone bool_codec | Some b \<Rightarrow> OSome b)"

definition noptStringConverter :: "string \<Rightarrow> string NOpt" where
  "noptStringConverter v =
     (if v = '''' then NNone string_codec else if v = ''null'' then Null string_codec else NSome v)"

definition noptIntConverter :: "string \<Rightarrow> int NOpt" where
  "noptIntConverter v =
     (if v = '''' then NNone int_codec else if v = ''null'' then Null int_codec
      else case atoi v of None \<Rightarrow> NNone int_codec | Some i \<Rightarrow> NSome i)"

definition noptBoolConverter :: "string \<Rightarrow> bool NOpt" where
  "noptBoolConverter v =
     (if v = '''' then NNone bool_codec else if v = ''null'' then Null bool_codec
      else case parse_flag v of None \<Rightarrow> NNone bool_codec | Some b \<Rightarrow> NSome b)"

section \<open>Round trips\<close>

text \<open>An element type whose values are coded as JSON other than \<^verbatim>\<open>null\<close> and decoded again.\<close>

locale json_codec =
  fixes co :: "'a codec" and ok :: "'a \<Rightarrow> bool"
  assumes codec_wf: "ok v \<Longrightarrow> wf_json (co_enc co v)"
    and codec_back: "ok v \<Longrightarrow> co_dec co (co_enc co v) = Some v"
    and codec_value: "co_enc co v \<noteq> JNull"
    and codec_null: "co_dec co JNull = Some (co_zero co)"
begin

lemma unmarshal_value: "ok v \<Longrightarrow> json_Unmarshal co (print_json (co_enc co v)) = Some v"
  by (simp add: json_Unmarshal_def parse_json_print_json [OF codec_wf] codec_back)

lemma null_text: "parse_json ''null'' = Some JNull"
  using parse_json_print_json [of JNull] by simp

lemma value_text: "ok v \<Longrightarrow> print_json (co_enc co v) \<noteq> ''null''"
  using parse_json_print_json [OF codec_wf, of v] null_text codec_value [of v] by auto

lemma opt_roundtrip: "ok v \<Longrightarrow> Opt_UnmarshalJSON co (Opt_MarshalJSON co (OSome v)) (ONone co) = (None, OSome v)"
  by (simp add: Opt_UnmarshalJSON_def Opt_MarshalJSON_def OSome_def ONone_def unmarshal_value)

lemma nopt_roundtrip:
  "ok v \<Longrightarrow> NOpt_UnmarshalJSON co (NOpt_MarshalJSON co (NSome v)) o' = (None, NSome v)"
  "NOpt_UnmarshalJSON co (NOpt_MarshalJSON co (Null co)) o' = (None, Null co)"
  by (simp_all add: NOpt_UnmarshalJSON_def NOpt_MarshalJSON_def NSome_def Null_def unmarshal_value value_text Let_def)

text \<open>
  Absence does not survive the coding: an unset \<^verbatim>\<open>Opt\<close> comes back as the zero value that was set, and an absent
  \<^verbatim>\<open>NOpt\<close> as an explicit null.
\<close>

lemma unset_comes_back_set:
  "Opt_UnmarshalJSON co (Opt_MarshalJSON co (ONone co)) (ONone co) = (None, OSome (co_zero co))"
  "NOpt_UnmarshalJSON co (NOpt_MarshalJSON co (NNone co)) (NNone co) = (None, Null co)"
  by (simp_all add: Opt_UnmarshalJSON_def Opt_MarshalJSON_def ONone_def OSome_def json_Unmarshal_def null_text codec_null
      NOpt_UnmarshalJSON_def NOpt_MarshalJSON_def NNone_def Null_def Let_def)

end

interpretation str_opt: json_codec string_codec valid_utf8
  by unfold_locales (auto simp: string_codec_def assign_string_def)

interpretation bool_opt: json_codec bool_codec "\<lambda>_. True"
  by unfold_locales (auto simp: bool_codec_def assign_bool_def)

interpretation int_opt: json_codec int_codec "\<lambda>i. - (2 ^ 63) \<le> i \<and> i < 2 ^ 63"
  by unfold_locales (auto simp: int_codec_def assign_int_def atoi_itoa scan_num_itoa)

text \<open>A number of a query comes back as the number, and text that is no number as if it were absent.\<close>

lemma opt_int_query:
  "- (2 ^ 63) \<le> i \<Longrightarrow> i < 2 ^ 63 \<Longrightarrow> optIntConverter (itoa i) = OSome i"
  "atoi v = None \<Longrightarrow> optIntConverter v = ONone int_codec"
  by (simp_all add: optIntConverter_def atoi_itoa, simp add: itoa_def split: if_splits)

end
