(* ===== verification/Observe.thy ===== *)
theory Observe
  imports Http Go_Time
begin

text \<open>
  What the service records about itself: the loggers of \<^verbatim>\<open>src/pkg/logger/logger.go\<close> and
  \<^verbatim>\<open>src/internal/platform/observability/logger.go\<close> over the structured log of the standard library, the request
  logger of \<^verbatim>\<open>src/internal/platform/http/middleware/logger.go\<close>, and the metrics and tracing middleware of
  \<^verbatim>\<open>observability/metrics.go\<close> and \<^verbatim>\<open>tracer.go\<close>. The observations are a component of the state: the log is the list
  of the records that were written, a counter is a map from its labels, a histogram the list of its observations.
  Clock readings and the trace identifier are arguments, and the exporter is a parameter.
\<close>

section \<open>The structured log\<close>

datatype level = LevelDebug | LevelInfo | LevelWarn | LevelError

primrec level_rank :: "level \<Rightarrow> int" where
  "level_rank LevelDebug = -4"
| "level_rank LevelInfo = 0"
| "level_rank LevelWarn = 4"
| "level_rank LevelError = 8"

datatype attr_val = AStr string | AInt int

record log_record =
  lr_level :: level
  lr_msg :: string
  lr_attrs :: "(string \<times> attr_val) list"

record slog_logger =
  sl_level :: level
  sl_json :: bool
  sl_attrs :: "(string \<times> attr_val) list"

definition slog_With :: "(string \<times> attr_val) list \<Rightarrow> slog_logger \<Rightarrow> slog_logger" where
  "slog_With attrs l = l\<lparr>sl_attrs := sl_attrs l @ attrs\<rparr>"

definition slog_Log :: "level \<Rightarrow> string \<Rightarrow> slog_logger \<Rightarrow> log_record list \<Rightarrow> log_record list" where
  "slog_Log lv msg l out =
     (if level_rank (sl_level l) \<le> level_rank lv
      then out @ [\<lparr>lr_level = lv, lr_msg = msg, lr_attrs = sl_attrs l\<rparr>] else out)"

section \<open>Package logger\<close>

definition parse_level :: "string \<Rightarrow> level" where
  "parse_level s =
     (if s = ''debug'' then LevelDebug else if s = ''warn'' then LevelWarn
      else if s = ''error'' then LevelError else LevelInfo)"

definition logger_New :: "string \<Rightarrow> string \<Rightarrow> slog_logger" where
  "logger_New level format = \<lparr>sl_level = parse_level level, sl_json = (format \<noteq> ''text''), sl_attrs = []\<rparr>"

definition logger_Default :: slog_logger where
  "logger_Default = logger_New ''info'' ''json''"

text \<open>\<^verbatim>\<open>string(rune(n))\<close>: the UTF-8 encoding of a code point, and of U+FFFD for a number that is none.\<close>

definition rune_string :: "int \<Rightarrow> string" where
  "rune_string n =
     (if n < 0 \<or> 0x10FFFF < n \<or> (0xD800 \<le> n \<and> n \<le> 0xDFFF) then [CHR 0xEF, CHR 0xBF, CHR 0xBD]
      else if n < 0x80 then [char_of (nat n)]
      else if n < 0x800 then [char_of (nat (0xC0 + n div 64)), char_of (nat (0x80 + n mod 64))]
      else if n < 0x10000 then
        [char_of (nat (0xE0 + n div 4096)), char_of (nat (0x80 + n div 64 mod 64)), char_of (nat (0x80 + n mod 64))]
      else [char_of (nat (0xF0 + n div 262144)), char_of (nat (0x80 + n div 4096 mod 64)),
            char_of (nat (0x80 + n div 64 mod 64)), char_of (nat (0x80 + n mod 64))])"

function logger_itoa :: "int \<Rightarrow> string" where
  "logger_itoa i =
     (if i < 10 then rune_string (48 + i) else logger_itoa (i div 10) @ rune_string (48 + i mod 10))"
  by auto

termination by (relation "measure nat") auto

declare logger_itoa.simps [simp del]

definition logger_source :: "string \<Rightarrow> int \<Rightarrow> string" where
  "logger_source file line = file @ '':'' @ logger_itoa line"

definition ctx_attr :: "(string \<Rightarrow> string option) \<Rightarrow> string \<Rightarrow> (string \<times> attr_val) list" where
  "ctx_attr ctx k = (case ctx k of Some v \<Rightarrow> if v \<noteq> '''' then [(k, AStr v)] else [] | None \<Rightarrow> [])"

definition logger_WithContext :: "(string \<Rightarrow> string option) \<Rightarrow> slog_logger \<Rightarrow> slog_logger" where
  "logger_WithContext ctx l =
     (let attrs = ctx_attr ctx key_request_id @ ctx_attr ctx key_user_id @ ctx_attr ctx ''trace_id'' @
        ctx_attr ctx key_ip_address @ ctx_attr ctx key_user_agent
      in if attrs = [] then l else slog_With attrs l)"

definition logger_WithField :: "string \<Rightarrow> attr_val \<Rightarrow> slog_logger \<Rightarrow> slog_logger" where
  "logger_WithField k v l = slog_With [(k, v)] l"

text \<open>The fields come in the order in which the map is iterated.\<close>

definition logger_WithFields :: "(string \<times> attr_val) list \<Rightarrow> slog_logger \<Rightarrow> slog_logger" where
  "logger_WithFields fs l = slog_With fs l"

definition logger_WithError :: "go_error \<Rightarrow> slog_logger \<Rightarrow> slog_logger" where
  "logger_WithError err l = slog_With [(''error'', AStr (error_text err))] l"

definition logger_WithCaller :: "(string \<times> int) option \<Rightarrow> slog_logger \<Rightarrow> slog_logger" where
  "logger_WithCaller caller l =
     (case caller of None \<Rightarrow> l | Some (file, line) \<Rightarrow> slog_With [(''caller'', AStr (file @ '':'' @ logger_itoa line))] l)"

section \<open>Package observability: the logger\<close>

definition obs_NewLogger :: "string \<Rightarrow> string \<Rightarrow> string \<Rightarrow> string \<Rightarrow> slog_logger" where
  "obs_NewLogger level format service environment =
     slog_With [(''service'', AStr service), (''environment'', AStr environment)]
       \<lparr>sl_level = parse_level level, sl_json = (format \<noteq> ''text''), sl_attrs = []\<rparr>"

definition obs_source :: "string \<Rightarrow> int \<Rightarrow> string" where
  "obs_source file line = file @ '':'' @ rune_string line"

text \<open>The span of a context, if it is valid: its trace and span identifiers.\<close>

definition obs_WithContext :: "(string \<times> string) option \<Rightarrow> slog_logger \<Rightarrow> slog_logger" where
  "obs_WithContext span l =
     (case span of None \<Rightarrow> l | Some (t, s) \<Rightarrow> slog_With [(''trace_id'', AStr t), (''span_id'', AStr s)] l)"

definition obs_LogContext ::
  "level \<Rightarrow> (string \<times> string) option \<Rightarrow> string \<Rightarrow> (string \<times> attr_val) list \<Rightarrow> slog_logger \<Rightarrow> log_record list \<Rightarrow> log_record list" where
  "obs_LogContext lv span msg args l = slog_Log lv msg (slog_With args (obs_WithContext span l))"

section \<open>Metrics and spans\<close>

record span =
  sp_name :: string
  sp_attrs :: "(string \<times> string) list"
  sp_status :: int
  sp_error :: "go_error option"

type_synonym labels = "string list"

record observations =
  ob_log :: "log_record list"
  ob_counters :: "string \<Rightarrow> labels \<Rightarrow> nat"
  ob_histograms :: "string \<Rightarrow> labels \<Rightarrow> int list"
  ob_active :: int
  ob_spans :: "span list"

definition inc :: "string \<Rightarrow> labels \<Rightarrow> observations \<Rightarrow> observations" where
  "inc name ls o' = o'\<lparr>ob_counters := (ob_counters o')(name := (ob_counters o' name)(ls := Suc (ob_counters o' name ls)))\<rparr>"

definition observe :: "string \<Rightarrow> labels \<Rightarrow> int \<Rightarrow> observations \<Rightarrow> observations" where
  "observe name ls v o' = o'\<lparr>ob_histograms := (ob_histograms o')(name := (ob_histograms o' name)(ls := ob_histograms o' name ls @ [v]))\<rparr>"

text \<open>Durations are kept in nanoseconds; the library is given them in seconds.\<close>

definition RecordDBQuery :: "string \<Rightarrow> string \<Rightarrow> int \<Rightarrow> observations \<Rightarrow> observations" where
  "RecordDBQuery operation table duration o' =
     observe ''db_query_duration_seconds'' [operation, table] duration (inc ''db_queries_total'' [operation, table] o')"

definition RecordCacheHit :: "string \<Rightarrow> observations \<Rightarrow> observations" where
  "RecordCacheHit cache o' = inc ''cache_hits_total'' [cache] o'"

definition RecordCacheMiss :: "string \<Rightarrow> observations \<Rightarrow> observations" where
  "RecordCacheMiss cache o' = inc ''cache_misses_total'' [cache] o'"

definition RecordUserRegistration :: "observations \<Rightarrow> observations" where
  "RecordUserRegistration o' = inc ''users_registered_total'' [] o'"

definition RecordLoginAttempt :: "bool \<Rightarrow> observations \<Rightarrow> observations" where
  "RecordLoginAttempt success o' = inc ''login_attempts_total'' [if success then ''success'' else ''failed''] o'"

section \<open>Middleware\<close>

text \<open>
  What the framework knows of a request beside its context: the method, the path, the pattern of the route that it
  matched (empty if none), the URL and the host name, and the sizes of the bodies.
\<close>

record request_info =
  ri_Method :: string
  ri_Path :: string
  ri_Route :: string
  ri_URL :: string
  ri_Hostname :: string

definition body_size :: "fiber_ctx \<Rightarrow> int" where
  "body_size c = (case res_body c of None \<Rightarrow> 0 | Some v \<Rightarrow> int (length (print_json v)))"

definition PrometheusMiddleware ::
  "request_info \<Rightarrow> go_time \<Rightarrow> go_time \<Rightarrow> (observations \<times> 'w) handler \<Rightarrow> (observations \<times> 'w) handler" where
  "PrometheusMiddleware ri start finish next w c =
     (let reqSize = int (length (req_body c)) in
      case next ((fst w)\<lparr>ob_active := ob_active (fst w) + 1\<rparr>, snd w) c of (err, (o', w'), c') \<Rightarrow>
        let duration = finish - start;
            status = itoa (res_status c');
            path = (if ri_Route ri = '''' then ri_Path ri else ri_Route ri);
            ls = [ri_Method ri, path];
            o1 = inc ''http_requests_total'' (ls @ [status]) o';
            o2 = observe ''http_request_duration_seconds'' (ls @ [status]) duration o1;
            o3 = observe ''http_request_size_bytes'' ls reqSize o2;
            o4 = observe ''http_response_size_bytes'' ls (body_size c') o3
        in (err, (o4\<lparr>ob_active := ob_active o4 - 1\<rparr>, w'), c'))"

definition TracingMiddleware ::
  "request_info \<Rightarrow> string \<Rightarrow> (observations \<times> 'w) handler \<Rightarrow> (observations \<times> 'w) handler" where
  "TracingMiddleware ri traceID next w c =
     (case next w (ctx_Set ''X-Trace-ID'' traceID c) of (err, (o', w'), c') \<Rightarrow>
        let s = \<lparr>sp_name = ri_Method ri @ '' '' @ ri_Route ri,
                 sp_attrs = [(''http.method'', ri_Method ri), (''http.route'', ri_Route ri), (''http.url'', ri_URL ri),
                   (''http.user_agent'', ctx_Get c ''User-Agent''), (''net.host.name'', ri_Hostname ri)],
                 sp_status = res_status c', sp_error = err\<rparr>
        in (err, (o'\<lparr>ob_spans := ob_spans o' @ [s]\<rparr>, w'), c'))"

text \<open>\<^verbatim>\<open>Duration.String\<close> of the standard library.\<close>

definition duration_frac :: "nat \<Rightarrow> nat \<Rightarrow> string" where
  "duration_frac prec v =
     (let ds = rev (dropWhile (\<lambda>c. c = CHR ''0'') (rev (pad prec v))) in if ds = [] then [] else CHR ''.'' # ds)"

definition duration_text :: "int \<Rightarrow> string" where
  "duration_text d =
     (let u = nat \<bar>d\<bar>; scaled = (\<lambda>p unit. nat_digits (u div 10 ^ p) @ duration_frac p u @ unit);
          s = u div 10 ^ 9; m = s div 60; h = m div 60;
          body = (if u = 0 then ''0s'' else if u < 10 ^ 3 then scaled 0 ''ns''
                  else if u < 10 ^ 6 then scaled 3 [CHR 0xC2, CHR 0xB5, CHR ''s'']
                  else if u < 10 ^ 9 then scaled 6 ''ms''
                  else (if 0 < h then nat_digits h @ ''h'' else '''') @ (if 0 < m then nat_digits (m mod 60) @ ''m'' else '''') @
                    nat_digits (s mod 60) @ duration_frac 9 u @ ''s'')
      in (if d < 0 then ''-'' else '''') @ body)"

definition request_fields :: "request_info \<Rightarrow> int \<Rightarrow> go_error option \<Rightarrow> fiber_ctx \<Rightarrow> (string \<times> attr_val) list" where
  "request_fields ri latency err c =
     [(''method'', AStr (ri_Method ri)), (''path'', AStr (ri_Path ri)), (''status'', AInt (res_status c)),
      (''latency'', AStr (duration_text latency)), (''latency_ms'', AInt (latency div 1000000)),
      (''ip'', AStr (req_ip c)), (''user_agent'', AStr (ctx_Get c ''User-Agent''))] @
     (let id = GetRequestID c in if id \<noteq> '''' then [(''request_id'', AStr id)] else []) @
     (case locals c ''user_id'' of Some (LString u) \<Rightarrow> if u \<noteq> '''' then [(''user_id'', AStr u)] else [] | _ \<Rightarrow> []) @
     (case err of Some e \<Rightarrow> [(''error'', AStr (error_text e))] | None \<Rightarrow> [])"

definition LoggerMiddleware ::
  "slog_logger \<Rightarrow> request_info \<Rightarrow> go_time \<Rightarrow> go_time \<Rightarrow> (observations \<times> 'w) handler \<Rightarrow> (observations \<times> 'w) handler" where
  "LoggerMiddleware log ri start finish next w c =
     (case next w c of (err, (o', w'), c') \<Rightarrow>
        let logEntry = logger_WithFields (request_fields ri (finish - start) err c') log;
            status = res_status c';
            out = (if 500 \<le> status then slog_Log LevelError ''Server error'' logEntry (ob_log o')
                   else if 400 \<le> status then slog_Log LevelWarn ''Client error'' logEntry (ob_log o')
                   else slog_Log LevelInfo ''Request completed'' logEntry (ob_log o'))
        in (err, (o'\<lparr>ob_log := out\<rparr>, w'), c'))"

section \<open>The tracer\<close>

record TracerConfig =
  tc_ServiceName :: string
  tc_ServiceVersion :: string
  tc_Environment :: string
  tc_Endpoint :: string
  tc_Enabled :: bool

text \<open>The shutdown function that \<^verbatim>\<open>InitTracer\<close> returns: one that does nothing, or that of the tracer provider.\<close>

datatype tracer_stop = StopNothing | StopProvider

definition InitTracer ::
  "(string \<Rightarrow> go_error option) \<Rightarrow> (string \<Rightarrow> string \<Rightarrow> string \<Rightarrow> go_error option) \<Rightarrow> TracerConfig \<Rightarrow> go_error + tracer_stop" where
  "InitTracer newExporter mergeResource cfg =
     (if \<not> tc_Enabled cfg then Inr StopNothing
      else case newExporter (tc_Endpoint cfg) of
        Some e \<Rightarrow> Inl (errorf_w ''failed to create OTLP exporter'' e)
      | None \<Rightarrow>
          (case mergeResource (tc_ServiceName cfg) (tc_ServiceVersion cfg) (tc_Environment cfg) of
             Some e \<Rightarrow> Inl (errorf_w ''failed to create resource'' e)
           | None \<Rightarrow> Inr StopProvider))"

text \<open>A span that was started, with the name and the attributes it was given.\<close>

definition StartSpan :: "string \<Rightarrow> (string \<times> string) list \<Rightarrow> span" where
  "StartSpan name attrs = \<lparr>sp_name = name, sp_attrs = attrs, sp_status = 0, sp_error = None\<rparr>"

definition AddSpanAttributes :: "(string \<times> string) list \<Rightarrow> span \<Rightarrow> span" where
  "AddSpanAttributes attrs s = s\<lparr>sp_attrs := sp_attrs s @ attrs\<rparr>"

definition RecordSpanError :: "go_error \<Rightarrow> span \<Rightarrow> span" where
  "RecordSpanError err s = s\<lparr>sp_error := Some err\<rparr>"

definition WrapDBOperation :: "string \<Rightarrow> string \<Rightarrow> span" where
  "WrapDBOperation operation table = StartSpan (''db.'' @ operation)
     [(''db.operation'', operation), (''db.table'', table), (''db.system'', ''postgresql'')]"

definition WrapCacheOperation :: "string \<Rightarrow> string \<Rightarrow> span" where
  "WrapCacheOperation operation key = StartSpan (''cache.'' @ operation)
     [(''cache.operation'', operation), (''cache.key'', key), (''cache.system'', ''redis'')]"

section \<open>The loggers\<close>

lemma rune_digit: "0 \<le> i \<Longrightarrow> i < 10 \<Longrightarrow> rune_string (48 + i) = [digit (nat i)]"
  by (simp add: rune_string_def digit_def nat_add_distrib)

text \<open>The private \<^verbatim>\<open>itoa\<close> prints line numbers in decimal.\<close>

lemma logger_itoa_decimal: "0 \<le> i \<Longrightarrow> logger_itoa i = itoa i"
proof -
  have "logger_itoa (int n) = nat_digits n" for n
  proof (induction n rule: nat_digits.induct)
    case (1 n)
    show ?case
    proof (cases "n < 10")
      case True
      then show ?thesis using rune_digit [of "int n"]
        by (simp add: logger_itoa.simps [of "int n"] nat_digits.simps [of n])
    next
      case False
      have "rune_string (48 + int n mod 10) = [digit n]"
        using rune_digit [of "int n mod 10"] by (simp add: nat_mod_distrib digit_def)
      moreover have "logger_itoa (int n div 10) = nat_digits (n div 10)"
        using 1 [OF False] by (simp add: zdiv_int)
      ultimately show ?thesis using False
        by (simp add: logger_itoa.simps [of "int n"] nat_digits.simps [of n])
    qed
  qed
  then show "0 \<le> i \<Longrightarrow> logger_itoa i = itoa i" by (metis itoa_def nonneg_int_cases nat_int not_less of_nat_0_le_iff)
qed

text \<open>The other logger prints the character with that number: line 10 gives a line feed, line 65 the letter A.\<close>

lemma obs_source_is_no_number:
  "obs_source ''main.go'' 10 = ''main.go:'' @ [CHR 0x0A]" "obs_source ''main.go'' 65 = ''main.go:A''"
  "logger_source ''main.go'' 65 = ''main.go:65''"
  by code_simp+

section \<open>The middleware\<close>

definition watch :: "'w handler \<Rightarrow> (observations \<times> 'w) handler" where
  "watch h w c = (case h (snd w) c of (err, w', c') \<Rightarrow> (err, (fst w, w'), c'))"

definition observed ::
  "slog_logger \<Rightarrow> request_info \<Rightarrow> string \<Rightarrow> go_time \<Rightarrow> go_time \<Rightarrow> 'w handler \<Rightarrow> (observations \<times> 'w) handler" where
  "observed log ri traceID start finish h =
     TracingMiddleware ri traceID (PrometheusMiddleware ri start finish (LoggerMiddleware log ri start finish (watch h)))"

text \<open>
  The observers pass the request on and its result back: the error, the service state and the response are those
  of the handler, except for the trace header.
\<close>

lemma observers_transparent:
  assumes "h w (ctx_Set ''X-Trace-ID'' traceID c) = (err, w', c')"
  shows "\<exists>o'. observed log ri traceID start finish h (o0, w) c = (err, (o', w'), c')"
  using assms
  by (auto simp: observed_def TracingMiddleware_def PrometheusMiddleware_def LoggerMiddleware_def watch_def Let_def)

text \<open>
  Each request is counted once under the status that the response has when the handler chain returns, and the
  gauge of active requests is as before.
\<close>

lemma observers_count:
  assumes "h w (ctx_Set ''X-Trace-ID'' traceID c) = (err, w', c')"
    and "observed log ri traceID start finish h (o0, w) c = (err, (o', w'), c')"
  shows "ob_active o' = ob_active o0 \<and>
    ob_counters o' ''http_requests_total'' [ri_Method ri, if ri_Route ri = '''' then ri_Path ri else ri_Route ri, itoa (res_status c')]
      = Suc (ob_counters o0 ''http_requests_total'' [ri_Method ri, if ri_Route ri = '''' then ri_Path ri else ri_Route ri, itoa (res_status c')]) \<and>
    length (ob_spans o') = Suc (length (ob_spans o0))"
  using assms
  by (auto simp: observed_def TracingMiddleware_def PrometheusMiddleware_def LoggerMiddleware_def watch_def Let_def inc_def observe_def)

text \<open>
  The central error handler runs after the chain. A request whose chain returns an error is therefore counted and
  logged with the status 200 that the response had until then, whatever status the client gets.
\<close>

lemma errors_counted_as_ok:
  assumes "h w (ctx_Set ''X-Trace-ID'' traceID c) = (Some err, w', c')" and "res_status c' = 200"
    and "observed log ri traceID start finish h (o0, w) c = (Some err, (o', w'), c')" and "sl_level log = LevelInfo"
  shows "lr_msg (last (ob_log o')) = ''Request completed'' \<and> sp_status (last (ob_spans o')) = 200"
  using assms
  by (auto simp: observed_def TracingMiddleware_def PrometheusMiddleware_def LoggerMiddleware_def watch_def Let_def inc_def observe_def
      slog_Log_def logger_WithFields_def slog_With_def)

end
