(* ===== verification/Seed.thy ===== *)
theory Seed
  imports Watchers Auth_Usecase
begin

text \<open>
  The first data of an installation: the seeding script \<^verbatim>\<open>src/scripts/seed/main.go\<close> and the rows that the migration
  \<^verbatim>\<open>src/migrations/000003_casbin_rules.up.sql\<close> inserts. The database is the users table together with the rows of
  \<^verbatim>\<open>casbin_rules\<close>; every statement may fail, and a failure skips the rest of the entry. The identifiers and clock
  readings that the server supplies and the salts of bcrypt are arguments, per user. Printing is not modelled. The
  values of the script are shorter than the columns of \<^verbatim>\<open>casbin_rules\<close>, so their limits are left out.
\<close>

section \<open>Data\<close>

record seed_user =
  su_Email :: string
  su_Password :: string
  su_Name :: string
  su_Role :: string

definition seed_user_of :: "string \<Rightarrow> string \<Rightarrow> string \<Rightarrow> string \<Rightarrow> seed_user" where
  "seed_user_of e p n r = \<lparr>su_Email = e, su_Password = p, su_Name = n, su_Role = r\<rparr>"

definition seedPermissions :: "(string \<times> string \<times> string) list" where
  "seedPermissions =
     [(''superadmin'', ''*'', ''*''),
      (''admin'', ''users'', ''read''),
      (''admin'', ''users'', ''create''),
      (''admin'', ''users'', ''update''),
      (''admin'', ''users'', ''delete''),
      (''admin'', ''roles'', ''read''),
      (''admin'', ''roles'', ''assign''),
      (''admin'', ''roles'', ''manage''),
      (''admin'', ''files'', ''read''),
      (''admin'', ''files'', ''upload''),
      (''admin'', ''files'', ''delete''),
      (''admin'', ''jobs'', ''dispatch''),
      (''editor'', ''users'', ''read''),
      (''editor'', ''users'', ''update''),
      (''editor'', ''files'', ''read''),
      (''editor'', ''files'', ''upload''),
      (''viewer'', ''users'', ''read''),
      (''viewer'', ''files'', ''read'')]"

definition seedUsers :: "seed_user list" where
  "seedUsers =
     [seed_user_of ''superadmin@example.com'' ''superadmin123'' ''Super Admin'' ''superadmin'',
      seed_user_of ''admin@example.com'' ''admin123'' ''Admin User'' ''admin'',
      seed_user_of ''user@example.com'' ''user123'' ''Normal User'' ''viewer'',
      seed_user_of ''alice.johnson@example.com'' ''test123'' ''Alice Johnson'' ''viewer'',
      seed_user_of ''bob.smith@example.com'' ''test123'' ''Bob Smith'' ''viewer'',
      seed_user_of ''carol.williams@example.com'' ''test123'' ''Carol Williams'' ''viewer'',
      seed_user_of ''david.brown@example.com'' ''test123'' ''David Brown'' ''viewer'',
      seed_user_of ''emma.davis@example.com'' ''test123'' ''Emma Davis'' ''viewer'',
      seed_user_of ''frank.miller@example.com'' ''test123'' ''Frank Miller'' ''viewer'',
      seed_user_of ''grace.wilson@example.com'' ''test123'' ''Grace Wilson'' ''viewer'',
      seed_user_of ''henry.moore@example.com'' ''test123'' ''Henry Moore'' ''viewer'',
      seed_user_of ''irene.taylor@example.com'' ''test123'' ''Irene Taylor'' ''viewer'',
      seed_user_of ''jack.anderson@example.com'' ''test123'' ''Jack Anderson'' ''viewer'',
      seed_user_of ''kate.thomas@example.com'' ''test123'' ''Kate Thomas'' ''viewer'',
      seed_user_of ''liam.jackson@example.com'' ''test123'' ''Liam Jackson'' ''viewer'',
      seed_user_of ''mia.white@example.com'' ''test123'' ''Mia White'' ''viewer'',
      seed_user_of ''noah.harris@example.com'' ''test123'' ''Noah Harris'' ''viewer'',
      seed_user_of ''olivia.martin@example.com'' ''test123'' ''Olivia Martin'' ''viewer'',
      seed_user_of ''peter.clark@example.com'' ''test123'' ''Peter Clark'' ''viewer'',
      seed_user_of ''quinn.lewis@example.com'' ''test123'' ''Quinn Lewis'' ''viewer'',
      seed_user_of ''rachel.walker@example.com'' ''test123'' ''Rachel Walker'' ''viewer'',
      seed_user_of ''sam.hall@example.com'' ''test123'' ''Sam Hall'' ''viewer'',
      seed_user_of ''tina.allen@example.com'' ''test123'' ''Tina Allen'' ''viewer'',
      seed_user_of ''ulysses.young@example.com'' ''test123'' ''Ulysses Young'' ''viewer'',
      seed_user_of ''victoria.king@example.com'' ''test123'' ''Victoria King'' ''viewer'',
      seed_user_of ''william.wright@example.com'' ''test123'' ''William Wright'' ''viewer'',
      seed_user_of ''xena.lopez@example.com'' ''test123'' ''Xena Lopez'' ''viewer'',
      seed_user_of ''yusuf.hill@example.com'' ''test123'' ''Yusuf Hill'' ''viewer'',
      seed_user_of ''zara.scott@example.com'' ''test123'' ''Zara Scott'' ''viewer'']"

section \<open>The database\<close>

text \<open>A row of \<^verbatim>\<open>casbin_rules\<close>: the type and the six value columns, which are empty by default.\<close>

type_synonym casbin_row = "string \<times> string list"

definition casbin_row_of :: "string \<Rightarrow> string list \<Rightarrow> casbin_row" where
  "casbin_row_of p_type vs = (p_type, table_row vs)"

definition migration_rules :: "casbin_row list" where
  "migration_rules =
     [casbin_row_of ''p'' [''superadmin'', ''*'', ''*''],
      casbin_row_of ''p'' [''admin'', ''users'', ''read''],
      casbin_row_of ''p'' [''admin'', ''users'', ''create''],
      casbin_row_of ''p'' [''admin'', ''users'', ''update''],
      casbin_row_of ''p'' [''admin'', ''users'', ''delete''],
      casbin_row_of ''p'' [''admin'', ''roles'', ''read''],
      casbin_row_of ''p'' [''admin'', ''roles'', ''assign''],
      casbin_row_of ''p'' [''admin'', ''roles'', ''manage''],
      casbin_row_of ''p'' [''admin'', ''files'', ''read''],
      casbin_row_of ''p'' [''admin'', ''files'', ''upload''],
      casbin_row_of ''p'' [''admin'', ''files'', ''delete''],
      casbin_row_of ''p'' [''admin'', ''jobs'', ''dispatch''],
      casbin_row_of ''p'' [''editor'', ''users'', ''read''],
      casbin_row_of ''p'' [''editor'', ''users'', ''update''],
      casbin_row_of ''p'' [''editor'', ''files'', ''read''],
      casbin_row_of ''p'' [''editor'', ''files'', ''upload''],
      casbin_row_of ''p'' [''viewer'', ''users'', ''read''],
      casbin_row_of ''p'' [''viewer'', ''files'', ''read'']]"

record seed_db =
  sd_pg :: pg
  sd_rules :: "casbin_row list"

definition seed_statement :: "(seed_db \<Rightarrow> (go_error + 'a) \<times> seed_db) \<Rightarrow> seed_db \<Rightarrow> (go_error + 'a) \<times> seed_db" where
  "seed_statement q d =
     (case next_fault (sd_pg d) of
        (Some e, p) \<Rightarrow> (Inl e, d\<lparr>sd_pg := p\<rparr>)
      | (None, p) \<Rightarrow> q (d\<lparr>sd_pg := p\<rparr>))"

text \<open>\<^verbatim>\<open>SELECT id FROM users WHERE email = $1\<close>, which also finds inactive users.\<close>

definition select_user_id :: "string \<Rightarrow> seed_db \<Rightarrow> (go_error + uuid) \<times> seed_db" where
  "select_user_id email = seed_statement (\<lambda>d.
     (case find (\<lambda>r. ro_Email r = email) (pg_users (sd_pg d)) of
        None \<Rightarrow> (Inl ErrNoRows, d)
      | Some r \<Rightarrow> (Inr (ro_ID r), d)))"

text \<open>\<^verbatim>\<open>SELECT EXISTS\<close> with a condition on the type and the first columns, and the insertion of a row.\<close>

definition has_rule :: "string \<Rightarrow> string list \<Rightarrow> casbin_row list \<Rightarrow> bool" where
  "has_rule p_type vs rows = list_ex (\<lambda>(t, cols). t = p_type \<and> take (length vs) cols = vs) rows"

definition rule_exists :: "string \<Rightarrow> string list \<Rightarrow> seed_db \<Rightarrow> (go_error + bool) \<times> seed_db" where
  "rule_exists p_type vs = seed_statement (\<lambda>d. (Inr (has_rule p_type vs (sd_rules d)), d))"

definition insert_rule :: "string \<Rightarrow> string list \<Rightarrow> seed_db \<Rightarrow> (go_error + unit) \<times> seed_db" where
  "insert_rule p_type vs = seed_statement (\<lambda>d.
     (if casbin_row_of p_type vs \<in> set (sd_rules d) then (Inl unique_violation, d)
      else (Inr (), d\<lparr>sd_rules := sd_rules d @ [casbin_row_of p_type vs]\<rparr>)))"

section \<open>The script\<close>

text \<open>Both halves of the script add a rule unless it is there.\<close>

definition ensure_rule :: "string \<Rightarrow> string list \<Rightarrow> seed_db \<Rightarrow> seed_db" where
  "ensure_rule p_type vs d =
     (case rule_exists p_type vs d of
        (Inl _, d1) \<Rightarrow> d1
      | (Inr True, d1) \<Rightarrow> d1
      | (Inr False, d1) \<Rightarrow> snd (insert_rule p_type vs d1))"

text \<open>Any error of the look-up, not only the absence of a row, leads to the insertion.\<close>

definition ensure_user ::
  "bcrypt_api \<Rightarrow> uuid_api \<Rightarrow> string \<Rightarrow> go_time \<Rightarrow> uuid \<Rightarrow> seed_user \<Rightarrow> seed_db \<Rightarrow> string option \<times> seed_db" where
  "ensure_user B U salt now new_id u d =
     (case select_user_id (su_Email u) d of
        (Inr i, d1) \<Rightarrow> (Some (uu_String U i), d1)
      | (Inl _, d1) \<Rightarrow>
          (case bc_Generate B (su_Password u) salt of
             Inl _ \<Rightarrow> (None, d1)
           | Inr passwordHash \<Rightarrow>
               (case CreateUser now new_id (su_Email u) passwordHash (su_Name u) (sd_pg d1) of
                  (Inl _, p) \<Rightarrow> (None, d1\<lparr>sd_pg := p\<rparr>)
                | (Inr r, p) \<Rightarrow> (Some (uu_String U (ro_ID r)), d1\<lparr>sd_pg := p\<rparr>))))"

definition seed_one_user ::
  "bcrypt_api \<Rightarrow> uuid_api \<Rightarrow> string \<Rightarrow> go_time \<Rightarrow> uuid \<Rightarrow> seed_user \<Rightarrow> seed_db \<Rightarrow> seed_db" where
  "seed_one_user B U salt now new_id u d =
     (case ensure_user B U salt now new_id u d of
        (None, d1) \<Rightarrow> d1
      | (Some userID, d1) \<Rightarrow>
          if userID \<noteq> '''' \<and> su_Role u \<noteq> '''' then ensure_rule ''g'' [userID, su_Role u] d1 else d1)"

definition seed_one_permission :: "string \<times> string \<times> string \<Rightarrow> seed_db \<Rightarrow> seed_db" where
  "seed_one_permission p = (case p of (role, obj, act) \<Rightarrow> ensure_rule ''p'' [role, obj, act])"

text \<open>What the server and the clock supply for the user with a given index.\<close>

record seed_supply =
  ss_salt :: "nat \<Rightarrow> string"
  ss_now :: "nat \<Rightarrow> go_time"
  ss_id :: "nat \<Rightarrow> uuid"

definition seed_all_users :: "bcrypt_api \<Rightarrow> uuid_api \<Rightarrow> seed_supply \<Rightarrow> seed_db \<Rightarrow> seed_db" where
  "seed_all_users B U sp d =
     fold (\<lambda>(i, u). seed_one_user B U (ss_salt sp i) (ss_now sp i) (ss_id sp i) u) (List.enumerate 0 seedUsers) d"

definition seed_main :: "bcrypt_api \<Rightarrow> uuid_api \<Rightarrow> seed_supply \<Rightarrow> seed_db \<Rightarrow> seed_db" where
  "seed_main B U sp d = fold seed_one_permission seedPermissions (seed_all_users B U sp d)"

section \<open>One entry\<close>

lemma find_append: "find P (xs @ ys) = (case find P xs of None \<Rightarrow> find P ys | Some x \<Rightarrow> Some x)"
  by (induction xs) auto

lemma table_row_take: "length vs \<le> 6 \<Longrightarrow> take (length vs) (table_row vs) = vs"
  by (simp add: table_row_def)

lemma has_rule_row: "length vs \<le> 6 \<Longrightarrow> casbin_row_of t vs \<in> set rows \<Longrightarrow> has_rule t vs rows"
  by (auto simp: has_rule_def list_ex_iff casbin_row_of_def table_row_take intro: bexI [rotated])

lemma has_rule_append: "has_rule t vs (rows @ rows') \<longleftrightarrow> has_rule t vs rows \<or> has_rule t vs rows'"
  by (simp add: has_rule_def)

lemma no_fault: "pg_faults p = [] \<Longrightarrow> next_fault p = (None, p)"
  by (simp add: next_fault_def)

lemma ensure_rule_eq:
  assumes "pg_faults (sd_pg d) = []" and "length vs \<le> 6"
  shows "ensure_rule t vs d =
    (if has_rule t vs (sd_rules d) then d else d\<lparr>sd_rules := sd_rules d @ [casbin_row_of t vs]\<rparr>)"
  using assms has_rule_row [OF assms(2), of t "sd_rules d"]
  by (auto simp: ensure_rule_def rule_exists_def insert_rule_def seed_statement_def no_fault)

definition seeded_id :: "seed_user \<Rightarrow> seed_db \<Rightarrow> uuid option" where
  "seeded_id u d = map_option ro_ID (find (\<lambda>r. ro_Email r = su_Email u) (pg_users (sd_pg d)))"

definition user_seeded :: "uuid_api \<Rightarrow> seed_user \<Rightarrow> seed_db \<Rightarrow> bool" where
  "user_seeded U u d \<longleftrightarrow> (\<exists>i. seeded_id u d = Some i \<and> has_rule ''g'' [uu_String U i, su_Role u] (sd_rules d))"

text \<open>A database that grew: new users and rules behind the old ones.\<close>

definition grown :: "seed_db \<Rightarrow> seed_db \<Rightarrow> bool" where
  "grown d d' \<longleftrightarrow> (\<exists>us rs. sd_pg d' = (sd_pg d)\<lparr>pg_users := pg_users (sd_pg d) @ us\<rparr> \<and> sd_rules d' = sd_rules d @ rs)"

lemma grown_refl: "grown d d"
  unfolding grown_def by (rule exI [of _ "[]"], rule exI [of _ "[]"]) simp

lemma grown_trans: "grown d1 d2 \<Longrightarrow> grown d2 d3 \<Longrightarrow> grown d1 d3"
  by (auto simp: grown_def)

lemma grown_rule: "grown d (d\<lparr>sd_rules := sd_rules d @ rs\<rparr>)"
  unfolding grown_def by (rule exI [of _ "[]"], rule exI [of _ rs]) simp

lemma grown_faults: "grown d d' \<Longrightarrow> pg_faults (sd_pg d') = pg_faults (sd_pg d) \<and> pg_varchar (sd_pg d') = pg_varchar (sd_pg d)"
  by (auto simp: grown_def)

lemma grown_seeded_id: "grown d d' \<Longrightarrow> seeded_id u d = Some i \<Longrightarrow> seeded_id u d' = Some i"
  by (auto simp: grown_def seeded_id_def find_append)

lemma grown_has_rule: "grown d d' \<Longrightarrow> has_rule t vs (sd_rules d) \<Longrightarrow> has_rule t vs (sd_rules d')"
  by (auto simp: grown_def has_rule_append)

lemma grown_user_seeded: "grown d d' \<Longrightarrow> user_seeded U u d \<Longrightarrow> user_seeded U u d'"
  unfolding user_seeded_def using grown_seeded_id grown_has_rule by blast

lemma ensure_rule_grown:
  assumes "pg_faults (sd_pg d) = []" and "length vs \<le> 6"
  shows "grown d (ensure_rule t vs d) \<and> has_rule t vs (sd_rules (ensure_rule t vs d)) \<and> sd_pg (ensure_rule t vs d) = sd_pg d"
  using assms has_rule_row [OF assms(2), of t "[casbin_row_of t vs]"]
  by (auto simp: ensure_rule_eq grown_refl grown_rule has_rule_append)

text \<open>What an entry needs: no statement fails, the password can be hashed, and the columns take the values.\<close>

definition entry_ok :: "bcrypt_api \<Rightarrow> string \<Rightarrow> uuid \<Rightarrow> seed_user \<Rightarrow> seed_db \<Rightarrow> bool" where
  "entry_ok B salt new_id u d \<longleftrightarrow> pg_faults (sd_pg d) = [] \<and>
     (case bc_Generate B (su_Password u) salt of
        Inl _ \<Rightarrow> False
      | Inr h \<Rightarrow> varchar_check (sd_pg d) [su_Email u, h, su_Name u] = None) \<and>
     new_id \<notin> ro_ID ` set (pg_users (sd_pg d))"

lemma ensure_user_found:
  assumes "pg_faults (sd_pg d) = []" and "seeded_id u d = Some i"
  shows "ensure_user B U salt now new_id u d = (Some (uu_String U i), d)"
  using assms by (auto simp: ensure_user_def select_user_id_def seed_statement_def no_fault seeded_id_def)

lemma ensure_user_new:
  assumes "entry_ok B salt new_id u d" and "seeded_id u d = None"
  shows "\<exists>r. ensure_user B U salt now new_id u d =
      (Some (uu_String U new_id), d\<lparr>sd_pg := (sd_pg d)\<lparr>pg_users := pg_users (sd_pg d) @ [r]\<rparr>\<rparr>) \<and>
    ro_ID r = new_id \<and> ro_Email r = su_Email u"
proof -
  obtain h where h: "bc_Generate B (su_Password u) salt = Inr h" "varchar_check (sd_pg d) [su_Email u, h, su_Name u] = None"
    and f: "pg_faults (sd_pg d) = []" and n: "new_id \<notin> ro_ID ` set (pg_users (sd_pg d))"
    using assms(1) unfolding entry_ok_def by (auto split: sum.splits)
  have find: "find (\<lambda>r. ro_Email r = su_Email u) (pg_users (sd_pg d)) = None"
    using assms(2) by (simp add: seeded_id_def)
  then have fresh: "\<not> (\<exists>r \<in> set (pg_users (sd_pg d)). ro_ID r = new_id \<or> ro_Email r = su_Email u)"
    using n by (auto simp: find_None_iff)
  show ?thesis
    using h f fresh find
    by (auto simp: ensure_user_def select_user_id_def seed_statement_def no_fault CreateUser_def statement_def Let_def
        simp del: varchar_check.simps)
qed

lemma seed_one_user_seeded:
  assumes "entry_ok B salt new_id u d" and "su_Role u \<noteq> ''''" and "uu_String U (case seeded_id u d of None \<Rightarrow> new_id | Some i \<Rightarrow> i) \<noteq> ''''"
  shows "grown d (seed_one_user B U salt now new_id u d) \<and> user_seeded U u (seed_one_user B U salt now new_id u d) \<and>
    seeded_id u (seed_one_user B U salt now new_id u d) = Some (case seeded_id u d of None \<Rightarrow> new_id | Some i \<Rightarrow> i) \<and>
    ro_ID ` set (pg_users (sd_pg (seed_one_user B U salt now new_id u d))) \<subseteq> insert new_id (ro_ID ` set (pg_users (sd_pg d)))"
proof -
  have f: "pg_faults (sd_pg d) = []" using assms(1) by (simp add: entry_ok_def)
  define i where "i = (case seeded_id u d of None \<Rightarrow> new_id | Some i \<Rightarrow> i)"
  obtain d1 where e: "ensure_user B U salt now new_id u d = (Some (uu_String U i), d1)" and g: "grown d d1"
    and s: "seeded_id u d1 = Some i"
    and ids: "ro_ID ` set (pg_users (sd_pg d1)) \<subseteq> insert new_id (ro_ID ` set (pg_users (sd_pg d)))"
  proof (cases "seeded_id u d")
    case None
    then obtain r where r: "ensure_user B U salt now new_id u d =
        (Some (uu_String U new_id), d\<lparr>sd_pg := (sd_pg d)\<lparr>pg_users := pg_users (sd_pg d) @ [r]\<rparr>\<rparr>)"
        "ro_ID r = new_id" "ro_Email r = su_Email u"
      using ensure_user_new [OF assms(1)] by blast
    show thesis
    proof (rule that [of "d\<lparr>sd_pg := (sd_pg d)\<lparr>pg_users := pg_users (sd_pg d) @ [r]\<rparr>\<rparr>"])
      show "grown d (d\<lparr>sd_pg := (sd_pg d)\<lparr>pg_users := pg_users (sd_pg d) @ [r]\<rparr>\<rparr>)"
        unfolding grown_def by (rule exI [of _ "[r]"], rule exI [of _ "[]"]) simp
    qed (use None r in \<open>auto simp: i_def seeded_id_def find_append\<close>)
  next
    case (Some j)
    then show thesis using ensure_user_found [OF f Some] that [of d] grown_refl by (auto simp: i_def)
  qed
  have f1: "pg_faults (sd_pg d1) = []" using grown_faults [OF g] f by simp
  define d2 where "d2 = ensure_rule ''g'' [uu_String U i, su_Role u] d1"
  have d2: "seed_one_user B U salt now new_id u d = d2"
    using e assms(2,3) by (simp add: seed_one_user_def d2_def i_def)
  have r: "grown d1 d2" "has_rule ''g'' [uu_String U i, su_Role u] (sd_rules d2)" "sd_pg d2 = sd_pg d1"
    using ensure_rule_grown [OF f1, of "[uu_String U i, su_Role u]" "''g''"] by (simp_all add: d2_def)
  have s2: "seeded_id u d2 = Some i" using grown_seeded_id [OF r(1) s] .
  show ?thesis
    unfolding d2 i_def [symmetric] using grown_trans [OF g r(1)] s2 r ids by (auto simp: user_seeded_def)
qed

lemma seed_one_user_again:
  assumes "pg_faults (sd_pg d) = []" and "user_seeded U u d"
  shows "seed_one_user B U salt now new_id u d = d"
proof -
  obtain i where i: "seeded_id u d = Some i" "has_rule ''g'' [uu_String U i, su_Role u] (sd_rules d)"
    using assms(2) by (auto simp: user_seeded_def)
  then show ?thesis
    using ensure_user_found [OF assms(1) i(1)] by (simp add: seed_one_user_def ensure_rule_eq assms(1))
qed

section \<open>The whole script\<close>

text \<open>
  What a complete run needs: no statement fails, the passwords can be hashed, the columns take the values, and the
  server supplies identifiers that are new and different.
\<close>

definition run_ok :: "bcrypt_api \<Rightarrow> uuid_api \<Rightarrow> seed_supply \<Rightarrow> (nat \<times> seed_user) list \<Rightarrow> seed_db \<Rightarrow> bool" where
  "run_ok B U sp ius d \<longleftrightarrow> pg_faults (sd_pg d) = [] \<and> (\<forall>i. uu_String U i \<noteq> '''') \<and>
     distinct (map (\<lambda>(i, u). ss_id sp i) ius) \<and>
     (\<forall>(i, u) \<in> set ius. su_Role u \<noteq> '''' \<and> entry_ok B (ss_salt sp i) (ss_id sp i) u d)"

lemma entry_ok_grown:
  assumes "entry_ok B salt i u d" and "grown d d'" and "ro_ID ` set (pg_users (sd_pg d')) \<subseteq> insert j (ro_ID ` set (pg_users (sd_pg d)))"
    and "i \<noteq> j"
  shows "entry_ok B salt i u d'"
proof -
  have v: "varchar_check (sd_pg d') vs = varchar_check (sd_pg d) vs" for vs
    using grown_faults [OF assms(2)] by (induction vs) (auto split: option.split)
  show ?thesis using assms grown_faults [OF assms(2)]
    by (auto simp: entry_ok_def v simp del: varchar_check.simps split: sum.splits)
qed

abbreviation seed_users_fold :: "bcrypt_api \<Rightarrow> uuid_api \<Rightarrow> seed_supply \<Rightarrow> (nat \<times> seed_user) list \<Rightarrow> seed_db \<Rightarrow> seed_db" where
  "seed_users_fold B U sp ius \<equiv> fold (\<lambda>(i, u). seed_one_user B U (ss_salt sp i) (ss_now sp i) (ss_id sp i) u) ius"

lemma seed_users_complete:
  assumes "run_ok B U sp ius d"
  shows "grown d (seed_users_fold B U sp ius d) \<and> (\<forall>(i, u) \<in> set ius. user_seeded U u (seed_users_fold B U sp ius d))"
  using assms
proof (induction ius arbitrary: d)
  case Nil
  then show ?case by (simp add: grown_refl)
next
  case (Cons iu ius)
  obtain i u where iu: "iu = (i, u)" by (cases iu)
  define d1 where "d1 = seed_one_user B U (ss_salt sp i) (ss_now sp i) (ss_id sp i) u d"
  have "entry_ok B (ss_salt sp i) (ss_id sp i) u d" "su_Role u \<noteq> ''''" "\<forall>i. uu_String U i \<noteq> ''''"
    using Cons.prems by (auto simp: run_ok_def iu)
  from seed_one_user_seeded [OF this(1,2), of U "ss_now sp i"] this(3)
  have d1: "grown d d1" "user_seeded U u d1" "ro_ID ` set (pg_users (sd_pg d1)) \<subseteq> insert (ss_id sp i) (ro_ID ` set (pg_users (sd_pg d)))"
    by (auto simp: d1_def)
  have "entry_ok B (ss_salt sp j) (ss_id sp j) v d1" if "(j, v) \<in> set ius" for j v
  proof (rule entry_ok_grown [OF _ d1(1,3)])
    show "entry_ok B (ss_salt sp j) (ss_id sp j) v d" using Cons.prems that by (auto simp: run_ok_def)
    have "ss_id sp i \<notin> (\<lambda>(i, u). ss_id sp i) ` set ius" using Cons.prems by (simp add: run_ok_def iu)
    then show "ss_id sp j \<noteq> ss_id sp i" using that by force
  qed
  then have "run_ok B U sp ius d1"
    using Cons.prems grown_faults [OF d1(1)] unfolding run_ok_def iu by auto
  from Cons.IH [OF this] show ?case
    using d1 grown_trans [OF d1(1)] grown_user_seeded by (auto simp: iu d1_def [symmetric])
qed

lemma seed_users_again:
  assumes "pg_faults (sd_pg d) = []" and "\<forall>(i, u) \<in> set ius. user_seeded U u d"
  shows "seed_users_fold B U sp ius d = d"
  using assms(2) by (induction ius) (auto simp: seed_one_user_again [OF assms(1)])

lemma seed_permission_eq:
  assumes "pg_faults (sd_pg d) = []"
  shows "grown d (seed_one_permission (r, ob, ac) d) \<and> has_rule ''p'' [r, ob, ac] (sd_rules (seed_one_permission (r, ob, ac) d))"
  using ensure_rule_grown [OF assms, of "[r, ob, ac]" "''p''"] by (simp add: seed_one_permission_def)

lemma seed_permissions_complete:
  assumes "pg_faults (sd_pg d) = []"
  shows "grown d (fold seed_one_permission ps d) \<and>
    (\<forall>(r, ob, ac) \<in> set ps. has_rule ''p'' [r, ob, ac] (sd_rules (fold seed_one_permission ps d)))"
  using assms
proof (induction ps arbitrary: d)
  case (Cons p ps)
  obtain r ob ac where p: "p = (r, ob, ac)" by (cases p)
  have 1: "grown d (seed_one_permission p d)" "has_rule ''p'' [r, ob, ac] (sd_rules (seed_one_permission p d))"
    using seed_permission_eq [OF Cons.prems] p by auto
  have "pg_faults (sd_pg (seed_one_permission p d)) = []" using grown_faults [OF 1(1)] Cons.prems by simp
  from Cons.IH [OF this]
  have 2: "grown (seed_one_permission p d) (fold seed_one_permission (p # ps) d)"
    "\<forall>(r, ob, ac) \<in> set ps. has_rule ''p'' [r, ob, ac] (sd_rules (fold seed_one_permission (p # ps) d))"
    by simp_all
  show ?case using grown_trans [OF 1(1) 2(1)] grown_has_rule [OF 2(1) 1(2)] 2(2) p by simp
qed (simp add: grown_refl)

lemma seed_permissions_again:
  assumes "pg_faults (sd_pg d) = []" and "\<forall>(r, ob, ac) \<in> set ps. has_rule ''p'' [r, ob, ac] (sd_rules d)"
  shows "fold seed_one_permission ps d = d"
  using assms by (induction ps) (auto simp: seed_one_permission_def ensure_rule_eq)

section \<open>A fresh installation\<close>

text \<open>The policy that the enforcer loads: the rows of each type without the empty columns at their end.\<close>

definition trim_row :: "string list \<Rightarrow> string list" where
  "trim_row cols = rev (dropWhile (\<lambda>v. v = '''') (rev cols))"

definition rules_of_type :: "string \<Rightarrow> casbin_row list \<Rightarrow> string list list" where
  "rules_of_type t rows = map (trim_row \<circ> snd) (filter (\<lambda>row. fst row = t) rows)"

definition policy_of :: "seed_db \<Rightarrow> policy_table" where
  "policy_of d = \<lparr>pt_p = rules_of_type ''p'' (sd_rules d), pt_g = rules_of_type ''g'' (sd_rules d), pt_up = True\<rparr>"

lemma trim_row_table: "length vs \<le> 6 \<Longrightarrow> vs \<noteq> [] \<Longrightarrow> last vs \<noteq> '''' \<Longrightarrow> trim_row (table_row vs) = vs"
proof -
  assume vs: "length vs \<le> 6" "vs \<noteq> []" "last vs \<noteq> ''''"
  then have "table_row vs = vs @ replicate (6 - length vs) ''''" by (simp add: table_row_def take_replicate min_def)
  moreover have "dropWhile (\<lambda>v. v = '''') (replicate n '''' @ xs) = dropWhile (\<lambda>v. v = '''') xs" for n and xs :: "string list"
    by (induction n) auto
  moreover have "dropWhile (\<lambda>v. v = '''') (rev vs) = rev vs"
    using vs(2,3) by (cases vs rule: rev_cases) auto
  ultimately show ?thesis by (simp add: trim_row_def)
qed

abbreviation role_row :: "uuid_api \<Rightarrow> seed_supply \<Rightarrow> nat \<times> seed_user \<Rightarrow> casbin_row" where
  "role_row U sp iu \<equiv> casbin_row_of ''g'' [uu_String U (ss_id sp (fst iu)), su_Role (snd iu)]"

lemma seed_one_user_new:
  assumes "entry_ok B salt new_id u d" and "seeded_id u d = None" and "uu_String U new_id \<noteq> ''''" and "su_Role u \<noteq> ''''"
    and "\<not> has_rule ''g'' [uu_String U new_id, su_Role u] (sd_rules d)"
  shows "sd_rules (seed_one_user B U salt now new_id u d) = sd_rules d @ [casbin_row_of ''g'' [uu_String U new_id, su_Role u]]"
    and "su_Email v \<noteq> su_Email u \<Longrightarrow> seeded_id v (seed_one_user B U salt now new_id u d) = seeded_id v d"
proof -
  obtain r where r: "ensure_user B U salt now new_id u d =
      (Some (uu_String U new_id), d\<lparr>sd_pg := (sd_pg d)\<lparr>pg_users := pg_users (sd_pg d) @ [r]\<rparr>\<rparr>)" "ro_Email r = su_Email u"
    using ensure_user_new [OF assms(1,2)] by blast
  have f: "pg_faults (sd_pg d) = []" using assms(1) by (simp add: entry_ok_def)
  have e: "seed_one_user B U salt now new_id u d =
      d\<lparr>sd_pg := (sd_pg d)\<lparr>pg_users := pg_users (sd_pg d) @ [r]\<rparr>, sd_rules := sd_rules d @ [casbin_row_of ''g'' [uu_String U new_id, su_Role u]]\<rparr>"
    using r(1) assms(3-5) f by (simp add: seed_one_user_def ensure_rule_eq)
  show "sd_rules (seed_one_user B U salt now new_id u d) = sd_rules d @ [casbin_row_of ''g'' [uu_String U new_id, su_Role u]]"
    by (simp add: e)
  show "su_Email v \<noteq> su_Email u \<Longrightarrow> seeded_id v (seed_one_user B U salt now new_id u d) = seeded_id v d"
    using r(2) by (auto simp: e seeded_id_def find_append split: option.split)
qed

lemma seed_users_fresh:
  assumes "run_ok B U sp ius d" and "inj (uu_String U)" and "distinct (map (su_Email \<circ> snd) ius)"
    and "\<forall>(i, u) \<in> set ius. seeded_id u d = None \<and> \<not> has_rule ''g'' [uu_String U (ss_id sp i), su_Role u] (sd_rules d)"
  shows "sd_rules (seed_users_fold B U sp ius d) = sd_rules d @ map (role_row U sp) ius"
  using assms(1,3,4)
proof (induction ius arbitrary: d)
  case (Cons iu ius)
  obtain i u where iu: "iu = (i, u)" by (cases iu)
  define d1 where "d1 = seed_one_user B U (ss_salt sp i) (ss_now sp i) (ss_id sp i) u d"
  have ok: "entry_ok B (ss_salt sp i) (ss_id sp i) u d" "seeded_id u d = None" "uu_String U (ss_id sp i) \<noteq> ''''"
      "su_Role u \<noteq> ''''" "\<not> has_rule ''g'' [uu_String U (ss_id sp i), su_Role u] (sd_rules d)"
    using Cons.prems by (auto simp: run_ok_def iu)
  have d1: "sd_rules d1 = sd_rules d @ [role_row U sp iu]"
    using seed_one_user_new(1) [OF ok] by (simp add: d1_def iu)
  have gr: "grown d d1" "ro_ID ` set (pg_users (sd_pg d1)) \<subseteq> insert (ss_id sp i) (ro_ID ` set (pg_users (sd_pg d)))"
    using seed_one_user_seeded [OF ok(1,4), of U "ss_now sp i"] ok(2,3) by (auto simp: d1_def)
  have other: "ss_id sp j \<noteq> ss_id sp i" if "(j, v) \<in> set ius" for j v
  proof -
    have "ss_id sp i \<notin> (\<lambda>(i, u). ss_id sp i) ` set ius" using Cons.prems by (simp add: run_ok_def iu)
    then show ?thesis using that by force
  qed
  have "run_ok B U sp ius d1"
    using Cons.prems(1) grown_faults [OF gr(1)] entry_ok_grown [OF _ gr other] unfolding run_ok_def iu by fastforce
  moreover have "seeded_id v d1 = None \<and> \<not> has_rule ''g'' [uu_String U (ss_id sp j), su_Role v] (sd_rules d1)" if "(j, v) \<in> set ius" for j v
  proof -
    have "su_Email v \<noteq> su_Email u" using Cons.prems(2) that by (force simp: iu)
    then have "seeded_id v d1 = None" using seed_one_user_new(2) [OF ok] Cons.prems(3) that by (auto simp: d1_def)
    moreover have "uu_String U (ss_id sp j) \<noteq> uu_String U (ss_id sp i)" using other [OF that] assms(2) by (simp add: inj_eq)
    ultimately show ?thesis using Cons.prems(3) that
      by (auto simp: d1 has_rule_append iu) (simp add: has_rule_def casbin_row_of_def table_row_def)
  qed
  ultimately have "sd_rules (seed_users_fold B U sp ius d1) = sd_rules d1 @ map (role_row U sp) ius"
    using Cons.IH [of d1] Cons.prems(2) by auto
  then show ?case by (simp add: iu d1_def [symmetric] d1)
qed simp

section \<open>Decisions of the seeded policy\<close>

lemma rbac_scan_rules:
  "rbac_scan g s ob ac (map (\<lambda>(r, o', a). [r, o', a]) ps) = (\<exists>(r, o', a) \<in> set ps. matcher g s ob ac r o' a, None)"
  by (induction ps) (auto split: prod.splits)

text \<open>Users that hold one role each, and roles that are nobody's identifier.\<close>

lemma roles_of_links:
  assumes "distinct (map f xs)" and "x \<in> set xs"
  shows "roles_of (map (\<lambda>x. [f x, h x]) xs) (f x) = [h x]"
  using assms
proof (induction xs)
  case (Cons y xs)
  have none: "roles_of (map (\<lambda>x. [f x, h x]) zs) s = []" if "s \<notin> f ` set zs" for zs s
    using that by (induction zs) (auto simp: roles_of_def link_role_def)
  show ?case
  proof (cases "x = y")
    case True
    then show ?thesis using Cons.prems(1) none [of "f y" xs] by (simp add: roles_of_def link_role_def)
  next
    case False
    then have "x \<in> set xs" "f x \<noteq> f y" using Cons.prems by (auto simp: image_iff)
    with Cons show ?thesis by (simp add: roles_of_def link_role_def)
  qed
qed simp

lemma roles_of_nobody: "s \<notin> f ` set xs \<Longrightarrow> roles_of (map (\<lambda>x. [f x, h x]) xs) s = []"
  by (induction xs) (auto simp: roles_of_def link_role_def)

lemma closure_of_links:
  assumes "distinct (map f xs)" and "x \<in> set xs" and "h x \<notin> f ` set xs"
  shows "role_closure 10 (map (\<lambda>x. [f x, h x]) xs) (f x) = [f x, h x]"
  by (simp add: eval_nat_numeral roles_of_links [OF assms(1,2)] roles_of_nobody [OF assms(3)])

lemma migration_is_seed:
  "rules_of_type ''p'' migration_rules = map (\<lambda>(r, ob, ac). [r, ob, ac]) seedPermissions"
  "rules_of_type ''g'' migration_rules = []"
  "list_all (\<lambda>(r, ob, ac). has_rule ''p'' [r, ob, ac] migration_rules) seedPermissions"
  by code_simp+

lemma no_role_seeded: "\<not> has_rule ''g'' vs migration_rules"
  unfolding migration_rules_def has_rule_def casbin_row_of_def by simp

lemma seed_data:
  "distinct (map su_Email seedUsers)" "set (map su_Role seedUsers) = {''superadmin'', ''admin'', ''viewer''}"
  "length seedUsers = 29" "fst ` set seedPermissions \<subseteq> {''superadmin'', ''admin'', ''editor'', ''viewer''}"
  by code_simp+

lemma role_names_no_text:
  "\<not> set ''superadmin'' \<subseteq> set ''0123456789abcdef-''" "\<not> set ''admin'' \<subseteq> set ''0123456789abcdef-''"
  "\<not> set ''editor'' \<subseteq> set ''0123456789abcdef-''" "\<not> set ''viewer'' \<subseteq> set ''0123456789abcdef-''"
  by code_simp+

definition fresh_db :: "pg \<Rightarrow> seed_db" where
  "fresh_db p = \<lparr>sd_pg = p\<lparr>pg_users := []\<rparr>, sd_rules = migration_rules\<rparr>"

lemma fresh_policy:
  assumes "uuid_lib U" and "run_ok B U sp (List.enumerate 0 seedUsers) (fresh_db p)"
  shows "policy_of (seed_main B U sp (fresh_db p)) =
    \<lparr>pt_p = map (\<lambda>(r, ob, ac). [r, ob, ac]) seedPermissions,
     pt_g = map (\<lambda>iu. [uu_String U (ss_id sp (fst iu)), su_Role (snd iu)]) (List.enumerate 0 seedUsers), pt_up = True\<rparr>"
proof -
  let ?ius = "List.enumerate 0 seedUsers"
  have inj: "inj (uu_String U)" using uuid_lib.text_inj [OF assms(1)] by (simp add: inj_def)
  have "distinct (map (su_Email \<circ> snd) ?ius)" using seed_data(1) by (simp add: map_map [symmetric] del: map_map)
  from seed_users_fresh [OF assms(2) inj this]
  have rules: "sd_rules (seed_all_users B U sp (fresh_db p)) = migration_rules @ map (role_row U sp) ?ius"
    by (simp add: seed_all_users_def fresh_db_def seeded_id_def no_role_seeded case_prod_unfold)
  have f: "pg_faults (sd_pg (seed_all_users B U sp (fresh_db p))) = []"
    using grown_faults [OF conjunct1 [OF seed_users_complete [OF assms(2)]]] conjunct1 [OF assms(2) [unfolded run_ok_def]]
    unfolding seed_all_users_def by simp
  have "\<forall>(r, ob, ac) \<in> set seedPermissions. has_rule ''p'' [r, ob, ac] (sd_rules (seed_all_users B U sp (fresh_db p)))"
  proof (intro ballI, clarify)
    fix r ob ac assume "(r, ob, ac) \<in> set seedPermissions"
    from migration_is_seed(3) [unfolded list_all_iff, THEN bspec, OF this]
    show "has_rule ''p'' [r, ob, ac] (sd_rules (seed_all_users B U sp (fresh_db p)))"
      unfolding rules has_rule_append by simp
  qed
  then have "seed_main B U sp (fresh_db p) = seed_all_users B U sp (fresh_db p)"
    unfolding seed_main_def by (rule seed_permissions_again [OF f])
  moreover have "su_Role (snd iu) \<noteq> ''''" if "iu \<in> set ?ius" for iu
    using assms(2) that by (auto simp: run_ok_def)
  then have "map (trim_row \<circ> (snd \<circ> role_row U sp)) ?ius = map (\<lambda>iu. [uu_String U (ss_id sp (fst iu)), su_Role (snd iu)]) ?ius"
    by (intro map_cong) (simp_all add: casbin_row_of_def trim_row_table)
  then have "rules_of_type ''g'' (map (role_row U sp) ?ius) = map (\<lambda>iu. [uu_String U (ss_id sp (fst iu)), su_Role (snd iu)]) ?ius"
    by (simp add: rules_of_type_def filter_map o_def casbin_row_of_def)
  moreover have "rules_of_type ''p'' (map (role_row U sp) ?ius) = []"
    by (simp add: rules_of_type_def casbin_row_of_def filter_map o_def)
  moreover have "rules_of_type t (xs @ ys) = rules_of_type t xs @ rules_of_type t ys" for t xs ys
    by (simp add: rules_of_type_def)
  ultimately show ?thesis
    using rules migration_is_seed(1,2) by (simp add: policy_of_def)
qed

section \<open>Properties\<close>

text \<open>
  C39. Seeding is complete and idempotent. If no statement fails, the script only adds users and rules behind those
  that are there; afterwards every user of the script exists, holds its role, and every permission of the script
  is a rule. Running it again, with whatever clock, identifiers and salts, changes nothing.
\<close>

theorem seed_idempotent:
  assumes "run_ok B U sp (List.enumerate 0 seedUsers) d" and "d' = seed_main B U sp d"
  shows "grown d d' \<and> (\<forall>u \<in> set seedUsers. user_seeded U u d') \<and>
    (\<forall>(r, ob, ac) \<in> set seedPermissions. has_rule ''p'' [r, ob, ac] (sd_rules d')) \<and> seed_main B' U sp' d' = d'"
proof -
  define d1 where "d1 = seed_all_users B U sp d"
  have users: "grown d d1" "\<forall>(i, u) \<in> set (List.enumerate 0 seedUsers). user_seeded U u d1"
    using seed_users_complete [OF assms(1)] by (simp_all add: d1_def seed_all_users_def)
  have f: "pg_faults (sd_pg d1) = []" using grown_faults [OF users(1)] assms(1) by (simp add: run_ok_def)
  have d': "d' = fold seed_one_permission seedPermissions d1" using assms(2) by (simp add: seed_main_def d1_def)
  from seed_permissions_complete [OF f, of seedPermissions]
  have perms: "grown d1 d'" "\<forall>(r, ob, ac) \<in> set seedPermissions. has_rule ''p'' [r, ob, ac] (sd_rules d')"
    unfolding d' by blast+
  have f': "pg_faults (sd_pg d') = []" using grown_faults [OF perms(1)] f by simp
  have users': "\<forall>(i, u) \<in> set (List.enumerate 0 seedUsers). user_seeded U u d'"
    using users(2) grown_user_seeded [OF perms(1)] by blast
  have again: "seed_main B' U sp' d' = d'"
    unfolding seed_main_def seed_all_users_def seed_users_again [OF f' users'] by (rule seed_permissions_again [OF f' perms(2)])
  have "user_seeded U (seedUsers ! i) d'" if "i < length seedUsers" for i
    using users' that by (force simp: in_set_enumerate_eq)
  then have "\<forall>u \<in> set seedUsers. user_seeded U u d'" by (metis in_set_conv_nth)
  with grown_trans [OF users(1) perms(1)] perms(2) again show ?thesis by blast
qed

text \<open>
  C40. The seeded accounts have exactly the access of their role. On a fresh installation, with the rows of the
  migration and no users, every account that the script creates is allowed an action on an object exactly when the
  list of permissions gives it to the role of the account, by name or by wildcard.
\<close>

theorem seeded_access_exact:
  assumes "uuid_lib U" and "run_ok B U sp (List.enumerate 0 seedUsers) (fresh_db p)" and "i < length seedUsers"
  shows "table_decides (policy_of (seed_main B U sp (fresh_db p))) (uu_String U (ss_id sp i)) ob ac
    = (list_ex (\<lambda>(r, o', a). r = su_Role (seedUsers ! i) \<and> (o' = ''*'' \<or> ob = o') \<and> (a = ''*'' \<or> ac = a)) seedPermissions, None)"
proof -
  let ?ius = "List.enumerate 0 seedUsers"
  define f where "f = (\<lambda>iu :: nat \<times> seed_user. uu_String U (ss_id sp (fst iu)))"
  define h where "h = (\<lambda>iu :: nat \<times> seed_user. su_Role (snd iu))"
  have iu: "(i, seedUsers ! i) \<in> set ?ius" using assms(3) by (simp add: in_set_enumerate_eq)
  have inj: "inj (uu_String U)" using uuid_lib.text_inj [OF assms(1)] by (simp add: inj_def)
  have "distinct (map (uu_String U) (map (\<lambda>(i, u). ss_id sp i) ?ius))"
    using assms(2) inj by (subst distinct_map) (auto simp: run_ok_def intro: inj_on_subset)
  then have dist: "distinct (map f ?ius)" by (simp add: f_def o_def case_prod_unfold)
  have names: "x \<notin> range (uu_String U)" if "x \<in> {''superadmin'', ''admin'', ''editor'', ''viewer''}" for x
  proof
    assume "x \<in> range (uu_String U)"
    then obtain j where "x = uu_String U j" by blast
    then have "set x \<subseteq> set ''0123456789abcdef-''" using uuid_lib.text_chars [OF assms(1), of j] by (simp only:)
    moreover have "x = ''superadmin'' \<or> x = ''admin'' \<or> x = ''editor'' \<or> x = ''viewer''" using that by blast
    ultimately show False using role_names_no_text by (elim disjE) (simp_all only:)
  qed
  have "su_Role (seedUsers ! i) \<in> set (map su_Role seedUsers)"
    using nth_mem [OF assms(3)] by (simp only: set_map image_eqI)
  then have "su_Role (seedUsers ! i) \<notin> range (uu_String U)" unfolding seed_data(2) using names by blast
  then have "h (i, seedUsers ! i) \<notin> f ` set ?ius" by (auto simp: f_def h_def)
  from closure_of_links [where f = f and h = h and x = "(i, seedUsers ! i)", OF dist iu this]
  have "role_closure 10 (map (\<lambda>iu. [f iu, h iu]) ?ius) (uu_String U (ss_id sp i)) = [uu_String U (ss_id sp i), su_Role (seedUsers ! i)]"
    by (simp add: f_def h_def)
  moreover have "r \<noteq> uu_String U (ss_id sp i)" if "(r, ob', ac') \<in> set seedPermissions" for r ob' ac'
  proof -
    have "r \<in> {''superadmin'', ''admin'', ''editor'', ''viewer''}"
      by (rule subsetD [OF seed_data(4) image_eqI [OF _ that]]) simp
    from names [OF this] show ?thesis by blast
  qed
  ultimately show ?thesis
    unfolding table_decides_def fresh_policy [OF assms(1,2)] policy_table.select_convs rbac_scan_rules matcher_def list_ex_iff
    by (auto simp: f_def h_def)
qed

definition demo_supply :: seed_supply where
  "demo_supply = \<lparr>ss_salt = (\<lambda>_. ''''), ss_now = (\<lambda>_. 0), ss_id = (\<lambda>i. of_nat (Suc i))\<rparr>"

lemma demo_run_ok: "run_ok (lib_bcrypt demo_libs) uuid_rfc4122 demo_supply (List.enumerate 0 seedUsers) (fresh_db example_pg)"
proof -
  have 1: "pg_faults (sd_pg (fresh_db example_pg)) = []" "distinct (map (\<lambda>(i, u). ss_id demo_supply i) (List.enumerate 0 seedUsers))"
    "list_all (\<lambda>(i, u). su_Role u \<noteq> '''' \<and> entry_ok (lib_bcrypt demo_libs) (ss_salt demo_supply i) (ss_id demo_supply i) u (fresh_db example_pg))
       (List.enumerate 0 seedUsers)"
    by code_simp+
  show ?thesis unfolding run_ok_def using 1 rfc4122.text_not_empty by (simp add: list_all_iff)
qed

lemma seed_idempotent_witness:
  "seed_main (lib_bcrypt demo_libs) uuid_rfc4122 demo_supply (seed_main (lib_bcrypt demo_libs) uuid_rfc4122 demo_supply (fresh_db example_pg))
   = seed_main (lib_bcrypt demo_libs) uuid_rfc4122 demo_supply (fresh_db example_pg)"
  using seed_idempotent [OF demo_run_ok refl] by blast

lemma seeded_access_exact_witness:
  "table_decides (policy_of (seed_main (lib_bcrypt demo_libs) uuid_rfc4122 demo_supply (fresh_db example_pg)))
     (uu_String uuid_rfc4122 2) ''users'' ''delete'' = (True, None) \<and>
   table_decides (policy_of (seed_main (lib_bcrypt demo_libs) uuid_rfc4122 demo_supply (fresh_db example_pg)))
     (uu_String uuid_rfc4122 3) ''users'' ''delete'' = (False, None)"
proof -
  have i: "(1::nat) < length seedUsers" "(2::nat) < length seedUsers" using seed_data(3) by simp_all
  have r: "su_Role (seedUsers ! 1) = ''admin''" "su_Role (seedUsers ! 2) = ''viewer''"
    "list_ex (\<lambda>(r, o', a). r = ''admin'' \<and> (o' = ''*'' \<or> ''users'' = o') \<and> (a = ''*'' \<or> ''delete'' = a)) seedPermissions"
    "\<not> list_ex (\<lambda>(r, o', a). r = ''viewer'' \<and> (o' = ''*'' \<or> ''users'' = o') \<and> (a = ''*'' \<or> ''delete'' = a)) seedPermissions"
    by code_simp+
  have ids: "ss_id demo_supply 1 = 2" "ss_id demo_supply 2 = 3" by (simp_all add: demo_supply_def)
  show ?thesis
    using seeded_access_exact [OF rfc4122.uuid_lib_axioms demo_run_ok i(1), of "''users''" "''delete''"]
      seeded_access_exact [OF rfc4122.uuid_lib_axioms demo_run_ok i(2), of "''users''" "''delete''"]
    unfolding r(1,2) ids using r(3,4) by simp
qed

text \<open>
  The superadmin account holds the role \<^verbatim>\<open>superadmin\<close> and no other. Its wildcard permission opens every route that
  requires a permission, but the job routes require the role \<^verbatim>\<open>admin\<close> by name: for this account the guard of these
  routes answers 403.
\<close>

lemma superadmin_cannot_dispatch:
  assumes "uuid_lib U" and "run_ok B U sp (List.enumerate 0 seedUsers) (fresh_db p)"
    and "g_rules (enforcer a) = pt_g (policy_of (seed_main B U sp (fresh_db p)))" and "GetUserID c = uu_String U (ss_id sp 0)"
  shows "RequireRole (casbin_authorizer rbac_api) ''admin'' next (a, w) c = with_state (a, w) (Forbidden c ''insufficient role'')"
proof -
  let ?ius = "List.enumerate 0 seedUsers"
  have iu: "(0, seedUsers ! 0) \<in> set ?ius" "su_Role (seedUsers ! 0) = ''superadmin''"
    using seed_data(3) by (simp_all add: in_set_enumerate_eq seedUsers_def seed_user_of_def)
  have inj: "inj (uu_String U)" using uuid_lib.text_inj [OF assms(1)] by (simp add: inj_def)
  have "distinct (map (uu_String U) (map (\<lambda>(i, u). ss_id sp i) ?ius))"
    using assms(2) inj by (subst distinct_map) (auto simp: run_ok_def intro: inj_on_subset)
  then have "distinct (map (\<lambda>iu. uu_String U (ss_id sp (fst iu))) ?ius)" by (simp add: o_def case_prod_unfold)
  from roles_of_links [OF this iu(1), of "\<lambda>iu. su_Role (snd iu)"]
  have "roles_of (g_rules (enforcer a)) (uu_String U (ss_id sp 0)) = [''superadmin'']"
    by (simp add: assms(3) fresh_policy [OF assms(1,2)] iu(2))
  then show ?thesis
    using assms(4) uuid_lib.text_not_empty [OF assms(1)]
    by (simp add: RequireRole_def casbin_authorizer_def HasRoleForUser_def rbac_api_def)
qed

end
