(* ===== verification/App.thy ===== *)
theory App
  imports Config Observe Rate_Limit Queue Storage Sse Jobs Watchers Health
begin

text \<open>
  The application: \<^verbatim>\<open>src/internal/platform/app/app.go\<close>, the HTTP server of \<^verbatim>\<open>src/internal/platform/http/server.go\<close>, the
  CORS settings of \<^verbatim>\<open>middleware/cors.go\<close>, the connection pool of \<^verbatim>\<open>database/postgres.go\<close>, and \<^verbatim>\<open>src/cmd/api/main.go\<close>.
  The calls that open connections are parameters, the record \<open>boot_env\<close>; the state of the host (the AMQP client and
  the file system) is threaded through them. A panic during the start is an outcome of its own.
\<close>

section \<open>Connections\<close>

record pool_config =
  pc_MaxConns :: int
  pc_MinConns :: int
  pc_MaxConnLifetime :: int
  pc_MaxConnIdleTime :: int
  pc_HealthCheckPeriod :: int

record pgx_api =
  pgx_ParseConfig :: "string \<Rightarrow> go_error option"
  pgx_NewWithConfig :: "string \<Rightarrow> pool_config \<Rightarrow> go_error option"
  pgx_Ping :: "string \<Rightarrow> go_error option"

text \<open>A pool is its connection string and its settings.\<close>

definition NewPostgresPool :: "pgx_api \<Rightarrow> DatabaseConfig \<Rightarrow> go_error + string \<times> pool_config" where
  "NewPostgresPool pgx cfg =
     (case pgx_ParseConfig pgx (DSN cfg) of
        Some e \<Rightarrow> Inl (errorf_w ''failed to parse database config'' e)
      | None \<Rightarrow>
          let pc = \<lparr>pc_MaxConns = int32 (db_MaxOpenConns cfg), pc_MinConns = int32 (db_MaxIdleConns cfg),
                    pc_MaxConnLifetime = int64 (db_ConnMaxLifetime cfg * second), pc_MaxConnIdleTime = 30 * minute,
                    pc_HealthCheckPeriod = minute\<rparr> in
          (case pgx_NewWithConfig pgx (DSN cfg) pc of
             Some e \<Rightarrow> Inl (errorf_w ''failed to create connection pool'' e)
           | None \<Rightarrow>
               (case pgx_Ping pgx (DSN cfg) of
                  Some e \<Rightarrow> Inl (errorf_w ''failed to ping database'' e)
                | None \<Rightarrow> Inr (DSN cfg, pc))))"

record redis_conn =
  rc_Addr :: string
  rc_Password :: string
  rc_DB :: int

definition NewRedisCache :: "(redis_conn \<Rightarrow> go_error option) \<Rightarrow> string \<Rightarrow> string \<Rightarrow> int \<Rightarrow> go_error + redis_conn" where
  "NewRedisCache ping addr password db =
     (let client = \<lparr>rc_Addr = addr, rc_Password = password, rc_DB = db\<rparr> in
      case ping client of
        Some e \<Rightarrow> Inl (errorf_w ''failed to connect to redis'' e)
      | None \<Rightarrow> Inr client)"

text \<open>The S3 client: the region and credentials it was configured with, the endpoint of its own if there is one, and the bucket.\<close>

record s3_client =
  sc_region :: string
  sc_credentials :: "string \<times> string"
  sc_endpoint :: "string option"
  sc_path_style :: bool
  sc_bucket :: string

definition NewS3Storage :: "(string \<Rightarrow> string \<times> string \<Rightarrow> go_error option) \<Rightarrow> S3Storage \<Rightarrow> go_error + s3_client" where
  "NewS3Storage loadConfig cfg =
     (let creds = (s3_AccessKey cfg, s3_SecretKey cfg) in
      case loadConfig (s3_Region cfg) creds of
        Some e \<Rightarrow> Inl (errorf_w ''failed to load aws config'' e)
      | None \<Rightarrow>
          Inr \<lparr>sc_region = s3_Region cfg, sc_credentials = creds,
               sc_endpoint = (if s3_Endpoint cfg \<noteq> '''' then Some (s3_Endpoint cfg) else None),
               sc_path_style = (s3_Endpoint cfg \<noteq> ''''), sc_bucket = s3_Bucket cfg\<rparr>)"

section \<open>The HTTP server\<close>

record fiber_config =
  fc_ReadTimeout :: int
  fc_WriteTimeout :: int
  fc_IdleTimeout :: int
  fc_EnableTrustedProxyCheck :: bool
  fc_TrustedProxies :: "string list"
  fc_ProxyHeader :: string
  fc_EnableStackTrace :: bool

definition NewServer :: "ServerConfig \<Rightarrow> bool \<Rightarrow> fiber_config" where
  "NewServer cfg isProduction =
     (let fiberCfg = \<lparr>fc_ReadTimeout = int64 (srv_ReadTimeout cfg * second), fc_WriteTimeout = int64 (srv_WriteTimeout cfg * second),
            fc_IdleTimeout = int64 (srv_IdleTimeout cfg * second), fc_EnableTrustedProxyCheck = False, fc_TrustedProxies = [],
            fc_ProxyHeader = '''', fc_EnableStackTrace = \<not> isProduction\<rparr>
      in if srv_TrustedProxies cfg \<noteq> []
         then fiberCfg\<lparr>fc_EnableTrustedProxyCheck := True, fc_TrustedProxies := srv_TrustedProxies cfg,
                fc_ProxyHeader := (if srv_ProxyHeader cfg = '''' then ''X-Forwarded-For'' else srv_ProxyHeader cfg)\<rparr>
         else fiberCfg)"

definition server_addr :: "ServerConfig \<Rightarrow> string" where
  "server_addr cfg = srv_Host cfg @ '':'' @ itoa (srv_Port cfg)"

section \<open>CORS\<close>

record cors_settings =
  co_AllowOrigins :: string
  co_AllowMethods :: string
  co_AllowHeaders :: string
  co_AllowCredentials :: bool
  co_ExposeHeaders :: string
  co_MaxAge :: int

definition DefaultCORSConfig :: cors_settings where
  "DefaultCORSConfig = \<lparr>co_AllowOrigins = ''*'', co_AllowMethods = ''GET,POST,PUT,PATCH,DELETE,OPTIONS'',
     co_AllowHeaders = ''Origin,Content-Type,Accept,Authorization,X-Request-ID'', co_AllowCredentials = False,
     co_ExposeHeaders = ''X-Request-ID'', co_MaxAge = 86400\<rparr>"

definition cors_of :: "Config \<Rightarrow> cors_settings" where
  "cors_of cfg =
     (let c0 = DefaultCORSConfig; cc = cfg_CORS cfg;
          c1 = (if cors_AllowOrigins cc \<noteq> '''' then c0\<lparr>co_AllowOrigins := cors_AllowOrigins cc\<rparr>
                else if IsDevelopment cfg then c0\<lparr>co_AllowOrigins := ''*''\<rparr> else c0);
          c2 = (if cors_AllowMethods cc \<noteq> '''' then c1\<lparr>co_AllowMethods := cors_AllowMethods cc\<rparr> else c1);
          c3 = (if cors_AllowHeaders cc \<noteq> '''' then c2\<lparr>co_AllowHeaders := cors_AllowHeaders cc\<rparr> else c2)
      in c3\<lparr>co_AllowCredentials := cors_AllowCredentials cc\<rparr>)"

section \<open>Start\<close>

record ('e, 'c, 'h, 't) boot_env =
  be_exporter :: "string \<Rightarrow> go_error option"
  be_resource :: "string \<Rightarrow> string \<Rightarrow> string \<Rightarrow> go_error option"
  be_pgx :: pgx_api
  be_redis_ping :: "redis_conn \<Rightarrow> go_error option"
  be_amqp :: "('c, 'h, 't) amqp_api"
  be_aws :: "string \<Rightarrow> string \<times> string \<Rightarrow> go_error option"
  be_mime :: "string \<Rightarrow> string"
  be_enforcer :: "'e enforcer_api"
  be_casbin :: "'e casbin_env"
  be_cors_panic :: "cors_settings \<Rightarrow> string option"

datatype storage_adapter = S3Adapter s3_client | LocalAdapter local_dir | NilLocalAdapter

datatype middleware =
    Recover bool
  | RequestIDM
  | SecurityHeadersM bool
  | CORSM cors_settings
  | TracingM string
  | PrometheusM
  | LoggerM
  | RateLimitM RateLimitConfig bool

datatype module = DocsModule | HealthModule int | UserModule | AuthModule | RoleModule | StorageModule | SSEModule | JobModule

record ('e, 'c, 'h) App =
  ap_Config :: Config
  ap_Logger :: slog_logger
  ap_DB :: "string \<times> pool_config"
  ap_Server :: fiber_config
  ap_Cache :: "redis_conn option"
  ap_Queue :: "('c, 'h) RabbitMQ option"
  ap_Storage :: storage_adapter
  ap_SSE :: "Broker option"
  ap_Auditor :: bool
  ap_Authorizer :: "('e, unit) casbin_node option"
  ap_Email :: "SMTPConfig option"
  ap_metricsServer :: "string option"
  ap_tracerShutdown :: "tracer_stop option"
  ap_middleware :: "middleware list"
  ap_modules :: "module list"

text \<open>
  An adapter field that is \<^const>\<open>None\<close> (or, for the auditor, false) holds the no-op adapter. The storage is a nil
  pointer when both the S3 client and the local fallback could not be made.
\<close>

datatype ('e, 'c, 'h) booted = Panics string | Fails go_error | Starts "('e, 'c, 'h) App"

definition app_logger :: "Config \<Rightarrow> slog_logger" where
  "app_logger cfg = logger_New (if IsDevelopment cfg then ''debug'' else ''info'') ''json''"

definition tracer_of :: "('e, 'c, 'h, 't) boot_env \<Rightarrow> Config \<Rightarrow> tracer_stop option" where
  "tracer_of be cfg =
     (let tr = obs_Tracing (cfg_Observability cfg) in
      if trc_Enabled tr then
        (case InitTracer (be_exporter be) (be_resource be) \<lparr>tc_ServiceName = app_Name (cfg_App cfg), tc_ServiceVersion = ''1.0.0'',
              tc_Environment = app_Env (cfg_App cfg), tc_Endpoint = trc_Endpoint tr, tc_Enabled = True\<rparr> of
           Inl _ \<Rightarrow> None
         | Inr stop \<Rightarrow> Some stop)
      else None)"

definition cache_of :: "('e, 'c, 'h, 't) boot_env \<Rightarrow> Config \<Rightarrow> redis_conn option" where
  "cache_of be cfg =
     (let rc = cfg_Redis cfg in
      if rds_Enabled rc then
        (case NewRedisCache (be_redis_ping be) (redis_Addr rc) (rds_Password rc) (rds_DB rc) of Inl _ \<Rightarrow> None | Inr r \<Rightarrow> Some r)
      else None)"

definition queue_of :: "('e, 'c, 'h, 't) boot_env \<Rightarrow> Config \<Rightarrow> 't \<Rightarrow> ('c, 'h) RabbitMQ option \<times> 't" where
  "queue_of be cfg t =
     (let rq = cfg_RabbitMQ cfg in
      if rmq_Enabled rq then
        (case newRabbitMQ (be_amqp be) (rmq_URL rq) \<lparr>op_PrefetchCount = rmq_PrefetchCount rq, op_MaxReconnectTries = 0,
              op_ReconnectBaseDelay = 0, op_ReconnectMaxDelay = 0\<rparr> t of
           (Inl _, t') \<Rightarrow> (None, t')
         | (Inr q, t') \<Rightarrow> (Some q, t'))
      else (None, t))"

definition storage_of :: "('e, 'c, 'h, 't) boot_env \<Rightarrow> Config \<Rightarrow> fs \<Rightarrow> (go_error + storage_adapter) \<times> fs" where
  "storage_of be cfg d =
     (let sc = cfg_Storage cfg; base = lst_BasePath (stc_Local sc) in
      if stc_Mode sc = ''s3'' then
        (case NewS3Storage (be_aws be) (stc_S3 sc) of
           Inr client \<Rightarrow> (Inr (S3Adapter client), d)
         | Inl _ \<Rightarrow>
             (case NewLocalStorage (be_mime be) base '''' d of
                (Inl _, d') \<Rightarrow> (Inr NilLocalAdapter, d')
              | (Inr l, d') \<Rightarrow> (Inr (LocalAdapter l), d')))
      else
        (case NewLocalStorage (be_mime be) base '''' d of
           (Inl e, d') \<Rightarrow> (Inl e, d')
         | (Inr l, d') \<Rightarrow> (Inr (LocalAdapter l), d')))"

definition authorizer_of :: "('e, 'c, 'h, 't) boot_env \<Rightarrow> Config \<Rightarrow> go_error + ('e, unit) casbin_node option" where
  "authorizer_of be cfg =
     (if azc_Enabled (cfg_Authorization cfg) then
        (case NewAdapter (be_enforcer be) (be_casbin be) \<lparr>cc_DatabaseURL = DSN (cfg_Database cfg), cc_ModelText = '''',
              cc_ReloadInterval = 0, cc_DecisionCacheSize = 0\<rparr> of
           Inl e \<Rightarrow> Inl (errorf_w ''authorization enabled but Casbin init failed'' e)
         | Inr a \<Rightarrow> Inr (Some \<lparr>nd_adapter = a, nd_watcher = None, nd_ticker = NotStarted, nd_cancelled = False,
                               nd_closed = False, nd_closeErr = None\<rparr>))
      else Inr None)"

definition email_of :: "Config \<Rightarrow> SMTPConfig option" where
  "email_of cfg =
     (let e = cfg_Email cfg in
      if eml_Enabled e then Some \<lparr>sp_Host = eml_Host e, sp_Port = eml_Port e, sp_Username = eml_Username e,
        sp_Password = eml_Password e, sp_From = eml_From e\<rparr> else None)"

definition rate_limit_of :: "Config \<Rightarrow> middleware list" where
  "rate_limit_of cfg =
     (let rl = cfg_RateLimit cfg in
      if rlc_Enabled rl then
        (let w = int64 (rlc_WindowSec rl * second);
             rlWindow = (if w \<le> 0 then minute else w);
             rlMax = (if rlc_Max rl \<le> 0 then 100 else rlc_Max rl)
         in [RateLimitM \<lparr>rl_Max = rlMax, rl_Window = rlWindow, rl_FailClosed = False\<rparr> (rds_Enabled (cfg_Redis cfg))])
      else [])"

text \<open>The middleware in the order of the calls to \<^verbatim>\<open>Use\<close>; the server has installed \<^verbatim>\<open>recover\<close> before.\<close>

definition middleware_of :: "Config \<Rightarrow> middleware list" where
  "middleware_of cfg =
     [Recover (\<not> IsProduction cfg), RequestIDM, SecurityHeadersM (IsProduction cfg), CORSM (cors_of cfg)] @
     (if trc_Enabled (obs_Tracing (cfg_Observability cfg)) then [TracingM (app_Name (cfg_App cfg))] else []) @
     (if met_Enabled (obs_Metrics (cfg_Observability cfg)) then [PrometheusM] else []) @
     [LoggerM] @ rate_limit_of cfg"

definition metrics_addr :: "Config \<Rightarrow> string option" where
  "metrics_addr cfg =
     (let m = obs_Metrics (cfg_Observability cfg) in
      if met_Enabled m then Some (''127.0.0.1:'' @ itoa (met_Port m)) else None)"

definition modules_of :: "Config \<Rightarrow> module list" where
  "modules_of cfg =
     [DocsModule, HealthModule (ReadinessTimeout (cfg_Health cfg)), UserModule, AuthModule,
      RoleModule, StorageModule, SSEModule, JobModule]"

definition start_authorizer :: "('e, unit) casbin_node option \<Rightarrow> go_error option \<times> ('e, unit) casbin_node option" where
  "start_authorizer az =
     (case az of
        None \<Rightarrow> (None, None)
      | Some n \<Rightarrow> map_prod id Some (adapter_Start \<lparr>w_SetUpdateCallback = Pair None, w_announce = (\<lambda>_ w. Inr (None, w)), w_Close = Inr\<rparr>
          (Pair None) n))"

definition app_New :: "('e, 'c, 'h, 't) boot_env \<Rightarrow> Config \<Rightarrow> 't \<times> fs \<Rightarrow> ('e, 'c, 'h) booted \<times> 't \<times> fs" where
  "app_New be cfg w =
     (case w of (t, d) \<Rightarrow>
     (case config_Validate cfg of
        Some e \<Rightarrow> (Fails (errorf_w ''config validation failed'' e), t, d)
      | None \<Rightarrow>
     (case NewPostgresPool (be_pgx be) (cfg_Database cfg) of
        Inl e \<Rightarrow> (Fails e, t, d)
      | Inr pool \<Rightarrow>
     (case queue_of be cfg t of (q, t1) \<Rightarrow>
     (case storage_of be cfg d of
        (Inl e, d1) \<Rightarrow> (Fails e, t1, d1)
      | (Inr st, d1) \<Rightarrow>
     (case authorizer_of be cfg of
        Inl e \<Rightarrow> (Fails e, t1, d1)
      | Inr az \<Rightarrow>
     (case be_cors_panic be (cors_of cfg) of
        Some p \<Rightarrow> (Panics p, t1, d1)
      | None \<Rightarrow>
     (case start_authorizer az of
        (Some e, _) \<Rightarrow> (Fails (errorf_w ''authorizer start'' e), t1, d1)
      | (None, az') \<Rightarrow>
          (Starts \<lparr>ap_Config = cfg, ap_Logger = app_logger cfg, ap_DB = pool, ap_Server = NewServer (cfg_Server cfg) (IsProduction cfg),
             ap_Cache = cache_of be cfg, ap_Queue = q, ap_Storage = st,
             ap_SSE = (if ssec_Enabled (cfg_SSE cfg) then Some (NewBroker 100) else None),
             ap_Auditor = auc_Enabled (cfg_Audit cfg), ap_Authorizer = az', ap_Email = email_of cfg,
             ap_metricsServer = metrics_addr cfg, ap_tracerShutdown = tracer_of be cfg, ap_middleware = middleware_of cfg,
             ap_modules = modules_of cfg\<rparr>, t1, d1)))))))))"

text \<open>\<^verbatim>\<open>main\<close>: a failure to load or to start ends the process with a message.\<close>

definition config_path :: "env \<Rightarrow> string" where
  "config_path env = (let p = env ''CONFIG_PATH'' in if p = '''' then ''config/config.default.json'' else p)"

definition api_main ::
  "('e, 'c, 'h, 't) boot_env \<Rightarrow> env \<Rightarrow> (string \<Rightarrow> go_error + string) \<Rightarrow> 't \<times> fs \<Rightarrow> ('e, 'c, 'h) booted \<times> 't \<times> fs" where
  "api_main be env readFile w =
     (case Load env readFile (config_path env) of
        Inl e \<Rightarrow> (Fails e, w)
      | Inr cfg \<Rightarrow> app_New be cfg w)"

section \<open>The request pipeline\<close>

text \<open>
  What a request meets at run time beside the configuration: a new identifier, the trace identifier, what the
  framework knows of the request, clock readings, the CORS middleware of the framework, and the backend of the
  limiter. The state is the observations, the limiter and the state of the service.
\<close>

record ('b, 'w) runtime =
  rt_uuid :: string
  rt_traceID :: string
  rt_info :: request_info
  rt_start :: go_time
  rt_finish :: go_time
  rt_log :: slog_logger
  rt_cors :: "cors_settings \<Rightarrow> (observations \<times> 'b \<times> 'w) handler \<Rightarrow> (observations \<times> 'b \<times> 'w) handler"
  rt_allow :: "bool \<Rightarrow> go_time \<Rightarrow> string \<Rightarrow> int \<Rightarrow> int \<Rightarrow> 'b \<Rightarrow> allow_result \<times> 'b"

text \<open>The limiter works on its own part of the state.\<close>

definition limited ::
  "(('b \<times> observations \<times> 'w) handler \<Rightarrow> ('b \<times> observations \<times> 'w) handler) \<Rightarrow>
   (observations \<times> 'b \<times> 'w) handler \<Rightarrow> (observations \<times> 'b \<times> 'w) handler" where
  "limited mw next s c =
     (case s of (o', b, w) \<Rightarrow>
      case mw (\<lambda>s1 c1. case s1 of (b1, o1, w1) \<Rightarrow> case next (o1, b1, w1) c1 of (e, (o2, b2, w2), c2) \<Rightarrow> (e, (b2, o2, w2), c2)) (b, o', w) c of
        (e, (b', o'', w'), c') \<Rightarrow> (e, (o'', b', w'), c'))"

text \<open>The model has no panics of handlers, so \<^verbatim>\<open>recover\<close> passes the request on.\<close>

primrec mw_handler :: "('b, 'w) runtime \<Rightarrow> middleware \<Rightarrow> (observations \<times> 'b \<times> 'w) handler \<Rightarrow> (observations \<times> 'b \<times> 'w) handler" where
  "mw_handler rt (Recover trace) next = next"
| "mw_handler rt RequestIDM next = RequestID (rt_uuid rt) next"
| "mw_handler rt (SecurityHeadersM isProd) next = SecurityHeaders isProd next"
| "mw_handler rt (CORSM s) next = rt_cors rt s next"
| "mw_handler rt (TracingM name) next = TracingMiddleware (rt_info rt) (rt_traceID rt) next"
| "mw_handler rt PrometheusM next = PrometheusMiddleware (rt_info rt) (rt_start rt) (rt_finish rt) next"
| "mw_handler rt LoggerM next = LoggerMiddleware (rt_log rt) (rt_info rt) (rt_start rt) (rt_finish rt) next"
| "mw_handler rt (RateLimitM cfg useRedis) next = limited (RateLimit (rt_start rt) cfg None (rt_allow rt useRedis)) next"

definition route_handler_of :: "'w handler \<Rightarrow> (observations \<times> 'b \<times> 'w) handler" where
  "route_handler_of h s c = (case s of (o', b, w) \<Rightarrow> case h w c of (e, w', c') \<Rightarrow> (e, (o', b, w'), c'))"

definition app_request :: "('b, 'w) runtime \<Rightarrow> Config \<Rightarrow> 'w handler \<Rightarrow> observations \<times> 'b \<times> 'w \<Rightarrow> fiber_ctx \<Rightarrow> (observations \<times> 'b \<times> 'w) \<times> fiber_ctx" where
  "app_request rt cfg h = serve (foldr (mw_handler rt) (middleware_of cfg) (route_handler_of h))"

section \<open>Headers\<close>

definition keeps_headers :: "string set \<Rightarrow> 's handler \<Rightarrow> bool" where
  "keeps_headers K h \<longleftrightarrow> (\<forall>w c e w' c' k. h w c = (e, w', c') \<longrightarrow> k \<in> K \<longrightarrow> res_headers c' k = res_headers c k)"

text \<open>The headers that the pipeline sets for every response, by their lower-case names.\<close>

definition pipeline_headers :: "string set" where
  "pipeline_headers = insert ''x-request-id'' ((to_lower \<circ> fst) ` set (security_headers True))"

lemma keeps_headersD: "keeps_headers K h \<Longrightarrow> h w c = (e, w', c') \<Longrightarrow> k \<in> K \<Longrightarrow> res_headers c' k = res_headers c k"
  unfolding keeps_headers_def by blast

lemma pipeline_header_names:
  "pipeline_headers = {''x-request-id'', ''x-content-type-options'', ''x-frame-options'', ''x-xss-protection'',
     ''content-security-policy'', ''referrer-policy'', ''permissions-policy'', ''strict-transport-security''}"
  unfolding pipeline_headers_def by code_simp

lemma own_headers:
  "to_lower ''X-Trace-ID'' \<notin> pipeline_headers" "to_lower ''X-RateLimit-Reset'' \<notin> pipeline_headers"
  "to_lower ''X-RateLimit-Remaining'' \<notin> pipeline_headers" "to_lower ''X-RateLimit-Limit'' \<notin> pipeline_headers"
  unfolding pipeline_header_names by code_simp+

lemma ctx_Set_other: "to_lower n \<noteq> k \<Longrightarrow> res_headers (ctx_Set n v c) k = res_headers c k"
  by (simp add: ctx_Set_def)

lemma ErrorHandler_headers: "res_headers (snd (ErrorHandler c err)) = res_headers c"
  by (simp add: ErrorHandler_def Fail_def send_json_def split: option.split go_error.split)

lemma Fail_headers: "res_headers (snd (Fail c err)) = res_headers c"
  by (simp add: Fail_def send_json_def split: option.split)

lemma tracing_keeps:
  assumes "keeps_headers pipeline_headers next"
  shows "keeps_headers pipeline_headers (TracingMiddleware ri t next)"
  unfolding keeps_headers_def
proof (intro allI impI)
  fix w c e w' c' k
  assume t: "TracingMiddleware ri t next w c = (e, w', c')" and k: "k \<in> pipeline_headers"
  obtain err o1 w1 c1 where n: "next w (ctx_Set ''X-Trace-ID'' t c) = (err, (o1, w1), c1)" by (metis prod.collapse)
  have "res_headers c1 k = res_headers (ctx_Set ''X-Trace-ID'' t c) k" using keeps_headersD [OF assms n k] .
  moreover have "to_lower ''X-Trace-ID'' \<noteq> k" using own_headers(1) k by metis
  moreover have "c' = c1" using t n by (simp add: TracingMiddleware_def Let_def)
  ultimately show "res_headers c' k = res_headers c k" by (simp add: ctx_Set_other)
qed

lemma prometheus_keeps: "keeps_headers K next \<Longrightarrow> keeps_headers K (PrometheusMiddleware ri s f next)"
  unfolding keeps_headers_def PrometheusMiddleware_def by (fastforce simp: Let_def split: prod.splits)

lemma logger_keeps: "keeps_headers K next \<Longrightarrow> keeps_headers K (LoggerMiddleware l ri s f next)"
  unfolding keeps_headers_def LoggerMiddleware_def by (fastforce simp: Let_def split: prod.splits)

lemma limit_keeps:
  assumes "keeps_headers pipeline_headers next"
  shows "keeps_headers pipeline_headers (RateLimit now cfg kf allow next)"
  unfolding keeps_headers_def
proof (intro allI impI)
  fix w c e w' c' k
  assume t: "RateLimit now cfg kf allow next w c = (e, w', c')" and k: "k \<in> pipeline_headers"
  have o: "to_lower ''X-RateLimit-Reset'' \<noteq> k" "to_lower ''X-RateLimit-Remaining'' \<noteq> k" "to_lower ''X-RateLimit-Limit'' \<noteq> k"
    using own_headers k by metis+
  have n: "res_headers (snd (snd (next w0 c0))) k = res_headers c0 k" for w0 c0
    using keeps_headersD [OF assms _ k] by (metis prod.collapse)
  have "c' = snd (snd (RateLimit now cfg kf allow next w c))" using t by simp
  also have "res_headers \<dots> k = res_headers c k"
    unfolding RateLimit_def Let_def
    by (simp add: n with_state_def Fail_headers ctx_Set_other [OF o(1)] ctx_Set_other [OF o(2)] ctx_Set_other [OF o(3)] split: prod.split)
  finally show "res_headers c' k = res_headers c k" .
qed

lemma limited_keeps:
  assumes "\<And>next. keeps_headers K next \<Longrightarrow> keeps_headers K (mw next)" and "keeps_headers K next"
  shows "keeps_headers K (limited mw next)"
proof -
  let ?n = "\<lambda>s1 c1. case s1 of (b1, o1, w1) \<Rightarrow> case next (o1, b1, w1) c1 of (e, (o2, b2, w2), c2) \<Rightarrow> (e, (b2, o2, w2), c2)"
  have "keeps_headers K ?n" using assms(2) unfolding keeps_headers_def by (fastforce split: prod.splits)
  from assms(1) [OF this] show ?thesis
    unfolding keeps_headers_def limited_def by (fastforce split: prod.splits)
qed

lemma route_keeps: "keeps_headers K h \<Longrightarrow> keeps_headers K (route_handler_of h)"
  unfolding keeps_headers_def route_handler_of_def by (fastforce split: prod.splits)

text \<open>
  What the pipeline relies on: the CORS middleware of the framework sets only its own headers, so it keeps those of
  the pipeline whenever the handler behind it does.
\<close>

definition cors_keeps :: "('b, 'w) runtime \<Rightarrow> bool" where
  "cors_keeps rt \<longleftrightarrow> (\<forall>s next. keeps_headers pipeline_headers next \<longrightarrow> keeps_headers pipeline_headers (rt_cors rt s next))"

definition inner :: "middleware \<Rightarrow> bool" where
  "inner m \<longleftrightarrow> (case m of RequestIDM \<Rightarrow> False | SecurityHeadersM _ \<Rightarrow> False | _ \<Rightarrow> True)"

lemma inner_keeps:
  assumes "cors_keeps rt" and "list_all inner ms" and "keeps_headers pipeline_headers h"
  shows "keeps_headers pipeline_headers (foldr (mw_handler rt) ms h)"
  using assms(2)
proof (induction ms)
  case (Cons m ms)
  then have k: "keeps_headers pipeline_headers (foldr (mw_handler rt) ms h)" and m: "inner m" by simp_all
  show ?case
    using m k assms(1) limited_keeps [OF limit_keeps k]
    by (cases m) (auto simp: inner_def cors_keeps_def tracing_keeps prometheus_keeps logger_keeps)
qed (simp add: assms(3))

lemma middleware_split:
  "\<exists>ms. middleware_of cfg = [Recover (\<not> IsProduction cfg), RequestIDM, SecurityHeadersM (IsProduction cfg)] @ ms \<and> list_all inner ms"
  by (auto simp: middleware_of_def rate_limit_of_def inner_def Let_def)

lemma security_headers_value:
  assumes "(k, v) \<in> set (security_headers b)"
  shows "map_of (rev (map (\<lambda>(k, v). (to_lower k, v)) (security_headers b))) (to_lower k) = Some v"
proof -
  have "distinct (map fst (rev (map (\<lambda>(k, v). (to_lower k, v)) (security_headers b))))"
    using security_headers_distinct [of b] by (simp add: rev_map [symmetric])
  moreover have "(to_lower k, v) \<in> set (rev (map (\<lambda>(k, v). (to_lower k, v)) (security_headers b)))"
    using assms by force
  ultimately show ?thesis by (rule map_of_is_SomeI)
qed

lemma security_headers_named:
  assumes "(k, v) \<in> set (security_headers b)"
  shows "to_lower k \<in> pipeline_headers" "to_lower k \<noteq> ''x-request-id''"
proof -
  have "set (security_headers b) \<subseteq> set (security_headers True)" by (auto simp: security_headers_def)
  with assms show "to_lower k \<in> pipeline_headers" unfolding pipeline_headers_def by (force simp: image_iff)
  have "list_all (\<lambda>(k, v). to_lower k \<noteq> ''x-request-id'') (security_headers True)" by code_simp
  with assms \<open>set (security_headers b) \<subseteq> _\<close> show "to_lower k \<noteq> ''x-request-id''" by (auto simp: list_all_iff)
qed

lemma request_id_name: "to_lower ''X-Request-ID'' = ''x-request-id''"
  by code_simp

lemma request_id_not_security: "''x-request-id'' \<notin> set (map fst (map (\<lambda>(k, v). (to_lower k, v)) (security_headers b)))"
  by (induction b) code_simp+

section \<open>Properties of the pipeline\<close>


definition demo_config :: Config where
  "demo_config = zero_Config\<lparr>cfg_App := \<lparr>app_Name = ''goscratch'', app_Env = ''production''\<rparr>,
     cfg_RateLimit := \<lparr>rlc_Enabled = True, rlc_Max = 1, rlc_WindowSec = 60\<rparr>\<rparr>"

definition no_observations :: observations where
  "no_observations = \<lparr>ob_log = [], ob_counters = (\<lambda>_ _. 0), ob_histograms = (\<lambda>_ _. []), ob_active = 0, ob_spans = []\<rparr>"

definition demo_runtime :: "(memoryBackend, unit) runtime" where
  "demo_runtime = \<lparr>rt_uuid = ''req-1'', rt_traceID = ''t-1'', rt_info = \<lparr>ri_Method = ''GET'', ri_Path = ''/healthz/live'',
      ri_Route = ''/healthz/live'', ri_URL = ''/healthz/live'', ri_Hostname = ''localhost''\<rparr>, rt_start = 0, rt_finish = 1,
     rt_log = app_logger demo_config, rt_cors = (\<lambda>s next. next), rt_allow = (\<lambda>useRedis. memory_Allow)\<rparr>"


text \<open>
  The global limiter counts by address. It runs before the routes check the token, so no user is known yet, and the
  key is the address of the client whatever token the request carries.
\<close>

lemma limiter_counts_by_address:
  assumes "locals c ''user_id'' = None"
  shows "defaultKeyFunc (fold (\<lambda>(k, v). ctx_Set k v) (security_headers b)
      (setContextValue key_request_id rid (ctx_Locals ''request_id'' (LString rid) (ctx_Set ''X-Request-ID'' rid c)))) = ''ip:'' @ req_ip c"
proof -
  have "locals (fold (\<lambda>(k, v). ctx_Set k v) kvs c) = locals c \<and> req_ip (fold (\<lambda>(k, v). ctx_Set k v) kvs c) = req_ip c" for kvs c
    by (induction kvs arbitrary: c) (auto simp: ctx_Set_def)
  then show ?thesis using assms by (simp add: defaultKeyFunc_def setContextValue_def ctx_Locals_def ctx_Set_def)
qed

text \<open>
  With Redis configured but not reachable at the start the limiter runs on the no-op cache and lets every request
  through.
\<close>

lemma limiter_off_without_redis:
  assumes "rt_allow rt True = redis_Allow NoOpCache"
  shows "\<exists>c1. mw_handler rt (RateLimitM rl True) next s c = next s c1"
  using assms(1)
  by (cases s) (auto simp: limited_def RateLimit_def redis_Allow_def NoOpCache_def Let_def split: prod.split, metis)

section \<open>Properties of the start\<close>

lemma authorizer_starts:
  assumes "authorizer_of be cfg = Inr az"
  shows "fst (start_authorizer az) = None \<and> (snd (start_authorizer az) = None \<longleftrightarrow> \<not> azc_Enabled (cfg_Authorization cfg)) \<and>
    (\<forall>n. snd (start_authorizer az) = Some n \<longrightarrow> ticking n \<and> \<not> nd_cancelled n \<and>
       (\<exists>en. e_LoadPolicy (be_enforcer be) en = (None, enforcer (nd_adapter n))))"
proof (cases "azc_Enabled (cfg_Authorization cfg)")
  case True
  then obtain a where a: "NewAdapter (be_enforcer be) (be_casbin be) \<lparr>cc_DatabaseURL = DSN (cfg_Database cfg), cc_ModelText = '''',
        cc_ReloadInterval = 0, cc_DecisionCacheSize = 0\<rparr> = Inr a"
    and az: "az = Some \<lparr>nd_adapter = a, nd_watcher = None, nd_ticker = NotStarted, nd_cancelled = False, nd_closed = False, nd_closeErr = None\<rparr>"
    using assms by (auto simp: authorizer_of_def split: sum.splits)
  obtain en where "e_LoadPolicy (be_enforcer be) en = (None, enforcer a)" and r: "reloadInterval a = 0"
    using a by (auto simp: NewAdapter_def Let_def split: option.splits sum.splits prod.splits)
  then show ?thesis
    using True az by (auto simp: start_authorizer_def adapter_Start_def launch_def NewTicker_def ticking_def Let_def)
next
  case False
  with assms show ?thesis by (auto simp: authorizer_of_def start_authorizer_def)
qed

definition local_storage_ok :: "('e, 'c, 'h, 't) boot_env \<Rightarrow> Config \<Rightarrow> fs \<Rightarrow> bool" where
  "local_storage_ok be cfg d \<longleftrightarrow> \<not> isl (fst (NewLocalStorage (be_mime be) (lst_BasePath (stc_Local (cfg_Storage cfg))) '''' d))"

lemma storage_ok: "\<not> isl (fst (storage_of be cfg d)) \<longleftrightarrow> stc_Mode (cfg_Storage cfg) = ''s3'' \<or> local_storage_ok be cfg d"
  by (auto simp: storage_of_def local_storage_ok_def Let_def split: sum.splits prod.splits)

text \<open>What has to work for the service to start.\<close>

definition can_start :: "('e, 'c, 'h, 't) boot_env \<Rightarrow> Config \<Rightarrow> fs \<Rightarrow> bool" where
  "can_start be cfg d \<longleftrightarrow> config_Validate cfg = None \<and> \<not> isl (NewPostgresPool (be_pgx be) (cfg_Database cfg)) \<and>
     (stc_Mode (cfg_Storage cfg) = ''s3'' \<or> local_storage_ok be cfg d) \<and> \<not> isl (authorizer_of be cfg) \<and>
     be_cors_panic be (cors_of cfg) = None"

lemma app_New_cases:
  "(\<exists>a. fst (app_New be cfg (t, d)) = Starts a) \<longleftrightarrow> can_start be cfg d"
  "fst (app_New be cfg (t, d)) = Starts a \<Longrightarrow> \<exists>az. authorizer_of be cfg = Inr az \<and> ap_Authorizer a = snd (start_authorizer az) \<and>
     ap_Config a = cfg \<and> ap_middleware a = middleware_of cfg \<and> ap_metricsServer a = metrics_addr cfg"
proof -
  show "(\<exists>a. fst (app_New be cfg (t, d)) = Starts a) \<longleftrightarrow> can_start be cfg d"
    unfolding can_start_def storage_ok [symmetric]
    by (cases "storage_of be cfg d"; cases "authorizer_of be cfg")
       (auto simp: app_New_def dest!: authorizer_starts split: option.split sum.splits prod.split)
  show "fst (app_New be cfg (t, d)) = Starts a \<Longrightarrow> \<exists>az. authorizer_of be cfg = Inr az \<and> ap_Authorizer a = snd (start_authorizer az) \<and>
     ap_Config a = cfg \<and> ap_middleware a = middleware_of cfg \<and> ap_metricsServer a = metrics_addr cfg"
    by (auto simp: app_New_def split: option.splits sum.splits prod.splits)
qed

text \<open>
  C9. The service starts exactly when it may. The process starts serving exactly when the configuration loads and
  passes the startup check, the database answers, the local storage directory can be made (unless S3 is the mode),
  the Casbin adapter can be built if authorization is enabled, and the CORS settings are accepted. A service that
  starts has a secret of at least 32 bytes that is not the placeholder; it runs the no-op authorizer only if
  authorization is disabled, and otherwise a Casbin adapter whose policy was loaded and whose reload goroutine
  runs; and its metrics listen on the loopback address only.
\<close>

theorem boot_fails_closed:
  "((\<exists>a. fst (api_main be env readFile (t, d)) = Starts a) \<longleftrightarrow>
     (\<exists>cfg. Load env readFile (config_path env) = Inr cfg \<and> can_start be cfg d)) \<and>
   (\<forall>a. fst (api_main be env readFile (t, d)) = Starts a \<longrightarrow>
      32 \<le> length (jwt_Secret (cfg_JWT (ap_Config a))) \<and> jwt_Secret (cfg_JWT (ap_Config a)) \<noteq> PlaceholderJWTSecret \<and>
      (ap_Authorizer a = None \<longleftrightarrow> \<not> azc_Enabled (cfg_Authorization (ap_Config a))) \<and>
      (\<forall>n. ap_Authorizer a = Some n \<longrightarrow> ticking n \<and> (\<exists>en. e_LoadPolicy (be_enforcer be) en = (None, enforcer (nd_adapter n)))) \<and>
      (\<forall>addr. ap_metricsServer a = Some addr \<longrightarrow> has_prefix addr ''127.0.0.1:''))"
proof (cases "Load env readFile (config_path env)")
  case (Inl e)
  then show ?thesis by (simp add: api_main_def)
next
  case (Inr cfg)
  have m: "api_main be env readFile (t, d) = app_New be cfg (t, d)" by (simp add: api_main_def Inr)
  have "32 \<le> length (jwt_Secret (cfg_JWT (ap_Config a))) \<and> jwt_Secret (cfg_JWT (ap_Config a)) \<noteq> PlaceholderJWTSecret \<and>
      (ap_Authorizer a = None \<longleftrightarrow> \<not> azc_Enabled (cfg_Authorization (ap_Config a))) \<and>
      (\<forall>n. ap_Authorizer a = Some n \<longrightarrow> ticking n \<and> (\<exists>en. e_LoadPolicy (be_enforcer be) en = (None, enforcer (nd_adapter n)))) \<and>
      (\<forall>addr. ap_metricsServer a = Some addr \<longrightarrow> has_prefix addr ''127.0.0.1:'')"
    if a: "fst (app_New be cfg (t, d)) = Starts a" for a
  proof -
    obtain az where az: "authorizer_of be cfg = Inr az" "ap_Authorizer a = snd (start_authorizer az)" "ap_Config a = cfg"
        "ap_metricsServer a = metrics_addr cfg"
      using app_New_cases(2) [OF a] by blast
    have "config_Validate cfg = None" using app_New_cases(1) [of be cfg t d] a by (auto simp: can_start_def)
    with startup_config_secure [OF Inr] authorizer_starts [OF az(1)] az(2-4) show ?thesis
      by (auto simp: metrics_addr_def has_prefix_def Let_def)
  qed
  with m Inr app_New_cases(1) [of be cfg t d] show ?thesis by simp
qed

definition boot_file :: string where
  "boot_file = print_json (JObj [(''jwt'', JObj [(''secret'', JStr ''0123456789abcdef0123456789abcdef''), (''issuer'', JStr ''goscratch''),
     (''audience'', JStr ''goscratch-api'')]), (''authorization'', JObj [(''enabled'', JBool True)]),
     (''storage'', JObj [(''mode'', JStr ''local''), (''local'', JObj [(''base_path'', JStr ''data'')])])])"

definition demo_boot :: "(rbac, nat, nat, broker) boot_env" where
  "demo_boot = \<lparr>be_exporter = (\<lambda>_. None), be_resource = (\<lambda>_ _ _. None),
     be_pgx = \<lparr>pgx_ParseConfig = (\<lambda>_. None), pgx_NewWithConfig = (\<lambda>_ _. None), pgx_Ping = (\<lambda>_. None)\<rparr>,
     be_redis_ping = (\<lambda>_. None), be_amqp = broker_api, be_aws = (\<lambda>_ _. None), be_mime = (\<lambda>_. ''''), be_enforcer = rbac_api,
     be_casbin = \<lparr>env_open = (\<lambda>_. None), env_ping = None, env_sqladapter = None, env_model = (\<lambda>_. None), env_enforcer = (\<lambda>_. Inr example_rbac)\<rparr>,
     be_cors_panic = (\<lambda>s. if co_AllowCredentials s \<and> co_AllowOrigins s = ''*'' then Some ''insecure CORS'' else None)\<rparr>"

definition demo_host :: "broker \<times> fs" where
  "demo_host = (\<lparr>bk_queues = [], bk_next = 0, bk_open = [], bk_up = True\<rparr>, \<lparr>fs_nodes = [], fs_faults = []\<rparr>)"

lemma boot_fails_closed_witness:
  "\<exists>a n. fst (api_main demo_boot (\<lambda>_. '''') (\<lambda>_. Inr boot_file) demo_host) = Starts a \<and> ap_Authorizer a = Some n \<and> ticking n"
proof -
  have "case Load (\<lambda>_. '''') (\<lambda>_. Inr boot_file) (config_path (\<lambda>_. '''')) of
      Inl e \<Rightarrow> False | Inr cfg \<Rightarrow> can_start demo_boot cfg (snd demo_host) \<and> azc_Enabled (cfg_Authorization cfg)"
    by code_simp
  then obtain cfg where cfg: "Load (\<lambda>_. '''') (\<lambda>_. Inr boot_file) (config_path (\<lambda>_. '''')) = Inr cfg"
      "can_start demo_boot cfg (snd demo_host)" "azc_Enabled (cfg_Authorization cfg)"
    by (auto split: sum.splits)
  note b = boot_fails_closed [of demo_boot "\<lambda>_. ''''" "\<lambda>_. Inr boot_file" "fst demo_host" "snd demo_host", unfolded prod.collapse]
  then obtain a where a: "fst (api_main demo_boot (\<lambda>_. '''') (\<lambda>_. Inr boot_file) demo_host) = Starts a" using cfg(1,2) by blast
  then have "ap_Config a = cfg"
    using cfg(1) app_New_cases(2) [of demo_boot cfg "fst demo_host" "snd demo_host" a] by (auto simp: api_main_def)
  with a b cfg(3) show ?thesis by blast
qed

end
