(* ===== verification/Shutdown.thy ===== *)
theory Shutdown
  imports App
begin

text \<open>
  The end of the service: \<^verbatim>\<open>Shutdown\<close> of \<^verbatim>\<open>src/internal/platform/app/app.go\<close>, with its seven phases, on an explicit clock.
  Closing a resource is a parameter: it may fail, and it takes the time that the parameter says. The budgets are
  computed in the floating-point arithmetic of the code.
\<close>

section \<open>Budgets\<close>

text \<open>
  The budget of a phase is \<^verbatim>\<open>time.Duration(float64(totalBudget) * fraction)\<close>. A double that is not negative is an
  integer divided by a power of two; \<open>round53\<close> rounds an integer to 53 significant bits, ties to even, which is what
  the conversion and the product do to it. The fractions are the doubles of the decimal literals.
\<close>

fun bit_length :: "nat \<Rightarrow> nat" where
  "bit_length n = (if n = 0 then 0 else Suc (bit_length (n div 2)))"

declare bit_length.simps [simp del]

definition round53 :: "nat \<Rightarrow> nat" where
  "round53 n =
     (let s = bit_length n - 53; q = n div 2 ^ s; r = n mod 2 ^ s
      in (if 2 ^ s < 2 * r \<or> 2 ^ s = 2 * r \<and> odd q then q + 1 else q) * 2 ^ s)"

type_synonym double = "nat \<times> nat"

definition f40 :: double where "f40 = (7205759403792794, 54)"
definition f15 :: double where "f15 = (5404319552844595, 55)"
definition f10 :: double where "f10 = (7205759403792794, 56)"
definition f05 :: double where "f05 = (7205759403792794, 57)"

definition phase_budget :: "int \<Rightarrow> double \<Rightarrow> int" where
  "phase_budget totalBudget f =
     (let budget = int (round53 (round53 (nat totalBudget) * fst f) div 2 ^ snd f)
      in if budget \<le> 0 then 100000000 else budget)"

datatype resource =
    ServerR | MetricsR | SSER | AuthorizerR | RateLimiterR | CacheR | QueueR | StorageR | AuditorR | EmailR | DBR | TracerR

text \<open>
  Closing a resource: from the deadline of the phase, the clock and the state, the error, the clock when it returns
  and the new state.
\<close>

type_synonym 'w closer = "resource \<Rightarrow> go_time \<Rightarrow> go_time \<Rightarrow> 'w \<Rightarrow> go_error option \<times> go_time \<times> 'w"

type_synonym phase = "string \<times> double \<times> resource list"

definition phases_of :: "('e, 'c, 'h) App \<Rightarrow> phase list" where
  "phases_of a =
     [(''http_server'', f40, [ServerR]),
      (''metrics'', f05, if ap_metricsServer a = None then [] else [MetricsR]),
      (''sse'', f05, [SSER]),
      (''authorizer'', f10, [AuthorizerR]),
      (''adapters'', f15, (if rlc_Enabled (cfg_RateLimit (ap_Config a)) then [RateLimiterR] else []) @ [CacheR, QueueR, StorageR, AuditorR, EmailR]),
      (''database'', f10, [DBR]),
      (''tracer'', f15, if ap_tracerShutdown a = None then [] else [TracerR])]"

record phase_log =
  pl_name :: string
  pl_start :: go_time
  pl_deadline :: go_time
  pl_budget :: int
  pl_finish :: go_time
  pl_closed :: "(resource \<times> go_error option) list"

fun close_all :: "'w closer \<Rightarrow> go_time \<Rightarrow> resource list \<Rightarrow> go_time \<times> 'w \<Rightarrow> (resource \<times> go_error option) list \<times> go_time \<times> 'w" where
  "close_all cl deadline [] nw = ([], nw)"
| "close_all cl deadline (r # rs) nw =
     (case cl r deadline (fst nw) (snd nw) of (err, now, w) \<Rightarrow>
      case close_all cl deadline rs (now, w) of (done', nw') \<Rightarrow> ((r, err) # done', nw'))"

definition run_phase :: "'w closer \<Rightarrow> go_time option \<Rightarrow> int \<Rightarrow> phase \<Rightarrow> go_time \<times> 'w \<Rightarrow> phase_log \<times> go_time \<times> 'w" where
  "run_phase cl parent totalBudget ph nw =
     (case ph of (name, f, rs) \<Rightarrow>
      let budget = phase_budget totalBudget f;
          deadline = (case parent of None \<Rightarrow> fst nw + budget | Some p \<Rightarrow> min p (fst nw + budget))
      in case close_all cl deadline rs nw of (closed, now, w) \<Rightarrow>
           (\<lparr>pl_name = name, pl_start = fst nw, pl_deadline = deadline, pl_budget = budget, pl_finish = now, pl_closed = closed\<rparr>, now, w))"

fun run_phases :: "'w closer \<Rightarrow> go_time option \<Rightarrow> int \<Rightarrow> phase list \<Rightarrow> go_time \<times> 'w \<Rightarrow> phase_log list \<times> go_time \<times> 'w" where
  "run_phases cl parent totalBudget [] nw = ([], nw)"
| "run_phases cl parent totalBudget (ph # phs) nw =
     (case run_phase cl parent totalBudget ph nw of (l, nw1) \<Rightarrow>
      case run_phases cl parent totalBudget phs nw1 of (ls, nw2) \<Rightarrow> (l # ls, nw2))"

definition defaultShutdownBudget :: int where "defaultShutdownBudget = 30 * second"

definition total_budget :: "go_time option \<Rightarrow> go_time \<Rightarrow> int" where
  "total_budget parent now =
     (case parent of None \<Rightarrow> defaultShutdownBudget
      | Some deadline \<Rightarrow> if 0 < deadline - now then deadline - now else defaultShutdownBudget)"

text \<open>\<^verbatim>\<open>Shutdown\<close> logs the errors of the phases and returns nil.\<close>

definition app_Shutdown :: "('e, 'c, 'h) App \<Rightarrow> 'w closer \<Rightarrow> go_time option \<Rightarrow> go_time \<times> 'w \<Rightarrow> go_error option \<times> phase_log list \<times> go_time \<times> 'w" where
  "app_Shutdown a cl parent nw = (None, run_phases cl parent (total_budget parent (fst nw)) (phases_of a) nw)"

section \<open>Rounding\<close>

lemma bit_length_bounds: "n < 2 ^ bit_length n \<and> (0 < n \<longrightarrow> 2 ^ bit_length n \<le> 2 * n)"
proof (induction n rule: bit_length.induct)
  case (1 n)
  show ?case
  proof (cases "n = 0")
    case False
    then have "n div 2 < 2 ^ bit_length (n div 2)" "0 < n div 2 \<longrightarrow> 2 ^ bit_length (n div 2) \<le> 2 * (n div 2)"
      using 1 by auto
    moreover have "bit_length n = Suc (bit_length (n div 2))" using False by (subst bit_length.simps) simp
    moreover have "n div 2 = 0 \<Longrightarrow> bit_length (n div 2) = 0" by (subst bit_length.simps) simp
    ultimately show ?thesis using False by (cases "n div 2 = 0") auto
  qed (simp add: bit_length.simps)
qed

text \<open>Rounding does nothing to small integers, has a relative error of at most one part in \<open>2\<^sup>5\<^sup>3\<close>, and does not go below a power of two.\<close>

lemma bit_length_le: "n < 2 ^ k \<Longrightarrow> bit_length n \<le> k"
proof (rule ccontr)
  assume "n < 2 ^ k" "\<not> bit_length n \<le> k"
  moreover from this have "n \<noteq> 0" using bit_length.simps [of 0] by (metis le0)
  moreover from \<open>\<not> bit_length n \<le> k\<close> have "(2::nat) ^ Suc k \<le> 2 ^ bit_length n" by (intro power_increasing) auto
  ultimately show False using bit_length_bounds [of n] by simp
qed

lemma round53_small: "n < 2 ^ 53 \<Longrightarrow> round53 n = n"
  using bit_length_le [of n 53] by (simp add: round53_def Let_def)

lemma round53_upper: "round53 n * 2 ^ 53 \<le> n * (2 ^ 53 + 1)"
proof (cases "bit_length n \<le> 53")
  case True
  then show ?thesis by (simp add: round53_def Let_def)
next
  case False
  define s where "s = bit_length n - 53"
  define q where "q = n div 2 ^ s"
  define r where "r = n mod 2 ^ s"
  have n: "n = q * 2 ^ s + r" unfolding q_def r_def by (rule div_mult_mod_eq [symmetric])
  have "n \<noteq> 0" using False bit_length.simps [of 0] by (metis le0)
  then have "2 ^ bit_length n \<le> 2 * n" using bit_length_bounds by simp
  moreover have "bit_length n = 53 + s" using False by (simp add: s_def)
  then have "(2::nat) ^ bit_length n = 2 ^ 53 * 2 ^ s" by (simp only: power_add)
  ultimately have big: "2 ^ 53 * 2 ^ s \<le> 2 * n" by simp
  have e: "round53 n = (if 2 ^ s < 2 * r \<or> 2 ^ s = 2 * r \<and> odd q then q + 1 else q) * 2 ^ s"
    by (simp add: round53_def Let_def s_def q_def r_def)
  have "2 * ((if 2 ^ s < 2 * r \<or> 2 ^ s = 2 * r \<and> odd q then q + 1 else q) * 2 ^ s) \<le> 2 * (q * 2 ^ s + r) + 2 ^ s"
    by (auto simp: algebra_simps)
  then have "2 * round53 n \<le> 2 * n + 2 ^ s" unfolding e [symmetric] n [symmetric] .
  then have "2 * (round53 n * 2 ^ 53) \<le> 2 * n * 2 ^ 53 + 2 ^ 53 * 2 ^ s" by (simp add: algebra_simps)
  with big show ?thesis by (simp add: algebra_simps)
qed

lemma round53_lower: "2 ^ j \<le> n \<Longrightarrow> 2 ^ j \<le> round53 n"
proof -
  assume n: "2 ^ j \<le> n"
  define s where "s = bit_length n - 53"
  have r: "n div 2 ^ s * 2 ^ s \<le> round53 n" by (simp add: round53_def Let_def s_def)
  show ?thesis
  proof (cases "s \<le> j")
    case True
    then have "(2::nat) ^ j = 2 ^ (j - s) * 2 ^ s" by (simp add: power_add [symmetric])
    moreover have "2 ^ (j - s) \<le> n div 2 ^ s" using n calculation by (simp add: less_eq_div_iff_mult_less_eq)
    ultimately show ?thesis using r by (metis le_trans mult_le_mono1)
  next
    case False
    then have "bit_length n = s + 53" by (simp add: s_def)
    moreover have "0 < n" using n by (metis gr0I not_less power_eq_0_iff le_zero_eq zero_neq_numeral)
    ultimately have "2 ^ (s + 53) \<le> 2 * n" using bit_length_bounds [of n] by simp
    then have "2 ^ s \<le> n" by (simp add: power_add)
    then have "1 \<le> n div 2 ^ s" by (simp add: less_eq_div_iff_mult_less_eq)
    then have "2 ^ s \<le> round53 n" using r by (metis le_trans mult_le_mono1 mult_1)
    moreover have "(2::nat) ^ j \<le> 2 ^ s" using False by (intro power_increasing) auto
    ultimately show ?thesis by (metis le_trans)
  qed
qed

text \<open>Each fraction is the double nearest to its literal.\<close>

lemma fractions_nearest:
  "2 * \<bar>7205759403792794 * 5 - 2 * 2 ^ 54\<bar> \<le> (5::int)" "2 * \<bar>5404319552844595 * 20 - 3 * 2 ^ 55\<bar> \<le> (20::int)"
  "2 * \<bar>7205759403792794 * 10 - 2 ^ 56\<bar> \<le> (10::int)" "2 * \<bar>7205759403792794 * 20 - 2 ^ 57\<bar> \<le> (20::int)"
  by simp_all

abbreviation raw_budget :: "nat \<Rightarrow> double \<Rightarrow> nat" where
  "raw_budget t f \<equiv> round53 (t * fst f) div 2 ^ snd f"

lemma raw_budget_upper: "raw_budget t (m, k) * 2 ^ k * 2 ^ 53 \<le> t * m * (2 ^ 53 + 1)"
proof -
  have "raw_budget t (m, k) * 2 ^ k \<le> round53 (t * m)" by simp
  then have "raw_budget t (m, k) * 2 ^ k * 2 ^ 53 \<le> round53 (t * m) * 2 ^ 53" by simp
  also have "\<dots> \<le> t * m * (2 ^ 53 + 1)" by (rule round53_upper)
  finally show ?thesis .
qed

lemma raw_budget_positive: "2 ^ k \<le> t * m \<Longrightarrow> 0 < raw_budget t (m, k)"
  using round53_lower [of k "t * m"] by (simp add: div_greater_zero_iff)

lemma phase_budget_raw:
  assumes "20 \<le> t" and "t < 2 ^ 52" and "2 ^ snd f \<le> 20 * fst f"
  shows "phase_budget t f = int (raw_budget (nat t) f) \<and> 0 < phase_budget t f"
proof -
  have "nat t < 2 ^ 53" using assms(2) by simp
  moreover have "20 * fst f \<le> nat t * fst f" using assms(1) by (intro mult_le_mono1) simp
  with assms(3) have "2 ^ snd f \<le> nat t * fst f" by (rule le_trans)
  then have "0 < raw_budget (nat t) f" using raw_budget_positive [of "snd f" "nat t" "fst f"] by simp
  ultimately show ?thesis by (simp add: phase_budget_def round53_small)
qed

lemmas fractions = f40_def f15_def f10_def f05_def

lemma phase_budgets:
  assumes "20 \<le> t" and "t < 2 ^ 52" and "f \<in> {f40, f15, f10, f05}"
  shows "phase_budget t f = int (raw_budget (nat t) f) \<and> 0 < phase_budget t f"
  using assms(3) by (intro phase_budget_raw [OF assms(1,2)]) (auto simp: fractions)

lemma raw_budget_sum:
  assumes "t < 2 ^ 52"
  shows "raw_budget t f40 + 2 * raw_budget t f05 + 2 * raw_budget t f10 + 2 * raw_budget t f15 \<le> t"
proof -
  define b where "b = raw_budget t f40 + 2 * raw_budget t f05 + 2 * raw_budget t f10 + 2 * raw_budget t f15"
  have "b * 2 ^ 57 * 2 ^ 53 \<le> t * 144115188075855876 * (2 ^ 53 + 1)"
    using raw_budget_upper [of t 7205759403792794 54] raw_budget_upper [of t 7205759403792794 57]
      raw_budget_upper [of t 7205759403792794 56] raw_budget_upper [of t 5404319552844595 55]
    by (simp add: b_def fractions)
  with assms show ?thesis unfolding b_def [symmetric] by simp
qed

section \<open>Runs\<close>

lemma close_all_order: "map fst (fst (close_all cl dl rs nw)) = rs"
  by (induction rs arbitrary: nw) (auto split: prod.split simp: case_prod_unfold)

lemma run_phases_order:
  "map pl_name (fst (run_phases cl parent t phs nw)) = map fst phs \<and>
   concat (map (map fst \<circ> pl_closed) (fst (run_phases cl parent t phs nw))) = concat (map (snd \<circ> snd) phs)"
proof (induction phs arbitrary: nw)
  case (Cons ph phs)
  obtain name f rs where ph: "ph = (name, f, rs)" by (cases ph)
  obtain l nw1 where r: "run_phase cl parent t ph nw = (l, nw1)" by (metis prod.collapse)
  then have "pl_name l = name \<and> map fst (pl_closed l) = rs"
    using close_all_order [of cl _ rs nw] by (auto simp: run_phase_def ph Let_def split: prod.splits) (metis fst_conv)
  with r Cons.IH [of nw1] show ?case by (simp add: ph case_prod_unfold)
qed simp

text \<open>The sum of the budgets of some phases, and a phase whose closings end within its budget.\<close>

definition budget_sum :: "int \<Rightarrow> phase list \<Rightarrow> int" where
  "budget_sum t phs = sum_list (map (\<lambda>(_, f, _). phase_budget t f) phs)"

definition timely :: "'w closer \<Rightarrow> go_time option \<Rightarrow> int \<Rightarrow> phase \<Rightarrow> bool" where
  "timely cl parent t ph \<longleftrightarrow> (\<forall>nw. fst (snd (run_phase cl parent t ph nw)) \<le> fst nw + phase_budget t (fst (snd ph)))"

lemma run_phases_on_time:
  assumes "\<forall>ph \<in> set phs. timely cl parent t ph \<and> 0 < phase_budget t (fst (snd ph))"
    and "case parent of None \<Rightarrow> True | Some p \<Rightarrow> fst nw + budget_sum t phs \<le> p"
  shows "fst (snd (run_phases cl parent t phs nw)) \<le> fst nw + budget_sum t phs \<and>
    (\<forall>l \<in> set (fst (run_phases cl parent t phs nw)). pl_deadline l = pl_start l + pl_budget l \<and> 0 < pl_budget l)"
  using assms
proof (induction phs arbitrary: nw)
  case (Cons ph phs)
  obtain name f rs where ph: "ph = (name, f, rs)" by (cases ph)
  obtain l nw1 where r: "run_phase cl parent t ph nw = (l, nw1)" by (metis prod.collapse)
  have 1: "fst nw1 \<le> fst nw + phase_budget t f"
    using Cons.prems(1) r unfolding timely_def ph by (metis fst_conv list.set_intros(1) snd_conv)
  have s: "budget_sum t (ph # phs) = phase_budget t f + budget_sum t phs" by (simp add: budget_sum_def ph)
  have "0 \<le> budget_sum t phs"
    unfolding budget_sum_def using Cons.prems(1) by (intro sum_list_nonneg) (force simp: less_imp_le)
  then have "pl_deadline l = pl_start l + pl_budget l \<and> 0 < pl_budget l"
    using r Cons.prems s by (auto simp: run_phase_def ph Let_def split: prod.splits option.splits)
  moreover have "case parent of None \<Rightarrow> True | Some p \<Rightarrow> fst nw1 + budget_sum t phs \<le> p"
    using Cons.prems(2) 1 s by (auto split: option.splits)
  from Cons.IH [OF _ this] Cons.prems(1)
  have "fst (snd (run_phases cl parent t phs nw1)) \<le> fst nw1 + budget_sum t phs"
    "\<forall>l \<in> set (fst (run_phases cl parent t phs nw1)). pl_deadline l = pl_start l + pl_budget l \<and> 0 < pl_budget l"
    by auto
  ultimately show ?case using r 1 s by (auto simp: case_prod_unfold)
qed (simp add: budget_sum_def)

lemma budgets_within:
  assumes "20 \<le> t" and "t < 2 ^ 52"
  shows "budget_sum t (phases_of a) \<le> t"
proof -
  have b: "phase_budget t f = int (raw_budget (nat t) f)" if "f \<in> {f40, f15, f10, f05}" for f
    using phase_budgets [OF assms that] by blast
  have "budget_sum t (phases_of a) = int (raw_budget (nat t) f40 + 2 * raw_budget (nat t) f05 + 2 * raw_budget (nat t) f10 + 2 * raw_budget (nat t) f15)"
    by (simp add: budget_sum_def phases_of_def b)
  also have "\<dots> \<le> int (nat t)" using raw_budget_sum [of "nat t"] assms by (intro of_nat_mono) simp
  also have "\<dots> = t" using assms by simp
  finally show ?thesis .
qed

lemma phases_positive:
  assumes "20 \<le> t" and "t < 2 ^ 52"
  shows "\<forall>ph \<in> set (phases_of a). 0 < phase_budget t (fst (snd ph))"
proof -
  have "fst ` snd ` set (phases_of a) \<subseteq> {f40, f15, f10, f05}" by (auto simp: phases_of_def)
  then show ?thesis using phase_budgets [OF assms] by blast
qed

text \<open>
  The deadline of a phase does not bound a closing that does not look at it: when the closing of a resource of the
  first phases takes the time \<open>d\<close>, no later phase starts before \<open>d\<close> has passed.
\<close>

lemma close_all_clock:
  assumes "\<And>r dl now w. now \<le> fst (snd (cl r dl now w))"
  shows "fst nw \<le> fst (snd (close_all cl dl rs nw))"
proof (induction rs arbitrary: nw)
  case (Cons r rs)
  show ?case
    using Cons.IH [of "snd (cl r dl (fst nw) (snd nw))"] assms [of "fst nw" r dl "snd nw"] by (simp add: case_prod_unfold)
qed simp

lemma hung_close:
  assumes mono: "\<And>r dl now w. now \<le> fst (snd (cl r dl now w))" and hung: "\<And>dl now w. now + d \<le> fst (snd (cl r dl now w))"
    and "r \<in> set rs"
  shows "fst nw + d \<le> fst (snd (close_all cl dl rs nw))"
  using assms(3)
proof (induction rs arbitrary: nw)
  case (Cons x rs)
  let ?nw = "snd (cl x dl (fst nw) (snd nw))"
  show ?case
  proof (cases "x = r")
    case True
    then show ?thesis
      using close_all_clock [of cl ?nw dl rs, OF mono] hung [of "fst nw" dl "snd nw"] by (simp add: case_prod_unfold)
  next
    case False
    with Cons have "fst ?nw + d \<le> fst (snd (close_all cl dl rs ?nw))" by simp
    then show ?thesis using mono [of "fst nw" x dl "snd nw"] by (simp add: case_prod_unfold)
  qed
qed simp

lemma hung_close_stalls:
  assumes "\<And>r dl now w. now \<le> fst (snd (cl r dl now w))" and "\<And>dl now w. now + d \<le> fst (snd (cl r dl now w))"
    and "r \<in> set rs" and "run_phases cl parent t ((name, f, rs) # ph # phs) nw = (l # l' # ls, nw')"
  shows "fst nw + d \<le> pl_start l'"
  using assms(4) hung_close [of cl d r rs nw, OF assms(1,2,3)]
  by (auto simp: run_phase_def Let_def split: prod.splits) (metis fst_conv snd_conv)

section \<open>Properties\<close>

text \<open>
  C37. The budgets fit. For every total from 20 nanoseconds up to \<open>2\<^sup>5\<^sup>2\<close> nanoseconds (52 days), and with the rounding
  of the floating-point product, every phase gets a positive budget and the seven budgets together do not exceed
  the total; with the default of 30 seconds they are 12, 1.5, 1.5, 3, 4.5, 3 and 4.5 seconds.
\<close>

theorem shutdown_budgets_fit:
  assumes "20 \<le> t" and "t < 2 ^ 52"
  shows "budget_sum t (phases_of a) \<le> t \<and> (\<forall>ph \<in> set (phases_of a). 0 < phase_budget t (fst (snd ph))) \<and>
    map (\<lambda>ph. phase_budget defaultShutdownBudget (fst (snd ph))) (phases_of a)
      = [12 * second, 3 * second div 2, 3 * second div 2, 3 * second, 9 * second div 2, 3 * second, 9 * second div 2]"
proof -
  have "budget_sum t (phases_of a) \<le> t" by (rule budgets_within [OF assms])
  moreover have "phase_budget defaultShutdownBudget f40 = 12 * second" "phase_budget defaultShutdownBudget f05 = 3 * second div 2"
    "phase_budget defaultShutdownBudget f10 = 3 * second" "phase_budget defaultShutdownBudget f15 = 9 * second div 2"
    by (simp_all add: phase_budget_def defaultShutdownBudget_def fractions round53_def Let_def bit_length.simps)
  then have "map (\<lambda>ph. phase_budget defaultShutdownBudget (fst (snd ph))) (phases_of a)
    = [12 * second, 3 * second div 2, 3 * second div 2, 3 * second, 9 * second div 2, 3 * second, 9 * second div 2]"
    by (simp add: phases_of_def)
  ultimately show ?thesis using phases_positive [OF assms] by blast
qed

lemma shutdown_budgets_fit_witness:
  "(20::int) \<le> 30000000000 \<and> (30000000000::int) < 2 ^ 52 \<and>
   (\<forall>a :: (rbac, nat, nat) App. budget_sum 30000000000 (phases_of a) \<le> 30000000000)"
  by (intro conjI allI conjunct1 [OF shutdown_budgets_fit]) simp_all

text \<open>The resources in the order in which they are closed.\<close>

definition closing_order :: "('e, 'c, 'h) App \<Rightarrow> resource list" where
  "closing_order a =
     [ServerR] @ (if ap_metricsServer a = None then [] else [MetricsR]) @ [SSER, AuthorizerR] @
     (if rlc_Enabled (cfg_RateLimit (ap_Config a)) then [RateLimiterR] else []) @ [CacheR, QueueR, StorageR, AuditorR, EmailR, DBR] @
     (if ap_tracerShutdown a = None then [] else [TracerR])"

text \<open>
  C12. The shutdown is orderly and ends in time. Whatever the closings do and however long they take, every resource
  of the application is closed exactly once and in the fixed order, the database after everything that uses it
  and the tracer last, and the call returns no error. If moreover the closings of each phase end within its budget,
  the shutdown ends within the total, and no phase is starved: each one starts with its whole budget before the
  deadline of the caller.
\<close>

theorem shutdown_orderly:
  assumes "app_Shutdown a cl parent (now, w) = (err, logs, now', w')"
  shows "err = None \<and> concat (map (map fst \<circ> pl_closed) logs) = closing_order a \<and> distinct (closing_order a) \<and>
    (20 \<le> total_budget parent now \<and> total_budget parent now < 2 ^ 52 \<and> (\<forall>p. parent = Some p \<longrightarrow> now < p) \<and>
     (\<forall>ph \<in> set (phases_of a). timely cl parent (total_budget parent now) ph) \<longrightarrow>
       now' \<le> now + total_budget parent now \<and> (\<forall>l \<in> set logs. pl_deadline l = pl_start l + pl_budget l \<and> 0 < pl_budget l))"
proof -
  have run: "run_phases cl parent (total_budget parent now) (phases_of a) (now, w) = (logs, now', w')" "err = None"
    using assms by (simp_all add: app_Shutdown_def)
  have "concat (map (snd \<circ> snd) (phases_of a)) = closing_order a" by (simp add: phases_of_def closing_order_def)
  then have order: "concat (map (map fst \<circ> pl_closed) logs) = closing_order a"
    using run_phases_order [of cl parent "total_budget parent now" "phases_of a" "(now, w)"] run(1) by simp
  have dist: "distinct (closing_order a)" by (simp add: closing_order_def)
  show ?thesis
  proof (intro conjI impI)
    assume h: "20 \<le> total_budget parent now \<and> total_budget parent now < 2 ^ 52 \<and> (\<forall>p. parent = Some p \<longrightarrow> now < p) \<and>
      (\<forall>ph \<in> set (phases_of a). timely cl parent (total_budget parent now) ph)"
    let ?t = "total_budget parent now"
    have b: "\<forall>ph \<in> set (phases_of a). timely cl parent ?t ph \<and> 0 < phase_budget ?t (fst (snd ph))"
      using h phases_positive [of ?t a] by blast
    have s: "budget_sum ?t (phases_of a) \<le> ?t" using budgets_within h by blast
    have "case parent of None \<Rightarrow> True | Some p \<Rightarrow> fst (now, w) + budget_sum ?t (phases_of a) \<le> p"
      using h s by (auto simp: total_budget_def split: option.splits)
    from run_phases_on_time [OF b this] run(1) s
    show "now' \<le> now + ?t" "\<forall>l \<in> set logs. pl_deadline l = pl_start l + pl_budget l \<and> 0 < pl_budget l" by auto
  qed (use run(2) order dist in simp_all)
qed

text \<open>A closing that always takes a millisecond and, for the cache, fails.\<close>

definition quick_close :: "nat closer" where
  "quick_close r deadline now n = (if r = CacheR then Some (ErrText ''redis: client is closed'') else None, now + 1000000, Suc n)"

lemma quick_close_all: "fst (snd (close_all quick_close dl rs nw)) = fst nw + 1000000 * int (length rs)"
  by (induction rs arbitrary: nw) (auto simp: quick_close_def case_prod_unfold algebra_simps)

lemma quick_close_timely:
  assumes "ph \<in> set (phases_of a)"
  shows "timely quick_close parent (30 * second) ph"
proof -
  have "phase_budget (30 * second) f40 = 12 * second" "phase_budget (30 * second) f05 = 3 * second div 2"
    "phase_budget (30 * second) f10 = 3 * second" "phase_budget (30 * second) f15 = 9 * second div 2"
    by (simp_all add: phase_budget_def fractions round53_def Let_def bit_length.simps)
  with assms show ?thesis
    by (auto simp: timely_def run_phase_def Let_def phases_of_def case_prod_unfold quick_close_all)
qed

lemma shutdown_orderly_witness:
  "\<forall>a :: (rbac, nat, nat) App. let r = app_Shutdown a quick_close (Some (30 * second)) (0, 0) in
     fst r = None \<and> concat (map (map fst \<circ> pl_closed) (fst (snd r))) = closing_order a \<and> fst (snd (snd r)) \<le> 30 * second"
proof
  fix a :: "(rbac, nat, nat) App"
  obtain err logs now' w' where s: "app_Shutdown a quick_close (Some (30 * second)) (0, 0) = (err, logs, now', w')"
    by (metis prod.collapse)
  have "\<forall>ph \<in> set (phases_of a). timely quick_close (Some (30 * second)) (30 * second) ph"
    using quick_close_timely by blast
  then show "let r = app_Shutdown a quick_close (Some (30 * second)) (0, 0) in
     fst r = None \<and> concat (map (map fst \<circ> pl_closed) (fst (snd r))) = closing_order a \<and> fst (snd (snd r)) \<le> 30 * second"
    unfolding s Let_def using shutdown_orderly [OF s] by (simp add: total_budget_def)
qed

end
