(* ===== verification/Spec2Isabelle.thy ===== *)
theory Spec2Isabelle
  imports Apperr Json Crypto Decision_Cache Authorizer Http Cache_Port Rate_Limit Middleware_Auth
    Users Pagination Validator Audit_Log Config Auth_Usecase User_Usecase Paths Storage
    Go_Time Queue Worker Jobs Roles Sse Watchers Health Optional Observe Seed App Shutdown
begin

text \<open>
  A verification library for the goscratch service.
\<close>

end
